(* ===== verification/Mcp_Prelude.thy ===== *)
theory Mcp_Prelude
  imports Main "HOL-Library.AList" "HOL-Library.Char_ord" "HOL-Library.List_Lexorder"
begin

text \<open>
  Shared vocabulary of the development: the sequencing of fallible computations (a value of
  \<open>'e + 'a\<close> is an error on the left or a result on the right), the operations of
  \<^verbatim>\<open>std::string\<close> that the sources call (find, compare, substr, to_string, strtoull), and the
  generic lemmas about them.  Strings are byte strings, as \<^verbatim>\<open>std::string\<close> is.

  Three collections gather automation: \<open>err_simps\<close> for sequencing, \<open>str_simps\<close> for the string
  operations, and \<open>json_simps\<close> (filled by the theory of JSON values) for member access.
\<close>

named_theorems err_simps \<open>sequencing of fallible computations\<close>
named_theorems str_simps \<open>operations of std::string\<close>
named_theorems json_simps \<open>member access of JSON values\<close>

subsection \<open>Sequencing of fallible computations\<close>

definition bindE :: "'e + 'a \<Rightarrow> ('a \<Rightarrow> 'e + 'b) \<Rightarrow> 'e + 'b" where
  "bindE m f = (case m of Inl e \<Rightarrow> Inl e | Inr x \<Rightarrow> f x)"

definition mapE :: "('a \<Rightarrow> 'b) \<Rightarrow> 'e + 'a \<Rightarrow> 'e + 'b" where
  "mapE f m = (case m of Inl e \<Rightarrow> Inl e | Inr x \<Rightarrow> Inr (f x))"

text \<open>A loop over a container whose body may fail: the first failure ends the loop.\<close>

fun traverse :: "('a \<Rightarrow> 'e + 'b) \<Rightarrow> 'a list \<Rightarrow> 'e + 'b list" where
  "traverse f [] = Inr []"
| "traverse f (x # xs) = bindE (f x) (\<lambda>y. mapE (\<lambda>ys. y # ys) (traverse f xs))"

lemma bindE_simps [simp, err_simps]:
  "bindE (Inl e) f = Inl e"
  "bindE (Inr x) f = f x"
  by (simp_all add: bindE_def)

lemma mapE_simps [simp, err_simps]:
  "mapE f (Inl e) = Inl e"
  "mapE f (Inr x) = Inr (f x)"
  by (simp_all add: mapE_def)

lemma bindE_eq_Inr [err_simps]: "bindE m f = Inr y \<longleftrightarrow> (\<exists>x. m = Inr x \<and> f x = Inr y)"
  by (cases m) auto

lemma bindE_eq_Inl [err_simps]:
  "bindE m f = Inl e \<longleftrightarrow> m = Inl e \<or> (\<exists>x. m = Inr x \<and> f x = Inl e)"
  by (cases m) auto

lemma mapE_eq_Inr [err_simps]: "mapE f m = Inr y \<longleftrightarrow> (\<exists>x. m = Inr x \<and> y = f x)"
  by (cases m) auto

lemma mapE_eq_Inl [err_simps]: "mapE f m = Inl e \<longleftrightarrow> m = Inl e"
  by (cases m) auto

lemma traverse_map_inverse:
  assumes "\<And>x. x \<in> set xs \<Longrightarrow> f (g x) = Inr x"
  shows "traverse f (map g xs) = Inr xs"
  using assms by (induction xs) auto

lemma traverse_eq_Inr_length: "traverse f xs = Inr ys \<Longrightarrow> length ys = length xs"
  by (induction xs arbitrary: ys) (auto simp: err_simps)

lemma traverse_eq_Inr_nth:
  "traverse f xs = Inr ys \<Longrightarrow> i < length xs \<Longrightarrow> f (xs ! i) = Inr (ys ! i)"
  by (induction xs arbitrary: ys i) (auto simp: err_simps nth_Cons split: nat.splits)

lemma traverse_cong [fundef_cong]:
  assumes "xs = ys" and "\<And>x. x \<in> set ys \<Longrightarrow> f x = g x"
  shows "traverse f xs = traverse g ys"
proof -
  have "(\<And>x. x \<in> set ys \<Longrightarrow> f x = g x) \<Longrightarrow> traverse f ys = traverse g ys"
    by (induction ys) (simp_all add: bindE_def mapE_def split: sum.splits)
  with assms show ?thesis by simp
qed

lemma bindE_cong [fundef_cong]:
  assumes "m = n" and "\<And>x. n = Inr x \<Longrightarrow> f x = g x"
  shows "bindE m f = bindE n g"
  using assms by (cases n) simp_all

subsection \<open>Characters\<close>

abbreviation code :: "char \<Rightarrow> nat" where
  "code c \<equiv> of_char c"

abbreviation LF :: char where "LF \<equiv> CHR 0x0A"
abbreviation CR :: char where "CR \<equiv> CHR 0x0D"
abbreviation TAB :: char where "TAB \<equiv> CHR 0x09"

text \<open>Text between single quotes, as the messages of the sources put it.\<close>

definition quoted :: "string \<Rightarrow> string" where
  "quoted s = CHR 0x27 # s @ [CHR 0x27]"

definition is_digit :: "char \<Rightarrow> bool" where
  "is_digit c \<longleftrightarrow> 48 \<le> code c \<and> code c \<le> 57"

definition digit_value :: "char \<Rightarrow> nat" where
  "digit_value c = code c - 48"

definition digit_char :: "nat \<Rightarrow> char" where
  "digit_char d = ''0123456789'' ! d"

definition is_upper :: "char \<Rightarrow> bool" where
  "is_upper c \<longleftrightarrow> 65 \<le> code c \<and> code c \<le> 90"

definition is_lower :: "char \<Rightarrow> bool" where
  "is_lower c \<longleftrightarrow> 97 \<le> code c \<and> code c \<le> 122"

text \<open>\<^verbatim>\<open>std::isalpha\<close> and \<^verbatim>\<open>std::isalnum\<close> in the C locale.\<close>

definition is_alpha :: "char \<Rightarrow> bool" where
  "is_alpha c \<longleftrightarrow> is_upper c \<or> is_lower c"

definition is_alnum :: "char \<Rightarrow> bool" where
  "is_alnum c \<longleftrightarrow> is_alpha c \<or> is_digit c"

text \<open>\<^verbatim>\<open>std::tolower\<close> in the C locale.\<close>

definition lower_char :: "char \<Rightarrow> char" where
  "lower_char c = (if is_upper c then char_of (code c + 32) else c)"

lemma digit_cases: "(d::nat) < 10 \<Longrightarrow> d \<in> {0, 1, 2, 3, 4, 5, 6, 7, 8, 9}"
  by auto

lemma digit_char_is_digit [str_simps]: "d < 10 \<Longrightarrow> is_digit (digit_char d)"
  by (drule digit_cases) (auto simp: digit_char_def is_digit_def)

lemma digit_value_char [str_simps]: "d < 10 \<Longrightarrow> digit_value (digit_char d) = d"
  by (drule digit_cases) (auto simp: digit_char_def digit_value_def)

lemma digit_value_less: "is_digit c \<Longrightarrow> digit_value c < 10"
  unfolding is_digit_def digit_value_def by linarith

subsection \<open>Searching\<close>

definition starts_with :: "string \<Rightarrow> string \<Rightarrow> bool" where
  "starts_with s prefix = (take (length prefix) s = prefix)"

text \<open>\<^verbatim>\<open>s.find(pat)\<close>: the position of the first occurrence, \<open>None\<close> for \<^verbatim>\<open>npos\<close>.\<close>

fun find_sub :: "'a list \<Rightarrow> 'a list \<Rightarrow> nat option" where
  "find_sub pat s =
     (if take (length pat) s = pat then Some 0
      else case s of [] \<Rightarrow> None | c # s' \<Rightarrow> map_option Suc (find_sub pat s'))"

declare find_sub.simps [simp del]

text \<open>\<^verbatim>\<open>s.find(pat, pos)\<close>.\<close>

definition find_from :: "'a list \<Rightarrow> 'a list \<Rightarrow> nat \<Rightarrow> nat option" where
  "find_from pat s pos =
     (if pos \<le> length s then map_option ((+) pos) (find_sub pat (drop pos s)) else None)"

lemma find_sub_Some:
  "find_sub pat s = Some i \<Longrightarrow> i + length pat \<le> length s \<and> take (length pat) (drop i s) = pat"
proof (induction pat s arbitrary: i rule: find_sub.induct)
  case (1 pat s)
  show ?case
  proof (cases "take (length pat) s = pat")
    case True
    then have "length pat \<le> length s" by (metis length_take min.cobounded1)
    with True "1.prems" show ?thesis by (simp add: find_sub.simps [of pat s])
  next
    case False
    with "1.prems" obtain c s' j where s: "s = c # s'" and j: "find_sub pat s' = Some j" "i = Suc j"
      by (auto simp: find_sub.simps [of pat s] split: list.splits)
    with "1.IH" [OF False s] show ?thesis by auto
  qed
qed

lemma find_sub_first:
  "find_sub pat s = Some i \<Longrightarrow> j < i \<Longrightarrow> take (length pat) (drop j s) \<noteq> pat"
proof (induction pat s arbitrary: i j rule: find_sub.induct)
  case (1 pat s)
  show ?case
  proof (cases "take (length pat) s = pat")
    case True
    with "1.prems" show ?thesis by (simp add: find_sub.simps [of pat s])
  next
    case False
    with "1.prems" obtain c s' k where s: "s = c # s'" and k: "find_sub pat s' = Some k" "i = Suc k"
      by (auto simp: find_sub.simps [of pat s] split: list.splits)
    show ?thesis
    proof (cases j)
      case 0
      with False show ?thesis by simp
    next
      case (Suc j')
      with "1.prems" k have "j' < k" by simp
      with "1.IH" [OF False s k(1)] Suc s show ?thesis by auto
    qed
  qed
qed

lemma find_sub_None:
  "find_sub pat s = None \<Longrightarrow> j \<le> length s \<Longrightarrow> take (length pat) (drop j s) \<noteq> pat"
proof (induction pat s arbitrary: j rule: find_sub.induct)
  case (1 pat s)
  then have ne: "take (length pat) s \<noteq> pat"
    by (auto simp: find_sub.simps [of pat s] split: if_splits)
  show ?case
  proof (cases s)
    case Nil
    with ne "1.prems" show ?thesis by simp
  next
    case (Cons c s')
    with ne "1.prems" have "find_sub pat s' = None"
      by (auto simp: find_sub.simps [of pat "c # s'"])
    with "1.IH" [OF ne Cons] "1.prems" ne Cons show ?thesis by (cases j) auto
  qed
qed

text \<open>Searching for a single character.\<close>

lemma find_char_None: "find_sub [c] s = None \<longleftrightarrow> c \<notin> set s"
proof (induction s)
  case Nil
  show ?case by (simp add: find_sub.simps)
next
  case (Cons d s)
  then show ?case by (simp add: find_sub.simps [of "[c]" "d # s"])
qed

lemma find_char_append: "c \<notin> set xs \<Longrightarrow> find_sub [c] (xs @ c # ys) = Some (length xs)"
  by (induction xs) (auto simp: find_sub.simps)

lemma find_char_Some:
  assumes "find_sub [c] s = Some i"
  shows "s = take i s @ c # drop (Suc i) s \<and> c \<notin> set (take i s) \<and> i < length s"
proof -
  from find_sub_Some [OF assms] have i: "i < length s" "take 1 (drop i s) = [c]" by auto
  then have "s ! i = c" by (simp add: take_Suc_conv_app_nth hd_drop_conv_nth take_Suc)
  moreover have "c \<notin> set (take i s)"
  proof
    assume "c \<in> set (take i s)"
    then obtain j where "j < i" "s ! j = c" using i(1)
      by (metis in_set_conv_nth length_take min_less_iff_conj nth_take)
    with find_sub_first [OF assms, of j] i(1) show False
      by (simp add: take_Suc hd_drop_conv_nth)
  qed
  ultimately show ?thesis using i(1) by (metis id_take_nth_drop)
qed

subsection \<open>Decimal numerals\<close>

text \<open>\<^verbatim>\<open>std::to_string\<close> of an unsigned and of a signed integer.\<close>

fun nat_to_string :: "nat \<Rightarrow> string" where
  "nat_to_string n =
     (if n < 10 then [digit_char n] else nat_to_string (n div 10) @ [digit_char (n mod 10)])"

declare nat_to_string.simps [simp del]

definition int_to_string :: "int \<Rightarrow> string" where
  "int_to_string i =
     (if i < 0 then CHR ''-'' # nat_to_string (nat (- i)) else nat_to_string (nat i))"

text \<open>The value of a digit string, read from the left.\<close>

definition digits_value :: "string \<Rightarrow> nat" where
  "digits_value s = foldl (\<lambda>n c. n * 10 + digit_value c) 0 s"

lemma nat_to_string_digits [str_simps]: "\<forall>c \<in> set (nat_to_string n). is_digit c"
proof (induction n rule: nat_to_string.induct)
  case (1 n)
  show ?case
  proof (cases "n < 10")
    case True
    then show ?thesis by (subst nat_to_string.simps) (simp add: digit_char_is_digit)
  next
    case False
    with "1.IH" show ?thesis
      by (subst nat_to_string.simps) (auto simp: digit_char_is_digit)
  qed
qed

lemma nat_to_string_nonempty [simp]: "nat_to_string n \<noteq> []"
  by (subst nat_to_string.simps) simp

lemma digits_value_to_string [str_simps]: "digits_value (nat_to_string n) = n"
proof (induction n rule: nat_to_string.induct)
  case (1 n)
  show ?case
  proof (cases "n < 10")
    case True
    then show ?thesis
      by (subst nat_to_string.simps) (simp add: digits_value_def digit_value_char)
  next
    case False
    with "1.IH" have "digits_value (nat_to_string (n div 10)) = n div 10" by simp
    with False show ?thesis
      by (subst nat_to_string.simps) (simp add: digits_value_def digit_value_char)
  qed
qed

lemma nat_to_string_inject [simp]: "nat_to_string m = nat_to_string n \<longleftrightarrow> m = n"
  by (metis digits_value_to_string)

subsection \<open>Reading numbers as the C library does\<close>

text \<open>
  \<^verbatim>\<open>std::strtoull(s, nullptr, 10)\<close>: leading white space and an optional sign are skipped, the
  longest digit prefix is read, the value saturates at \<open>2 ^ 64 - 1\<close>, and a minus sign negates the
  result modulo \<open>2 ^ 64\<close>.
\<close>

definition is_space :: "char \<Rightarrow> bool" where
  "is_space c \<longleftrightarrow> c = CHR '' '' \<or> (9 \<le> code c \<and> code c \<le> 13)"

definition strtoull :: "string \<Rightarrow> nat" where
  "strtoull s =
     (let t = dropWhile is_space s;
          (neg, u) = (case t of [] \<Rightarrow> (False, []) | c # r \<Rightarrow>
             if c = CHR ''-'' then (True, r) else if c = CHR ''+'' then (False, r) else (False, t));
          n = digits_value (takeWhile is_digit u)
      in if n \<ge> 2 ^ 64 then 2 ^ 64 - 1
         else if neg then (2 ^ 64 - n) mod 2 ^ 64 else n)"

lemma is_digit_not_space: "is_digit c \<Longrightarrow> \<not> is_space c"
  by (auto simp: is_digit_def is_space_def)

lemma is_digit_not_sign: "is_digit c \<Longrightarrow> c \<noteq> CHR ''-'' \<and> c \<noteq> CHR ''+''"
  by (auto simp: is_digit_def)

lemma strtoull_to_string [str_simps]:
  assumes "n < 2 ^ 64"
  shows "strtoull (nat_to_string n) = n"
proof -
  obtain c r where cr: "nat_to_string n = c # r" by (cases "nat_to_string n") auto
  then have c: "is_digit c" and all: "\<forall>x \<in> set (c # r). is_digit x"
    using nat_to_string_digits [of n] by auto
  have tw: "takeWhile is_digit (c # r) = c # r"
    using all by (metis takeWhile_eq_all_conv)
  have dv: "digits_value (c # r) = n" using cr digits_value_to_string [of n] by simp
  show ?thesis
    using assms is_digit_not_space [OF c] is_digit_not_sign [OF c] tw dv
    unfolding strtoull_def cr by (simp add: Let_def)
qed

text \<open>Hexadecimal numerals.\<close>

definition hex_char :: "nat \<Rightarrow> char" where
  "hex_char d = ''0123456789abcdef'' ! d"

fun to_hex :: "nat \<Rightarrow> string" where
  "to_hex n = (if n < 16 then [hex_char n] else to_hex (n div 16) @ [hex_char (n mod 16)])"

declare to_hex.simps [simp del]

end
