(* ===== verification/Mcp_Json.thy ===== *)
theory Mcp_Json
  imports Complex_Main Mcp_Prelude
begin

text \<open>
  JSON values as the program holds them (\<^verbatim>\<open>nlohmann::json\<close>, \<^verbatim>\<open>include/mcp/json.hpp\<close>) with the member
  access the sources use, the error object of \<^verbatim>\<open>include/mcp/error.hpp\<close>, the exceptions that can
  leave a piece of code, and the optional-member helpers of \<^verbatim>\<open>include/mcp/detail/json_util.hpp\<close>.

  Integers of the library are 64 bit, signed or unsigned.  The model keeps one constructor
  \<open>JInt\<close> whose value lies between \<open>- (2 ^ 63)\<close> and \<open>2 ^ 64 - 1\<close>: a negative value is signed, a value
  of \<open>2 ^ 63\<close> or more is unsigned, and in between the library never distinguishes the two.
  Doubles are the rational they denote (a JSON text denotes finite doubles only).  Objects are the
  library's ordered maps: association lists in ascending byte order of the keys.
  Printing and parsing of JSON text are parameters of the functions that use them.
\<close>

subsection \<open>Values\<close>

datatype json =
    is_null: JNull
  | is_boolean: JBool (the_bool: bool)
  | is_int: JInt (the_int: int)
  | is_float: JFloat (the_float: rat)
  | is_string: JStr (the_string: string)
  | is_array: JArr (the_array: "json list")
  | is_object: JObj (the_members: "(string \<times> json) list")

type_synonym members = "(string \<times> json) list"

definition is_number :: "json \<Rightarrow> bool" where
  "is_number j \<longleftrightarrow> is_int j \<or> is_float j"

fun type_name :: "json \<Rightarrow> string" where
  "type_name JNull = ''null''"
| "type_name (JBool _) = ''boolean''"
| "type_name (JInt _) = ''number''"
| "type_name (JFloat _) = ''number''"
| "type_name (JStr _) = ''string''"
| "type_name (JArr _) = ''array''"
| "type_name (JObj _) = ''object''"

subsection \<open>Errors and exceptions\<close>

text \<open>
  \<^verbatim>\<open>mcp::Error\<close>.  A function returning \<^verbatim>\<open>Result<T>\<close> has the type \<open>'a result\<close>; one that may throw has
  the type \<open>'a throws\<close>.  \<open>Undefined\<close> stands for undefined behaviour of C++, which no handler
  catches.
\<close>

record error =
  err_code :: int
  err_message :: string
  err_data :: "json option"

type_synonym 'a result = "error + 'a"

datatype exn =
    Json_Exn string
  | Mcp_Exn error
  | Std_Exn string
  | Undefined string

type_synonym 'a throws = "exn + 'a"

datatype error_code =
    ParseError | InvalidRequest | MethodNotFound | InvalidParams | InternalError
  | ConnectionNotInitialized | RequestAlreadyInProgress | CapabilityNotSupported
  | ResourceNotFound | ToolExecutionFailed | InvalidUri | PaginationError

fun code_of :: "error_code \<Rightarrow> int" where
  "code_of ParseError = -32700"
| "code_of InvalidRequest = -32600"
| "code_of MethodNotFound = -32601"
| "code_of InvalidParams = -32602"
| "code_of InternalError = -32603"
| "code_of ConnectionNotInitialized = -32000"
| "code_of RequestAlreadyInProgress = -32001"
| "code_of CapabilityNotSupported = -32002"
| "code_of ResourceNotFound = -32003"
| "code_of ToolExecutionFailed = -32004"
| "code_of InvalidUri = -32005"
| "code_of PaginationError = -32006"

definition mk_error :: "error_code \<Rightarrow> string \<Rightarrow> error" where
  "mk_error c msg = \<lparr>err_code = code_of c, err_message = msg, err_data = None\<rparr>"

lemma mk_error_sel [simp]:
  "err_code (mk_error c msg) = code_of c"
  "err_message (mk_error c msg) = msg"
  "err_data (mk_error c msg) = None"
  by (simp_all add: mk_error_def)

lemma mk_error_eq [simp]: "mk_error c m = mk_error c' m' \<longleftrightarrow> code_of c = code_of c' \<and> m = m'"
  by (auto simp: mk_error_def)

text \<open>\<^verbatim>\<open>std::exception::what\<close>.\<close>

fun what :: "exn \<Rightarrow> string" where
  "what (Json_Exn s) = s"
| "what (Mcp_Exn e) = err_message e"
| "what (Std_Exn s) = s"
| "what (Undefined s) = s"

definition type_error :: "nat \<Rightarrow> string \<Rightarrow> exn" where
  "type_error n msg = Json_Exn (''[json.exception.type_error.'' @ nat_to_string n @ ''] '' @ msg)"

definition out_of_range :: "nat \<Rightarrow> string \<Rightarrow> exn" where
  "out_of_range n msg = Json_Exn (''[json.exception.out_of_range.'' @ nat_to_string n @ ''] '' @ msg)"

definition wrong_type :: "string \<Rightarrow> json \<Rightarrow> exn" where
  "wrong_type expected j =
     type_error 302 (''type must be '' @ expected @ '', but is '' @ type_name j)"

text \<open>
  The two catch clauses the sources use: \<^verbatim>\<open>catch (const json::exception&)\<close>, and
  \<^verbatim>\<open>catch (const McpError&)\<close> followed by \<^verbatim>\<open>catch (const std::exception&)\<close>.
\<close>

definition catch_json :: "(string \<Rightarrow> 'a) \<Rightarrow> 'a throws \<Rightarrow> 'a throws" where
  "catch_json h m = (case m of Inl (Json_Exn w) \<Rightarrow> Inr (h w) | _ \<Rightarrow> m)"

definition catch_all :: "(error \<Rightarrow> 'a) \<Rightarrow> (string \<Rightarrow> 'a) \<Rightarrow> 'a throws \<Rightarrow> 'a throws" where
  "catch_all h g m =
     (case m of
        Inl (Mcp_Exn e) \<Rightarrow> Inr (h e)
      | Inl (Json_Exn w) \<Rightarrow> Inr (g w)
      | Inl (Std_Exn w) \<Rightarrow> Inr (g w)
      | Inl (Undefined w) \<Rightarrow> Inl (Undefined w)
      | Inr x \<Rightarrow> Inr x)"

lemma catch_simps [simp, err_simps]:
  "catch_json h (Inr x) = Inr x"
  "catch_json h (Inl (Json_Exn w)) = Inr (h w)"
  "catch_json h (Inl (Mcp_Exn e)) = Inl (Mcp_Exn e)"
  "catch_json h (Inl (Std_Exn w)) = Inl (Std_Exn w)"
  "catch_json h (Inl (Undefined w)) = Inl (Undefined w)"
  "catch_all k g (Inr y) = Inr y"
  "catch_all k g (Inl (Mcp_Exn e)) = Inr (k e)"
  "catch_all k g (Inl (Json_Exn w)) = Inr (g w)"
  "catch_all k g (Inl (Std_Exn w)) = Inr (g w)"
  "catch_all k g (Inl (Undefined w)) = Inl (Undefined w)"
  by (simp_all add: catch_json_def catch_all_def)

definition no_ub :: "'a throws \<Rightarrow> bool" where
  "no_ub m \<longleftrightarrow> (\<forall>w. m \<noteq> Inl (Undefined w))"

lemma catch_all_total: "no_ub m \<Longrightarrow> \<exists>x. catch_all h g m = Inr x"
  by (cases m; simp add: no_ub_def; metis catch_simps(7-9) exn.exhaust)

subsection \<open>Objects\<close>

text \<open>Assignment through \<^verbatim>\<open>operator[]\<close> of the ordered map, and \<^verbatim>\<open>emplace\<close> of an initializer list.\<close>

fun obj_put :: "string \<Rightarrow> 'a \<Rightarrow> (string \<times> 'a) list \<Rightarrow> (string \<times> 'a) list" where
  "obj_put k v [] = [(k, v)]"
| "obj_put k v ((k', v') # m) =
     (if k = k' then (k, v) # m
      else if k < k' then (k, v) # (k', v') # m
      else (k', v') # obj_put k v m)"

definition obj_emplace :: "(string \<times> 'a) list \<Rightarrow> string \<times> 'a \<Rightarrow> (string \<times> 'a) list" where
  "obj_emplace m p = (case map_of m (fst p) of None \<Rightarrow> obj_put (fst p) (snd p) m | Some _ \<Rightarrow> m)"

definition mk_members :: "members \<Rightarrow> members" where
  "mk_members kvs = foldl obj_emplace [] kvs"

definition json_obj :: "members \<Rightarrow> json" where
  "json_obj kvs = JObj (mk_members kvs)"

lemma map_of_obj_put [simp, json_simps]: "map_of (obj_put k v m) = (map_of m)(k \<mapsto> v)"
  by (induction k v m rule: obj_put.induct) (auto simp: fun_eq_iff)

lemma set_obj_put: "set (map fst (obj_put k v m)) = insert k (set (map fst m))"
  by (induction k v m rule: obj_put.induct) auto

lemma sorted_obj_put:
  "sorted_wrt (<) (map fst m) \<Longrightarrow> sorted_wrt (<) (map fst (obj_put k v m))"
proof (induction k v m rule: obj_put.induct)
  case (2 k v k' v' m)
  then show ?case
    using set_obj_put [of k v m] by (auto dest: order.strict_trans)
qed simp

text \<open>Two ordered maps with the same lookups are the same list.\<close>

lemma members_of_keys:
  assumes "distinct (map fst m)"
  shows "m = map (\<lambda>k. (k, the (map_of m k))) (map fst m)"
proof -
  have "map (\<lambda>p. (fst p, the (map_of m (fst p)))) m = m"
    by (rule map_idI) (use assms in auto)
  then show ?thesis by (simp add: comp_def)
qed

lemma sorted_members_unique:
  assumes "sorted_wrt (<) (map fst m)" and "sorted_wrt (<) (map fst m')" and "map_of m = map_of m'"
  shows "m = (m' :: (string \<times> 'a) list)"
proof -
  have d: "distinct (map fst m)" "distinct (map fst m')"
    using assms(1,2) by (auto simp: strict_sorted_iff)
  have "fst ` set m = fst ` set m'"
    by (metis assms(3) dom_map_of_conv_image_fst)
  then have "map fst m = map fst m'"
    using assms(1,2) by (intro strict_sorted_equal) auto
  with members_of_keys [OF d(1)] members_of_keys [OF d(2)] assms(3) show ?thesis by metis
qed

subsection \<open>Member access\<close>

definition json_find :: "string \<Rightarrow> json \<Rightarrow> json option" where
  "json_find k j = (case j of JObj m \<Rightarrow> map_of m k | _ \<Rightarrow> None)"

definition json_contains :: "string \<Rightarrow> json \<Rightarrow> bool" where
  "json_contains k j \<longleftrightarrow> json_find k j \<noteq> None"

definition json_at :: "string \<Rightarrow> json \<Rightarrow> json throws" where
  "json_at k j =
     (case j of
        JObj m \<Rightarrow> (case map_of m k of
            Some v \<Rightarrow> Inr v
          | None \<Rightarrow> Inl (out_of_range 403 (''key '' @ quoted k @ '' not found'')))
      | _ \<Rightarrow> Inl (type_error 304 (''cannot use at() with '' @ type_name j)))"

text \<open>\<^verbatim>\<open>j[k] = v\<close>: null becomes an object first, other kinds throw.\<close>

definition json_put :: "string \<Rightarrow> json \<Rightarrow> json \<Rightarrow> json throws" where
  "json_put k v j =
     (case j of
        JObj m \<Rightarrow> Inr (JObj (obj_put k v m))
      | JNull \<Rightarrow> Inr (JObj [(k, v)])
      | _ \<Rightarrow> Inl (type_error 305 (''cannot use operator[] with a string argument with '' @ type_name j)))"

text \<open>\<^verbatim>\<open>j.value(k, default)\<close>.\<close>

definition json_value :: "(json \<Rightarrow> 'a throws) \<Rightarrow> string \<Rightarrow> 'a \<Rightarrow> json \<Rightarrow> 'a throws" where
  "json_value get k dflt j =
     (case j of
        JObj m \<Rightarrow> (case map_of m k of Some v \<Rightarrow> get v | None \<Rightarrow> Inr dflt)
      | _ \<Rightarrow> Inl (type_error 306 (''cannot use value() with '' @ type_name j)))"

text \<open>A range \<^verbatim>\<open>for\<close> over a value visits elements, member values, or the scalar itself.\<close>

fun json_elems :: "json \<Rightarrow> json list" where
  "json_elems JNull = []"
| "json_elems (JArr xs) = xs"
| "json_elems (JObj m) = map snd m"
| "json_elems j = [j]"

lemma json_find_simps [simp, json_simps]:
  "json_find k (JObj m) = map_of m k"
  "json_find k JNull = None"
  "json_find k (JBool b) = None"
  "json_find k (JInt i) = None"
  "json_find k (JFloat r) = None"
  "json_find k (JStr s) = None"
  "json_find k (JArr xs) = None"
  by (simp_all add: json_find_def)

lemma json_contains_find [json_simps]: "json_contains k j \<longleftrightarrow> (\<exists>v. json_find k j = Some v)"
  by (auto simp: json_contains_def)

lemma json_at_eq_Inr [json_simps]: "json_at k j = Inr v \<longleftrightarrow> json_find k j = Some v"
  by (cases j) (auto simp: json_at_def split: option.splits)

lemma json_at_JObj: "map_of m k = Some v \<Longrightarrow> json_at k (JObj m) = Inr v"
  by (simp add: json_simps)

lemma json_at_found [simp]: "json_find k j = Some v \<Longrightarrow> json_at k j = Inr v"
  by (simp add: json_simps)

subsection \<open>Conversion of scalars\<close>

text \<open>Conversion to a 64 bit and to a 32 bit signed integer.\<close>

definition wrap64 :: "int \<Rightarrow> int" where
  "wrap64 i = (i + 2 ^ 63) mod 2 ^ 64 - 2 ^ 63"

definition wrap32 :: "int \<Rightarrow> int" where
  "wrap32 i = (i + 2 ^ 31) mod 2 ^ 32 - 2 ^ 31"

lemma wrap64_id [simp]: "- (2 ^ 63) \<le> i \<Longrightarrow> i < 2 ^ 63 \<Longrightarrow> wrap64 i = i"
  by (simp add: wrap64_def)

lemma wrap32_id [simp]: "- (2 ^ 31) \<le> i \<Longrightarrow> i < 2 ^ 31 \<Longrightarrow> wrap32 i = i"
  by (simp add: wrap32_def)

lemma wrap64_range: "- (2 ^ 63) \<le> wrap64 i \<and> wrap64 i < 2 ^ 63"
  by (simp add: wrap64_def pos_mod_bound [of "2 ^ 64" "i + 2 ^ 63", simplified])

text \<open>Conversion of an integer to a double, rounding to nearest, ties to even.\<close>

fun bit_length :: "nat \<Rightarrow> nat" where
  "bit_length n = (if n = 0 then 0 else Suc (bit_length (n div 2)))"

declare bit_length.simps [simp del]

definition double_of_int :: "int \<Rightarrow> rat" where
  "double_of_int i =
     (let a = nat \<bar>i\<bar>; u = 2 ^ (bit_length a - 53); q = a div u; r = a mod u;
          q' = (if 2 * r < u then q else if 2 * r > u then q + 1 else if even q then q else q + 1)
      in of_int (sgn i * int (q' * u)))"

text \<open>Truncation of a double; outside the target range the conversion is undefined.\<close>

definition trunc_rat :: "rat \<Rightarrow> int" where
  "trunc_rat r = (if r < 0 then - \<lfloor>- r\<rfloor> else \<lfloor>r\<rfloor>)"

definition get_string :: "json \<Rightarrow> string throws" where
  "get_string j = (case j of JStr s \<Rightarrow> Inr s | _ \<Rightarrow> Inl (wrong_type ''string'' j))"

definition get_bool :: "json \<Rightarrow> bool throws" where
  "get_bool j = (case j of JBool b \<Rightarrow> Inr b | _ \<Rightarrow> Inl (wrong_type ''boolean'' j))"

definition get_double :: "json \<Rightarrow> rat throws" where
  "get_double j =
     (case j of JFloat r \<Rightarrow> Inr r | JInt i \<Rightarrow> Inr (double_of_int i) | _ \<Rightarrow> Inl (wrong_type ''number'' j))"

definition get_int64 :: "json \<Rightarrow> int throws" where
  "get_int64 j =
     (case j of
        JInt i \<Rightarrow> Inr (wrap64 i)
      | JFloat r \<Rightarrow> (let n = trunc_rat r in
          if - (2 ^ 63) \<le> n \<and> n < 2 ^ 63 then Inr n else Inl (Undefined ''double to int64''))
      | _ \<Rightarrow> Inl (wrong_type ''number'' j))"

text \<open>\<^verbatim>\<open>get<int>\<close>: the conversion for arithmetic types also accepts booleans.\<close>

definition get_int32 :: "json \<Rightarrow> int throws" where
  "get_int32 j =
     (case j of
        JInt i \<Rightarrow> Inr (wrap32 i)
      | JFloat r \<Rightarrow> (let n = trunc_rat r in
          if - (2 ^ 31) \<le> n \<and> n < 2 ^ 31 then Inr n else Inl (Undefined ''double to int''))
      | JBool b \<Rightarrow> Inr (if b then 1 else 0)
      | _ \<Rightarrow> Inl (wrong_type ''number'' j))"

definition get_json :: "json \<Rightarrow> json throws" where
  "get_json j = Inr j"

definition get_vector :: "(json \<Rightarrow> 'a throws) \<Rightarrow> json \<Rightarrow> 'a list throws" where
  "get_vector get j = (case j of JArr xs \<Rightarrow> traverse get xs | _ \<Rightarrow> Inl (wrong_type ''array'' j))"

definition put_vector :: "('a \<Rightarrow> json) \<Rightarrow> 'a list \<Rightarrow> json" where
  "put_vector enc xs = JArr (map enc xs)"

lemma get_simps [simp, json_simps]:
  "get_string (JStr s) = Inr s"
  "get_bool (JBool b) = Inr b"
  "get_double (JFloat r) = Inr r"
  "get_json j = Inr j"
  "get_vector get (JArr xs) = traverse get xs"
  by (simp_all add: get_string_def get_bool_def get_double_def get_json_def get_vector_def)

lemma get_string_eq_Inr [json_simps]: "get_string j = Inr s \<longleftrightarrow> j = JStr s"
  by (cases j) (auto simp: get_string_def)

lemma get_bool_eq_Inr [json_simps]: "get_bool j = Inr b \<longleftrightarrow> j = JBool b"
  by (cases j) (auto simp: get_bool_def)

lemma get_string_Inl: "get_string j = Inl e \<Longrightarrow> e = wrong_type ''string'' j"
  by (cases j) (auto simp: get_string_def)

subsection \<open>Equality of values\<close>

text \<open>
  \<^verbatim>\<open>operator==\<close> compares numbers across their representations: an integer with a double after
  conversion to double, a signed with an unsigned integer after conversion to signed.
\<close>

fun json_eq :: "json \<Rightarrow> json \<Rightarrow> bool"
  and json_eq_list :: "json list \<Rightarrow> json list \<Rightarrow> bool"
  and json_eq_members :: "members \<Rightarrow> members \<Rightarrow> bool" where
  "json_eq JNull j = is_null j"
| "json_eq (JBool b) j = (case j of JBool b' \<Rightarrow> b = b' | _ \<Rightarrow> False)"
| "json_eq (JInt i) j =
     (case j of JInt i' \<Rightarrow> wrap64 i = wrap64 i' | JFloat r \<Rightarrow> double_of_int i = r | _ \<Rightarrow> False)"
| "json_eq (JFloat r) j =
     (case j of JInt i \<Rightarrow> double_of_int i = r | JFloat r' \<Rightarrow> r = r' | _ \<Rightarrow> False)"
| "json_eq (JStr s) j = (case j of JStr s' \<Rightarrow> s = s' | _ \<Rightarrow> False)"
| "json_eq (JArr xs) j = (case j of JArr ys \<Rightarrow> json_eq_list xs ys | _ \<Rightarrow> False)"
| "json_eq (JObj m) j = (case j of JObj m' \<Rightarrow> json_eq_members m m' | _ \<Rightarrow> False)"
| "json_eq_list [] ys = (ys = [])"
| "json_eq_list (x # xs) ys = (case ys of [] \<Rightarrow> False | y # ys' \<Rightarrow> json_eq x y \<and> json_eq_list xs ys')"
| "json_eq_members [] m' = (m' = [])"
| "json_eq_members ((k, v) # m) m' =
     (case m' of [] \<Rightarrow> False
      | p # m'' \<Rightarrow> k = fst p \<and> json_eq v (snd p) \<and> json_eq_members m m'')"

lemma json_eq_list_refl: "(\<And>x. x \<in> set xs \<Longrightarrow> json_eq x x) \<Longrightarrow> json_eq_list xs xs"
  by (induction xs) auto

lemma json_eq_members_refl: "\<forall>p \<in> set m. json_eq (snd p) (snd p) \<Longrightarrow> json_eq_members m m"
  by (induction m) auto

lemma json_eq_refl [simp]: "json_eq j j"
  by (induction j) (auto intro!: json_eq_list_refl json_eq_members_refl)

subsection \<open>Optional members\<close>

text \<open>
  \<^verbatim>\<open>detail::set_optional\<close> and \<^verbatim>\<open>detail::get_optional\<close>.  Every call of the former writes into an
  object, so the model works on its members.
\<close>

definition set_optional :: "('a \<Rightarrow> json) \<Rightarrow> string \<Rightarrow> 'a option \<Rightarrow> members \<Rightarrow> members" where
  "set_optional enc k v m = (case v of None \<Rightarrow> m | Some x \<Rightarrow> obj_put k (enc x) m)"

definition opt_field :: "(json \<Rightarrow> 'a throws) \<Rightarrow> json option \<Rightarrow> 'a option throws" where
  "opt_field get f =
     (case f of None \<Rightarrow> Inr None | Some v \<Rightarrow> if is_null v then Inr None else mapE Some (get v))"

definition get_optional :: "(json \<Rightarrow> 'a throws) \<Rightarrow> string \<Rightarrow> json \<Rightarrow> 'a option throws" where
  "get_optional get k j = opt_field get (json_find k j)"

lemma opt_field_simps [simp, json_simps]:
  "opt_field get None = Inr None"
  "opt_field get (Some JNull) = Inr None"
  "\<not> is_null v \<Longrightarrow> opt_field get (Some v) = mapE Some (get v)"
  by (simp_all add: opt_field_def)

lemma get_optional_JObj [simp, json_simps]:
  "get_optional get k (JObj m) = opt_field get (map_of m k)"
  by (simp add: get_optional_def)

definition or_else :: "'a option \<Rightarrow> 'a option \<Rightarrow> 'a option" where
  "or_else a b = (case a of None \<Rightarrow> b | Some x \<Rightarrow> Some x)"

lemma or_else_simps [simp, json_simps]:
  "or_else None b = b" "or_else (Some x) b = Some x" "or_else a None = a"
  by (simp_all add: or_else_def split: option.splits)

lemma map_of_set_optional [simp, json_simps]:
  "map_of (set_optional enc k v m) k' =
     (if k = k' then or_else (map_option enc v) (map_of m k') else map_of m k')"
  by (simp add: set_optional_def split: option.splits)

lemma sorted_set_optional:
  "sorted_wrt (<) (map fst m) \<Longrightarrow> sorted_wrt (<) (map fst (set_optional enc k v m))"
  by (simp add: set_optional_def sorted_obj_put split: option.splits)

text \<open>An initializer list keeps the first of two members with one name, as a map of the list does.\<close>

lemma map_of_foldl_emplace:
  "map_of (foldl obj_emplace m kvs) k =
     (case map_of m k of Some x \<Rightarrow> Some x | None \<Rightarrow> map_of kvs k)"
  by (induction kvs arbitrary: m) (auto simp: obj_emplace_def split: option.splits)

lemma map_of_mk_members [simp, json_simps]: "map_of (mk_members kvs) k = map_of kvs k"
  by (simp add: mk_members_def map_of_foldl_emplace)

lemma sorted_mk_members: "sorted_wrt (<) (map fst (mk_members kvs))"
proof -
  have "sorted_wrt (<) (map fst m) \<Longrightarrow> sorted_wrt (<) (map fst (foldl obj_emplace m kvs))" for m
    by (induction kvs arbitrary: m)
      (auto simp: obj_emplace_def sorted_obj_put split: option.splits)
  then show ?thesis by (simp add: mk_members_def)
qed

lemma json_find_obj [simp, json_simps]: "json_find k (json_obj kvs) = map_of kvs k"
  by (simp add: json_obj_def)

lemma is_object_json_obj [simp, json_simps]: "is_object (json_obj kvs)" "json_obj kvs \<noteq> JNull"
  by (simp_all add: json_obj_def)

subsection \<open>Codecs\<close>

text \<open>
  The contract of a pair \<^verbatim>\<open>to_json\<close>/\<^verbatim>\<open>from_json\<close>: decoding what was encoded gives the value back, and
  an encoding is never null (a null member reads as an absent one).  The clients are the optional
  members and the vectors of every wire type.
\<close>

locale json_codec =
  fixes enc :: "'a \<Rightarrow> json" and dec :: "json \<Rightarrow> 'a throws" and ok :: "'a \<Rightarrow> bool"
  assumes dec_enc: "ok x \<Longrightarrow> dec (enc x) = Inr x"
    and enc_not_null: "ok x \<Longrightarrow> \<not> is_null (enc x)"
begin

lemma field_roundtrip:
  "pred_option ok v \<Longrightarrow>
    opt_field dec (map_option enc v) = Inr v"
  by (cases v) (simp_all add: dec_enc enc_not_null)

lemma vector_roundtrip: "list_all ok xs \<Longrightarrow> get_vector dec (put_vector enc xs) = Inr xs"
  by (simp add: put_vector_def list_all_iff traverse_map_inverse dec_enc)

lemma dec_inj_on: "ok x \<Longrightarrow> ok y \<Longrightarrow> enc x = enc y \<Longrightarrow> x = y"
  by (metis Inr_inject dec_enc)

text \<open>Vectors of a codec form a codec again.\<close>

lemma codec_vector: "json_codec (put_vector enc) (get_vector dec) (list_all ok)"
  by unfold_locales (simp_all add: vector_roundtrip, simp add: put_vector_def)

end

definition any_value :: "'a \<Rightarrow> bool" where
  "any_value x = True"

definition non_null :: "json \<Rightarrow> bool" where
  "non_null j \<longleftrightarrow> \<not> is_null j"

lemma any_value_True [simp]:
  "any_value x" "list_all any_value xs" "pred_option any_value v" "pred_option (list_all any_value) w"
  by (simp_all add: any_value_def list_all_iff pred_option_def)

interpretation string_codec: json_codec JStr get_string any_value
  by unfold_locales simp_all

interpretation bool_codec: json_codec JBool get_bool any_value
  by unfold_locales simp_all

interpretation double_codec: json_codec JFloat get_double any_value
  by unfold_locales simp_all

interpretation raw_codec: json_codec "\<lambda>j. j" get_json non_null
  by unfold_locales (simp_all add: non_null_def)

end
