(* ===== verification/Mcp_Message.thy ===== *)
theory Mcp_Message
  imports Mcp_Json
begin

text \<open>
  JSON-RPC messages: request ids (\<^verbatim>\<open>include/mcp/types.hpp\<close>), the error object on the wire
  (\<^verbatim>\<open>include/mcp/error.hpp\<close>), the method names (\<^verbatim>\<open>include/mcp/methods.hpp\<close>) and the encoder and
  parser of messages and frames (\<^verbatim>\<open>src/jsonrpc/message.cpp\<close>).

  A function that returns \<^verbatim>\<open>Result<T>\<close> and may also throw has the type \<open>'a result throws\<close>:
  \<open>returns\<close> is a value, \<open>fails\<close> an error value, \<open>Inl\<close> an exception that leaves the function.
\<close>

abbreviation returns :: "'a \<Rightarrow> 'a result throws" where
  "returns x \<equiv> Inr (Inr x)"

abbreviation fails :: "error_code \<Rightarrow> string \<Rightarrow> 'a result throws" where
  "fails c msg \<equiv> Inr (Inl (mk_error c msg))"

definition bind_result :: "'a result throws \<Rightarrow> ('a \<Rightarrow> 'b result throws) \<Rightarrow> 'b result throws" where
  "bind_result m f = bindE m (\<lambda>r. case r of Inl e \<Rightarrow> Inr (Inl e) | Inr x \<Rightarrow> f x)"

lemma bind_result_simps [simp, err_simps]:
  "bind_result (Inl x) f = Inl x"
  "bind_result (Inr (Inl e)) f = Inr (Inl e)"
  "bind_result (returns a) f = f a"
  by (simp_all add: bind_result_def)

lemma bind_result_eq [err_simps]:
  "bind_result m f = returns y \<longleftrightarrow> (\<exists>x. m = returns x \<and> f x = returns y)"
  "bind_result m f = Inr (Inl e) \<longleftrightarrow> m = Inr (Inl e) \<or> (\<exists>x. m = returns x \<and> f x = Inr (Inl e))"
  "bind_result m f = Inl z \<longleftrightarrow> m = Inl z \<or> (\<exists>x. m = returns x \<and> f x = Inl z)"
  by (cases m; auto simp: bind_result_def split: sum.splits)+

lemma bind_result_cong [fundef_cong]:
  assumes "m = n" and "\<And>x. n = returns x \<Longrightarrow> f x = g x"
  shows "bind_result m f = bind_result n g"
  using assms by (auto simp: bind_result_def bindE_def split: sum.splits)

text \<open>A loop that parses the elements of a container and returns the first error.\<close>

fun traverse_result :: "('a \<Rightarrow> 'b result throws) \<Rightarrow> 'a list \<Rightarrow> 'b list result throws" where
  "traverse_result f [] = returns []"
| "traverse_result f (x # xs) =
     bind_result (f x) (\<lambda>y. bind_result (traverse_result f xs) (\<lambda>ys. returns (y # ys)))"

lemma traverse_result_cong [fundef_cong]:
  assumes "xs = ys" and "\<And>x. x \<in> set ys \<Longrightarrow> f x = g x"
  shows "traverse_result f xs = traverse_result g ys"
proof -
  have "(\<And>x. x \<in> set ys \<Longrightarrow> f x = g x) \<Longrightarrow> traverse_result f ys = traverse_result g ys"
    by (induction ys) (simp_all add: bind_result_def bindE_def split: sum.splits)
  with assms show ?thesis by simp
qed

lemma traverse_result_map:
  "(\<And>x. x \<in> set xs \<Longrightarrow> f (g x) = returns x) \<Longrightarrow> traverse_result f (map g xs) = returns xs"
  by (induction xs) simp_all

subsection \<open>Request ids and progress tokens\<close>

datatype request_id = Id_Int int | Id_Str string

fun request_id_to_json :: "request_id \<Rightarrow> json" where
  "request_id_to_json (Id_Int i) = JInt i"
| "request_id_to_json (Id_Str s) = JStr s"

fun request_id_from_json :: "json \<Rightarrow> request_id option" where
  "request_id_from_json (JInt i) = Some (Id_Int (wrap64 i))"
| "request_id_from_json (JStr s) = Some (Id_Str s)"
| "request_id_from_json _ = None"

fun request_id_to_string :: "request_id \<Rightarrow> string" where
  "request_id_to_string (Id_Int i) = int_to_string i"
| "request_id_to_string (Id_Str s) = s"

text \<open>The integer of an id is a signed 64 bit value.\<close>

fun valid_id :: "request_id \<Rightarrow> bool" where
  "valid_id (Id_Int i) = (- (2 ^ 63) \<le> i \<and> i < 2 ^ 63)"
| "valid_id (Id_Str s) = True"

lemma request_id_roundtrip [simp]:
  "valid_id i \<Longrightarrow> request_id_from_json (request_id_to_json i) = Some i"
  by (cases i) simp_all

lemma request_id_from_json_valid: "request_id_from_json j = Some i \<Longrightarrow> valid_id i"
  using wrap64_range by (cases j) auto

lemma request_id_to_json_not_null [simp]: "\<not> is_null (request_id_to_json i)"
  by (cases i) simp_all

lemma request_id_from_json_None: "request_id_from_json j = None \<longleftrightarrow> \<not> is_int j \<and> \<not> is_string j"
  by (cases j) simp_all

subsection \<open>Error objects\<close>

definition error_to_json :: "error \<Rightarrow> json" where
  "error_to_json e =
     JObj (set_optional (\<lambda>j. j) ''data'' (err_data e)
       (mk_members [(''code'', JInt (err_code e)), (''message'', JStr (err_message e))]))"

definition error_from_json :: "json \<Rightarrow> error throws" where
  "error_from_json j =
     bindE (bindE (json_at ''code'' j) get_int32) (\<lambda>c.
     bindE (bindE (json_at ''message'' j) get_string) (\<lambda>msg.
     bindE (get_optional get_json ''data'' j) (\<lambda>d.
     Inr \<lparr>err_code = c, err_message = msg, err_data = d\<rparr>)))"

definition valid_error :: "error \<Rightarrow> bool" where
  "valid_error e \<longleftrightarrow> - (2 ^ 31) \<le> err_code e \<and> err_code e < 2 ^ 31 \<and> err_data e \<noteq> Some JNull"

lemma error_roundtrip [simp]: "valid_error e \<Longrightarrow> error_from_json (error_to_json e) = Inr e"
  by (cases e)
    (auto simp: error_from_json_def error_to_json_def valid_error_def get_int32_def opt_field_def
      split: option.splits)

lemma error_codes_valid [simp]: "valid_error (mk_error c msg)"
  by (cases c) (simp_all add: valid_error_def)

interpretation error_codec: json_codec error_to_json error_from_json valid_error
  by unfold_locales (simp, simp add: error_to_json_def)

subsection \<open>Method names\<close>

definition kInitialize :: string where "kInitialize = ''initialize''"
definition kPing :: string where "kPing = ''ping''"
definition kToolsList :: string where "kToolsList = ''tools/list''"
definition kToolsCall :: string where "kToolsCall = ''tools/call''"
definition kResourcesList :: string where "kResourcesList = ''resources/list''"
definition kResourcesRead :: string where "kResourcesRead = ''resources/read''"
definition kResourcesTemplatesList :: string where "kResourcesTemplatesList = ''resources/templates/list''"
definition kResourcesSubscribe :: string where "kResourcesSubscribe = ''resources/subscribe''"
definition kResourcesUnsubscribe :: string where "kResourcesUnsubscribe = ''resources/unsubscribe''"
definition kPromptsList :: string where "kPromptsList = ''prompts/list''"
definition kPromptsGet :: string where "kPromptsGet = ''prompts/get''"
definition kCompletionComplete :: string where "kCompletionComplete = ''completion/complete''"
definition kLoggingSetLevel :: string where "kLoggingSetLevel = ''logging/setLevel''"
definition kSamplingCreateMessage :: string where "kSamplingCreateMessage = ''sampling/createMessage''"
definition kRootsList :: string where "kRootsList = ''roots/list''"
definition kElicitationCreate :: string where "kElicitationCreate = ''elicitation/create''"
definition kNotificationInitialized :: string where "kNotificationInitialized = ''notifications/initialized''"
definition kNotificationCancelled :: string where "kNotificationCancelled = ''notifications/cancelled''"
definition kNotificationProgress :: string where "kNotificationProgress = ''notifications/progress''"
definition kNotificationMessage :: string where "kNotificationMessage = ''notifications/message''"
definition kNotificationToolsListChanged :: string where "kNotificationToolsListChanged = ''notifications/tools/list_changed''"
definition kNotificationResourcesListChanged :: string where "kNotificationResourcesListChanged = ''notifications/resources/list_changed''"
definition kNotificationResourcesUpdated :: string where "kNotificationResourcesUpdated = ''notifications/resources/updated''"
definition kNotificationPromptsListChanged :: string where "kNotificationPromptsListChanged = ''notifications/prompts/list_changed''"
definition kNotificationRootsListChanged :: string where "kNotificationRootsListChanged = ''notifications/roots/list_changed''"

lemmas method_defs =
  kInitialize_def kPing_def kToolsList_def kToolsCall_def kResourcesList_def kResourcesRead_def
  kResourcesTemplatesList_def kResourcesSubscribe_def kResourcesUnsubscribe_def kPromptsList_def
  kPromptsGet_def kCompletionComplete_def kLoggingSetLevel_def kSamplingCreateMessage_def
  kRootsList_def kElicitationCreate_def kNotificationInitialized_def kNotificationCancelled_def
  kNotificationProgress_def kNotificationMessage_def kNotificationToolsListChanged_def
  kNotificationResourcesListChanged_def kNotificationResourcesUpdated_def
  kNotificationPromptsListChanged_def kNotificationRootsListChanged_def

subsection \<open>Messages\<close>

record jsonrpc_request =
  req_id :: request_id
  req_method :: string
  req_params :: "json option"

record jsonrpc_notification =
  note_method :: string
  note_params :: "json option"

record jsonrpc_response =
  resp_id :: "request_id option"
  resp_result :: "json option"
  resp_error :: "error option"

definition is_error :: "jsonrpc_response \<Rightarrow> bool" where
  "is_error r \<longleftrightarrow> resp_error r \<noteq> None"

datatype message =
    Request jsonrpc_request
  | Notification jsonrpc_notification
  | Response jsonrpc_response

definition error_response :: "request_id option \<Rightarrow> error \<Rightarrow> jsonrpc_response" where
  "error_response i e = \<lparr>resp_id = i, resp_result = None, resp_error = Some e\<rparr>"

definition result_response :: "request_id option \<Rightarrow> json \<Rightarrow> jsonrpc_response" where
  "result_response i j = \<lparr>resp_id = i, resp_result = Some j, resp_error = None\<rparr>"

subsection \<open>Encoding\<close>

definition request_to_json :: "jsonrpc_request \<Rightarrow> json" where
  "request_to_json r =
     JObj (set_optional (\<lambda>j. j) ''params'' (req_params r)
       (mk_members [(''jsonrpc'', JStr ''2.0''), (''id'', request_id_to_json (req_id r)),
                    (''method'', JStr (req_method r))]))"

definition notification_to_json :: "jsonrpc_notification \<Rightarrow> json" where
  "notification_to_json n =
     JObj (set_optional (\<lambda>j. j) ''params'' (note_params n)
       (mk_members [(''jsonrpc'', JStr ''2.0''), (''method'', JStr (note_method n))]))"

definition response_to_json :: "jsonrpc_response \<Rightarrow> json" where
  "response_to_json r =
     (let m = mk_members [(''jsonrpc'', JStr ''2.0'')];
          m = obj_put ''id'' (case resp_id r of Some i \<Rightarrow> request_id_to_json i | None \<Rightarrow> JNull) m
      in case resp_error r of
           Some e \<Rightarrow> JObj (obj_put ''error'' (error_to_json e) m)
         | None \<Rightarrow> JObj (obj_put ''result''
             (case resp_result r of Some j \<Rightarrow> j | None \<Rightarrow> JNull) m))"

fun message_to_json :: "message \<Rightarrow> json" where
  "message_to_json (Request r) = request_to_json r"
| "message_to_json (Notification n) = notification_to_json n"
| "message_to_json (Response r) = response_to_json r"

text \<open>The printer of the JSON library is the parameter \<open>dump\<close>.\<close>

definition serialize_message :: "(json \<Rightarrow> string throws) \<Rightarrow> message \<Rightarrow> string throws" where
  "serialize_message dump m = dump (message_to_json m)"

definition serialize_batch :: "(json \<Rightarrow> string throws) \<Rightarrow> message list \<Rightarrow> string throws" where
  "serialize_batch dump ms = dump (JArr (map message_to_json ms))"

subsection \<open>Parsing\<close>

definition valid_params :: "json \<Rightarrow> bool" where
  "valid_params j \<longleftrightarrow> is_object j \<or> is_array j"

text \<open>The branch for a value with a \<open>method\<close> member, and the branch for a response.\<close>

definition parse_call :: "json \<Rightarrow> json \<Rightarrow> message result throws" where
  "parse_call j mth =
     (case mth of
        JStr name \<Rightarrow>
          bind_result
            (case json_find ''params'' j of
               None \<Rightarrow> returns None
             | Some p \<Rightarrow>
                 if is_null p then returns None
                 else if valid_params p then returns (Some p)
                 else fails InvalidRequest ''params must be an object or array'')
            (\<lambda>params.
               case json_find ''id'' j of
                 None \<Rightarrow> returns (Notification \<lparr>note_method = name, note_params = params\<rparr>)
               | Some i \<Rightarrow>
                   (case request_id_from_json i of
                      None \<Rightarrow> fails InvalidRequest ''request id must be a string or integer''
                    | Some rid \<Rightarrow>
                        returns (Request \<lparr>req_id = rid, req_method = name, req_params = params\<rparr>)))
      | _ \<Rightarrow> fails InvalidRequest ''method must be a string'')"

definition parse_response :: "json \<Rightarrow> message result throws" where
  "parse_response j =
     (if json_contains ''result'' j = json_contains ''error'' j
      then fails InvalidRequest ''response must contain exactly one of result/error''
      else case json_find ''id'' j of
        None \<Rightarrow> fails InvalidRequest ''response is missing id''
      | Some i \<Rightarrow>
          bind_result
            (if is_null i then returns None
             else case request_id_from_json i of
                    None \<Rightarrow> fails InvalidRequest ''response id must be a string, integer, or null''
                  | Some rid \<Rightarrow> returns (Some rid))
            (\<lambda>rid.
               case json_find ''error'' j of
                 Some ej \<Rightarrow>
                   if \<not> is_object ej \<or> \<not> json_contains ''code'' ej \<or> \<not> json_contains ''message'' ej
                   then fails InvalidRequest ''malformed error object''
                   else bindE (error_from_json ej) (\<lambda>e. returns (Response (error_response rid e)))
               | None \<Rightarrow>
                   bindE (json_at ''result'' j) (\<lambda>v. returns (Response (result_response rid v)))))"

definition parse_message :: "json \<Rightarrow> message result throws" where
  "parse_message j =
     (if \<not> is_object j then fails InvalidRequest ''message is not a JSON object''
      else if json_find ''jsonrpc'' j \<noteq> Some (JStr ''2.0'')
      then fails InvalidRequest ''missing or invalid jsonrpc version''
      else case json_find ''method'' j of
        Some mth \<Rightarrow> parse_call j mth
      | None \<Rightarrow> parse_response j)"

record parsed_frame =
  messages :: "message list"
  item_errors :: "error list"
  was_batch :: bool

fun parse_items :: "json list \<Rightarrow> parsed_frame \<Rightarrow> parsed_frame throws" where
  "parse_items [] f = Inr f"
| "parse_items (item # items) f =
     bindE (parse_message item) (\<lambda>parsed.
       parse_items items
         (case parsed of
            Inr m \<Rightarrow> f\<lparr>messages := messages f @ [m]\<rparr>
          | Inl e \<Rightarrow> f\<lparr>item_errors := item_errors f @ [e]\<rparr>))"

text \<open>The parser of the JSON library is the parameter \<open>parse\<close>; \<open>None\<close> is a discarded value.\<close>

definition parse_frame :: "(string \<Rightarrow> json option) \<Rightarrow> string \<Rightarrow> parsed_frame result throws" where
  "parse_frame parse text =
     (let frame = \<lparr>messages = [], item_errors = [], was_batch = False\<rparr> in
      case parse text of
        None \<Rightarrow> fails ParseError ''invalid JSON''
      | Some (JArr items) \<Rightarrow>
          if items = [] then fails InvalidRequest ''batch must not be empty''
          else mapE Inr (parse_items items (frame\<lparr>was_batch := True\<rparr>))
      | Some j \<Rightarrow>
          bind_result (parse_message j) (\<lambda>m. returns (frame\<lparr>messages := [m]\<rparr>)))"

subsection \<open>Well-formed messages\<close>

fun valid_message :: "message \<Rightarrow> bool" where
  "valid_message (Request r) \<longleftrightarrow>
     valid_id (req_id r) \<and> (\<forall>p. req_params r = Some p \<longrightarrow> valid_params p)"
| "valid_message (Notification n) \<longleftrightarrow> (\<forall>p. note_params n = Some p \<longrightarrow> valid_params p)"
| "valid_message (Response r) \<longleftrightarrow>
     (\<forall>i. resp_id r = Some i \<longrightarrow> valid_id i) \<and>
     (case resp_error r of Some e \<Rightarrow> resp_result r = None \<and> valid_error e | None \<Rightarrow> resp_result r \<noteq> None)"

lemma valid_params_not_null: "valid_params p \<Longrightarrow> \<not> is_null p"
  by (cases p) (simp_all add: valid_params_def)

lemma parse_call_roundtrip_request:
  assumes "valid_message (Request r)"
  shows "parse_message (request_to_json r) = returns (Request r)"
  using assms valid_params_not_null
  by (cases r) (auto simp: parse_message_def request_to_json_def parse_call_def split: option.splits)

lemma parse_call_roundtrip_notification:
  assumes "valid_message (Notification n)"
  shows "parse_message (notification_to_json n) = returns (Notification n)"
  using assms valid_params_not_null
  by (cases n) (auto simp: parse_message_def notification_to_json_def parse_call_def split: option.splits)

lemma error_to_json_shape [simp]:
  "is_object (error_to_json e)"
  "json_find ''code'' (error_to_json e) = Some (JInt (err_code e))"
  "json_find ''message'' (error_to_json e) = Some (JStr (err_message e))"
  by (simp_all add: error_to_json_def)

lemma parse_response_roundtrip:
  assumes "valid_message (Response r)"
  shows "parse_message (response_to_json r) = returns (Response r)"
proof -
  obtain i res err where r: "r = \<lparr>resp_id = i, resp_result = res, resp_error = err\<rparr>"
    by (cases r)
  show ?thesis
    using assms
    by (cases i; cases err; cases res)
      (simp_all add: r parse_message_def parse_response_def response_to_json_def Let_def
        json_contains_def error_response_def result_response_def)
qed

lemma parse_message_to_json:
  "valid_message m \<Longrightarrow> parse_message (message_to_json m) = returns m"
  by (cases m)
    (simp_all add: parse_call_roundtrip_request parse_call_roundtrip_notification
      parse_response_roundtrip)

subsection \<open>What the parser accepts\<close>

lemma get_int32_range: "get_int32 j = Inr c \<Longrightarrow> - (2 ^ 31) \<le> c \<and> c < 2 ^ 31"
  by (cases j)
    (auto simp: get_int32_def wrap32_def Let_def split: if_splits
      intro: order.strict_trans2 [OF pos_mod_bound])

lemma get_optional_not_null: "get_optional get_json k j = Inr v \<Longrightarrow> v \<noteq> Some JNull"
  by (auto simp: get_optional_def opt_field_def split: option.splits if_splits)

lemma error_from_json_valid: "error_from_json j = Inr e \<Longrightarrow> valid_error e"
  by (auto simp: error_from_json_def err_simps valid_error_def
      dest: get_int32_range get_optional_not_null)

lemma parse_call_valid: "parse_call j mth = returns m \<Longrightarrow> valid_message m"
  by (cases mth)
    (auto simp: parse_call_def bind_result_def err_simps
      dest: request_id_from_json_valid split: option.splits if_splits)

lemma parse_response_valid: "parse_response j = returns m \<Longrightarrow> valid_message m"
  by (auto simp: parse_response_def bind_result_def err_simps error_response_def result_response_def
      dest: request_id_from_json_valid error_from_json_valid split: option.splits if_splits)

lemma parse_message_valid: "parse_message j = returns m \<Longrightarrow> valid_message m"
  by (auto simp: parse_message_def dest: parse_call_valid parse_response_valid
      split: option.splits if_splits)

lemma parse_message_error_code:
  "parse_message j = Inr (Inl e) \<Longrightarrow> err_code e = code_of InvalidRequest"
  by (auto simp: parse_message_def parse_call_def parse_response_def bind_result_def err_simps
      split: option.splits if_splits json.splits)

text \<open>
  The only exception that leaves \<open>parse_message\<close> comes from the members of an error object, whose
  presence is checked but not their types.
\<close>

definition error_members_readable :: "json \<Rightarrow> bool" where
  "error_members_readable ej \<longleftrightarrow>
     (\<exists>c msg. json_find ''code'' ej = Some c \<and> json_find ''message'' ej = Some msg \<and>
       (\<exists>n. get_int32 c = Inr n) \<and> is_string msg)"

lemma error_from_json_total: "(\<exists>e. error_from_json j = Inr e) \<longleftrightarrow> error_members_readable j"
proof
  assume "\<exists>e. error_from_json j = Inr e"
  then show "error_members_readable j"
    by (auto simp: error_from_json_def err_simps json_simps error_members_readable_def)
next
  assume "error_members_readable j"
  then show "\<exists>e. error_from_json j = Inr e"
    by (auto simp: error_from_json_def error_members_readable_def get_optional_def opt_field_def is_string_def
        split: option.splits)
qed

lemma parse_call_no_throw [simp]: "parse_call j mth \<noteq> Inl x"
  by (cases mth) (auto simp: parse_call_def bind_result_def err_simps split: option.splits if_splits)

lemma parse_message_throws:
  assumes "parse_message j = Inl x"
  shows "json_find ''method'' j = None \<and>
    (\<exists>ej. json_find ''error'' j = Some ej \<and> \<not> error_members_readable ej)"
proof -
  have no_method: "json_find ''method'' j = None"
    using assms
    by (auto simp: parse_message_def split: if_splits option.splits)
  with assms have resp: "parse_response j = Inl x"
    by (auto simp: parse_message_def split: if_splits)
  then show ?thesis
  proof (cases "json_find ''error'' j")
    case None
    with resp show ?thesis
      by (auto simp: parse_response_def err_simps json_contains_def
          split: if_splits option.splits)
  next
    case (Some ej)
    with resp have "error_from_json ej = Inl x"
      by (auto simp: parse_response_def err_simps
          split: if_splits option.splits)
    then have "\<not> error_members_readable ej"
      using error_from_json_total [of ej] by auto
    with Some no_method show ?thesis by simp
  qed
qed

subsection \<open>Frames\<close>

lemma parse_items_spec:
  assumes "parse_items items f = Inr g"
  shows "\<exists>rs. traverse parse_message items = Inr rs \<and>
    messages g = messages f @ [m. Inr m \<leftarrow> rs] \<and>
    item_errors g = item_errors f @ [e. Inl e \<leftarrow> rs] \<and> was_batch g = was_batch f"
  using assms
proof (induction items arbitrary: f)
  case Nil
  then show ?case by simp
next
  case (Cons item items)
  then obtain r where r: "parse_message item = Inr r" by (auto simp: err_simps)
  with Cons.prems Cons.IH show ?case by (cases r) fastforce+
qed

lemma parse_items_all_valid:
  assumes "\<And>m. m \<in> set ms \<Longrightarrow> valid_message m"
  shows "parse_items (map message_to_json ms) f = Inr (f\<lparr>messages := messages f @ ms\<rparr>)"
  using assms by (induction ms arbitrary: f) (simp_all add: parse_message_to_json)

lemma parse_frame_messages_valid:
  assumes "parse_frame parse text = returns f" and "m \<in> set (messages f)"
  shows "valid_message m"
proof (cases "parse text")
  case None
  with assms show ?thesis by (simp add: parse_frame_def)
next
  case (Some j)
  show ?thesis
  proof (cases "is_array j")
    case True
    with Some assms(1) obtain items where
      items: "parse_items items \<lparr>messages = [], item_errors = [], was_batch = True\<rparr> = Inr f"
      by (cases j) (auto simp: parse_frame_def err_simps split: if_splits)
    from parse_items_spec [OF items] assms(2) obtain rs where
      "traverse parse_message items = Inr rs" "Inr m \<in> set rs" by auto
    then obtain i where "i < length items" "parse_message (items ! i) = returns m"
      by (metis in_set_conv_nth traverse_eq_Inr_length traverse_eq_Inr_nth)
    then show ?thesis by (blast intro: parse_message_valid)
  next
    case False
    with Some assms(1) obtain m' where "parse_message j = returns m'" "messages f = [m']"
      by (cases j) (auto simp: parse_frame_def err_simps)
    with assms(2) show ?thesis by (auto intro: parse_message_valid)
  qed
qed

lemma traverse_results_split:
  "traverse f xs = Inr rs \<Longrightarrow> length [m. Inr m \<leftarrow> rs] + length [e. Inl e \<leftarrow> rs] = length xs"
proof (induction xs arbitrary: rs)
  case (Cons x xs)
  then obtain r rs' where "rs = r # rs'" "traverse f xs = Inr rs'" by (auto simp: err_simps)
  with Cons.IH [of rs'] show ?case by (cases r) simp_all
qed simp

lemma traverse_results_error:
  "traverse f xs = Inr rs \<Longrightarrow> (\<And>x e. f x = Inr (Inl e) \<Longrightarrow> P e) \<Longrightarrow> e \<in> set [e. Inl e \<leftarrow> rs] \<Longrightarrow> P e"
proof (induction xs arbitrary: rs)
  case (Cons x xs)
  then obtain r rs' where "rs = r # rs'" "f x = Inr r" "traverse f xs = Inr rs'" by (auto simp: err_simps)
  with Cons show ?case by (cases r) auto
qed simp

lemma parse_frame_shape:
  assumes "parse_frame parse text = returns f"
  shows "(\<forall>e \<in> set (item_errors f). err_code e = -32600) \<and>
    length (messages f) + length (item_errors f) =
      (case parse text of Some (JArr items) \<Rightarrow> length items | _ \<Rightarrow> 1)"
proof (cases "\<exists>items. parse text = Some (JArr items)")
  case True
  then obtain items where items: "parse text = Some (JArr items)" by blast
  with assms obtain rs where rs: "traverse parse_message items = Inr rs"
    "messages f = [m. Inr m \<leftarrow> rs]" "item_errors f = [e. Inl e \<leftarrow> rs]"
    by (auto simp: parse_frame_def err_simps split: if_splits dest: parse_items_spec)
  have "err_code e = -32600" if "e \<in> set (item_errors f)" for e
    using traverse_results_error [OF rs(1), of "\<lambda>e. err_code e = -32600" e] that
    by (simp add: rs(3) parse_message_error_code)
  with traverse_results_split [OF rs(1)] items show ?thesis by (simp add: rs(2,3))
next
  case False
  with assms show ?thesis
    by (auto simp: parse_frame_def err_simps split: option.splits json.splits)
qed

lemma parse_frame_error_code:
  "parse_frame parse text = Inr (Inl e) \<Longrightarrow> err_code e = -32700 \<or> err_code e = -32600"
  by (auto simp: parse_frame_def Let_def err_simps dest: parse_message_error_code
      split: option.splits json.splits if_splits)

subsection \<open>Properties\<close>

text \<open>
  C30. A batch of well-formed messages survives the wire: what \<^verbatim>\<open>serialize_batch\<close> prints,
  \<^verbatim>\<open>parse_frame\<close> reads back as the same messages in the same order, with no item error.  The JSON
  library is taken to parse what it prints.
\<close>

theorem batch_frame_roundtrip:
  assumes "\<And>j t. dump j = Inr t \<Longrightarrow> parse t = Some j"
    and "\<forall>m \<in> set ms. valid_message m" and "ms \<noteq> []" and "serialize_batch dump ms = Inr text"
  shows "parse_frame parse text = returns \<lparr>messages = ms, item_errors = [], was_batch = True\<rparr>"
  using assms(1) [OF assms(4) [unfolded serialize_batch_def]] assms(2,3)
  by (simp add: parse_frame_def parse_items_all_valid)

lemma batch_frame_roundtrip_witness:
  "parse_frame (\<lambda>t. Some (JArr [message_to_json (Notification \<lparr>note_method = ''a'', note_params = None\<rparr>)]))
     ''x'' = returns \<lparr>messages = [Notification \<lparr>note_method = ''a'', note_params = None\<rparr>],
       item_errors = [], was_batch = True\<rparr>"
  by (rule batch_frame_roundtrip [where dump = "\<lambda>j.
        if j = JArr [message_to_json (Notification \<lparr>note_method = ''a'', note_params = None\<rparr>)]
        then Inr ''x'' else Inl (Std_Exn ''y'')"])
    (simp_all add: serialize_batch_def split: if_splits)



text \<open>
  The one way an exception leaves the parser: a response whose error object has the two required
  members but an unreadable code or message.  It leaves \<^verbatim>\<open>parse_frame\<close> too, and takes the valid
  messages of the batch with it.
\<close>

theorem unreadable_error_object_escapes:
  "(\<forall>j x. parse_message j = Inl x \<longrightarrow>
      (\<exists>ej. json_find ''error'' j = Some ej \<and> \<not> error_members_readable ej)) \<and>
   (\<exists>bad. \<forall>m. valid_message m \<longrightarrow>
      (\<exists>x. parse_frame (\<lambda>t. Some (JArr [message_to_json m, bad])) text = Inl x))"
proof -
  let ?bad = "json_obj [(''jsonrpc'', JStr ''2.0''), (''id'', JInt 1),
    (''error'', json_obj [(''code'', JStr ''one''), (''message'', JStr ''m'')])]"
  have "\<exists>x. parse_message ?bad = Inl x"
    by (auto simp: parse_message_def parse_response_def error_from_json_def json_obj_def json_contains_def
        get_int32_def)
  then have "\<exists>x. parse_frame (\<lambda>t. Some (JArr [message_to_json m, ?bad])) text = Inl x"
    if "valid_message m" for m
    using that by (auto simp: parse_frame_def parse_message_to_json)
  then show ?thesis using parse_message_throws by blast
qed

lemma unreadable_error_object_escapes_witness:
  "\<exists>bad x. parse_frame (\<lambda>t. Some (JArr
      [message_to_json (Notification \<lparr>note_method = ''a'', note_params = None\<rparr>), bad])) ''x'' = Inl x"
proof -
  have valid: "valid_message (Notification \<lparr>note_method = ''a'', note_params = None\<rparr>)" by simp
  from unreadable_error_object_escapes [of "''x''"] valid show ?thesis by blast
qed

end
