(* ===== verification/Mcp_Router.thy ===== *)
theory Mcp_Router
  imports Mcp_Message
begin

text \<open>
  The message router (\<^verbatim>\<open>include/mcp/core/router.hpp\<close>, \<^verbatim>\<open>src/core/router.cpp\<close>): handler tables with
  wildcard patterns, the table of requests awaiting a response, and dispatch.

  A \<^verbatim>\<open>std::function\<close> is a value of \<open>'h option\<close>, \<open>None\<close> being the empty function.  The handlers are
  tokens of a type chosen by the owner of the router, who also says what running one does to its
  state; this is how a handler that captures the session, the server or the client is modelled.
  Response callbacks are tokens too: invoking one is an event in the owner's trace.
\<close>

subsection \<open>Handler tables\<close>

record 'h handler_table =
  exact :: "string \<Rightarrow> 'h option option"
  wildcards :: "(string \<times> 'h option) list"

definition empty_table :: "'h handler_table" where
  "empty_table = \<lparr>exact = (\<lambda>_. None), wildcards = []\<rparr>"

definition is_wildcard :: "string \<Rightarrow> bool" where
  "is_wildcard m \<longleftrightarrow> m \<noteq> [] \<and> last m = CHR ''*''"

text \<open>The longest matching prefix wins; among equally long ones, the first registered.\<close>

fun match_wildcard_from :: "(string \<times> 'h option) option \<Rightarrow> (string \<times> 'h option) list \<Rightarrow> string \<Rightarrow>
    (string \<times> 'h option) option" where
  "match_wildcard_from best [] m = best"
| "match_wildcard_from best (e # es) m =
     (if starts_with m (fst e) \<and>
         (case best of None \<Rightarrow> True | Some b \<Rightarrow> length (fst e) > length (fst b))
      then match_wildcard_from (Some e) es m
      else match_wildcard_from best es m)"

definition match_wildcard :: "(string \<times> 'h option) list \<Rightarrow> string \<Rightarrow> 'h option" where
  "match_wildcard es m = (case match_wildcard_from None es m of None \<Rightarrow> None | Some b \<Rightarrow> snd b)"

definition set_handler :: "string \<Rightarrow> 'h option \<Rightarrow> 'h handler_table \<Rightarrow> 'h handler_table" where
  "set_handler m h t =
     (if is_wildcard m then t\<lparr>wildcards := wildcards t @ [(butlast m, h)]\<rparr>
      else t\<lparr>exact := (exact t)(m \<mapsto> h)\<rparr>)"

definition find_handler :: "'h handler_table \<Rightarrow> string \<Rightarrow> 'h option" where
  "find_handler t m =
     (case exact t m of Some h \<Rightarrow> h | None \<Rightarrow> match_wildcard (wildcards t) m)"

text \<open>
  The contract the owners of a table rely on: a handler set for a plain method name is the one that
  is found for it, and it disturbs no other method.  Installing a list of handlers, as the
  constructors of the sessions and \<^verbatim>\<open>Server::attach\<close> do, is proved once here.
\<close>

locale handler_registry =
  fixes set_h :: "string \<Rightarrow> 'h option \<Rightarrow> 't \<Rightarrow> 't" and find_h :: "'t \<Rightarrow> string \<Rightarrow> 'h option"
  assumes find_set: "\<not> is_wildcard m \<Longrightarrow> find_h (set_h m h t) m = h"
    and find_other: "\<not> is_wildcard m \<Longrightarrow> m' \<noteq> m \<Longrightarrow> find_h (set_h m h t) m' = find_h t m'"
begin

lemma find_install_other:
  assumes "\<forall>p \<in> set hs. \<not> is_wildcard (fst p)" and "m \<notin> fst ` set hs"
  shows "find_h (foldl (\<lambda>t (m, h). set_h m h t) t hs) m = find_h t m"
  using assms by (induction hs arbitrary: t) (auto simp: find_other)

lemma find_install:
  assumes "\<forall>p \<in> set hs. \<not> is_wildcard (fst p)" and "distinct (map fst hs)" and "(m, h) \<in> set hs"
  shows "find_h (foldl (\<lambda>t (m, h). set_h m h t) t hs) m = h"
  using assms
proof (induction hs arbitrary: t)
  case Nil
  then show ?case by simp
next
  case (Cons p hs)
  show ?case
  proof (cases "(m, h) = p")
    case True
    with Cons.prems have mh: "m \<notin> fst ` set hs" by (cases p) auto
    then have "find_h (foldl (\<lambda>t (m, h). set_h m h t) (set_h m h t) hs) m = find_h (set_h m h t) m"
      using Cons.prems(1) mh by (intro find_install_other) simp_all
    with Cons.prems(1) True show ?thesis by (auto simp: find_set)
  next
    case False
    with Cons show ?thesis by (auto simp: split_beta)
  qed
qed

end

lemma find_set_handler: "\<not> is_wildcard m \<Longrightarrow> find_handler (set_handler m h t) m = h"
  by (simp add: find_handler_def set_handler_def)

lemma find_set_handler_other:
  "\<not> is_wildcard m \<Longrightarrow> m' \<noteq> m \<Longrightarrow> find_handler (set_handler m h t) m' = find_handler t m'"
  by (simp add: find_handler_def set_handler_def split: option.split)

interpretation table: handler_registry set_handler find_handler
  by unfold_locales (simp_all add: find_set_handler find_set_handler_other)

text \<open>The choice among wildcard patterns.\<close>

lemma match_wildcard_from_Some:
  assumes "match_wildcard_from best es m = Some b"
  shows "best = Some b \<or> (b \<in> set es \<and> starts_with m (fst b))"
  using assms by (induction best es m rule: match_wildcard_from.induct) (auto split: if_splits)

lemma match_wildcard_from_longest:
  assumes "match_wildcard_from best es m = Some b"
  shows "(\<forall>e \<in> set es. starts_with m (fst e) \<longrightarrow> length (fst e) \<le> length (fst b)) \<and>
    (\<forall>b'. best = Some b' \<longrightarrow> length (fst b') \<le> length (fst b))"
  using assms
proof (induction best es m rule: match_wildcard_from.induct)
  case (2 best e es m)
  then show ?case by (cases best) (auto split: if_splits)
qed simp

lemma match_wildcard_from_None:
  "match_wildcard_from best es m = None \<longleftrightarrow>
     best = None \<and> (\<forall>e \<in> set es. \<not> starts_with m (fst e))"
  by (induction best es m rule: match_wildcard_from.induct) (auto split: if_splits option.splits)

lemma match_wildcard_cases:
  "(match_wildcard es m = None \<and> (\<forall>e \<in> set es. \<not> starts_with m (fst e))) \<or>
   (\<exists>p. (p, match_wildcard es m) \<in> set es \<and> starts_with m p \<and>
     (\<forall>e \<in> set es. starts_with m (fst e) \<longrightarrow> length (fst e) \<le> length p))"
proof (cases "match_wildcard_from None es m")
  case None
  then have "match_wildcard es m = None" "\<forall>e \<in> set es. \<not> starts_with m (fst e)"
    using match_wildcard_from_None [of None es m] by (simp_all add: match_wildcard_def)
  then show ?thesis by simp
next
  case (Some b)
  with match_wildcard_from_Some [OF Some] match_wildcard_from_longest [OF Some]
  have "(fst b, match_wildcard es m) \<in> set es \<and> starts_with m (fst b) \<and>
      (\<forall>e \<in> set es. starts_with m (fst e) \<longrightarrow> length (fst e) \<le> length (fst b))"
    by (auto simp: match_wildcard_def)
  then show ?thesis by blast
qed

subsection \<open>Pending requests\<close>

record ('rh, 'nh, 'cb) router =
  request_handlers :: "'rh handler_table"
  notification_handlers :: "'nh handler_table"
  pending :: "(request_id \<times> 'cb) list"

definition empty_router :: "('rh, 'nh, 'cb) router" where
  "empty_router =
     \<lparr>request_handlers = empty_table, notification_handlers = empty_table, pending = []\<rparr>"

definition set_request_handler :: "string \<Rightarrow> 'rh option \<Rightarrow> ('rh, 'nh, 'cb) router \<Rightarrow> ('rh, 'nh, 'cb) router" where
  "set_request_handler m h r = r\<lparr>request_handlers := set_handler m h (request_handlers r)\<rparr>"

definition set_notification_handler :: "string \<Rightarrow> 'nh option \<Rightarrow> ('rh, 'nh, 'cb) router \<Rightarrow> ('rh, 'nh, 'cb) router" where
  "set_notification_handler m h r =
     r\<lparr>notification_handlers := set_handler m h (notification_handlers r)\<rparr>"

definition find_request_handler :: "('rh, 'nh, 'cb) router \<Rightarrow> string \<Rightarrow> 'rh option" where
  "find_request_handler r m = find_handler (request_handlers r) m"

definition find_notification_handler :: "('rh, 'nh, 'cb) router \<Rightarrow> string \<Rightarrow> 'nh option" where
  "find_notification_handler r m = find_handler (notification_handlers r) m"

definition has_request_handler :: "('rh, 'nh, 'cb) router \<Rightarrow> string \<Rightarrow> bool" where
  "has_request_handler r m \<longleftrightarrow> find_request_handler r m \<noteq> None"

interpretation request_table: handler_registry set_request_handler find_request_handler
  by unfold_locales
    (simp_all add: set_request_handler_def find_request_handler_def table.find_set table.find_other)

interpretation notification_table: handler_registry set_notification_handler find_notification_handler
  by unfold_locales
    (simp_all add: set_notification_handler_def find_notification_handler_def table.find_set
      table.find_other)

definition register_pending :: "request_id \<Rightarrow> 'cb \<Rightarrow> ('rh, 'nh, 'cb) router \<Rightarrow> ('rh, 'nh, 'cb) router" where
  "register_pending i cb r = r\<lparr>pending := AList.update i cb (pending r)\<rparr>"

definition take_pending :: "request_id \<Rightarrow> ('rh, 'nh, 'cb) router \<Rightarrow> 'cb option \<times> ('rh, 'nh, 'cb) router" where
  "take_pending i r =
     (case map_of (pending r) i of
        None \<Rightarrow> (None, r)
      | Some cb \<Rightarrow> (Some cb, r\<lparr>pending := AList.delete i (pending r)\<rparr>))"

text \<open>
  The functions that invoke callbacks return the invocations, in order: which request, which
  callback, and what it receives.
\<close>

type_synonym 'cb invocation = "request_id \<times> 'cb \<times> json result"

definition fail_pending :: "request_id \<Rightarrow> error \<Rightarrow> ('rh, 'nh, 'cb) router \<Rightarrow>
    'cb invocation list \<times> ('rh, 'nh, 'cb) router" where
  "fail_pending i e r =
     (case take_pending i r of
        (None, r') \<Rightarrow> ([], r')
      | (Some cb, r') \<Rightarrow> ([(i, cb, Inl e)], r'))"

definition fail_all_pending :: "error \<Rightarrow> ('rh, 'nh, 'cb) router \<Rightarrow>
    'cb invocation list \<times> ('rh, 'nh, 'cb) router" where
  "fail_all_pending e r = (map (\<lambda>(i, cb). (i, cb, Inl e)) (pending r), r\<lparr>pending := []\<rparr>)"

definition dispatch_response :: "jsonrpc_response \<Rightarrow> ('rh, 'nh, 'cb) router \<Rightarrow>
    'cb invocation list \<times> ('rh, 'nh, 'cb) router" where
  "dispatch_response resp r =
     (case resp_id resp of
        None \<Rightarrow> ([], r)
      | Some i \<Rightarrow>
          (case take_pending i r of
             (None, r') \<Rightarrow> ([], r')
           | (Some cb, r') \<Rightarrow>
               ([(i, cb, case resp_error resp of
                    Some e \<Rightarrow> Inl e
                  | None \<Rightarrow> Inr (case resp_result resp of Some j \<Rightarrow> j | None \<Rightarrow> JNull))], r')))"

lemma pending_register [simp]:
  "map_of (pending (register_pending i cb r)) = (map_of (pending r))(i \<mapsto> cb)"
  by (simp add: register_pending_def update_conv')

lemma take_pending_fst [simp]: "fst (take_pending i r) = map_of (pending r) i"
  by (simp add: take_pending_def split: option.splits)

lemma take_pending_lookup [simp]:
  "map_of (pending (snd (take_pending i r))) = (map_of (pending r))(i := None)"
  by (auto simp: take_pending_def delete_conv' fun_eq_iff split: option.splits)

lemma take_pending_frame [simp]:
  "request_handlers (snd (take_pending i r)) = request_handlers r"
  "notification_handlers (snd (take_pending i r)) = notification_handlers r"
  by (simp_all add: take_pending_def split: option.splits)

definition distinct_pending :: "('rh, 'nh, 'cb) router \<Rightarrow> bool" where
  "distinct_pending r \<longleftrightarrow> distinct (map fst (pending r))"

lemma distinct_pending_steps [simp]:
  "distinct_pending empty_router"
  "distinct_pending r \<Longrightarrow> distinct_pending (register_pending i cb r)"
  "distinct_pending r \<Longrightarrow> distinct_pending (snd (take_pending i r))"
  "distinct_pending (snd (fail_all_pending e r))"
  "distinct_pending (set_request_handler m h r) = distinct_pending r"
  "distinct_pending (set_notification_handler m k r) = distinct_pending r"
  by (simp_all add: distinct_pending_def empty_router_def register_pending_def take_pending_def
      fail_all_pending_def set_request_handler_def set_notification_handler_def distinct_update
      distinct_delete split: option.splits)

lemma fail_pending_alt:
  "fail_pending i e r =
     ((case map_of (pending r) i of None \<Rightarrow> [] | Some cb \<Rightarrow> [(i, cb, Inl e)]), snd (take_pending i r))"
  by (simp add: fail_pending_def take_pending_def split: option.splits)

lemma dispatch_response_alt:
  "resp_id resp = Some i \<Longrightarrow> dispatch_response resp r =
     ((case map_of (pending r) i of
         None \<Rightarrow> []
       | Some cb \<Rightarrow> [(i, cb, case resp_error resp of
             Some e \<Rightarrow> Inl e
           | None \<Rightarrow> Inr (case resp_result resp of Some j \<Rightarrow> j | None \<Rightarrow> JNull))]),
      snd (take_pending i r))"
  by (simp add: dispatch_response_def take_pending_def split: option.splits)

subsection \<open>Dispatch of requests and notifications\<close>

text \<open>
  \<open>run\<close> runs a handler on the owner's state.  Exceptions of a request handler become error
  responses; those of a notification handler leave \<open>dispatch\<close>.
\<close>

definition dispatch_request :: "('rh \<Rightarrow> json option \<Rightarrow> 's \<Rightarrow> json result throws \<times> 's) \<Rightarrow>
    ('rh, 'nh, 'cb) router \<Rightarrow> jsonrpc_request \<Rightarrow> 's \<Rightarrow> jsonrpc_response throws \<times> 's" where
  "dispatch_request run r q s =
     (case find_request_handler r (req_method q) of
        None \<Rightarrow>
          (Inr (error_response (Some (req_id q))
             (mk_error MethodNotFound (''Method not found: '' @ req_method q))), s)
      | Some h \<Rightarrow>
          (let (out, s') = run h (req_params q) s
           in (mapE (\<lambda>res. case res of
                  Inr j \<Rightarrow> result_response (Some (req_id q)) j
                | Inl e \<Rightarrow> error_response (Some (req_id q)) e)
                (catch_all Inl (\<lambda>w. Inl (mk_error InternalError w)) out), s')))"

definition dispatch_notification :: "('nh \<Rightarrow> json option \<Rightarrow> 's \<Rightarrow> unit throws \<times> 's) \<Rightarrow>
    ('rh, 'nh, 'cb) router \<Rightarrow> jsonrpc_notification \<Rightarrow> 's \<Rightarrow> unit throws \<times> 's" where
  "dispatch_notification run r n s =
     (case find_notification_handler r (note_method n) of
        None \<Rightarrow> (Inr (), s)
      | Some h \<Rightarrow> run h (note_params n) s)"

lemma dispatch_request_answers:
  assumes "\<And>h. no_ub (fst (run h (req_params q) s))"
  shows "\<exists>resp. fst (dispatch_request run r q s) = Inr resp \<and> resp_id resp = Some (req_id q) \<and>
    (resp_result resp = None) \<noteq> (resp_error resp = None)"
proof (cases "find_request_handler r (req_method q)")
  case None
  then show ?thesis by (simp add: dispatch_request_def error_response_def)
next
  case (Some h)
  obtain res where "catch_all Inl (\<lambda>w. Inl (mk_error InternalError w)) (fst (run h (req_params q) s)) = Inr res"
    using catch_all_total [OF assms] by metis
  with Some show ?thesis
    by (cases res)
      (simp_all add: dispatch_request_def split_beta Let_def error_response_def result_response_def)
qed

subsection \<open>Properties\<close>

text \<open>
  Dispatch finds the right handler: the one registered for the exact method name if there is one;
  otherwise the handler of the longest registered prefix of the method name, and none when no prefix
  matches.  Registering a plain name changes the lookup of that name only.
\<close>

theorem handler_lookup:
  "(\<forall>h. exact t m = Some h \<longrightarrow> find_handler t m = h) \<and>
   (exact t m = None \<longrightarrow>
      (find_handler t m = None \<and> (\<forall>e \<in> set (wildcards t). \<not> starts_with m (fst e))) \<or>
      (\<exists>p. (p, find_handler t m) \<in> set (wildcards t) \<and> starts_with m p \<and>
        (\<forall>e \<in> set (wildcards t). starts_with m (fst e) \<longrightarrow> length (fst e) \<le> length p))) \<and>
   (\<not> is_wildcard m' \<longrightarrow> find_handler (set_handler m' h' t) m = (if m = m' then h' else find_handler t m))"
  using match_wildcard_cases [of "wildcards t" m] table.find_set [of m' h' t] table.find_other [of m' m h' t]
  by (auto simp: find_handler_def)

lemma handler_lookup_witness:
  "find_handler (set_handler ''ping'' (Some 1) (empty_table :: nat handler_table)) ''ping'' = Some 1"
  using handler_lookup [of "empty_table :: nat handler_table" "''ping''" "''ping''" "Some 1"]
  by (simp add: is_wildcard_def)

end
