(* ===== verification/Mcp_Notifications.thy ===== *)
theory Mcp_Notifications
  imports Mcp_Message
begin

text \<open>
  Payloads of \<^verbatim>\<open>notifications/cancelled\<close> (\<^verbatim>\<open>include/mcp/core/cancellation.hpp\<close>) and
  \<^verbatim>\<open>notifications/progress\<close> (\<^verbatim>\<open>include/mcp/core/progress.hpp\<close>).
\<close>

record cancelled_notification =
  cn_request_id :: request_id
  cn_reason :: "string option"

definition cancelled_to_json :: "cancelled_notification \<Rightarrow> json" where
  "cancelled_to_json n =
     JObj (set_optional JStr ''reason'' (cn_reason n)
       (mk_members [(''requestId'', request_id_to_json (cn_request_id n))]))"

definition cancelled_from_json :: "json \<Rightarrow> cancelled_notification result throws" where
  "cancelled_from_json j =
     (if \<not> is_object j \<or> \<not> json_contains ''requestId'' j
      then fails InvalidParams ''malformed cancelled notification''
      else bindE (json_at ''requestId'' j) (\<lambda>ij.
        case request_id_from_json ij of
          None \<Rightarrow> fails InvalidParams ''requestId must be a string or integer''
        | Some i \<Rightarrow>
            bindE (get_optional get_string ''reason'' j) (\<lambda>reason.
            returns \<lparr>cn_request_id = i, cn_reason = reason\<rparr>)))"

record progress_notification =
  pn_token :: request_id
  pn_progress :: rat
  pn_total :: "rat option"
  pn_message :: "string option"

definition progress_to_json :: "progress_notification \<Rightarrow> json" where
  "progress_to_json n =
     JObj (set_optional JStr ''message'' (pn_message n)
          (set_optional JFloat ''total'' (pn_total n)
          (mk_members [(''progressToken'', request_id_to_json (pn_token n)),
                       (''progress'', JFloat (pn_progress n))])))"

definition progress_from_json :: "json \<Rightarrow> progress_notification result throws" where
  "progress_from_json j =
     (if \<not> is_object j \<or> \<not> json_contains ''progressToken'' j \<or>
         (case json_find ''progress'' j of None \<Rightarrow> True | Some p \<Rightarrow> \<not> is_number p)
      then fails InvalidParams ''malformed progress notification''
      else bindE (json_at ''progressToken'' j) (\<lambda>tj.
        case request_id_from_json tj of
          None \<Rightarrow> fails InvalidParams ''progressToken must be a string or integer''
        | Some t \<Rightarrow>
            bindE (bindE (json_at ''progress'' j) get_double) (\<lambda>progress.
            bindE (get_optional get_double ''total'' j) (\<lambda>total.
            bindE (get_optional get_string ''message'' j) (\<lambda>msg.
            returns \<lparr>pn_token = t, pn_progress = progress, pn_total = total, pn_message = msg\<rparr>)))))"

lemma cancelled_roundtrip:
  "valid_id (cn_request_id n) \<Longrightarrow> cancelled_from_json (cancelled_to_json n) = returns n"
  by (simp add: cancelled_from_json_def cancelled_to_json_def json_contains_def
      string_codec.field_roundtrip)

lemma progress_roundtrip:
  "valid_id (pn_token n) \<Longrightarrow> progress_from_json (progress_to_json n) = returns n"
  by (simp add: progress_from_json_def progress_to_json_def json_contains_def is_number_def
      string_codec.field_roundtrip double_codec.field_roundtrip)

lemma cancelled_from_json_id:
  "cancelled_from_json j = returns n \<Longrightarrow>
    (\<exists>ij. json_find ''requestId'' j = Some ij \<and> request_id_from_json ij = Some (cn_request_id n))"
  by (auto simp: cancelled_from_json_def err_simps json_simps split: if_splits option.splits)

end
