(* ===== verification/Mcp_Types.thy ===== *)
theory Mcp_Types
  imports Mcp_Message
begin

text \<open>
  Capabilities (\<^verbatim>\<open>include/mcp/capabilities.hpp\<close>), implementation info and the payloads of the
  initialize handshake (\<^verbatim>\<open>include/mcp/types.hpp\<close>), each with its \<^verbatim>\<open>to_json\<close> and \<^verbatim>\<open>from_json\<close>, shown to
  be inverse to each other on the values the wire can carry.
\<close>

definition kProtocolVersion :: string where
  "kProtocolVersion = ''2025-11-25''"

subsection \<open>Capability flags\<close>

text \<open>A flag that is present but no boolean counts as enabled.\<close>

definition flag_field :: "json option \<Rightarrow> bool option" where
  "flag_field f =
     (case f of
        None \<Rightarrow> None
      | Some v \<Rightarrow> if is_null v then None else Some (case v of JBool b \<Rightarrow> b | _ \<Rightarrow> True))"

definition get_capability_flag :: "string \<Rightarrow> json \<Rightarrow> bool option" where
  "get_capability_flag k j = flag_field (json_find k j)"

lemma flag_field_simps [simp, json_simps]:
  "flag_field None = None"
  "flag_field (Some JNull) = None"
  "flag_field (Some (JBool b)) = Some b"
  "flag_field (Some (JInt i)) = Some True"
  "flag_field (Some (JFloat r)) = Some True"
  "flag_field (Some (JStr s)) = Some True"
  "flag_field (Some (JArr xs)) = Some True"
  "flag_field (Some (JObj m)) = Some True"
  by (simp_all add: flag_field_def)

lemma flag_roundtrip [simp]:
  "flag_field (map_option JBool v) = v"
  by (cases v) simp_all

subsection \<open>Capability records\<close>

text \<open>The capabilities without fields (logging, completions, tasks) are the unit type.\<close>

record prompts_capability =
  pc_list_changed :: "bool option"

record resources_capability =
  rc_subscribe :: "bool option"
  rc_list_changed :: "bool option"

record tools_capability =
  tc_list_changed :: "bool option"

record roots_capability =
  rootc_list_changed :: "bool option"

record sampling_capability =
  sc_tools :: "bool option"
  sc_context :: "bool option"

record elicitation_capability =
  ec_form :: "bool option"
  ec_url :: "bool option"

record server_capabilities =
  sv_logging :: "unit option"
  sv_prompts :: "prompts_capability option"
  sv_resources :: "resources_capability option"
  sv_tools :: "tools_capability option"
  sv_completions :: "unit option"
  sv_tasks :: "unit option"
  sv_experimental :: "json option"

record client_capabilities =
  cl_roots :: "roots_capability option"
  cl_sampling :: "sampling_capability option"
  cl_elicitation :: "elicitation_capability option"
  cl_tasks :: "unit option"
  cl_experimental :: "json option"

definition unit_to_json :: "unit \<Rightarrow> json" where
  "unit_to_json u = JObj []"

definition unit_from_json :: "json \<Rightarrow> unit throws" where
  "unit_from_json j = Inr ()"

definition prompts_capability_to_json :: "prompts_capability \<Rightarrow> json" where
  "prompts_capability_to_json c = JObj (set_optional JBool ''listChanged'' (pc_list_changed c) [])"

definition prompts_capability_from_json :: "json \<Rightarrow> prompts_capability throws" where
  "prompts_capability_from_json j = Inr \<lparr>pc_list_changed = get_capability_flag ''listChanged'' j\<rparr>"

definition resources_capability_to_json :: "resources_capability \<Rightarrow> json" where
  "resources_capability_to_json c =
     JObj (set_optional JBool ''listChanged'' (rc_list_changed c)
            (set_optional JBool ''subscribe'' (rc_subscribe c) []))"

definition resources_capability_from_json :: "json \<Rightarrow> resources_capability throws" where
  "resources_capability_from_json j =
     Inr \<lparr>rc_subscribe = get_capability_flag ''subscribe'' j,
          rc_list_changed = get_capability_flag ''listChanged'' j\<rparr>"

definition tools_capability_to_json :: "tools_capability \<Rightarrow> json" where
  "tools_capability_to_json c = JObj (set_optional JBool ''listChanged'' (tc_list_changed c) [])"

definition tools_capability_from_json :: "json \<Rightarrow> tools_capability throws" where
  "tools_capability_from_json j = Inr \<lparr>tc_list_changed = get_capability_flag ''listChanged'' j\<rparr>"

definition roots_capability_to_json :: "roots_capability \<Rightarrow> json" where
  "roots_capability_to_json c = JObj (set_optional JBool ''listChanged'' (rootc_list_changed c) [])"

definition roots_capability_from_json :: "json \<Rightarrow> roots_capability throws" where
  "roots_capability_from_json j = Inr \<lparr>rootc_list_changed = get_capability_flag ''listChanged'' j\<rparr>"

definition sampling_capability_to_json :: "sampling_capability \<Rightarrow> json" where
  "sampling_capability_to_json c =
     JObj (set_optional JBool ''context'' (sc_context c)
            (set_optional JBool ''tools'' (sc_tools c) []))"

definition sampling_capability_from_json :: "json \<Rightarrow> sampling_capability throws" where
  "sampling_capability_from_json j =
     Inr \<lparr>sc_tools = get_capability_flag ''tools'' j, sc_context = get_capability_flag ''context'' j\<rparr>"

definition elicitation_capability_to_json :: "elicitation_capability \<Rightarrow> json" where
  "elicitation_capability_to_json c =
     JObj (set_optional JBool ''url'' (ec_url c) (set_optional JBool ''form'' (ec_form c) []))"

definition elicitation_capability_from_json :: "json \<Rightarrow> elicitation_capability throws" where
  "elicitation_capability_from_json j =
     Inr \<lparr>ec_form = get_capability_flag ''form'' j, ec_url = get_capability_flag ''url'' j\<rparr>"

lemmas capability_codec_defs =
  unit_to_json_def unit_from_json_def
  prompts_capability_to_json_def prompts_capability_from_json_def
  resources_capability_to_json_def resources_capability_from_json_def
  tools_capability_to_json_def tools_capability_from_json_def
  roots_capability_to_json_def roots_capability_from_json_def
  sampling_capability_to_json_def sampling_capability_from_json_def
  elicitation_capability_to_json_def elicitation_capability_from_json_def
  get_capability_flag_def

interpretation unit_codec: json_codec unit_to_json unit_from_json any_value
  by unfold_locales (simp_all add: capability_codec_defs)

interpretation prompts_cap_codec:
  json_codec prompts_capability_to_json prompts_capability_from_json any_value
  by unfold_locales (simp_all add: capability_codec_defs)

interpretation resources_cap_codec:
  json_codec resources_capability_to_json resources_capability_from_json any_value
  by unfold_locales (simp_all add: capability_codec_defs)

interpretation tools_cap_codec:
  json_codec tools_capability_to_json tools_capability_from_json any_value
  by unfold_locales (simp_all add: capability_codec_defs)

interpretation roots_cap_codec:
  json_codec roots_capability_to_json roots_capability_from_json any_value
  by unfold_locales (simp_all add: capability_codec_defs)

interpretation sampling_cap_codec:
  json_codec sampling_capability_to_json sampling_capability_from_json any_value
  by unfold_locales (simp_all add: capability_codec_defs)

interpretation elicitation_cap_codec:
  json_codec elicitation_capability_to_json elicitation_capability_from_json any_value
  by unfold_locales (simp_all add: capability_codec_defs)

lemmas capability_field_roundtrips =
  unit_codec.field_roundtrip prompts_cap_codec.field_roundtrip resources_cap_codec.field_roundtrip
  tools_cap_codec.field_roundtrip roots_cap_codec.field_roundtrip sampling_cap_codec.field_roundtrip
  elicitation_cap_codec.field_roundtrip raw_codec.field_roundtrip string_codec.field_roundtrip
  bool_codec.field_roundtrip double_codec.field_roundtrip

definition server_capabilities_to_json :: "server_capabilities \<Rightarrow> json" where
  "server_capabilities_to_json c =
     JObj (set_optional (\<lambda>j. j) ''experimental'' (sv_experimental c)
          (set_optional unit_to_json ''tasks'' (sv_tasks c)
          (set_optional unit_to_json ''completions'' (sv_completions c)
          (set_optional tools_capability_to_json ''tools'' (sv_tools c)
          (set_optional resources_capability_to_json ''resources'' (sv_resources c)
          (set_optional prompts_capability_to_json ''prompts'' (sv_prompts c)
          (set_optional unit_to_json ''logging'' (sv_logging c) [])))))))"

definition server_capabilities_from_json :: "json \<Rightarrow> server_capabilities throws" where
  "server_capabilities_from_json j =
     bindE (get_optional unit_from_json ''logging'' j) (\<lambda>logging.
     bindE (get_optional prompts_capability_from_json ''prompts'' j) (\<lambda>prompts.
     bindE (get_optional resources_capability_from_json ''resources'' j) (\<lambda>resources.
     bindE (get_optional tools_capability_from_json ''tools'' j) (\<lambda>tools.
     bindE (get_optional unit_from_json ''completions'' j) (\<lambda>completions.
     bindE (get_optional unit_from_json ''tasks'' j) (\<lambda>tasks.
     bindE (get_optional get_json ''experimental'' j) (\<lambda>experimental.
     Inr \<lparr>sv_logging = logging, sv_prompts = prompts, sv_resources = resources, sv_tools = tools,
          sv_completions = completions, sv_tasks = tasks, sv_experimental = experimental\<rparr>)))))))"

definition client_capabilities_to_json :: "client_capabilities \<Rightarrow> json" where
  "client_capabilities_to_json c =
     JObj (set_optional (\<lambda>j. j) ''experimental'' (cl_experimental c)
          (set_optional unit_to_json ''tasks'' (cl_tasks c)
          (set_optional elicitation_capability_to_json ''elicitation'' (cl_elicitation c)
          (set_optional sampling_capability_to_json ''sampling'' (cl_sampling c)
          (set_optional roots_capability_to_json ''roots'' (cl_roots c) [])))))"

definition client_capabilities_from_json :: "json \<Rightarrow> client_capabilities throws" where
  "client_capabilities_from_json j =
     bindE (get_optional roots_capability_from_json ''roots'' j) (\<lambda>roots.
     bindE (get_optional sampling_capability_from_json ''sampling'' j) (\<lambda>sampling.
     bindE (get_optional elicitation_capability_from_json ''elicitation'' j) (\<lambda>elicitation.
     bindE (get_optional unit_from_json ''tasks'' j) (\<lambda>tasks.
     bindE (get_optional get_json ''experimental'' j) (\<lambda>experimental.
     Inr \<lparr>cl_roots = roots, cl_sampling = sampling, cl_elicitation = elicitation,
          cl_tasks = tasks, cl_experimental = experimental\<rparr>)))))"

definition no_server_capabilities :: server_capabilities where
  "no_server_capabilities =
     \<lparr>sv_logging = None, sv_prompts = None, sv_resources = None, sv_tools = None,
      sv_completions = None, sv_tasks = None, sv_experimental = None\<rparr>"

definition no_client_capabilities :: client_capabilities where
  "no_client_capabilities =
     \<lparr>cl_roots = None, cl_sampling = None, cl_elicitation = None, cl_tasks = None,
      cl_experimental = None\<rparr>"

definition valid_server_capabilities :: "server_capabilities \<Rightarrow> bool" where
  "valid_server_capabilities c \<longleftrightarrow> pred_option non_null (sv_experimental c)"

definition valid_client_capabilities :: "client_capabilities \<Rightarrow> bool" where
  "valid_client_capabilities c \<longleftrightarrow> pred_option non_null (cl_experimental c)"

interpretation server_caps_codec:
  json_codec server_capabilities_to_json server_capabilities_from_json valid_server_capabilities
  by unfold_locales
    (simp add: server_capabilities_to_json_def server_capabilities_from_json_def
       valid_server_capabilities_def capability_field_roundtrips,
     simp add: server_capabilities_to_json_def)

interpretation client_caps_codec:
  json_codec client_capabilities_to_json client_capabilities_from_json valid_client_capabilities
  by unfold_locales
    (simp add: client_capabilities_to_json_def client_capabilities_from_json_def
       valid_client_capabilities_def capability_field_roundtrips,
     simp add: client_capabilities_to_json_def)

text \<open>Any JSON value reads as a capability record: the parser is lenient.\<close>

lemma opt_field_total: "(\<And>v. \<exists>x. get v = Inr x) \<Longrightarrow> \<exists>x. opt_field get f = Inr x"
  by (cases f) (auto simp: opt_field_def mapE_def split: sum.splits, metis Inr_Inl_False)

lemma server_capabilities_lenient: "\<exists>c. server_capabilities_from_json j = Inr c"
proof -
  have total: "\<exists>x. get_optional get k j = Inr x" if "\<And>v. \<exists>x. get v = Inr x" for get :: "json \<Rightarrow> 'a throws" and k
    using opt_field_total [of get, OF that] by (simp add: get_optional_def)
  show ?thesis
    unfolding server_capabilities_from_json_def err_simps
    by (intro exI conjI refl | rule total [THEN someI_ex] | simp add: capability_codec_defs)+
qed

subsection \<open>Handshake payloads\<close>

record implementation =
  impl_name :: string
  impl_title :: "string option"
  impl_version :: string

definition implementation_to_json :: "implementation \<Rightarrow> json" where
  "implementation_to_json i =
     JObj (set_optional JStr ''title'' (impl_title i)
       (mk_members [(''name'', JStr (impl_name i)), (''version'', JStr (impl_version i))]))"

definition implementation_from_json :: "json \<Rightarrow> implementation throws" where
  "implementation_from_json j =
     bindE (bindE (json_at ''name'' j) get_string) (\<lambda>name.
     bindE (bindE (json_at ''version'' j) get_string) (\<lambda>version.
     bindE (get_optional get_string ''title'' j) (\<lambda>title.
     Inr \<lparr>impl_name = name, impl_title = title, impl_version = version\<rparr>)))"

record initialize_params =
  ip_protocol_version :: string
  ip_capabilities :: client_capabilities
  ip_client_info :: implementation

definition initialize_params_to_json :: "initialize_params \<Rightarrow> json" where
  "initialize_params_to_json p =
     json_obj [(''protocolVersion'', JStr (ip_protocol_version p)),
               (''capabilities'', client_capabilities_to_json (ip_capabilities p)),
               (''clientInfo'', implementation_to_json (ip_client_info p))]"

definition initialize_params_from_json :: "json \<Rightarrow> initialize_params throws" where
  "initialize_params_from_json j =
     bindE (bindE (json_at ''protocolVersion'' j) get_string) (\<lambda>version.
     bindE (bindE (json_value get_json ''capabilities'' (JObj []) j) client_capabilities_from_json)
       (\<lambda>caps.
     bindE (bindE (json_at ''clientInfo'' j) implementation_from_json) (\<lambda>info.
     Inr \<lparr>ip_protocol_version = version, ip_capabilities = caps, ip_client_info = info\<rparr>)))"

record initialize_result =
  ir_protocol_version :: string
  ir_capabilities :: server_capabilities
  ir_server_info :: implementation
  ir_instructions :: "string option"

definition initialize_result_to_json :: "initialize_result \<Rightarrow> json" where
  "initialize_result_to_json r =
     JObj (set_optional JStr ''instructions'' (ir_instructions r)
       (mk_members [(''protocolVersion'', JStr (ir_protocol_version r)),
                    (''capabilities'', server_capabilities_to_json (ir_capabilities r)),
                    (''serverInfo'', implementation_to_json (ir_server_info r))]))"

definition initialize_result_from_json :: "json \<Rightarrow> initialize_result throws" where
  "initialize_result_from_json j =
     bindE (bindE (json_at ''protocolVersion'' j) get_string) (\<lambda>version.
     bindE (bindE (json_value get_json ''capabilities'' (JObj []) j) server_capabilities_from_json)
       (\<lambda>caps.
     bindE (bindE (json_at ''serverInfo'' j) implementation_from_json) (\<lambda>info.
     bindE (get_optional get_string ''instructions'' j) (\<lambda>instructions.
     Inr \<lparr>ir_protocol_version = version, ir_capabilities = caps, ir_server_info = info,
          ir_instructions = instructions\<rparr>))))"

interpretation implementation_codec:
  json_codec implementation_to_json implementation_from_json any_value
  by unfold_locales
    (simp_all add: implementation_to_json_def implementation_from_json_def
       string_codec.field_roundtrip)

lemma initialize_params_roundtrip:
  assumes "valid_client_capabilities (ip_capabilities p)"
  shows "initialize_params_from_json (initialize_params_to_json p) = Inr p"
  using assms
  by (simp add: initialize_params_to_json_def initialize_params_from_json_def json_obj_def
      json_value_def client_caps_codec.dec_enc implementation_codec.dec_enc)

lemma initialize_result_roundtrip:
  assumes "valid_server_capabilities (ir_capabilities r)"
  shows "initialize_result_from_json (initialize_result_to_json r) = Inr r"
  using assms
  by (simp add: initialize_result_to_json_def initialize_result_from_json_def json_value_def
      server_caps_codec.dec_enc implementation_codec.dec_enc string_codec.field_roundtrip)

text \<open>Decoding throws nothing but exceptions of the JSON library, which the callers catch.\<close>

definition json_only :: "'a throws \<Rightarrow> bool" where
  "json_only m \<longleftrightarrow> (\<forall>e. m = Inl e \<longrightarrow> (\<exists>w. e = Json_Exn w))"

lemma json_only_bind [intro]: "json_only m \<Longrightarrow> (\<And>x. json_only (f x)) \<Longrightarrow> json_only (bindE m f)"
  by (cases m) (auto simp: json_only_def)

lemma json_only_mapE [intro]: "json_only m \<Longrightarrow> json_only (mapE f m)"
  by (cases m) (auto simp: json_only_def)

lemma json_only_basic [simp, intro]:
  "json_only (Inr x)"
  "json_only (json_at k j)"
  "json_only (get_string j)"
  "json_only (get_bool j)"
  "json_only (get_double j)"
  "json_only (get_json j)"
  by (auto simp: json_only_def json_at_def get_string_def get_bool_def get_double_def wrong_type_def
      type_error_def out_of_range_def split: json.splits option.splits)

lemma json_only_opt_field [intro]: "(\<And>v. json_only (get v)) \<Longrightarrow> json_only (get_optional get k j)"
  by (cases "json_find k j") (auto simp: get_optional_def opt_field_def)

lemma json_only_value [intro]: "(\<And>v. json_only (get v)) \<Longrightarrow> json_only (json_value get k d j)"
  by (auto simp: json_value_def json_only_def type_error_def split: json.splits option.splits)

lemma json_only_implementation [simp]: "json_only (implementation_from_json j)"
  unfolding implementation_from_json_def by (intro json_only_bind json_only_opt_field json_only_basic)

lemma json_only_capabilities [simp]:
  "json_only (client_capabilities_from_json j)" "json_only (server_capabilities_from_json j)"
  unfolding client_capabilities_from_json_def server_capabilities_from_json_def
  by (intro json_only_bind json_only_opt_field json_only_basic;
      simp add: capability_codec_defs)+

lemma json_only_initialize [simp]:
  "json_only (initialize_params_from_json j)" "json_only (initialize_result_from_json j)"
  unfolding initialize_params_from_json_def initialize_result_from_json_def
  by (intro json_only_bind json_only_opt_field json_only_value json_only_basic
      json_only_implementation json_only_capabilities)+

end
