(* ===== verification/Mcp_Session.thy ===== *)
theory Mcp_Session
  imports Mcp_Router Mcp_Notifications Mcp_Types
begin

text \<open>
  The session (\<^verbatim>\<open>include/mcp/core/session.hpp\<close>, \<^verbatim>\<open>src/core/session.cpp\<close>): request/response
  correlation, timeouts, progress, cancellation and the lifecycle state, common to both ends.

  A session is a record; what the code does to the outside (a message handed to the transport, a
  callback invoked) is appended to its trace.  The server and the client session extend the record,
  as the classes extend \<^verbatim>\<open>Session\<close>; a virtual member is a parameter of the functions that call it.
  Time is a number of clock ticks passed in by the caller, callbacks are numbered, and the
  transport's \<^verbatim>\<open>send\<close> is taken not to throw.
\<close>

datatype session_state = Uninitialized | Initializing | Operating | Shutdown

type_synonym callback = nat

record deadline =
  dl_at :: int
  dl_timeout :: int
  dl_progress_token :: "request_id option"

record request_options =
  ro_timeout :: "int option"
  ro_progress_token :: "request_id option"
  ro_on_progress :: "callback option"

definition no_options :: request_options where
  "no_options = \<lparr>ro_timeout = None, ro_progress_token = None, ro_on_progress = None\<rparr>"

datatype effect =
    Sent message
  | Invoked request_id callback "json result"
  | Progressed callback progress_notification
  | Reported error
  | Closed
  | Disconnected

text \<open>The handlers the constructor installs, and those of the subclasses and the application.\<close>

datatype 'a req_handler = Ping_Handler | Other_Request 'a
datatype 'b note_handler = Progress_Handler | Cancelled_Handler | Other_Notification 'b

record ('a, 'b) session =
  s_router :: "('a req_handler, 'b note_handler, callback) router"
  s_state :: session_state
  s_next_request_id :: int
  s_deadlines :: "(request_id \<times> deadline) list"
  s_progress_callbacks :: "request_id \<Rightarrow> callback option"
  s_cancelled_incoming :: "request_id list"
  s_protected_request_id :: "request_id option"
  s_has_close_callback :: bool
  s_has_error_callback :: bool
  s_trace :: "effect list"

definition kMaxTrackedCancellations :: nat where
  "kMaxTrackedCancellations = 1024"

definition session_router :: "('a req_handler, 'b note_handler, callback) router" where
  "session_router =
     set_notification_handler kNotificationCancelled (Some Cancelled_Handler)
       (set_notification_handler kNotificationProgress (Some Progress_Handler)
         (set_request_handler kPing (Some Ping_Handler) empty_router))"

definition new_session :: "('a, 'b) session" where
  "new_session =
     \<lparr>s_router = session_router, s_state = Uninitialized, s_next_request_id = 1, s_deadlines = [],
      s_progress_callbacks = (\<lambda>_. None), s_cancelled_incoming = [], s_protected_request_id = None,
      s_has_close_callback = False, s_has_error_callback = False, s_trace = []\<rparr>"

definition emit :: "effect list \<Rightarrow> ('a, 'b, 'z) session_scheme \<Rightarrow> ('a, 'b, 'z) session_scheme" where
  "emit es s = s\<lparr>s_trace := s_trace s @ es\<rparr>"

definition set_state :: "session_state \<Rightarrow> ('a, 'b, 'z) session_scheme \<Rightarrow> ('a, 'b, 'z) session_scheme" where
  "set_state st s = s\<lparr>s_state := st\<rparr>"

definition send_message :: "message \<Rightarrow> ('a, 'b, 'z) session_scheme \<Rightarrow> ('a, 'b, 'z) session_scheme" where
  "send_message m s = emit [Sent m] s"

definition send_notification :: "string \<Rightarrow> json option \<Rightarrow> ('a, 'b, 'z) session_scheme \<Rightarrow>
    ('a, 'b, 'z) session_scheme" where
  "send_notification m params s =
     send_message (Notification \<lparr>note_method = m, note_params = params\<rparr>) s"

definition invoke :: "callback invocation list \<Rightarrow> ('a, 'b, 'z) session_scheme \<Rightarrow> ('a, 'b, 'z) session_scheme" where
  "invoke invs s = emit (map (\<lambda>(i, cb, r). Invoked i cb r) invs) s"

definition disconnect :: "('a, 'b, 'z) session_scheme \<Rightarrow> ('a, 'b, 'z) session_scheme" where
  "disconnect s = emit [Disconnected] (set_state Shutdown s)"

lemmas session_output_defs =
  emit_def set_state_def send_message_def send_notification_def invoke_def disconnect_def

subsection \<open>Outgoing requests\<close>

text \<open>\<^verbatim>\<open>p["_meta"]["progressToken"] = token\<close>\<close>

definition json_index :: "string \<Rightarrow> json \<Rightarrow> json throws" where
  "json_index k j =
     (case j of
        JObj m \<Rightarrow> Inr (case map_of m k of Some v \<Rightarrow> v | None \<Rightarrow> JNull)
      | JNull \<Rightarrow> Inr JNull
      | _ \<Rightarrow> Inl (type_error 305 (''cannot use operator[] with a string argument with '' @ type_name j)))"

definition add_progress_token :: "request_id \<Rightarrow> json option \<Rightarrow> json throws" where
  "add_progress_token token params =
     (let p = (case params of Some p \<Rightarrow> p | None \<Rightarrow> JObj []) in
      bindE (json_index ''_meta'' p) (\<lambda>meta.
      bindE (json_put ''progressToken'' (request_id_to_json token) meta) (\<lambda>meta'.
      json_put ''_meta'' meta' p)))"

definition track_request :: "int \<Rightarrow> request_id \<Rightarrow> request_options \<Rightarrow> ('a, 'b, 'z) session_scheme \<Rightarrow>
    ('a, 'b, 'z) session_scheme" where
  "track_request now i opts s =
     (let s = (case ro_timeout opts of
                 Some t \<Rightarrow> if t > 0
                   then s\<lparr>s_deadlines := AList.update i
                            \<lparr>dl_at = now + t, dl_timeout = t, dl_progress_token = ro_progress_token opts\<rparr>
                            (s_deadlines s)\<rparr>
                   else s
               | None \<Rightarrow> s)
      in case (ro_progress_token opts, ro_on_progress opts) of
           (Some token, Some cb) \<Rightarrow>
             s\<lparr>s_progress_callbacks := (s_progress_callbacks s)(token \<mapsto> cb)\<rparr>
         | _ \<Rightarrow> s)"

definition send_request :: "int \<Rightarrow> string \<Rightarrow> json option \<Rightarrow> callback \<Rightarrow> request_options \<Rightarrow>
    ('a, 'b, 'z) session_scheme \<Rightarrow> request_id throws \<times> ('a, 'b, 'z) session_scheme" where
  "send_request now m params cb opts s =
     (let i = Id_Int (s_next_request_id s);
          s = s\<lparr>s_next_request_id := wrap64 (s_next_request_id s + 1)\<rparr>
      in case (case ro_progress_token opts of
                 None \<Rightarrow> Inr params
               | Some token \<Rightarrow> mapE Some (add_progress_token token params)) of
           Inl e \<Rightarrow> (Inl e, s)
         | Inr params' \<Rightarrow>
             let s = s\<lparr>s_router := register_pending i cb (s_router s)\<rparr>;
                 s = track_request now i opts s;
                 s = send_message (Request \<lparr>req_id = i, req_method = m, req_params = params'\<rparr>) s
             in (Inr i, s))"

definition clear_tracking :: "request_id \<Rightarrow> ('a, 'b, 'z) session_scheme \<Rightarrow> ('a, 'b, 'z) session_scheme" where
  "clear_tracking i s =
     (case map_of (s_deadlines s) i of
        None \<Rightarrow> s
      | Some d \<Rightarrow>
          s\<lparr>s_progress_callbacks :=
               (case dl_progress_token d of
                  None \<Rightarrow> s_progress_callbacks s
                | Some token \<Rightarrow> (s_progress_callbacks s)(token := None)),
            s_deadlines := AList.delete i (s_deadlines s)\<rparr>)"

definition cancelled_note :: "request_id \<Rightarrow> string option \<Rightarrow> message" where
  "cancelled_note i reason =
     Notification \<lparr>note_method = kNotificationCancelled,
       note_params = Some (cancelled_to_json \<lparr>cn_request_id = i, cn_reason = reason\<rparr>)\<rparr>"

definition cancel_request :: "request_id \<Rightarrow> string option \<Rightarrow> ('a, 'b, 'z) session_scheme \<Rightarrow>
    ('a, 'b, 'z) session_scheme" where
  "cancel_request i reason s =
     (let s = clear_tracking i s;
          (taken, r) = take_pending i (s_router s);
          s = s\<lparr>s_router := r\<rparr>
      in case taken of
           None \<Rightarrow> s
         | Some cb \<Rightarrow>
             let s = send_message (cancelled_note i reason) s
             in invoke [(i, cb, Inl (mk_error InternalError ''request was cancelled''))] s)"

definition send_progress :: "progress_notification \<Rightarrow> ('a, 'b, 'z) session_scheme \<Rightarrow>
    ('a, 'b, 'z) session_scheme" where
  "send_progress n s = send_notification kNotificationProgress (Some (progress_to_json n)) s"

definition is_cancelled :: "request_id \<Rightarrow> ('a, 'b, 'z) session_scheme \<Rightarrow> bool" where
  "is_cancelled i s \<longleftrightarrow> i \<in> set (s_cancelled_incoming s)"

subsection \<open>Incoming notifications\<close>

definition handle_progress :: "int \<Rightarrow> json option \<Rightarrow> ('a, 'b, 'z) session_scheme \<Rightarrow>
    unit throws \<times> ('a, 'b, 'z) session_scheme" where
  "handle_progress now params s =
     (case params of
        None \<Rightarrow> (Inr (), s)
      | Some p \<Rightarrow>
          (case progress_from_json p of
             Inl e \<Rightarrow> (Inl e, s)
           | Inr (Inl _) \<Rightarrow> (Inr (), s)
           | Inr (Inr note) \<Rightarrow>
               let s = s\<lparr>s_deadlines := map (\<lambda>(i, d).
                           if dl_progress_token d = Some (pn_token note)
                           then (i, d\<lparr>dl_at := now + dl_timeout d\<rparr>) else (i, d)) (s_deadlines s)\<rparr>
               in case s_progress_callbacks s (pn_token note) of
                    None \<Rightarrow> (Inr (), s)
                  | Some cb \<Rightarrow> (Inr (), emit [Progressed cb note] s)))"

definition handle_cancelled :: "json option \<Rightarrow> ('a, 'b, 'z) session_scheme \<Rightarrow>
    unit throws \<times> ('a, 'b, 'z) session_scheme" where
  "handle_cancelled params s =
     (case params of
        None \<Rightarrow> (Inr (), s)
      | Some p \<Rightarrow>
          (case cancelled_from_json p of
             Inl e \<Rightarrow> (Inl e, s)
           | Inr (Inl _) \<Rightarrow> (Inr (), s)
           | Inr (Inr note) \<Rightarrow>
               if s_protected_request_id s = Some (cn_request_id note) then (Inr (), s)
               else
                 let tracked = (if length (s_cancelled_incoming s) \<ge> kMaxTrackedCancellations
                                then [] else s_cancelled_incoming s)
                 in (Inr (), s\<lparr>s_cancelled_incoming := List.insert (cn_request_id note) tracked\<rparr>)))"

subsection \<open>Incoming messages\<close>

type_synonym ('a, 's) request_runner = "'a \<Rightarrow> json option \<Rightarrow> 's \<Rightarrow> json result throws \<times> 's"
type_synonym ('b, 's) notification_runner = "'b \<Rightarrow> json option \<Rightarrow> 's \<Rightarrow> unit throws \<times> 's"

fun run_request :: "('a, ('a, 'b, 'z) session_scheme) request_runner \<Rightarrow>
    ('a req_handler, ('a, 'b, 'z) session_scheme) request_runner" where
  "run_request other Ping_Handler params s = (returns (JObj []), s)"
| "run_request other (Other_Request h) params s = other h params s"

fun run_notification :: "int \<Rightarrow> ('b, ('a, 'b, 'z) session_scheme) notification_runner \<Rightarrow>
    ('b note_handler, ('a, 'b, 'z) session_scheme) notification_runner" where
  "run_notification now other Progress_Handler params s = handle_progress now params s"
| "run_notification now other Cancelled_Handler params s = handle_cancelled params s"
| "run_notification now other (Other_Notification h) params s = other h params s"

definition protect_initialize :: "jsonrpc_request \<Rightarrow> ('a, 'b, 'z) session_scheme \<Rightarrow> ('a, 'b, 'z) session_scheme" where
  "protect_initialize q s =
     (if req_method q = kInitialize then s\<lparr>s_protected_request_id := Some (req_id q)\<rparr> else s)"

definition complete_response :: "jsonrpc_response \<Rightarrow> ('a, 'b, 'z) session_scheme \<Rightarrow> ('a, 'b, 'z) session_scheme" where
  "complete_response resp s =
     (let (invs, r) = dispatch_response resp (s_router s)
      in invoke invs (s\<lparr>s_router := r\<rparr>))"

fun handle_message :: "(jsonrpc_request \<Rightarrow> ('a, 'b, 'z) session_scheme \<Rightarrow> error option) \<Rightarrow>
    ('a, ('a, 'b, 'z) session_scheme) request_runner \<Rightarrow>
    ('b, ('a, 'b, 'z) session_scheme) notification_runner \<Rightarrow> int \<Rightarrow> message \<Rightarrow>
    ('a, 'b, 'z) session_scheme \<Rightarrow> unit throws \<times> ('a, 'b, 'z) session_scheme" where
  "handle_message check run_req run_note now (Request q) s =
     (let s = protect_initialize q s in
      case check q s of
        Some e \<Rightarrow> (Inr (), send_message (Response (error_response (Some (req_id q)) e)) s)
      | None \<Rightarrow>
          (case dispatch_request (run_request run_req) (s_router s) q s of
             (Inl x, s') \<Rightarrow> (Inl x, s')
           | (Inr resp, s') \<Rightarrow> (Inr (), send_message (Response resp) s')))"
| "handle_message check run_req run_note now (Response resp) s =
     (let s = (case resp_id resp of Some i \<Rightarrow> clear_tracking i s | None \<Rightarrow> s)
      in (Inr (), complete_response resp s))"
| "handle_message check run_req run_note now (Notification n) s =
     dispatch_notification (run_notification now run_note) (s_router s) n s"

definition session_check_incoming_request :: "jsonrpc_request \<Rightarrow> ('a, 'b, 'z) session_scheme \<Rightarrow> error option" where
  "session_check_incoming_request q s = None"

definition session_on_transport_error :: "error \<Rightarrow> ('a, 'b, 'z) session_scheme \<Rightarrow> ('a, 'b, 'z) session_scheme" where
  "session_on_transport_error e s = (if s_has_error_callback s then emit [Reported e] s else s)"

definition close_tracking :: "('a, 'b, 'z) session_scheme \<Rightarrow> ('a, 'b, 'z) session_scheme" where
  "close_tracking s = s\<lparr>s_deadlines := [], s_progress_callbacks := (\<lambda>_. None)\<rparr>"

definition handle_close :: "('a, 'b, 'z) session_scheme \<Rightarrow> ('a, 'b, 'z) session_scheme" where
  "handle_close s =
     (let s = close_tracking (set_state Shutdown s);
          (invs, r) = fail_all_pending (mk_error InternalError ''connection closed'') (s_router s);
          s = invoke invs (s\<lparr>s_router := r\<rparr>)
      in if s_has_close_callback s then emit [Closed] s else s)"

subsection \<open>The timer\<close>

text \<open>One round of the timer thread: collect what expired, then cancel and fail each.\<close>

definition expired_ids :: "int \<Rightarrow> ('a, 'b, 'z) session_scheme \<Rightarrow> request_id list" where
  "expired_ids now s = map fst (filter (\<lambda>(i, d). dl_at d \<le> now) (s_deadlines s))"

definition expired_tokens :: "int \<Rightarrow> ('a, 'b, 'z) session_scheme \<Rightarrow> request_id list" where
  "expired_tokens now s =
     List.map_filter (\<lambda>(i, d). if dl_at d \<le> now then dl_progress_token d else None) (s_deadlines s)"

definition collect_expired :: "int \<Rightarrow> ('a, 'b, 'z) session_scheme \<Rightarrow>
    request_id list \<times> ('a, 'b, 'z) session_scheme" where
  "collect_expired now s =
     (expired_ids now s,
      s\<lparr>s_progress_callbacks :=
           (\<lambda>t. if t \<in> set (expired_tokens now s) then None else s_progress_callbacks s t),
        s_deadlines := filter (\<lambda>(i, d). \<not> dl_at d \<le> now) (s_deadlines s)\<rparr>)"

definition expire_one :: "request_id \<Rightarrow> ('a, 'b, 'z) session_scheme \<Rightarrow> ('a, 'b, 'z) session_scheme" where
  "expire_one i s =
     (let s = send_message (cancelled_note i (Some ''request timed out'')) s;
          (invs, r) = fail_pending i (mk_error InternalError ''request timed out'') (s_router s)
      in invoke invs (s\<lparr>s_router := r\<rparr>))"

definition timer_round :: "int \<Rightarrow> ('a, 'b, 'z) session_scheme \<Rightarrow> ('a, 'b, 'z) session_scheme" where
  "timer_round now s = (let (ids, s) = collect_expired now s in foldl (\<lambda>s i. expire_one i s) s ids)"

text \<open>The point in time the timer thread sleeps until, if any request has a deadline.\<close>

definition next_wakeup :: "('a, 'b, 'z) session_scheme \<Rightarrow> int option" where
  "next_wakeup s = (case s_deadlines s of [] \<Rightarrow> None | ds \<Rightarrow> Some (Min (set (map (dl_at \<circ> snd) ds))))"

subsection \<open>Tracking lemmas\<close>

lemma session_output_frame [simp]:
  "s_router (emit es s) = s_router s" "s_state (emit es s) = s_state s"
  "s_deadlines (emit es s) = s_deadlines s" "s_next_request_id (emit es s) = s_next_request_id s"
  "s_progress_callbacks (emit es s) = s_progress_callbacks s"
  "s_cancelled_incoming (emit es s) = s_cancelled_incoming s"
  "s_protected_request_id (emit es s) = s_protected_request_id s"
  "s_has_close_callback (emit es s) = s_has_close_callback s"
  "s_has_error_callback (emit es s) = s_has_error_callback s"
  "s_trace (emit es s) = s_trace s @ es"
  by (simp_all add: emit_def)

lemma set_state_frame [simp]:
  "s_router (set_state st s) = s_router s" "s_state (set_state st s) = st"
  "s_deadlines (set_state st s) = s_deadlines s"
  "s_next_request_id (set_state st s) = s_next_request_id s"
  "s_progress_callbacks (set_state st s) = s_progress_callbacks s"
  "s_cancelled_incoming (set_state st s) = s_cancelled_incoming s"
  "s_protected_request_id (set_state st s) = s_protected_request_id s"
  "s_has_close_callback (set_state st s) = s_has_close_callback s"
  "s_has_error_callback (set_state st s) = s_has_error_callback s"
  "s_trace (set_state st s) = s_trace s"
  by (simp_all add: set_state_def)

lemma emit_emit [simp]: "emit es (emit ds s) = emit (ds @ es) s"
  by (simp add: emit_def)

lemma emit_nothing [simp]: "emit [] s = s"
  by (simp add: emit_def)

lemma clear_tracking_frame [simp]:
  "s_router (clear_tracking i s) = s_router s" "s_trace (clear_tracking i s) = s_trace s"
  "s_state (clear_tracking i s) = s_state s"
  "s_next_request_id (clear_tracking i s) = s_next_request_id s"
  "s_cancelled_incoming (clear_tracking i s) = s_cancelled_incoming s"
  "s_protected_request_id (clear_tracking i s) = s_protected_request_id s"
  by (simp_all add: clear_tracking_def split: option.split)

lemma clear_tracking_deadlines [simp]:
  "s_deadlines (clear_tracking i s) = AList.delete i (s_deadlines s)"
  by (auto simp: clear_tracking_def AList.delete_eq map_of_eq_None_iff image_iff
      intro!: filter_True [symmetric] split: option.split)

lemma track_request_frame [simp]:
  "s_router (track_request now i opts s) = s_router s"
  "s_trace (track_request now i opts s) = s_trace s"
  "s_state (track_request now i opts s) = s_state s"
  "s_next_request_id (track_request now i opts s) = s_next_request_id s"
  by (simp_all add: track_request_def Let_def split: option.split)

text \<open>Deadlines are kept at most once per request id, and so are pending callbacks.\<close>

definition tracked_once :: "('a, 'b, 'z) session_scheme \<Rightarrow> bool" where
  "tracked_once s \<longleftrightarrow> distinct (map fst (s_deadlines s)) \<and> distinct_pending (s_router s)"

lemma tracked_once_emit [simp]: "tracked_once (emit es s) = tracked_once s"
  by (simp add: tracked_once_def)

lemma distinct_deadlines_track:
  "distinct (map fst (s_deadlines s)) \<Longrightarrow> distinct (map fst (s_deadlines (track_request now i opts s)))"
  by (auto simp: track_request_def Let_def distinct_update split: option.split)

lemma map_reset_deadline [simp]:
  "map (fst \<circ> (\<lambda>(i, d). if P i d then (i, f d) else (i, d))) ds = map fst ds"
  by (induction ds) auto

subsection \<open>Requests and their completion\<close>

lemma invoke_frame [simp]:
  "s_router (invoke invs s) = s_router s" "s_state (invoke invs s) = s_state s"
  "s_deadlines (invoke invs s) = s_deadlines s"
  "s_trace (invoke invs s) = s_trace s @ map (\<lambda>(i, cb, r). Invoked i cb r) invs"
  by (simp_all add: invoke_def)

lemma send_message_frame [simp]:
  "s_router (send_message m s) = s_router s" "s_state (send_message m s) = s_state s"
  "s_deadlines (send_message m s) = s_deadlines s"
  "s_next_request_id (send_message m s) = s_next_request_id s"
  "s_cancelled_incoming (send_message m s) = s_cancelled_incoming s"
  "s_protected_request_id (send_message m s) = s_protected_request_id s"
  "s_trace (send_message m s) = s_trace s @ [Sent m]"
  by (simp_all add: send_message_def)

lemma cancel_request_cases:
  "s_trace (cancel_request i reason s) =
     (case map_of (pending (s_router s)) i of
        None \<Rightarrow> s_trace s
      | Some cb \<Rightarrow> s_trace s @ [Sent (cancelled_note i reason),
          Invoked i cb (Inl (mk_error InternalError ''request was cancelled''))])"
  "map_of (pending (s_router (cancel_request i reason s))) = (map_of (pending (s_router s)))(i := None)"
  "s_deadlines (cancel_request i reason s) = AList.delete i (s_deadlines s)"
  by (simp_all add: cancel_request_def split_beta Let_def split: option.split)

definition timeout_effects :: "(request_id \<Rightarrow> callback option) \<Rightarrow> request_id \<Rightarrow> effect list" where
  "timeout_effects pend i =
     Sent (cancelled_note i (Some ''request timed out'')) #
       (case pend i of
          None \<Rightarrow> []
        | Some cb \<Rightarrow> [Invoked i cb (Inl (mk_error InternalError ''request timed out''))])"

lemma timeout_effects_other [simp]:
  "j \<noteq> i \<Longrightarrow> timeout_effects (pend(i := x)) j = timeout_effects pend j"
  by (simp add: timeout_effects_def)

lemma expire_one_cases [simp]:
  "s_trace (expire_one i s) = s_trace s @ timeout_effects (map_of (pending (s_router s))) i"
  "map_of (pending (s_router (expire_one i s))) = (map_of (pending (s_router s)))(i := None)"
  "s_deadlines (expire_one i s) = s_deadlines s"
  by (simp_all add: expire_one_def timeout_effects_def fail_pending_alt split_beta Let_def
      split: option.split)

lemma foldl_expire:
  assumes "distinct ids"
  shows "s_trace (foldl (\<lambda>s i. expire_one i s) s ids) =
      s_trace s @ concat (map (timeout_effects (map_of (pending (s_router s)))) ids) \<and>
    map_of (pending (s_router (foldl (\<lambda>s i. expire_one i s) s ids))) =
      map_of (pending (s_router s)) |` (- set ids) \<and>
    s_deadlines (foldl (\<lambda>s i. expire_one i s) s ids) = s_deadlines s"
  using assms
proof (induction ids arbitrary: s)
  case Nil
  then show ?case by (simp add: restrict_map_def fun_eq_iff)
next
  case (Cons i ids)
  then have "x \<noteq> i" if "x \<in> set ids" for x using that by auto
  then have "concat (map (timeout_effects ((map_of (pending (s_router s)))(i := None))) ids) =
      concat (map (timeout_effects (map_of (pending (s_router s)))) ids)"
    by (simp cong: map_cong)
  with Cons show ?case by (auto simp: restrict_map_def fun_eq_iff)
qed

lemma expired_ids_distinct:
  "distinct (map fst (s_deadlines s)) \<Longrightarrow> distinct (expired_ids now s)"
  by (auto simp: expired_ids_def distinct_map_filter)

lemma timer_round_effects:
  assumes "distinct (map fst (s_deadlines s))"
  shows "s_trace (timer_round now s) =
      s_trace s @ concat (map (timeout_effects (map_of (pending (s_router s)))) (expired_ids now s))"
    and "map_of (pending (s_router (timer_round now s))) =
      map_of (pending (s_router s)) |` (- set (expired_ids now s))"
    and "s_deadlines (timer_round now s) = filter (\<lambda>(i, d). \<not> dl_at d \<le> now) (s_deadlines s)"
  using foldl_expire [OF expired_ids_distinct [OF assms], of "snd (collect_expired now s)"]
  by (simp_all add: timer_round_def collect_expired_def split_beta)

text \<open>The timer sleeps until the earliest deadline, so the round it then runs expires a request.\<close>

lemma next_wakeup_expires:
  assumes "next_wakeup s = Some t" and "t \<le> now"
  shows "expired_ids now s \<noteq> []"
proof -
  from assms(1) have ne: "s_deadlines s \<noteq> []"
    and t: "t = Min (set (map (dl_at \<circ> snd) (s_deadlines s)))"
    by (auto simp: next_wakeup_def split: list.splits)
  then have "t \<in> set (map (dl_at \<circ> snd) (s_deadlines s))"
    using Min_in [of "set (map (dl_at \<circ> snd) (s_deadlines s))"] by simp
  with assms(2) show ?thesis
    by (auto simp: expired_ids_def filter_empty_conv)
qed

lemma next_wakeup_none_expired:
  assumes "next_wakeup s = Some t" and "now < t"
  shows "expired_ids now s = []"
proof -
  from assms(1) have t: "t = Min (set (map (dl_at \<circ> snd) (s_deadlines s)))"
    by (auto simp: next_wakeup_def split: list.splits)
  have "t \<le> dl_at d" if "(i, d) \<in> set (s_deadlines s)" for i d
    unfolding t using that by (intro Min_le) force+
  with assms(2) show ?thesis
    by (fastforce simp: expired_ids_def filter_empty_conv)
qed

lemma handle_close_effects:
  "s_trace (handle_close s) = s_trace s @
     map (\<lambda>(i, cb). Invoked i cb (Inl (mk_error InternalError ''connection closed'')))
       (pending (s_router s)) @ (if s_has_close_callback s then [Closed] else [])"
  "pending (s_router (handle_close s)) = []"
  "s_deadlines (handle_close s) = []" "s_progress_callbacks (handle_close s) = (\<lambda>_. None)"
  "s_state (handle_close s) = Shutdown"
  by (auto simp: handle_close_def close_tracking_def fail_all_pending_def Let_def split_beta invoke_def)

text \<open>Cancellation of incoming requests: the set is bounded, and \<open>initialize\<close> is not added to it.\<close>

definition cancellations_bounded :: "('a, 'b, 'z) session_scheme \<Rightarrow> bool" where
  "cancellations_bounded s \<longleftrightarrow>
     distinct (s_cancelled_incoming s) \<and> length (s_cancelled_incoming s) \<le> kMaxTrackedCancellations"

lemma handle_cancelled_state:
  "snd (handle_cancelled params s) = s \<or>
   (\<exists>i. s_protected_request_id s \<noteq> Some i \<and>
     (\<exists>tracked \<in> {[], s_cancelled_incoming s}. length tracked < kMaxTrackedCancellations \<and>
       snd (handle_cancelled params s) = s\<lparr>s_cancelled_incoming := List.insert i tracked\<rparr>))"
  by (auto simp: handle_cancelled_def Let_def kMaxTrackedCancellations_def
      split: option.split sum.split)

lemma handle_cancelled_bounded:
  assumes "cancellations_bounded s"
  shows "cancellations_bounded (snd (handle_cancelled params s))"
  using handle_cancelled_state [of params s] assms
  by (auto simp: cancellations_bounded_def List.insert_def)

lemma handle_cancelled_protects:
  assumes "s_protected_request_id s = Some i" and "is_cancelled i (snd (handle_cancelled params s))"
  shows "is_cancelled i s"
  using handle_cancelled_state [of params s] assms
  by (auto simp: is_cancelled_def List.insert_def split: if_splits)

subsection \<open>Answers to incoming requests\<close>

lemma handle_request_answered:
  assumes "\<And>h. no_ub (fst (run_request run_req h (req_params q) (protect_initialize q s)))"
  shows "\<exists>resp s'. handle_message check run_req run_note now (Request q) s =
      (Inr (), send_message (Response resp) s') \<and>
    resp_id resp = Some (req_id q) \<and> (resp_result resp = None) \<noteq> (resp_error resp = None)"
proof (cases "check q (protect_initialize q s)")
  case (Some e)
  then show ?thesis
    by (auto simp: Let_def error_response_def
        intro!: exI [of _ "error_response (Some (req_id q)) e"])
next
  case None
  let ?s = "protect_initialize q s"
  from assms have "\<exists>resp. fst (dispatch_request (run_request run_req) (s_router ?s) q ?s) = Inr resp \<and>
      resp_id resp = Some (req_id q) \<and> (resp_result resp = None) \<noteq> (resp_error resp = None)"
    by (intro dispatch_request_answers)
  with None show ?thesis
    by (auto simp: Let_def split_beta split: prod.split sum.split)
qed

lemma handle_request_rejected:
  assumes "check q (protect_initialize q s) = Some e"
  shows "handle_message check run_req run_note now (Request q) s =
    (Inr (), send_message (Response (error_response (Some (req_id q)) e)) (protect_initialize q s))"
  using assms by (simp add: Let_def)

lemma handle_response_effects:
  assumes "resp_id resp = Some i"
  shows "s_trace (snd (handle_message check run_req run_note now (Response resp) s)) =
      s_trace s @
        (case map_of (pending (s_router s)) i of
           None \<Rightarrow> []
         | Some cb \<Rightarrow> [Invoked i cb (case resp_error resp of
               Some e \<Rightarrow> Inl e
             | None \<Rightarrow> Inr (case resp_result resp of Some j \<Rightarrow> j | None \<Rightarrow> JNull))]) \<and>
    map_of (pending (s_router (snd (handle_message check run_req run_note now (Response resp) s)))) =
      (map_of (pending (s_router s)))(i := None) \<and>
    s_deadlines (snd (handle_message check run_req run_note now (Response resp) s)) =
      AList.delete i (s_deadlines s)"
  using assms
  by (simp add: complete_response_def dispatch_response_alt Let_def split_beta split: option.split)

lemma handle_message_unmatched_response:
  "resp_id resp = None \<Longrightarrow> handle_message check run_req run_note now (Response resp) s = (Inr (), s)"
  by (simp add: complete_response_def dispatch_response_def invoke_def)

text \<open>The handlers of the constructor.\<close>

lemma session_router_handlers [simp]:
  "find_request_handler session_router kPing = Some Ping_Handler"
  "find_notification_handler session_router kNotificationProgress = Some Progress_Handler"
  "find_notification_handler session_router kNotificationCancelled = Some Cancelled_Handler"
  by (simp_all add: session_router_def set_request_handler_def set_notification_handler_def
      find_request_handler_def find_notification_handler_def set_handler_def find_handler_def
      is_wildcard_def method_defs)

text \<open>Progress postpones the deadline of the requests with its token.\<close>

lemma handle_progress_deadlines:
  assumes "progress_from_json p = returns note"
  shows "s_deadlines (snd (handle_progress now (Some p) s)) =
    map (\<lambda>(i, d). if dl_progress_token d = Some (pn_token note)
                  then (i, d\<lparr>dl_at := now + dl_timeout d\<rparr>) else (i, d)) (s_deadlines s)"
  using assms by (simp add: handle_progress_def Let_def split: option.split)

lemma progress_postpones:
  assumes "progress_from_json p = returns note"
    and "(i, d) \<in> set (s_deadlines s)" and "dl_progress_token d = Some (pn_token note)"
    and "distinct (map fst (s_deadlines s))" and "later < now + dl_timeout d"
  shows "i \<notin> set (expired_ids later (snd (handle_progress now (Some p) s)))"
proof -
  have same: "d' = d" if "(i, d') \<in> set (s_deadlines s)" for d'
    using that assms(2,4) by (metis map_of_is_SomeI option.inject)
  let ?s = "snd (handle_progress now (Some p) s)"
  have "later < dl_at d'" if "(i, d') \<in> set (s_deadlines ?s)" for d'
    using that same assms(3,5)
    by (auto simp: handle_progress_deadlines [OF assms(1)] split: if_splits)
  then show ?thesis by (fastforce simp: expired_ids_def)
qed

lemma protect_initialize_frame [simp]:
  "s_state (protect_initialize q s) = s_state s" "s_router (protect_initialize q s) = s_router s"
  "s_trace (protect_initialize q s) = s_trace s"
  "s_cancelled_incoming (protect_initialize q s) = s_cancelled_incoming s"
  "req_method q \<noteq> kInitialize \<Longrightarrow> protect_initialize q s = s"
  by (simp_all add: protect_initialize_def)

subsection \<open>Invariants of a session\<close>

text \<open>
  What the owner of a session can do with it at any time, and what a property has to be stable
  under to hold throughout: the laws of \<open>session_invariant\<close> are one per critical section, and its
  lemmas say that every operation, built from these sections, keeps the property.
\<close>

inductive api_step :: "('a, 'b, 'z) session_scheme \<Rightarrow> ('a, 'b, 'z) session_scheme \<Rightarrow> bool" where
  api_request: "api_step s (snd (send_request now m params cb opts s))"
| api_notify: "api_step s (send_notification m params s)"
| api_cancel: "api_step s (cancel_request i reason s)"
| api_progress: "api_step s (send_progress note s)"
| api_disconnect: "api_step s (disconnect s)"

locale session_invariant =
  fixes ok :: "('a, 'b, 'z) session_scheme \<Rightarrow> bool"
  assumes ok_emit: "ok s \<Longrightarrow> ok (emit es s)"
    and ok_shutdown: "ok s \<Longrightarrow> ok (set_state Shutdown s)"
    and ok_next_id: "ok s \<Longrightarrow> ok (s\<lparr>s_next_request_id := n\<rparr>)"
    and ok_register: "ok s \<Longrightarrow> ok (s\<lparr>s_router := register_pending i cb (s_router s)\<rparr>)"
    and ok_take: "ok s \<Longrightarrow> ok (s\<lparr>s_router := snd (take_pending i (s_router s))\<rparr>)"
    and ok_fail_all: "ok s \<Longrightarrow> ok (s\<lparr>s_router := snd (fail_all_pending e (s_router s))\<rparr>)"
    and ok_track: "ok s \<Longrightarrow> ok (track_request now i opts s)"
    and ok_clear: "ok s \<Longrightarrow> ok (clear_tracking i s)"
    and ok_close_tracking: "ok s \<Longrightarrow> ok (close_tracking s)"
    and ok_collect: "ok s \<Longrightarrow> ok (snd (collect_expired now s))"
    and ok_reset: "ok s \<Longrightarrow>
      ok (s\<lparr>s_deadlines := map (\<lambda>(i, d). if P i d then (i, f d) else (i, d)) (s_deadlines s)\<rparr>)"
    and ok_cancelled: "ok s \<Longrightarrow> tracked = [] \<or> tracked = s_cancelled_incoming s \<Longrightarrow>
      length tracked < kMaxTrackedCancellations \<Longrightarrow>
      ok (s\<lparr>s_cancelled_incoming := List.insert i tracked\<rparr>)"
    and ok_protect: "ok s \<Longrightarrow> ok (s\<lparr>s_protected_request_id := Some i\<rparr>)"
begin

lemmas ok_output = ok_emit ok_shutdown

lemma ok_send_request: "ok s \<Longrightarrow> ok (snd (send_request now m params cb opts s))"
  using ok_register [of "s\<lparr>s_next_request_id := wrap64 (s_next_request_id s + 1)\<rparr>"
      "Id_Int (s_next_request_id s)" cb, OF ok_next_id]
  by (auto simp: send_request_def Let_def send_message_def split: sum.split
      intro!: ok_emit ok_track ok_next_id)

lemma ok_cancel_request: "ok s \<Longrightarrow> ok (cancel_request i reason s)"
  using ok_take [OF ok_clear]
  by (auto simp: cancel_request_def split_beta Let_def send_message_def invoke_def
      split: option.split intro!: ok_emit)

lemma ok_api: "api_step s t \<Longrightarrow> ok s \<Longrightarrow> ok t"
  by (induction rule: api_step.induct)
    (auto simp: send_notification_def send_message_def send_progress_def disconnect_def
      intro: ok_send_request ok_cancel_request ok_output)

lemma ok_api_steps: "api_step\<^sup>*\<^sup>* s t \<Longrightarrow> ok s \<Longrightarrow> ok t"
  by (induction rule: rtranclp_induct) (auto intro: ok_api)

lemma ok_expire: "ok s \<Longrightarrow> ok (expire_one i s)"
  using ok_take [OF ok_emit]
  by (auto simp: expire_one_def fail_pending_alt Let_def send_message_def invoke_def intro!: ok_emit)

lemma ok_timer_round: "ok s \<Longrightarrow> ok (timer_round now s)"
proof -
  have "ok (foldl (\<lambda>s i. expire_one i s) t ids)" if "ok t" for t ids
    using that by (induction ids arbitrary: t) (auto intro: ok_expire)
  then show "ok s \<Longrightarrow> ok (timer_round now s)"
    using ok_collect by (simp add: timer_round_def split_beta)
qed

lemma ok_complete: "ok s \<Longrightarrow> ok (complete_response resp s)"
proof (cases "resp_id resp")
  case None
  then show "ok s \<Longrightarrow> ok (complete_response resp s)"
    by (simp add: complete_response_def dispatch_response_def invoke_def)
next
  case (Some i)
  then show "ok s \<Longrightarrow> ok (complete_response resp s)"
    by (simp add: complete_response_def dispatch_response_alt invoke_def ok_emit ok_take)
qed

lemma ok_close: "ok s \<Longrightarrow> ok (handle_close s)"
  using ok_fail_all [OF ok_close_tracking [OF ok_shutdown]]
  by (auto simp: handle_close_def Let_def split_beta invoke_def intro!: ok_emit)

lemma ok_handle_progress: "ok s \<Longrightarrow> ok (snd (handle_progress now params s))"
  by (auto simp: handle_progress_def Let_def split: option.split sum.split intro!: ok_emit ok_reset)

lemma ok_handle_cancelled: "ok s \<Longrightarrow> ok (snd (handle_cancelled params s))"
  using handle_cancelled_state [of params s] ok_cancelled [of s] by fastforce

lemma ok_transport_error: "ok s \<Longrightarrow> ok (session_on_transport_error e s)"
  by (simp add: session_on_transport_error_def ok_emit)

lemma ok_handle_message:
  assumes "ok s" and "\<And>h params s. ok s \<Longrightarrow> ok (snd (run_req h params s))"
    and "\<And>h params s. ok s \<Longrightarrow> ok (snd (run_note h params s))"
  shows "ok (snd (handle_message check run_req run_note now m s))"
proof (cases m)
  case (Request q)
  have run: "ok t \<Longrightarrow> ok (snd (run_request run_req h params t))" for h params t
    using assms(2) by (cases h) auto
  have "ok (protect_initialize q s)"
    using assms(1) by (simp add: protect_initialize_def ok_protect)
  with run have "ok (snd (dispatch_request (run_request run_req) (s_router (protect_initialize q s)) q
      (protect_initialize q s)))"
    by (auto simp: dispatch_request_def split_beta split: option.split)
  with \<open>ok (protect_initialize q s)\<close> Request show ?thesis
    by (cases "dispatch_request (run_request run_req) (s_router (protect_initialize q s)) q
          (protect_initialize q s)")
      (auto simp: Let_def send_message_def split: option.split sum.split intro!: ok_emit)
next
  case (Notification n)
  have "ok (snd (run_notification now run_note h params s))" for h params
    using assms(1,3) by (cases h) (auto intro: ok_handle_progress ok_handle_cancelled)
  with assms(1) Notification show ?thesis
    by (auto simp: dispatch_notification_def split: option.split)
next
  case (Response resp)
  with assms(1) show ?thesis
    by (auto intro: ok_complete ok_clear split: option.split)
qed

end

text \<open>Every session keeps its tables free of duplicates and its cancellation set bounded.\<close>

definition session_ok :: "('a, 'b, 'z) session_scheme \<Rightarrow> bool" where
  "session_ok s \<longleftrightarrow> tracked_once s \<and> cancellations_bounded s"

interpretation session_tables: session_invariant session_ok
  by unfold_locales
    (auto simp: session_ok_def tracked_once_def cancellations_bounded_def emit_def set_state_def
      close_tracking_def collect_expired_def List.insert_def distinct_deadlines_track
      distinct_map_filter track_request_def Let_def distinct_update distinct_delete
      split: option.split)

subsection \<open>Properties\<close>

text \<open>
  A round of the timer does all that is due and nothing else: for every request whose deadline has
  passed, in order, it sends \<^verbatim>\<open>notifications/cancelled\<close> and completes the callback with a timeout
  error if the request is still pending; these requests are pending and tracked no more, every
  other one keeps its callback and its deadline.
\<close>

theorem timer_round_expires:
  assumes "session_ok s"
  shows "s_trace (timer_round now s) =
      s_trace s @ concat (map (timeout_effects (map_of (pending (s_router s)))) (expired_ids now s)) \<and>
    (\<forall>i. map_of (pending (s_router (timer_round now s))) i =
       (if i \<in> set (expired_ids now s) then None else map_of (pending (s_router s)) i)) \<and>
    s_deadlines (timer_round now s) = filter (\<lambda>(i, d). now < dl_at d) (s_deadlines s) \<and>
    session_ok (timer_round now s)"
proof -
  have distinct: "distinct (map fst (s_deadlines s))"
    using assms by (simp add: session_ok_def tracked_once_def)
  show ?thesis
    using timer_round_effects [OF distinct, of now] session_tables.ok_timer_round [OF assms]
    by (simp add: restrict_map_def not_le)
qed

lemma timer_round_expires_witness:
  "expired_ids 5 (snd (send_request 0 ''m'' None 7 (no_options\<lparr>ro_timeout := Some 5\<rparr>)
     (new_session :: (unit, unit) session))) = [Id_Int 1] \<and>
   session_ok (timer_round 5 (snd (send_request 0 ''m'' None 7 (no_options\<lparr>ro_timeout := Some 5\<rparr>)
     (new_session :: (unit, unit) session))))"
proof -
  have "session_ok (new_session :: (unit, unit) session)"
    by (simp add: session_ok_def tracked_once_def cancellations_bounded_def new_session_def session_router_def)
  then have "session_ok (timer_round 5 (snd (send_request 0 ''m'' None 7 (no_options\<lparr>ro_timeout := Some 5\<rparr>)
      (new_session :: (unit, unit) session))))"
    using timer_round_expires [OF session_tables.ok_send_request] by blast
  then show ?thesis
    by (rule conjI [rotated])
      (simp add: expired_ids_def send_request_def track_request_def no_options_def new_session_def
        Let_def send_message_def emit_def)
qed

text \<open>
  The timer thread makes progress: it sleeps until \<open>next_wakeup\<close>; woken before, the round
  changes nothing, and woken then or later the round expires at least one request, so the thread
  never spins.
\<close>

theorem timer_wakeup_exact:
  assumes "next_wakeup s = Some t"
  shows "expired_ids now s = [] \<longleftrightarrow> now < t"
  using next_wakeup_expires [OF assms, of now] next_wakeup_none_expired [OF assms, of now] by force

lemma timer_wakeup_exact_witness:
  "expired_ids 4 ((new_session :: (unit, unit) session)\<lparr>s_deadlines :=
      [(Id_Int 1, \<lparr>dl_at = 5, dl_timeout = 5, dl_progress_token = None\<rparr>)]\<rparr>) = [] \<longleftrightarrow> (4 :: int) < 5"
  by (rule timer_wakeup_exact) (simp add: next_wakeup_def)

text \<open>
  Progress resets the clock: after a progress notification at time \<open>now\<close> for the token of a
  request, that request does not time out before its full timeout has passed again.
\<close>

theorem progress_resets_clock:
  assumes "session_ok s" and "progress_from_json p = returns pn"
    and "(i, d) \<in> set (s_deadlines s)" and "dl_progress_token d = Some (pn_token pn)"
    and "later < now + dl_timeout d"
  shows "i \<notin> set (expired_ids later (snd (handle_progress now (Some p) s)))"
  using progress_postpones [OF assms(2-4) _ assms(5)] assms(1)
  by (simp add: session_ok_def tracked_once_def)

lemma progress_resets_clock_witness:
  "Id_Int 1 \<notin> set (expired_ids 9 (snd (handle_progress 5
     (Some (progress_to_json \<lparr>pn_token = Id_Str ''t'', pn_progress = 1, pn_total = None, pn_message = None\<rparr>))
     ((new_session :: (unit, unit) session)\<lparr>s_deadlines :=
       [(Id_Int 1, \<lparr>dl_at = 5, dl_timeout = 5, dl_progress_token = Some (Id_Str ''t'')\<rparr>)]\<rparr>))))"
  by (rule progress_resets_clock [where
        pn = "\<lparr>pn_token = Id_Str ''t'', pn_progress = 1, pn_total = None, pn_message = None\<rparr>"
        and d = "\<lparr>dl_at = 5, dl_timeout = 5, dl_progress_token = Some (Id_Str ''t'')\<rparr>"])
    (simp_all add: progress_roundtrip session_ok_def tracked_once_def cancellations_bounded_def
      new_session_def session_router_def)

text \<open>
  When the connection closes, every pending request is completed, once, with the error
  \<open>connection closed\<close>; afterwards nothing is pending, no deadline or progress callback is left, the
  state is \<open>Shutdown\<close>, and a late response or a timer round invokes nothing.
\<close>

theorem close_completes_all:
  "s_trace (handle_close s) = s_trace s @
     map (\<lambda>(i, cb). Invoked i cb (Inl (mk_error InternalError ''connection closed'')))
       (pending (s_router s)) @ (if s_has_close_callback s then [Closed] else []) \<and>
   s_state (handle_close s) = Shutdown \<and>
   s_trace (snd (handle_message check run_req run_note now (Response resp) (handle_close s))) =
     s_trace (handle_close s) \<and>
   s_trace (timer_round now (handle_close s)) = s_trace (handle_close s)"
proof -
  have "s_trace (snd (handle_message check run_req run_note now (Response resp) (handle_close s))) =
      s_trace (handle_close s)"
    using handle_response_effects [of resp _ check run_req run_note now "handle_close s"]
    by (cases "resp_id resp")
      (simp_all add: handle_close_effects handle_message_unmatched_response del: handle_message.simps)
  moreover have "s_trace (timer_round now (handle_close s)) = s_trace (handle_close s)"
    by (simp add: timer_round_effects(1) handle_close_effects expired_ids_def)
  ultimately show ?thesis by (simp add: handle_close_effects)
qed

text \<open>
  Cancellations sent by the peer: the set of cancelled ids never exceeds
  \<open>kMaxTrackedCancellations\<close> entries, whatever is received, and a cancellation never marks the
  protected \<^verbatim>\<open>initialize\<close> request.
\<close>

theorem cancellations_tracked:
  assumes "session_ok s"
  shows "session_ok (snd (handle_cancelled params s)) \<and>
    length (s_cancelled_incoming (snd (handle_cancelled params s))) \<le> 1024 \<and>
    (\<forall>i. s_protected_request_id s = Some i \<longrightarrow> \<not> is_cancelled i s \<longrightarrow>
       \<not> is_cancelled i (snd (handle_cancelled params s)))"
  using session_tables.ok_handle_cancelled [OF assms, of params] handle_cancelled_protects [of s]
  by (auto simp: session_ok_def cancellations_bounded_def kMaxTrackedCancellations_def)

lemma cancellations_tracked_witness:
  "session_ok (snd (handle_cancelled (Some (cancelled_to_json \<lparr>cn_request_id = Id_Int 3, cn_reason = None\<rparr>))
     (new_session :: (unit, unit) session)))"
proof -
  have "session_ok (new_session :: (unit, unit) session)"
    by (simp add: session_ok_def tracked_once_def cancellations_bounded_def new_session_def session_router_def)
  from cancellations_tracked [OF this] show ?thesis by blast
qed

end
