(* ===== verification/Mcp_Timer.thy ===== *)
theory Mcp_Timer
  imports Mcp_Session
begin

text \<open>
  The timer thread of a session (\<^verbatim>\<open>Session::timer_loop\<close> and the destructor in \<^verbatim>\<open>src/core/session.cpp\<close>) as a state machine: it waits
  on the condition variable with the earliest deadline as its limit, while other threads change the deadlines under
  \<^verbatim>\<open>timer_mutex_\<close> and notify it afterwards.  The lemmas show that no change is missed and that left alone the thread gets everything
  done that is due, and then waits exactly as long as it may.
\<close>

subsection \<open>The thread and its partners\<close>

text \<open>
  \<open>At_Loop\<close>: at the head of the loop with the mutex held; \<open>Waits_Until\<close>: in a wait, with its limit and whether it was notified;
  \<open>Expires\<close>: outside of the mutex with the requests still to fail.  Before its first turn the thread has nothing to fail.
\<close>

datatype timer_phase = At_Loop | Waits_Until "int option" bool | Expires "request_id list" | Timer_Ended

record ('a, 'b, 'z) timer_conf =
  tc_session :: "('a, 'b, 'z) session_scheme"
  tc_stop :: bool
  tc_notices :: nat
  tc_phase :: timer_phase
  tc_now :: int

definition start_timer :: "int \<Rightarrow> ('a, 'b, 'z) session_scheme \<Rightarrow> ('a, 'b, 'z) timer_conf" where
  "start_timer now s = \<lparr>tc_session = s, tc_stop = False, tc_notices = 0, tc_phase = Expires [], tc_now = now\<rparr>"

text \<open>What the thread does when its wait ends and it has the mutex again.\<close>

definition wake_up :: "('a, 'b, 'z) timer_conf \<Rightarrow> ('a, 'b, 'z) timer_conf" where
  "wake_up c =
     (case tc_phase c of
        Waits_Until None _ \<Rightarrow> c\<lparr>tc_phase := At_Loop\<rparr>
      | Waits_Until (Some _) _ \<Rightarrow>
          if tc_stop c then c\<lparr>tc_phase := Timer_Ended\<rparr>
          else (case collect_expired (tc_now c) (tc_session c) of
                  (ids, s) \<Rightarrow> c\<lparr>tc_session := s, tc_phase := Expires ids\<rparr>)
      | _ \<Rightarrow> c)"

text \<open>The next turn of the thread; \<open>None\<close> while it waits and when it has ended.\<close>

definition timer_turn :: "('a, 'b, 'z) timer_conf \<Rightarrow> ('a, 'b, 'z) timer_conf option" where
  "timer_turn c =
     (case tc_phase c of
        At_Loop \<Rightarrow> Some (c\<lparr>tc_phase := if tc_stop c then Timer_Ended else Waits_Until (next_wakeup (tc_session c)) False\<rparr>)
      | Waits_Until until notified \<Rightarrow>
          if notified \<or> (\<exists>t \<in> set_option until. t \<le> tc_now c) then Some (wake_up c) else None
      | Expires [] \<Rightarrow> Some (c\<lparr>tc_phase := At_Loop\<rparr>)
      | Expires (i # rest) \<Rightarrow> Some (c\<lparr>tc_session := expire_one i (tc_session c), tc_phase := Expires rest\<rparr>)
      | Timer_Ended \<Rightarrow> None)"

text \<open>The critical sections of the other threads, and which of them are followed by a notification.\<close>

datatype guarded =
    Track_Section request_id request_options
  | Clear_Section request_id
  | Progress_Section "json option"
  | Close_Section
  | Stop_Section

definition notify :: "('a, 'b, 'z) timer_conf \<Rightarrow> ('a, 'b, 'z) timer_conf" where
  "notify c = (case tc_phase c of Waits_Until until _ \<Rightarrow> c\<lparr>tc_phase := Waits_Until until True\<rparr> | _ \<Rightarrow> c)"

definition progress_accepted :: "json option \<Rightarrow> bool" where
  "progress_accepted params =
     (case params of None \<Rightarrow> False
      | Some p \<Rightarrow> (case progress_from_json p of Inr (Inr _) \<Rightarrow> True | _ \<Rightarrow> False))"

text \<open>\<^verbatim>\<open>clear_tracking\<close> notifies before it releases the mutex, and the close of the connection does not notify.\<close>

definition run_section :: "guarded \<Rightarrow> ('a, 'b, 'z) timer_conf \<Rightarrow> ('a, 'b, 'z) timer_conf" where
  "run_section sec c =
     (case sec of
        Track_Section i opts \<Rightarrow>
          c\<lparr>tc_session := track_request (tc_now c) i opts (tc_session c), tc_notices := Suc (tc_notices c)\<rparr>
      | Clear_Section i \<Rightarrow> notify (c\<lparr>tc_session := clear_tracking i (tc_session c)\<rparr>)
      | Progress_Section params \<Rightarrow>
          c\<lparr>tc_session := snd (handle_progress (tc_now c) params (tc_session c)),
            tc_notices := tc_notices c + (if progress_accepted params then 1 else 0)\<rparr>
      | Close_Section \<Rightarrow> c\<lparr>tc_session := close_tracking (tc_session c)\<rparr>
      | Stop_Section \<Rightarrow> c\<lparr>tc_stop := True, tc_notices := Suc (tc_notices c)\<rparr>)"

text \<open>
  Steps: a turn of the thread, a spurious end of its wait, a critical section while the thread does not hold the mutex, a notification
  that is due, time passing, and whatever changes the session but not its deadlines.
\<close>

inductive timer_step :: "('a, 'b, 'z) timer_conf \<Rightarrow> ('a, 'b, 'z) timer_conf \<Rightarrow> bool" where
  own_turn: "timer_turn c = Some c' \<Longrightarrow> timer_step c c'"
| spurious: "tc_phase c = Waits_Until until notified \<Longrightarrow> timer_step c (wake_up c)"
| critical: "tc_phase c \<noteq> At_Loop \<Longrightarrow> timer_step c (run_section sec c)"
| notified: "tc_notices c = Suc n \<Longrightarrow> timer_step c (notify (c\<lparr>tc_notices := n\<rparr>))"
| clock: "tc_now c \<le> t \<Longrightarrow> timer_step c (c\<lparr>tc_now := t\<rparr>)"
| elsewhere: "s_deadlines s = s_deadlines (tc_session c) \<Longrightarrow> timer_step c (c\<lparr>tc_session := s\<rparr>)"

inductive timer_reachable :: "('a, 'b, 'z) session_scheme \<Rightarrow> ('a, 'b, 'z) timer_conf \<Rightarrow> bool" for s where
  timer_start: "timer_reachable s (start_timer now s)"
| timer_next: "timer_reachable s c \<Longrightarrow> timer_step c c' \<Longrightarrow> timer_reachable s c'"

inductive_cases timer_stepE: "timer_step c c'"

subsection \<open>No change is missed\<close>

text \<open>
  A thread that waits without having been notified, while no notification is due, was not stopped, and its wait ends no later than the
  earliest deadline.
\<close>

definition wait_covers :: "int option \<Rightarrow> ('a, 'b, 'z) session_scheme \<Rightarrow> bool" where
  "wait_covers until s \<longleftrightarrow> (\<forall>(i, d) \<in> set (s_deadlines s). \<exists>t. until = Some t \<and> t \<le> dl_at d)"

definition timer_ok :: "('a, 'b, 'z) timer_conf \<Rightarrow> bool" where
  "timer_ok c \<longleftrightarrow> distinct (map fst (s_deadlines (tc_session c))) \<and>
     (case tc_phase c of
        Waits_Until until woken \<Rightarrow>
          \<not> woken \<longrightarrow> tc_notices c = 0 \<longrightarrow> \<not> tc_stop c \<and> wait_covers until (tc_session c)
      | Timer_Ended \<Rightarrow> tc_stop c
      | _ \<Rightarrow> True)"

lemma next_wakeup_covers: "wait_covers (next_wakeup s) s"
proof (cases "s_deadlines s")
  case (Cons p ds)
  have "Min (set (map (dl_at \<circ> snd) (p # ds))) \<le> dl_at d" if "(i, d) \<in> set (p # ds)" for i d
    using that by (intro Min_le) force+
  with Cons show ?thesis by (auto simp: wait_covers_def next_wakeup_def simp del: list.set)
qed (simp add: wait_covers_def)

lemma collect_expired_session [simp]:
  "s_deadlines (snd (collect_expired now s)) = filter (\<lambda>(i, d). \<not> dl_at d \<le> now) (s_deadlines s)"
  "s_router (snd (collect_expired now s)) = s_router s" "s_trace (snd (collect_expired now s)) = s_trace s"
  "fst (collect_expired now s) = expired_ids now s"
  by (simp_all add: collect_expired_def)

lemma section_deadlines_distinct:
  "distinct (map fst (s_deadlines (tc_session c))) \<Longrightarrow> distinct (map fst (s_deadlines (tc_session (run_section sec c))))"
  by (cases sec)
    (auto simp: run_section_def notify_def distinct_deadlines_track distinct_delete close_tracking_def handle_progress_def Let_def
      split: timer_phase.split option.split sum.split)

lemma refused_progress: "\<not> progress_accepted params \<Longrightarrow> snd (handle_progress now params s) = s"
  by (auto simp: progress_accepted_def handle_progress_def split: option.splits sum.splits)

lemma wake_up_ok: "timer_ok c \<Longrightarrow> timer_ok (wake_up c)"
  by (auto simp: timer_ok_def wake_up_def distinct_map_filter split: timer_phase.split option.split prod.split)
    (auto simp: collect_expired_def distinct_map_filter)

lemma timer_turn_ok:
  assumes "timer_ok c" and "timer_turn c = Some c'"
  shows "timer_ok c' \<and> tc_stop c' = tc_stop c \<and> tc_notices c' = tc_notices c \<and> tc_now c' = tc_now c"
proof (cases "tc_phase c")
  case At_Loop
  with assms show ?thesis by (auto simp: timer_turn_def timer_ok_def next_wakeup_covers)
next
  case (Waits_Until until woken)
  with assms(2) have "c' = wake_up c" by (auto simp: timer_turn_def split: if_splits)
  with wake_up_ok [OF assms(1)] show ?thesis by (auto simp: wake_up_def split: timer_phase.split option.split prod.split)
next
  case (Expires ids)
  with assms show ?thesis by (cases ids) (auto simp: timer_turn_def timer_ok_def)
next
  case Timer_Ended
  with assms(2) show ?thesis by (simp add: timer_turn_def)
qed

lemma run_section_ok:
  assumes "timer_ok c"
  shows "timer_ok (run_section sec c)"
proof -
  note ds = section_deadlines_distinct [of c sec]
  show ?thesis
  proof (cases sec)
    case (Progress_Section params)
    with assms ds show ?thesis
      by (cases "progress_accepted params")
        (simp_all add: timer_ok_def run_section_def refused_progress split: timer_phase.splits)
  next
    case (Clear_Section i)
    with assms ds show ?thesis by (simp add: timer_ok_def run_section_def notify_def split: timer_phase.splits)
  next
    case Close_Section
    with assms show ?thesis by (simp add: timer_ok_def run_section_def close_tracking_def wait_covers_def split: timer_phase.splits)
  qed (use assms ds in \<open>simp_all add: timer_ok_def run_section_def split: timer_phase.splits\<close>)
qed

lemma timer_step_ok: "timer_step c c' \<Longrightarrow> timer_ok c \<Longrightarrow> timer_ok c'"
proof (induction rule: timer_step.induct)
  case (own_turn c c')
  then show ?case using timer_turn_ok by blast
next
  case (spurious c until notified)
  then show ?case by (simp add: wake_up_ok)
next
  case (critical c sec)
  then show ?case by (simp add: run_section_ok)
next
  case (elsewhere s c)
  then show ?case by (simp add: timer_ok_def wait_covers_def split: timer_phase.splits)
qed (simp_all add: timer_ok_def notify_def split: timer_phase.splits)

lemma timer_reachable_ok: "timer_reachable s c \<Longrightarrow> distinct (map fst (s_deadlines s)) \<Longrightarrow> timer_ok c"
proof (induction rule: timer_reachable.induct)
  case (timer_start now)
  then show ?case by (simp add: start_timer_def timer_ok_def)
next
  case (timer_next c c')
  then show ?case by (blast intro: timer_step_ok)
qed

subsection \<open>Everything due gets done\<close>

definition due :: "('a, 'b, 'z) timer_conf \<Rightarrow> request_id list" where
  "due c = expired_ids (tc_now c) (tc_session c)"

definition in_hand :: "('a, 'b, 'z) timer_conf \<Rightarrow> request_id list" where
  "in_hand c = (case tc_phase c of Expires ids \<Rightarrow> ids | _ \<Rightarrow> [])"

definition timed_out :: "json result" where
  "timed_out = Inl (mk_error InternalError ''request timed out'')"

text \<open>
  What the thread's own turns do not change: the deadlines to come, the callbacks that will be left, and the callbacks that have timed
  out or will.
\<close>

definition kept_deadlines :: "('a, 'b, 'z) timer_conf \<Rightarrow> (request_id \<times> deadline) list" where
  "kept_deadlines c = filter (\<lambda>(i, d). tc_now c < dl_at d) (s_deadlines (tc_session c))"

definition kept_pending :: "('a, 'b, 'z) timer_conf \<Rightarrow> request_id \<rightharpoonup> callback" where
  "kept_pending c = map_of (pending (s_router (tc_session c))) |` (- (set (due c) \<union> set (in_hand c)))"

definition timeouts :: "('a, 'b, 'z) timer_conf \<Rightarrow> request_id \<Rightarrow> callback \<Rightarrow> bool" where
  "timeouts c i cb \<longleftrightarrow> Invoked i cb timed_out \<in> set (s_trace (tc_session c)) \<or>
     i \<in> set (due c) \<union> set (in_hand c) \<and> map_of (pending (s_router (tc_session c))) i = Some cb"

lemma expired_simps [simp]:
  "expired_ids now (snd (collect_expired now s)) = []"
  "expired_ids now (expire_one i s) = expired_ids now s"
  by (auto simp: expired_ids_def filter_empty_conv)

lemma wake_up_keeps:
  assumes "tc_phase c = Waits_Until until woken" and "\<not> tc_stop c"
  shows "kept_deadlines (wake_up c) = kept_deadlines c \<and> kept_pending (wake_up c) = kept_pending c \<and>
    timeouts (wake_up c) = timeouts c"
proof (cases until)
  case None
  with assms show ?thesis
    by (simp add: wake_up_def kept_deadlines_def kept_pending_def timeouts_def due_def in_hand_def fun_eq_iff)
next
  case (Some t)
  obtain ids s where r: "collect_expired (tc_now c) (tc_session c) = (ids, s)" by fastforce
  with collect_expired_session [where now = "tc_now c" and s = "tc_session c"] expired_simps(1) [of "tc_now c" "tc_session c"]
  have s: "s_deadlines s = filter (\<lambda>(i, d). \<not> dl_at d \<le> tc_now c) (s_deadlines (tc_session c))" "s_router s = s_router (tc_session c)"
    "s_trace s = s_trace (tc_session c)" "ids = due c" "expired_ids (tc_now c) s = []"
    by (auto simp: due_def)
  have "wake_up c = c\<lparr>tc_session := s, tc_phase := Expires ids\<rparr>" using assms Some r by (simp add: wake_up_def)
  with s assms show ?thesis
    by (auto simp: kept_deadlines_def kept_pending_def timeouts_def due_def in_hand_def fun_eq_iff filter_filter not_le split_beta
        intro!: filter_cong)
qed

lemma expire_keeps:
  assumes "tc_phase c = Expires (i # rest)" and "c' = c\<lparr>tc_session := expire_one i (tc_session c), tc_phase := Expires rest\<rparr>"
  shows "kept_deadlines c' = kept_deadlines c \<and> kept_pending c' = kept_pending c \<and> timeouts c' = timeouts c"
  using assms
  by (auto simp: kept_deadlines_def kept_pending_def timeouts_def due_def in_hand_def fun_eq_iff restrict_map_def timed_out_def
      timeout_effects_def split: option.splits if_splits)

lemma timer_turn_keeps:
  assumes "timer_turn c = Some c'" and "\<not> tc_stop c"
  shows "kept_deadlines c' = kept_deadlines c \<and> kept_pending c' = kept_pending c \<and> timeouts c' = timeouts c"
proof (cases "tc_phase c")
  case (Waits_Until until woken)
  with assms(1) have "c' = wake_up c" by (auto simp: timer_turn_def split: if_splits)
  with wake_up_keeps [OF Waits_Until assms(2)] show ?thesis by simp
next
  case (Expires ids)
  show ?thesis
  proof (cases ids)
    case Nil
    with Expires assms show ?thesis
      by (auto simp: timer_turn_def kept_deadlines_def kept_pending_def timeouts_def due_def in_hand_def fun_eq_iff)
  next
    case (Cons i rest)
    with Expires assms(1) expire_keeps [of c i rest c'] show ?thesis by (simp add: timer_turn_def)
  qed
qed (use assms in \<open>auto simp: timer_turn_def kept_deadlines_def kept_pending_def timeouts_def due_def in_hand_def fun_eq_iff\<close>)

text \<open>The thread's own turns come to an end.\<close>

definition timer_work :: "('a, 'b, 'z) timer_conf \<Rightarrow> nat" where
  "timer_work c =
     (let n = length (due c)
      in case tc_phase c of
           Timer_Ended \<Rightarrow> 0
         | At_Loop \<Rightarrow> 1 + 4 * n
         | Expires ids \<Rightarrow> 2 + 4 * n + length ids
         | Waits_Until until woken \<Rightarrow>
             if woken then 3 + 4 * n
             else if \<exists>t \<in> set_option until. t \<le> tc_now c then (if n = 0 then 3 else 4 * n) else 0)"

lemma timer_turn_works:
  assumes "timer_turn c = Some c'"
  shows "timer_work c' < timer_work c"
proof (cases "tc_phase c")
  case At_Loop
  have "due c \<noteq> []" if "next_wakeup (tc_session c) = Some t" "t \<le> tc_now c" for t
    using next_wakeup_expires [OF that] by (simp add: due_def)
  with At_Loop assms show ?thesis by (auto simp: timer_turn_def timer_work_def Let_def due_def)
next
  case (Waits_Until until woken)
  with assms have c': "c' = wake_up c" and wakes: "woken \<or> (\<exists>t \<in> set_option until. t \<le> tc_now c)"
    by (auto simp: timer_turn_def split: if_splits)
  obtain ids s where r: "collect_expired (tc_now c) (tc_session c) = (ids, s)" by fastforce
  with collect_expired_session(4) [of "tc_now c" "tc_session c"] expired_simps(1) [of "tc_now c" "tc_session c"]
  have "ids = due c" "expired_ids (tc_now c) s = []" by (auto simp: due_def)
  with Waits_Until c' wakes r show ?thesis
    by (cases until; cases "due c") (auto simp: wake_up_def timer_work_def Let_def due_def)
next
  case (Expires ids)
  with assms show ?thesis by (cases ids) (auto simp: timer_turn_def timer_work_def Let_def due_def)
next
  case Timer_Ended
  with assms show ?thesis by (simp add: timer_turn_def)
qed

definition own_turns :: "('a, 'b, 'z) timer_conf \<Rightarrow> ('a, 'b, 'z) timer_conf \<Rightarrow> bool" where
  "own_turns = (\<lambda>c c'. timer_turn c = Some c')\<^sup>*\<^sup>*"

lemma timer_settles:
  assumes "timer_ok c"
  shows "\<exists>c'. own_turns c c' \<and> timer_turn c' = None \<and> timer_ok c' \<and> tc_stop c' = tc_stop c \<and> tc_notices c' = tc_notices c \<and>
    tc_now c' = tc_now c \<and>
    (\<not> tc_stop c \<longrightarrow> kept_deadlines c' = kept_deadlines c \<and> kept_pending c' = kept_pending c \<and> timeouts c' = timeouts c)"
  using assms
proof (induction "timer_work c" arbitrary: c rule: less_induct)
  case less
  show ?case
  proof (cases "timer_turn c")
    case None
    with less.prems show ?thesis by (intro exI [of _ c]) (simp add: own_turns_def)
  next
    case (Some c1)
    note ok = timer_turn_ok [OF less.prems Some]
    from less.hyps [OF timer_turn_works [OF Some]] ok obtain c' where
      c': "own_turns c1 c'" "timer_turn c' = None" "timer_ok c'" "tc_stop c' = tc_stop c" "tc_notices c' = tc_notices c"
        "tc_now c' = tc_now c"
        "\<not> tc_stop c \<longrightarrow> kept_deadlines c' = kept_deadlines c1 \<and> kept_pending c' = kept_pending c1 \<and> timeouts c' = timeouts c1"
      by auto
    moreover have "own_turns c c'"
      using c'(1) Some by (auto simp: own_turns_def intro: converse_rtranclp_into_rtranclp)
    ultimately show ?thesis using timer_turn_keeps [OF Some] by auto
  qed
qed

lemma settled_covers:
  assumes "timer_ok c" and "timer_turn c = None" and "tc_notices c = 0"
  shows "if tc_stop c then tc_phase c = Timer_Ended
    else due c = [] \<and> in_hand c = [] \<and> (\<exists>until. tc_phase c = Waits_Until until False \<and> wait_covers until (tc_session c))"
proof (cases "tc_phase c")
  case (Waits_Until until woken)
  with assms have waiting: "\<not> woken" "\<not> tc_stop c" "wait_covers until (tc_session c)" "\<forall>t \<in> set_option until. \<not> t \<le> tc_now c"
    by (auto simp: timer_turn_def timer_ok_def split: if_splits)
  then have "due c = []" by (fastforce simp: due_def expired_ids_def filter_empty_conv wait_covers_def)
  with waiting Waits_Until show ?thesis by (simp add: in_hand_def)
next
  case (Expires ids)
  with assms(2) show ?thesis by (cases ids) (simp_all add: timer_turn_def)
qed (use assms in \<open>simp_all add: timer_turn_def timer_ok_def\<close>)

text \<open>
  The destructor up to its join: the transport is disconnected, the flag set under the mutex, and the thread notified.  The join returns
  when the thread has ended.
\<close>

definition destroy_begin :: "('a, 'b, 'z) timer_conf \<Rightarrow> ('a, 'b, 'z) timer_conf" where
  "destroy_begin c =
     (let c = run_section Stop_Section (c\<lparr>tc_session := emit [Disconnected] (tc_session c)\<rparr>)
      in notify (c\<lparr>tc_notices := tc_notices c - 1\<rparr>))"

lemma destructor_joins:
  assumes "timer_reachable s c" and "distinct (map fst (s_deadlines s))" and "tc_notices c = 0"
  shows "\<exists>c'. own_turns (destroy_begin c) c' \<and> tc_phase c' = Timer_Ended"
proof -
  have "timer_ok (destroy_begin c)" "tc_notices (destroy_begin c) = 0" "tc_stop (destroy_begin c)"
    using timer_reachable_ok [OF assms(1,2)] assms(3)
    by (auto simp: timer_ok_def destroy_begin_def run_section_def notify_def Let_def split: timer_phase.splits)
  with timer_settles [OF this(1)] settled_covers show ?thesis by metis
qed

subsection \<open>Properties\<close>

text \<open>
  C12. Timeouts are served: however other threads send requests, complete, cancel and postpone them, close the connection or stop the session
  while the timer thread waits or works, once no notification is outstanding the thread left alone comes to rest after finitely many
  turns.  If the session was stopped the thread has then ended, so that the destructor's join returns.  Otherwise every request whose
  deadline had passed, and every one in the thread's hands, is no longer pending and its callback has been called with the timeout
  error; all other pending requests and all later deadlines are untouched, and the thread waits no longer than until the earliest of
  them.
\<close>

theorem timer_serves_deadlines:
  assumes "timer_reachable s c" and "distinct (map fst (s_deadlines s))" and "tc_notices c = 0"
  shows "\<exists>c'. own_turns c c' \<and> timer_turn c' = None \<and>
    (if tc_stop c then tc_phase c' = Timer_Ended
     else (\<forall>i \<in> set (due c) \<union> set (in_hand c). map_of (pending (s_router (tc_session c'))) i = None \<and>
             (\<forall>cb. map_of (pending (s_router (tc_session c))) i = Some cb \<longrightarrow> Invoked i cb timed_out \<in> set (s_trace (tc_session c')))) \<and>
       (\<forall>i. i \<notin> set (due c) \<union> set (in_hand c) \<longrightarrow>
          map_of (pending (s_router (tc_session c'))) i = map_of (pending (s_router (tc_session c))) i) \<and>
       s_deadlines (tc_session c') = filter (\<lambda>(i, d). tc_now c < dl_at d) (s_deadlines (tc_session c)) \<and>
       (\<exists>until. tc_phase c' = Waits_Until until False \<and> wait_covers until (tc_session c')))"
proof -
  note ok = timer_reachable_ok [OF assms(1,2)]
  obtain c' where c': "own_turns c c'" "timer_turn c' = None" "timer_ok c'" "tc_stop c' = tc_stop c" "tc_notices c' = 0"
    "tc_now c' = tc_now c"
    "\<not> tc_stop c \<longrightarrow> kept_deadlines c' = kept_deadlines c \<and> kept_pending c' = kept_pending c \<and> timeouts c' = timeouts c"
    using timer_settles [OF ok] assms(3) by auto
  note rest = settled_covers [OF c'(3,2,5)]
  show ?thesis
  proof (cases "tc_stop c")
    case True
    with c' rest show ?thesis by auto
  next
    case False
    with rest c'(4) have done_: "due c' = []" "in_hand c' = []"
      "\<exists>until. tc_phase c' = Waits_Until until False \<and> wait_covers until (tc_session c')" by auto
    from False c'(7) have keeps: "kept_deadlines c' = kept_deadlines c" "kept_pending c' = kept_pending c" "timeouts c' = timeouts c"
      by simp_all
    have "filter (\<lambda>(i, d). tc_now c < dl_at d) (s_deadlines (tc_session c')) = s_deadlines (tc_session c')"
      using done_(1) c'(6) by (auto simp: due_def expired_ids_def filter_empty_conv intro!: filter_True)
    with keeps(1) c'(6) have deadlines:
      "s_deadlines (tc_session c') = filter (\<lambda>(i, d). tc_now c < dl_at d) (s_deadlines (tc_session c))"
      by (simp add: kept_deadlines_def)
    have "map_of (pending (s_router (tc_session c'))) = kept_pending c'"
      using done_ by (simp add: kept_pending_def restrict_map_def)
    with keeps(2) have pending: "map_of (pending (s_router (tc_session c'))) = kept_pending c" by simp
    have "Invoked i cb timed_out \<in> set (s_trace (tc_session c'))"
      if "i \<in> set (due c) \<union> set (in_hand c)" "map_of (pending (s_router (tc_session c))) i = Some cb" for i cb
      using fun_cong [OF fun_cong [OF keeps(3), of i], of cb] that done_ by (simp add: timeouts_def)
    with False c'(1,2) done_(3) deadlines pending show ?thesis
      by (intro exI [of _ c']) (auto simp: kept_pending_def restrict_map_def)
  qed
qed

lemma timer_serves_deadlines_witness:
  "let s = (new_session :: (unit, unit) session)\<lparr>s_router := register_pending (Id_Int 1) 7 (s_router new_session)\<rparr>;
       c = (run_section (Track_Section (Id_Int 1) (no_options\<lparr>ro_timeout := Some 5\<rparr>)) (start_timer 0 s))\<lparr>tc_notices := 0, tc_now := 9\<rparr>
   in \<exists>c'. own_turns c c' \<and> timer_turn c' = None \<and> Invoked (Id_Int 1) 7 timed_out \<in> set (s_trace (tc_session c'))"
proof -
  let ?s = "(new_session :: (unit, unit) session)\<lparr>s_router := register_pending (Id_Int 1) 7 (s_router new_session)\<rparr>"
  let ?tracked = "run_section (Track_Section (Id_Int 1) (no_options\<lparr>ro_timeout := Some 5\<rparr>)) (start_timer 0 ?s)"
  let ?c = "?tracked\<lparr>tc_notices := 0, tc_now := 9\<rparr>"
  have "timer_reachable ?s ?tracked"
    by (rule timer_next [OF timer_start critical]) (simp add: start_timer_def)
  then have "timer_reachable ?s (notify (?tracked\<lparr>tc_notices := 0\<rparr>))"
    by (rule timer_next [OF _ notified]) (simp add: run_section_def start_timer_def)
  then have "timer_reachable ?s (?tracked\<lparr>tc_notices := 0\<rparr>)" by (simp add: notify_def run_section_def start_timer_def)
  then have reach: "timer_reachable ?s ?c"
    by (rule timer_next [OF _ clock]) (simp add: run_section_def start_timer_def)
  have "Id_Int 1 \<in> set (due ?c)" "\<not> tc_stop ?c" "map_of (pending (s_router (tc_session ?c))) (Id_Int 1) = Some 7"
    by (simp_all add: due_def expired_ids_def run_section_def start_timer_def track_request_def no_options_def Let_def
        register_pending_def new_session_def update_conv)
  with timer_serves_deadlines [OF reach] show ?thesis
    by (simp add: Let_def new_session_def) (metis UnI1)
qed

end
