(* ===== verification/Mcp_Concurrency.thy ===== *)
theory Mcp_Concurrency
  imports Mcp_Session
begin

text \<open>
  The session under concurrency.  Application threads, the reader thread of the transport and the
  timer thread of \<^verbatim>\<open>src/core/session.cpp\<close> run at the same time; each critical section (a block under
  \<^verbatim>\<open>timer_mutex_\<close> or the mutex of the router), each atomic update, each call of the transport and each
  callback is one action here, and the actions of different threads interleave freely.

  Run alone, the actions of an operation compute what the sequential definition does
  (\<open>runs_*\<close>); interleaved, they still complete every request at most once and lose none
  (\<open>obligation_*\<close>).
\<close>

datatype action =
    Allocate int string "json option" callback request_options
  | Register request_id callback
  | Track int request_id request_options
  | Transmit message
  | Clear_Tracking request_id
  | Take_Cancelled request_id "string option"
  | Take_Response jsonrpc_response
  | Take_Failed request_id error
  | Collect_Expired int
  | Enter_State session_state
  | Drop_Tracking
  | Swap_Pending error
  | Complete request_id callback "json result"
  | Notify_Closed

definition complete_all :: "callback invocation list \<Rightarrow> action list" where
  "complete_all invs = map (\<lambda>(i, cb, r). Complete i cb r) invs"

text \<open>An action changes the session and leaves its thread with actions to do first.\<close>

fun perform :: "action \<Rightarrow> ('a, 'b, 'z) session_scheme \<Rightarrow> ('a, 'b, 'z) session_scheme \<times> action list" where
  "perform (Allocate now m params cb opts) s =
     (let i = Id_Int (s_next_request_id s) in
      (s\<lparr>s_next_request_id := wrap64 (s_next_request_id s + 1)\<rparr>,
       case (case ro_progress_token opts of
               None \<Rightarrow> Inr params
             | Some token \<Rightarrow> mapE Some (add_progress_token token params)) of
         Inl e \<Rightarrow> []
       | Inr params' \<Rightarrow>
           [Register i cb, Track now i opts,
            Transmit (Request \<lparr>req_id = i, req_method = m, req_params = params'\<rparr>)]))"
| "perform (Register i cb) s = (s\<lparr>s_router := register_pending i cb (s_router s)\<rparr>, [])"
| "perform (Track now i opts) s = (track_request now i opts s, [])"
| "perform (Transmit m) s = (send_message m s, [])"
| "perform (Clear_Tracking i) s = (clear_tracking i s, [])"
| "perform (Take_Cancelled i reason) s =
     (let (taken, r) = take_pending i (s_router s) in
      (s\<lparr>s_router := r\<rparr>,
       case taken of
         None \<Rightarrow> []
       | Some cb \<Rightarrow>
           [Transmit (cancelled_note i reason),
            Complete i cb (Inl (mk_error InternalError ''request was cancelled''))]))"
| "perform (Take_Response resp) s =
     (let (invs, r) = dispatch_response resp (s_router s) in (s\<lparr>s_router := r\<rparr>, complete_all invs))"
| "perform (Take_Failed i e) s =
     (let (invs, r) = fail_pending i e (s_router s) in (s\<lparr>s_router := r\<rparr>, complete_all invs))"
| "perform (Collect_Expired now) s =
     (let (ids, s') = collect_expired now s in
      (s', concat (map (\<lambda>i. [Transmit (cancelled_note i (Some ''request timed out'')),
                              Take_Failed i (mk_error InternalError ''request timed out'')]) ids)))"
| "perform (Enter_State st) s = (set_state st s, [])"
| "perform Drop_Tracking s = (close_tracking s, [])"
| "perform (Swap_Pending e) s =
     (let (invs, r) = fail_all_pending e (s_router s) in (s\<lparr>s_router := r\<rparr>, complete_all invs))"
| "perform (Complete i cb r) s = (invoke [(i, cb, r)] s, [])"
| "perform Notify_Closed s = (if s_has_close_callback s then emit [Closed] s else s, [])"

definition send_program :: "int \<Rightarrow> string \<Rightarrow> json option \<Rightarrow> callback \<Rightarrow> request_options \<Rightarrow> action list" where
  "send_program now m params cb opts = [Allocate now m params cb opts]"

definition cancel_program :: "request_id \<Rightarrow> string option \<Rightarrow> action list" where
  "cancel_program i reason = [Clear_Tracking i, Take_Cancelled i reason]"

definition response_program :: "jsonrpc_response \<Rightarrow> action list" where
  "response_program resp =
     (case resp_id resp of Some i \<Rightarrow> [Clear_Tracking i] | None \<Rightarrow> []) @ [Take_Response resp]"

definition timer_program :: "int \<Rightarrow> action list" where
  "timer_program now = [Collect_Expired now]"

definition close_program :: "action list" where
  "close_program =
     [Enter_State Shutdown, Drop_Tracking,
      Swap_Pending (mk_error InternalError ''connection closed''), Notify_Closed]"

inductive program :: "action list \<Rightarrow> bool" where
  "program (send_program now m params cb opts)"
| "program (cancel_program i reason)"
| "program (response_program resp)"
| "program (timer_program now)"
| "program close_program"
| "program [Enter_State Shutdown]"
| "program [Transmit m]"

subsection \<open>A program on its own\<close>

inductive runs :: "('a, 'b, 'z) session_scheme \<Rightarrow> action list \<Rightarrow> ('a, 'b, 'z) session_scheme \<Rightarrow> bool" where
  runs_done: "runs s [] s"
| runs_act: "perform a s = (t, bs) \<Longrightarrow> runs t (bs @ as) u \<Longrightarrow> runs s (a # as) u"

inductive_simps runs_nil [simp]: "runs s [] u"
inductive_simps runs_cons: "runs s (a # as) u"

lemma runs_cons_simp [simp]:
  "runs s (a # as) u \<longleftrightarrow> runs (fst (perform a s)) (snd (perform a s) @ as) u"
  by (cases "perform a s") (simp add: runs_cons)

text \<open>A run has one outcome, so the lemmas below say what a program does when it runs alone.\<close>

lemma runs_deterministic: "runs s as u \<Longrightarrow> runs s as u' \<Longrightarrow> u' = u"
  by (induction arbitrary: u' rule: runs.induct) auto

lemma runs_complete_all [simp]:
  "runs s (complete_all invs @ as) u \<longleftrightarrow> runs (invoke invs s) as u"
proof (induction invs arbitrary: s)
  case Nil
  then show ?case by (simp add: complete_all_def invoke_def)
next
  case (Cons inv invs)
  obtain i cb r where inv: "inv = (i, cb, r)" by (cases inv)
  have "invoke invs (invoke [(i, cb, r)] s) = invoke (inv # invs) s"
    by (simp add: invoke_def inv)
  with Cons show ?case by (simp add: complete_all_def inv)
qed

lemma runs_complete_only [simp]: "runs s (complete_all invs) u \<longleftrightarrow> u = invoke invs s"
  using runs_complete_all [of s invs "[]" u] by simp

lemma runs_send:
  "runs s (send_program now m params cb opts) (snd (send_request now m params cb opts s))"
  by (simp add: send_program_def send_request_def Let_def split: sum.split)

lemma runs_cancel: "runs s (cancel_program i reason) (cancel_request i reason s)"
  by (simp add: cancel_program_def cancel_request_def Let_def split_beta split: option.split)

lemma runs_response:
  "runs s (response_program resp)
     (snd (handle_message check run_req run_note now (Response resp) s))"
  by (simp add: response_program_def complete_response_def split_beta Let_def split: option.split)

lemma runs_expire [simp]:
  "runs s (Transmit (cancelled_note i (Some ''request timed out'')) #
      Take_Failed i (mk_error InternalError ''request timed out'') # as) u \<longleftrightarrow>
    runs (expire_one i s) as u"
  by (simp add: expire_one_def Let_def split_beta)

lemma runs_timer: "runs s (timer_program now) (timer_round now s)"
proof -
  have "runs t (concat (map (\<lambda>i. [Transmit (cancelled_note i (Some ''request timed out'')),
      Take_Failed i (mk_error InternalError ''request timed out'')]) ids))
    (foldl (\<lambda>s i. expire_one i s) t ids)" for t :: "('a, 'b, 'c) session_scheme" and ids
    by (induction ids arbitrary: t) (simp_all del: runs_cons_simp)
  then show ?thesis
    by (simp add: timer_program_def timer_round_def split_beta)
qed

lemma runs_close: "runs s close_program (handle_close s)"
  by (simp add: close_program_def handle_close_def Let_def split_beta)

subsection \<open>Interleaving\<close>

type_synonym ('a, 'b, 'z) config = "('a, 'b, 'z) session_scheme \<times> action list list"

text \<open>A thread starts an operation, or the next action of some thread is performed.\<close>

inductive interleave :: "('a, 'b, 'z) config \<Rightarrow> ('a, 'b, 'z) config \<Rightarrow> bool" where
  start: "program p \<Longrightarrow> interleave (s, ts) (s, ts @ [p])"
| act: "k < length ts \<Longrightarrow> ts ! k = a # as \<Longrightarrow> perform a s = (s', bs) \<Longrightarrow>
    interleave (s, ts) (s', ts[k := bs @ as])"

text \<open>
  What is owed to a request: its registration is about to happen, its callback is registered, some
  thread holds the callback and will run it, or it has run.
\<close>

fun weight :: "request_id \<Rightarrow> action \<Rightarrow> nat" where
  "weight i (Register j cb) = (if i = j then 1 else 0)"
| "weight i (Complete j cb r) = (if i = j then 1 else 0)"
| "weight i _ = 0"

definition weights :: "request_id \<Rightarrow> action list \<Rightarrow> nat" where
  "weights i as = sum_list (map (weight i) as)"

fun completion :: "request_id \<Rightarrow> effect \<Rightarrow> nat" where
  "completion i (Invoked j cb r) = (if i = j then 1 else 0)"
| "completion i _ = 0"

definition completions :: "request_id \<Rightarrow> effect list \<Rightarrow> nat" where
  "completions i es = sum_list (map (completion i) es)"

definition awaited :: "request_id \<Rightarrow> ('a, 'b, 'z) session_scheme \<Rightarrow> nat" where
  "awaited i s = (if map_of (pending (s_router s)) i = None then 0 else 1)"

definition held :: "request_id \<Rightarrow> action list list \<Rightarrow> nat" where
  "held i ts = sum_list (map (weights i) ts)"

fun obligation :: "request_id \<Rightarrow> ('a, 'b, 'z) config \<Rightarrow> nat" where
  "obligation i (s, ts) = held i ts + awaited i s + completions i (s_trace s)"

lemma weights_simps [simp]:
  "weights i [] = 0" "weights i (a # as) = weight i a + weights i as"
  "weights i (as @ bs) = weights i as + weights i bs"
  by (simp_all add: weights_def)

lemma completions_simps [simp]:
  "completions i [] = 0" "completions i (e # es) = completion i e + completions i es"
  "completions i (es @ ds) = completions i es + completions i ds"
  by (simp_all add: completions_def)

lemma weights_complete_all:
  "weights i (complete_all invs) = length (filter (\<lambda>inv. fst inv = i) invs)"
  by (induction invs) (auto simp: complete_all_def)

lemma weights_fail_all:
  "weights i (complete_all (map (\<lambda>(j, cb). (j, cb, r)) ps)) = length (filter (\<lambda>p. fst p = i) ps)"
  by (induction ps) (auto simp: complete_all_def)

lemma weights_expiry [simp]:
  "weights i (concat (map (\<lambda>j. [Transmit (f j), Take_Failed j e]) ids)) = 0"
  by (induction ids) simp_all

lemma program_weightless: "program p \<Longrightarrow> weights i p = 0"
  by (induction rule: program.induct)
    (simp_all add: send_program_def cancel_program_def response_program_def timer_program_def
      close_program_def split: option.split)

lemma held_append [simp]: "held i (ts @ [p]) = held i ts + weights i p"
  by (simp add: held_def)

lemma held_update:
  "k < length ts \<Longrightarrow> held i (ts[k := p]) + weights i (ts ! k) = held i ts + weights i p"
proof (induction ts arbitrary: k)
  case (Cons t ts)
  then show ?case by (cases k) (auto simp: held_def algebra_simps)
qed simp

lemma count_distinct_pending:
  assumes "distinct (map fst ps)"
  shows "length (filter (\<lambda>p. fst p = i) ps) = (if map_of ps i = None then 0 else 1)"
  using assms by (induction ps) (auto simp: filter_empty_conv, metis fst_conv map_of_eq_None_iff image_eqI)

text \<open>The ids handed out so far, while the 64 bit counter has not wrapped.\<close>

definition allocated :: "request_id \<Rightarrow> ('a, 'b, 'z) session_scheme \<Rightarrow> bool" where
  "allocated i s \<longleftrightarrow> (\<exists>n. i = Id_Int n \<and> 1 \<le> n \<and> n < s_next_request_id s)"

definition ids_left :: "('a, 'b, 'z) session_scheme \<Rightarrow> bool" where
  "ids_left s \<longleftrightarrow> s_next_request_id s < 2 ^ 63 - 1"

fun consistent :: "('a, 'b, 'z) config \<Rightarrow> bool" where
  "consistent (s, ts) \<longleftrightarrow>
     1 \<le> s_next_request_id s \<and> distinct_pending (s_router s) \<and>
     (\<forall>i. obligation i (s, ts) \<le> (if allocated i s then 1 else 0))"

text \<open>No action but the allocation of an id changes what is owed.\<close>

definition progress :: "request_id \<Rightarrow> ('a, 'b, 'z) session_scheme \<Rightarrow> nat" where
  "progress i s = awaited i s + completions i (s_trace s)"

fun is_allocate :: "action \<Rightarrow> bool" where
  "is_allocate (Allocate now m params cb opts) = True"
| "is_allocate _ = False"

fun registers :: "action \<Rightarrow> request_id option" where
  "registers (Register i cb) = Some i"
| "registers _ = None"

lemma awaited_update [simp]:
  "awaited i (s\<lparr>s_router := register_pending j cb (s_router s)\<rparr>) = (if i = j then 1 else awaited i s)"
  "awaited i (s\<lparr>s_router := snd (take_pending j (s_router s))\<rparr>) = (if i = j then 0 else awaited i s)"
  "awaited i (s\<lparr>s_next_request_id := n\<rparr>) = awaited i s"
  by (simp_all add: awaited_def)

lemma perform_owes:
  assumes "\<not> is_allocate a" and "distinct_pending (s_router s)"
    and "\<And>j. registers a = Some j \<Longrightarrow> awaited j s = 0"
  shows "progress i (fst (perform a s)) + weights i (snd (perform a s)) = progress i s + weight i a"
proof (cases a)
  case (Take_Cancelled j reason)
  then show ?thesis
    by (auto simp: progress_def split_beta Let_def awaited_def split: option.split)
next
  case (Take_Response resp)
  then show ?thesis
    by (cases "resp_id resp")
      (auto simp: progress_def split_beta Let_def dispatch_response_alt dispatch_response_def
        weights_complete_all awaited_def complete_all_def split: option.split)
next
  case (Take_Failed j e)
  then show ?thesis
    by (auto simp: progress_def split_beta Let_def fail_pending_alt complete_all_def awaited_def
        split: option.split)
next
  case (Swap_Pending e)
  with assms(2) show ?thesis
    by (simp add: progress_def split_beta Let_def fail_all_pending_def weights_fail_all
        awaited_def distinct_pending_def count_distinct_pending)
qed (use assms in \<open>auto simp: progress_def awaited_def split_beta Let_def close_tracking_def
    collect_expired_def\<close>)

lemma perform_keeps_ids:
  assumes "\<not> is_allocate a"
  shows "s_next_request_id (fst (perform a s)) = s_next_request_id s"
  using assms
  by (cases a) (auto simp: split_beta Let_def close_tracking_def collect_expired_def invoke_def)

lemma perform_distinct:
  assumes "distinct_pending (s_router s)"
  shows "distinct_pending (s_router (fst (perform a s)))"
  using assms
  by (cases a) (auto simp: split_beta Let_def close_tracking_def collect_expired_def
      dispatch_response_def fail_pending_def split: option.split)

lemma obligation_act:
  assumes "k < length ts" and "ts ! k = a # as"
  shows "obligation i (s', ts[k := bs @ as]) + weight i a + progress i s =
    obligation i (s, ts) + weights i bs + progress i s'"
  using held_update [OF assms(1), of i "bs @ as"] assms(2) by (simp add: progress_def)

lemma obligation_other_act:
  assumes "consistent (s, ts)" and "k < length ts" and "ts ! k = a # as" and "\<not> is_allocate a"
  shows "obligation i (fst (perform a s), ts[k := snd (perform a s) @ as]) = obligation i (s, ts)"
proof -
  have "awaited j s = 0" if "registers a = Some j" for j
  proof -
    from that obtain cb where "a = Register j cb" by (cases a) auto
    then have "1 + weights j as \<le> held j ts"
      using held_update [OF assms(2), of j "[]"] assms(3) by simp
    moreover have "obligation j (s, ts) \<le> 1"
      using assms(1) by (auto split: if_splits)
    ultimately show ?thesis by simp
  qed
  with perform_owes [OF assms(4), of s i] assms(1)
  have "progress i (fst (perform a s)) + weights i (snd (perform a s)) = progress i s + weight i a"
    by simp
  with obligation_act [OF assms(2,3), of i "fst (perform a s)" "snd (perform a s)" s] show ?thesis
    by simp
qed

lemma obligation_allocate:
  assumes "k < length ts" and "ts ! k = Allocate now m params cb opts # as"
    and "perform (Allocate now m params cb opts) s = (s', bs)" and "ids_left s" and "1 \<le> s_next_request_id s"
  shows "s_next_request_id s' = s_next_request_id s + 1 \<and> s_router s' = s_router s \<and>
    obligation i (s', ts[k := bs @ as]) =
      obligation i (s, ts) + weights i bs \<and> weights i bs \<le> (if i = Id_Int (s_next_request_id s) then 1 else 0)"
proof -
  have "wrap64 (s_next_request_id s + 1) = s_next_request_id s + 1"
    using assms(4,5) by (simp add: ids_left_def wrap64_id)
  with assms(3) have s': "s_next_request_id s' = s_next_request_id s + 1" "progress i s' = progress i s"
      "s_router s' = s_router s"
    and bs: "weights i bs \<le> (if i = Id_Int (s_next_request_id s) then 1 else 0)"
    by (auto simp: Let_def progress_def awaited_def split: sum.splits)
  from obligation_act [OF assms(1,2), of i s' bs s] s'(2) have
    "obligation i (s', ts[k := bs @ as]) = obligation i (s, ts) + weights i bs" by simp
  with s' bs show ?thesis by simp
qed

definition concurrent :: "('a, 'b, 'z) config \<Rightarrow> ('a, 'b, 'z) config \<Rightarrow> bool" where
  "concurrent c c' \<longleftrightarrow> interleave c c' \<and> ids_left (fst c)"

lemma act_other_step:
  assumes "consistent (s, ts)" and "k < length ts" and "ts ! k = a # as" and "\<not> is_allocate a"
    and "perform a s = (s', bs)"
  shows "consistent (s', ts[k := bs @ as]) \<and>
    obligation i (s', ts[k := bs @ as]) = obligation i (s, ts)"
proof -
  have same: "obligation j (s', ts[k := bs @ as]) = obligation j (s, ts)" for j
    using obligation_other_act [OF assms(1-4), of j] assms(5) by simp
  have "s_next_request_id s' = s_next_request_id s"
    using perform_keeps_ids [OF assms(4), of s] assms(5) by simp
  moreover have "distinct_pending (s_router s')"
    using perform_distinct [of s a] assms(1,5) by simp
  ultimately show ?thesis
    using assms(1) same by (simp add: allocated_def del: obligation.simps)
qed

lemma act_allocate_step:
  assumes "consistent (s, ts)" and "k < length ts" and "ts ! k = Allocate now m params cb opts # as"
    and "perform (Allocate now m params cb opts) s = (s', bs)" and "ids_left s"
  shows "consistent (s', ts[k := bs @ as]) \<and>
    (obligation i (s, ts) = 1 \<longrightarrow> obligation i (s', ts[k := bs @ as]) = 1)"
proof -
  from assms(1) have pos: "1 \<le> s_next_request_id s" and distinct: "distinct_pending (s_router s)"
    and owed: "obligation j (s, ts) \<le> (if allocated j s then 1 else 0)" for j by simp_all
  note alloc = obligation_allocate [OF assms(2-5) pos]
  have new: "\<not> allocated (Id_Int (s_next_request_id s)) s" by (simp add: allocated_def)
  have mono: "allocated j s \<Longrightarrow> allocated j s'" and here: "allocated (Id_Int (s_next_request_id s)) s'" for j
    using alloc [of j] pos by (auto simp: allocated_def)
  have "obligation j (s', ts[k := bs @ as]) \<le> (if allocated j s' then 1 else 0)" for j
    using alloc [of j] owed [of j] new mono [of j] here
    by (cases "j = Id_Int (s_next_request_id s)") (auto split: if_splits simp del: obligation.simps)
  moreover have "obligation i (s, ts) = 1 \<Longrightarrow> weights i bs = 0"
    using owed [of i] new alloc [of i] by (auto split: if_splits simp del: obligation.simps)
  ultimately show ?thesis
    using alloc [of i] pos distinct by (simp del: obligation.simps)
qed

lemma concurrent_step:
  assumes "concurrent c c'" and "consistent c"
  shows "consistent c' \<and> (obligation i c = 1 \<longrightarrow> obligation i c' = 1)"
proof -
  from assms(1) have "interleave c c'" and left: "ids_left (fst c)" by (simp_all add: concurrent_def)
  then show ?thesis
  proof cases
    case (start p s ts)
    have "obligation j (s, ts @ [p]) = obligation j (s, ts)" for j
      using start(3) by (simp add: program_weightless)
    with assms(2) start show ?thesis by (simp del: obligation.simps)
  next
    case (act k ts a as s s' bs)
    show ?thesis
    proof (cases "is_allocate a")
      case False
      with act_other_step [of s ts k a as s' bs i] act assms(2) show ?thesis by (simp del: obligation.simps)
    next
      case True
      then obtain now m params cb opts where "a = Allocate now m params cb opts" by (cases a) auto
      with act_allocate_step [of s ts k now m params cb opts as s' bs i] act assms(2) left
      show ?thesis by (simp del: obligation.simps perform.simps consistent.simps)
    qed
  qed
qed

definition idle :: "('a, 'b, 'z) session_scheme \<Rightarrow> bool" where
  "idle s \<longleftrightarrow> s_next_request_id s = 1 \<and> pending (s_router s) = [] \<and> s_trace s = []"

lemma idle_consistent: "idle s \<Longrightarrow> consistent (s, [])"
  by (simp add: idle_def distinct_pending_def held_def awaited_def)

lemma concurrent_consistent:
  assumes "concurrent\<^sup>*\<^sup>* c c'" and "consistent c"
  shows "consistent c' \<and> (obligation i c = 1 \<longrightarrow> obligation i c' = 1)"
  using assms by (induction rule: rtranclp_induct) (auto dest: concurrent_step)

text \<open>A program that is not interrupted is one of the interleavings.\<close>

lemma perform_no_allocate: "list_all (\<lambda>b. \<not> is_allocate b) (snd (perform a s)) \<or> is_allocate a"
proof (cases a)
  case (Collect_Expired now)
  have "list_all (\<lambda>b. \<not> is_allocate b) (concat (map (\<lambda>i. [Transmit (f i), Take_Failed i e]) ids))" for f e ids
    by (induction ids) simp_all
  with Collect_Expired show ?thesis by (simp add: split_beta Let_def)
qed (auto simp: split_beta Let_def complete_all_def list_all_iff split: option.split)

lemma concurrent_act:
  "ids_left s \<Longrightarrow> concurrent (s, ts @ [a # as]) (fst (perform a s), ts @ [snd (perform a s) @ as])"
  using act [of "length ts" "ts @ [a # as]" a as s "fst (perform a s)" "snd (perform a s)"]
  by (simp add: concurrent_def)

lemma runs_uninterrupted:
  assumes "runs s p u" and "list_all (\<lambda>b. \<not> is_allocate b) p" and "ids_left s"
  shows "concurrent\<^sup>*\<^sup>* (s, ts @ [p]) (u, ts @ [[]])"
  using assms
proof (induction rule: runs.induct)
  case (runs_done s)
  then show ?case by simp
next
  case (runs_act a s t bs as u)
  from runs_act have "list_all (\<lambda>b. \<not> is_allocate b) (bs @ as)"
    using perform_no_allocate [of a s] by simp
  moreover have "ids_left t"
    using runs_act perform_keeps_ids [of a s] by (simp add: ids_left_def)
  ultimately have "concurrent\<^sup>*\<^sup>* (t, ts @ [bs @ as]) (u, ts @ [[]])" using runs_act by blast
  moreover have "concurrent (s, ts @ [a # as]) (t, ts @ [bs @ as])"
    using concurrent_act [of s ts a as] runs_act by simp
  ultimately show ?case by (rule converse_rtranclp_into_rtranclp [rotated])
qed

text \<open>A run of three operations: a request is allocated, sent and cancelled.\<close>

lemma cancelled_run:
  defines "s \<equiv> new_session :: (unit, unit) session"
  defines "alloc \<equiv> perform (Allocate 0 ''m'' None 7 no_options) s"
  defines "sent \<equiv> snd (send_request 0 ''m'' None 7 no_options s)"
  shows "idle s" and "concurrent\<^sup>*\<^sup>* (s, []) (fst alloc, [snd alloc])" and "concurrent\<^sup>*\<^sup>* (fst alloc, [snd alloc]) (sent, [[]])"
    and "concurrent\<^sup>*\<^sup>* (sent, [[]]) (cancel_request (Id_Int 1) None sent, [[], []])"
    and "obligation (Id_Int 1) (fst alloc, [snd alloc]) = 1"
proof -
  show "idle s"
    by (simp add: s_def idle_def new_session_def session_router_def empty_router_def set_request_handler_def
        set_notification_handler_def)
  have left: "ids_left s" "ids_left (fst alloc)" "ids_left sent"
    by (simp_all add: s_def alloc_def sent_def ids_left_def new_session_def send_request_def no_options_def Let_def)
  have "concurrent (s, []) (s, [send_program 0 ''m'' None 7 no_options])"
    using start [OF program.intros(1), of s "[]"] left(1) by (simp add: concurrent_def)
  moreover have "concurrent (s, [send_program 0 ''m'' None 7 no_options]) (fst alloc, [snd alloc])"
    using concurrent_act [OF left(1), of "[]" "Allocate 0 ''m'' None 7 no_options" "[]"]
    by (simp add: send_program_def alloc_def)
  ultimately show "concurrent\<^sup>*\<^sup>* (s, []) (fst alloc, [snd alloc])" by (rule rtranclp.rtrancl_into_rtrancl [OF r_into_rtranclp])
  have "runs (fst alloc) (snd alloc) sent"
    using runs_send [of s 0 "''m''" None 7 no_options] by (simp add: send_program_def alloc_def sent_def)
  moreover have "list_all (\<lambda>b. \<not> is_allocate b) (snd alloc)"
    by (simp add: alloc_def no_options_def Let_def)
  ultimately show "concurrent\<^sup>*\<^sup>* (fst alloc, [snd alloc]) (sent, [[]])"
    using runs_uninterrupted [OF _ _ left(2), of "snd alloc" sent "[]"] by simp
  have "concurrent (sent, [[]]) (sent, [[], cancel_program (Id_Int 1) None])"
    using start [OF program.intros(2), of sent "[[]]"] left(3) by (simp add: concurrent_def)
  moreover have "concurrent\<^sup>*\<^sup>* (sent, [[], cancel_program (Id_Int 1) None]) (cancel_request (Id_Int 1) None sent, [[], []])"
    using runs_uninterrupted [OF runs_cancel _ left(3), of "Id_Int 1" None "[[]]"]
    by (simp add: cancel_program_def)
  ultimately show "concurrent\<^sup>*\<^sup>* (sent, [[]]) (cancel_request (Id_Int 1) None sent, [[], []])"
    by (rule converse_rtranclp_into_rtranclp)
  show "obligation (Id_Int 1) (fst alloc, [snd alloc]) = 1"
    by (simp add: alloc_def s_def no_options_def held_def awaited_def new_session_def session_router_def
        empty_router_def set_request_handler_def set_notification_handler_def Let_def)
qed

lemma cancelled_run_ends:
  "pending (s_router (cancel_request (Id_Int 1) None (snd (send_request 0 ''m'' None 7 no_options (new_session :: (unit, unit) session))))) = []"
  by (simp add: no_options_def new_session_def session_router_def empty_router_def set_request_handler_def
      set_notification_handler_def cancel_request_def send_request_def register_pending_def take_pending_def Let_def)

subsection \<open>Properties\<close>

text \<open>
  C1. A callback is invoked at most once, and never lost, however the threads interleave: from a
  session that has sent nothing, while the 64 bit id counter has not wrapped, each request is in at
  most one of the four places (about to be registered, registered, held by a thread that will run its
  callback, completed); a request that is in one of them stays so; and when every thread has finished
  and nothing is pending, as after the connection closed, it has been completed exactly once.
\<close>

theorem callbacks_exactly_once:
  assumes "idle s" and "concurrent\<^sup>*\<^sup>* (s, []) c" and "concurrent\<^sup>*\<^sup>* c (t, ts)"
  shows "completions i (s_trace t) \<le> 1 \<and>
    (obligation i c = 1 \<longrightarrow> obligation i (t, ts) = 1) \<and>
    (obligation i c = 1 \<longrightarrow> (\<forall>p \<in> set ts. p = []) \<longrightarrow> pending (s_router t) = [] \<longrightarrow>
      completions i (s_trace t) = 1)"
proof -
  have c: "consistent c"
    using concurrent_consistent [OF assms(2) idle_consistent [OF assms(1)]] by simp
  have t: "consistent (t, ts)" "obligation i c = 1 \<longrightarrow> obligation i (t, ts) = 1"
    using concurrent_consistent [OF assms(3) c] by simp_all
  have "completions i (s_trace t) \<le> 1"
    using t(1) by (auto dest!: spec [of _ i] split: if_splits)
  moreover have "held i ts = 0" if "\<forall>p \<in> set ts. p = []"
    using that by (induction ts) (auto simp: held_def)
  ultimately show ?thesis using t(2) by (auto simp: awaited_def)
qed

lemma callbacks_exactly_once_witness:
  "completions (Id_Int 1) (s_trace (cancel_request (Id_Int 1) None
     (snd (send_request 0 ''m'' None 7 no_options (new_session :: (unit, unit) session))))) = 1"
  using callbacks_exactly_once [OF cancelled_run(1,2) rtranclp_trans [OF cancelled_run(3,4)], of "Id_Int 1"] cancelled_run(5)
    cancelled_run_ends by (simp del: obligation.simps perform.simps)



end
