(* ===== verification/Mcp_Platform.thy ===== *)
theory Mcp_Platform
  imports Mcp_Prelude "HOL-Library.Multiset"
begin

text \<open>
  The platform layer on POSIX (\<^verbatim>\<open>src/platform/posix/io.cpp\<close>, \<^verbatim>\<open>net.cpp\<close> and \<^verbatim>\<open>process.cpp\<close>; the interface is
  \<^verbatim>\<open>src/platform/pal.hpp\<close>), and the one-shot handoff of \<^verbatim>\<open>include/mcp/sys/threading.hpp\<close>.

  Each loop over system calls runs over the list of what the calls return, in order; a loop whose list
  is used up is still inside its last call.  A call returns a value, or an error number of which only
  the distinction of \<open>EINTR\<close> matters, or its message text.
\<close>

datatype errno = EINTR | Errno string

subsection \<open>Descriptors\<close>

text \<open>\<^verbatim>\<open>pal::close_fd\<close>: the descriptor that was closed, if any, and its new value.\<close>

definition close_fd :: "int \<Rightarrow> int list \<times> int" where
  "close_fd fd = (if fd \<ge> 0 then ([fd], -1) else ([], fd))"

definition shutdown_fd :: "int \<Rightarrow> int list" where
  "shutdown_fd fd = (if fd \<ge> 0 then [fd] else [])"

datatype 'a call = Pending_Call | Call_Returns 'a

text \<open>\<open>None\<close> is the result \<open>-1\<close>, the empty string the result \<open>0\<close>.\<close>

fun read_some :: "(errno + string) list \<Rightarrow> string option call \<times> (errno + string) list" where
  "read_some [] = (Pending_Call, [])"
| "read_some (Inr bytes # os) = (Call_Returns (Some bytes), os)"
| "read_some (Inl e # os) = (if e \<noteq> EINTR then (Call_Returns None, os) else read_some os)"

text \<open>
  \<open>write_all data written os\<close>: the result, and the bytes that reached the descriptor.  A \<^verbatim>\<open>write\<close> that
  returns \<open>n\<close> has accepted the first \<open>n\<close> bytes it was given.
\<close>

fun write_all :: "string \<Rightarrow> nat \<Rightarrow> (errno + nat) list \<Rightarrow> bool call \<times> string" where
  "write_all data written os =
     (if \<not> written < length data then (Call_Returns True, [])
      else case os of
        [] \<Rightarrow> (Pending_Call, [])
      | Inl e # os' \<Rightarrow> if e = EINTR then write_all data written os' else (Call_Returns False, [])
      | Inr n # os' \<Rightarrow>
          let (ok, out) = write_all data (written + n) os' in (ok, take n (drop written data) @ out))"

declare write_all.simps [simp del]

text \<open>
  One \<^verbatim>\<open>poll\<close>: its result and the \<^verbatim>\<open>revents\<close> of the descriptor and of the wake descriptor; \<open>wake_fd\<close> is
  negative when there is no wake event.
\<close>

fun poll_readable :: "int \<Rightarrow> (errno + int \<times> bool \<times> bool) list \<Rightarrow> int call" where
  "poll_readable wake_fd [] = Pending_Call"
| "poll_readable wake_fd (Inl e # os) = (if e = EINTR then poll_readable wake_fd os else Call_Returns (-1))"
| "poll_readable wake_fd (Inr (rc, readable, woken) # os) =
     (if rc = 0 then Call_Returns 0
      else if wake_fd \<ge> 0 \<and> woken then Call_Returns 0
      else if readable then Call_Returns 1
      else poll_readable wake_fd os)"

subsection \<open>Wake events\<close>

record wake_event =
  we_read_fd :: int
  we_write_fd :: int
  we_in_pipe :: nat

text \<open>The outcome of \<^verbatim>\<open>pipe\<close>; the last field counts the bytes in it, which nobody ever reads.\<close>

definition new_wake_event :: "(int \<times> int) option \<Rightarrow> wake_event" where
  "new_wake_event made =
     (case made of
        None \<Rightarrow> \<lparr>we_read_fd = -1, we_write_fd = -1, we_in_pipe = 0\<rparr>
      | Some (r, w) \<Rightarrow> \<lparr>we_read_fd = r, we_write_fd = w, we_in_pipe = 0\<rparr>)"

definition wake_is_valid :: "wake_event \<Rightarrow> bool" where
  "wake_is_valid w \<longleftrightarrow> we_read_fd w \<ge> 0"

definition wake_signal :: "(errno + nat) list \<Rightarrow> wake_event \<Rightarrow> wake_event" where
  "wake_signal os w =
     (if we_write_fd w \<ge> 0 then w\<lparr>we_in_pipe := we_in_pipe w + length (snd (write_all [CHR 0x00] 0 os))\<rparr> else w)"

definition poll_handle :: "wake_event \<Rightarrow> int" where
  "poll_handle w = we_read_fd w"

definition destroy_wake_event :: "wake_event \<Rightarrow> int list" where
  "destroy_wake_event w = fst (close_fd (we_read_fd w)) @ fst (close_fd (we_write_fd w))"

subsection \<open>Sockets\<close>

text \<open>\<open>pton\<close> is \<^verbatim>\<open>inet_pton\<close>, the rest what the socket calls return.\<close>

definition fill_addr :: "(string \<Rightarrow> 'a option) \<Rightarrow> string \<Rightarrow> nat \<Rightarrow> string + 'a \<times> nat" where
  "fill_addr pton host port =
     (case pton (if host = ''localhost'' then ''127.0.0.1'' else host) of
        None \<Rightarrow> Inl (''invalid IPv4 address: '' @ host)
      | Some a \<Rightarrow> Inr (a, port))"

text \<open>The result, and the descriptors that were closed on the way.\<close>

definition tcp_listen :: "(string \<Rightarrow> 'a option) \<Rightarrow> string + int \<Rightarrow> string option \<Rightarrow> string option \<Rightarrow> string \<Rightarrow> nat \<Rightarrow>
    (string + int) \<times> int list" where
  "tcp_listen pton socket bound listening host port =
     (case fill_addr pton host port of
        Inl e \<Rightarrow> (Inl e, [])
      | Inr _ \<Rightarrow>
          (case socket of
             Inl e \<Rightarrow> (Inl e, [])
           | Inr fd \<Rightarrow>
               (case (case bound of Some e \<Rightarrow> Some e | None \<Rightarrow> listening) of
                  Some e \<Rightarrow> (Inl e, [fd])
                | None \<Rightarrow> (Inr fd, []))))"

text \<open>\<open>name\<close>: the port \<^verbatim>\<open>getsockname\<close> reports.\<close>

definition tcp_local_port :: "nat option \<Rightarrow> nat" where
  "tcp_local_port name = (case name of None \<Rightarrow> 0 | Some port \<Rightarrow> port)"

datatype connecting = Connected | In_Progress | Connect_Failed string

text \<open>\<open>ready\<close> is the result of the \<^verbatim>\<open>poll\<close> for writability, \<open>so_error\<close> the pending error of the socket.\<close>

definition tcp_connect :: "(string \<Rightarrow> 'a option) \<Rightarrow> string + int \<Rightarrow> connecting \<Rightarrow> int \<Rightarrow> string option \<Rightarrow> string \<Rightarrow> nat \<Rightarrow>
    (string + int) \<times> int list" where
  "tcp_connect pton socket rc ready so_error host port =
     (case fill_addr pton host port of
        Inl e \<Rightarrow> (Inl e, [])
      | Inr _ \<Rightarrow>
          (case socket of
             Inl e \<Rightarrow> (Inl e, [])
           | Inr fd \<Rightarrow>
               (case rc of
                  Connected \<Rightarrow> (Inr fd, [])
                | Connect_Failed e \<Rightarrow> (Inl e, [fd])
                | In_Progress \<Rightarrow>
                    if ready \<le> 0 then (Inl ''connect timed out'', [fd])
                    else (case so_error of Some e \<Rightarrow> (Inl e, [fd]) | None \<Rightarrow> (Inr fd, [])))))"

definition tcp_accept :: "int \<Rightarrow> int" where
  "tcp_accept fd = (if fd < 0 then -1 else fd)"

subsection \<open>Child processes\<close>

record process_spec =
  ps_command :: string
  ps_args :: "string list"
  ps_env :: "(string \<times> string) list"
  ps_cwd :: "string option"

record process =
  pr_pid :: int
  pr_native_handle :: int
  pr_stdin_fd :: int
  pr_stdout_fd :: int
  pr_stderr_fd :: int

definition new_process :: process where
  "new_process = \<lparr>pr_pid = -1, pr_native_handle = 0, pr_stdin_fd = -1, pr_stdout_fd = -1, pr_stderr_fd = -1\<rparr>"

definition spawn_argv :: "process_spec \<Rightarrow> string list" where
  "spawn_argv spec = ps_command spec # ps_args spec"

definition env_key :: "string \<Rightarrow> string" where
  "env_key e = (case find_sub ''='' e of None \<Rightarrow> e | Some n \<Rightarrow> take n e)"

definition spawn_environment :: "(string \<times> string) list \<Rightarrow> string list \<Rightarrow> string list" where
  "spawn_environment env environ =
     filter (\<lambda>e. map_of env (env_key e) = None) environ @ map (\<lambda>(k, v). k @ ''='' @ v) env"

text \<open>
  The parent's side of \<^verbatim>\<open>spawn\<close>: \<open>pipes\<close> are the outcomes of the three calls of \<^verbatim>\<open>pipe\<close> (the first failing
  one ends the attempts), \<open>forked\<close> that of \<^verbatim>\<open>fork\<close>.  The result comes with the descriptors closed.
\<close>

definition spawn :: "(int \<times> int) option list \<Rightarrow> string + int \<Rightarrow> (string + process) \<times> int list" where
  "spawn pipes forked =
     (case pipes of
        [Some (in_read, in_write), Some (out_read, out_write), Some (err_read, err_write)] \<Rightarrow>
          (case forked of
             Inl e \<Rightarrow> (Inl e, [in_read, in_write, out_read, out_write, err_read, err_write])
           | Inr pid \<Rightarrow>
               (Inr (new_process\<lparr>pr_pid := pid, pr_stdin_fd := in_write, pr_stdout_fd := out_read, pr_stderr_fd := err_read\<rparr>),
                [in_read, out_write, err_write]))
      | _ \<Rightarrow> (Inl ''failed to create pipes'', []))"

text \<open>One turn of the loop of \<^verbatim>\<open>wait_exit\<close>: \<^verbatim>\<open>waitpid\<close>, and whether the deadline has passed then.\<close>

datatype waited = Child_Exited int | No_Such_Child | Still_Running

fun wait_exit :: "(waited \<times> bool) list \<Rightarrow> int option call" where
  "wait_exit [] = Pending_Call"
| "wait_exit ((Child_Exited status, late) # os) = Call_Returns (Some status)"
| "wait_exit ((No_Such_Child, late) # os) = Call_Returns (Some (-1))"
| "wait_exit ((Still_Running, late) # os) = (if late then Call_Returns None else wait_exit os)"

datatype signal_number = SIGTERM | SIGKILL

definition terminate :: "process \<Rightarrow> bool \<Rightarrow> (int \<times> signal_number) option" where
  "terminate p force = (if pr_pid p > 0 then Some (pr_pid p, if force then SIGKILL else SIGTERM) else None)"

text \<open>\<^verbatim>\<open>WIFEXITED\<close> and \<^verbatim>\<open>WEXITSTATUS\<close> on the raw status of \<^verbatim>\<open>waitpid\<close>.\<close>

definition exited_normally :: "int \<Rightarrow> bool" where
  "exited_normally status \<longleftrightarrow> status mod 128 = 0"

definition exit_code :: "int \<Rightarrow> int" where
  "exit_code status = (if exited_normally status then status div 256 mod 256 else -1)"

subsection \<open>One-shot handoff\<close>

record 'a one_shot =
  os_value :: "'a option"
  os_ready :: bool

definition new_one_shot :: "'a one_shot" where
  "new_one_shot = \<lparr>os_value = None, os_ready = False\<rparr>"

definition one_shot_set :: "'a \<Rightarrow> 'a one_shot \<Rightarrow> 'a one_shot" where
  "one_shot_set v s = s\<lparr>os_value := Some v, os_ready := True\<rparr>"

text \<open>\<open>None\<close>: the caller waits.\<close>

definition one_shot_get :: "'a one_shot \<Rightarrow> 'a option" where
  "one_shot_get s = (if os_ready s then os_value s else None)"

subsection \<open>What the calls guarantee\<close>

text \<open>Interruptions are invisible: the first other outcome of the call decides.\<close>

lemma read_some_uninterrupted:
  "fst (read_some os) = (case filter (\<lambda>c. c \<noteq> Inl EINTR) os of
      [] \<Rightarrow> Pending_Call
    | Inr bytes # _ \<Rightarrow> Call_Returns (Some bytes)
    | Inl _ # _ \<Rightarrow> Call_Returns None)"
  by (induction os rule: read_some.induct) auto

text \<open>
  What reaches the descriptor is a prefix of the data, all of it exactly if the call succeeds, and only a
  failed \<^verbatim>\<open>write\<close> makes it fail.
\<close>

lemma write_all_outcome:
  "(case write_all data written os of (result, out) \<Rightarrow>
     (\<exists>rest. drop written data = out @ rest \<and>
       (result = Call_Returns True \<longleftrightarrow> rest = []) \<and>
       (result = Call_Returns False \<longrightarrow> (\<exists>e. Inl e \<in> set os \<and> e \<noteq> EINTR))))"
proof (induction data written os rule: write_all.induct)
  case (1 data written os)
  show ?case
  proof (cases "written < length data")
    case False
    then show ?thesis by (simp add: write_all.simps)
  next
    case True
    then have nonempty: "drop written data \<noteq> []" by simp
    show ?thesis
    proof (cases os)
      case Nil
      with True nonempty show ?thesis by (simp add: write_all.simps)
    next
      case (Cons c os')
      show ?thesis
      proof (cases c)
        case (Inl e)
        have "write_all data written os = (if e = EINTR then write_all data written os' else (Call_Returns False, []))"
          using Cons Inl True by (simp add: write_all.simps [of data written "Inl e # os'"])
        with Cons Inl True nonempty "1.IH"(1) [of c os' e] show ?thesis by (cases "e = EINTR") (auto split: prod.splits)
      next
        case (Inr n)
        obtain r out where w: "write_all data (written + n) os' = (r, out)" by fastforce
        have split_at: "drop written data = take n (drop written data) @ drop (written + n) data"
          by (metis append_take_drop_id drop_drop add.commute)
        from "1.IH"(2) [of c os' n] True Cons Inr w obtain rest where
          rest: "drop (written + n) data = out @ rest" "r = Call_Returns True \<longleftrightarrow> rest = []"
            "r = Call_Returns False \<longrightarrow> (\<exists>e. Inl e \<in> set os' \<and> e \<noteq> EINTR)" by auto
        with split_at have "drop written data = (take n (drop written data) @ out) @ rest" by simp
        with rest(2,3) True Cons Inr w show ?thesis
          by (auto simp: write_all.simps [of data written "Inr n # os'"])
      qed
    qed
  qed
qed

text \<open>
  What the transports rely on, whatever the backend: \<open>put data os\<close> puts a prefix of the data on the descriptor, all
  of it exactly if it reports success.  Several writes in a row, as the transports make them, then put a
  prefix of the concatenation there.
\<close>

locale descriptor_writer =
  fixes put :: "string \<Rightarrow> 'o \<Rightarrow> bool call \<times> string"
  assumes writes_prefix: "put data os = (result, out) \<Longrightarrow>
    \<exists>rest. data = out @ rest \<and> (result = Call_Returns True \<longleftrightarrow> rest = [])"
begin

fun write_each :: "(string \<times> 'o) list \<Rightarrow> bool \<times> string" where
  "write_each [] = (True, [])"
| "write_each ((data, os) # ws) =
     (case put data os of
        (Call_Returns True, out) \<Rightarrow> apsnd ((@) out) (write_each ws)
      | (_, out) \<Rightarrow> (False, out))"

lemma write_each_prefix:
  "write_each ws = (ok, out) \<Longrightarrow> \<exists>rest. concat (map fst ws) = out @ rest \<and> (ok \<longrightarrow> rest = [])"
proof (induction ws arbitrary: ok out)
  case (Cons w ws)
  obtain data os where w: "w = (data, os)" by (cases w)
  obtain result sent where r: "put data os = (result, sent)" by fastforce
  from writes_prefix [OF this] obtain rest where
    rest: "data = sent @ rest" "result = Call_Returns True \<longleftrightarrow> rest = []" by blast
  obtain ok' out' where later: "write_each ws = (ok', out')" by fastforce
  show ?case
  proof (cases "result = Call_Returns True")
    case True
    with Cons.IH [OF later] Cons.prems w r rest later show ?thesis by auto
  next
    case False
    with Cons.prems w r have "ok = False \<and> out = sent" by (auto split: call.splits bool.splits)
    with rest w show ?thesis by simp
  qed
qed simp

end

interpretation posix: descriptor_writer "\<lambda>data. write_all data 0"
proof
  fix data os result out
  assume "write_all data 0 os = (result, out)"
  then show "\<exists>rest. data = out @ rest \<and> (result = Call_Returns True \<longleftrightarrow> rest = [])"
    using write_all_outcome [where data = data and written = 0 and os = os] by auto
qed

text \<open>It returns: as many writes that accept something as there are bytes suffice.\<close>

lemma write_all_returns:
  "\<forall>c \<in> set os. c = Inl EINTR \<or> (\<exists>n > 0. c = Inr n) \<Longrightarrow>
   length data \<le> written + length (filter (\<lambda>c. c \<noteq> Inl EINTR) os) \<Longrightarrow>
   write_all data written os = (Call_Returns True, drop written data)"
proof (induction os arbitrary: written)
  case Nil
  then show ?case by (simp add: write_all.simps)
next
  case (Cons c os)
  consider "length data \<le> written" | "c = Inl EINTR" "written < length data" | n where "c = Inr n" "0 < n" "written < length data"
    using Cons.prems(1) by fastforce
  then show ?case
  proof cases
    case 1
    then show ?thesis by (simp add: write_all.simps)
  next
    case 2
    with Cons show ?thesis by (simp add: write_all.simps [of data written "Inl EINTR # os"])
  next
    case 3
    then have "write_all data (written + n) os = (Call_Returns True, drop (written + n) data)"
      using Cons.prems by (intro Cons.IH) auto
    with 3 show ?thesis
      by (simp add: write_all.simps [of data written "Inr n # os"]) (metis append_take_drop_id drop_drop add.commute)
  qed
qed

text \<open>
  Once a wake event was signalled the byte stays in the pipe, so every later \<^verbatim>\<open>poll\<close> that returns reports it:
  no waiter is told that its descriptor is readable any more.
\<close>

lemma woken_poll:
  assumes "wake_fd \<ge> 0" and "\<forall>c \<in> set os. \<forall>rc readable woken. c = Inr (rc, readable, woken) \<longrightarrow> rc \<noteq> 0 \<longrightarrow> woken"
  shows "poll_readable wake_fd os \<noteq> Call_Returns 1"
  using assms by (induction wake_fd os rule: poll_readable.induct) auto

lemma signal_stays:
  assumes "wake_is_valid (new_wake_event made)" and "\<And>w. made = Some w \<Longrightarrow> snd w \<ge> 0" and "fst (write_all [CHR 0x00] 0 os) = Call_Returns True"
  shows "we_in_pipe (wake_signal os (new_wake_event made)) = 1"
proof -
  obtain r w where made: "made = Some (r, w)" using assms(1) by (cases made) (auto simp: wake_is_valid_def new_wake_event_def)
  have "snd (write_all [CHR 0x00] 0 os) = [CHR 0x00]"
    using write_all_outcome [where data = "[CHR 0x00]" and written = 0 and os = os] assms(3) by (cases "write_all [CHR 0x00] 0 os") auto
  with made assms(2) show ?thesis by (simp add: wake_signal_def new_wake_event_def)
qed

text \<open>
  Whatever a wake event is made of, each backend makes a pair of descriptors or fails: \<open>make os\<close> is the pair and
  what was closed on the way, \<open>opened os\<close> what the system calls opened.  Nothing leaks and nothing is closed
  twice over the life of the event, however often it is signalled.
\<close>

definition pair_list :: "(int \<times> int) option \<Rightarrow> int list" where
  "pair_list made = (case made of None \<Rightarrow> [] | Some (r, w) \<Rightarrow> [r, w])"

locale wake_pairs =
  fixes make :: "'o \<Rightarrow> (int \<times> int) option \<times> int list" and opened :: "'o \<Rightarrow> int list"
  assumes pairs_balanced: "make os = (made, closed) \<Longrightarrow> mset (closed @ pair_list made) = mset (opened os)"
    and opened_valid: "fd \<in> set (opened os) \<Longrightarrow> 0 \<le> fd"
begin

lemma made_valid: "make os = (Some (r, w), closed) \<Longrightarrow> 0 \<le> r \<and> 0 \<le> w"
  using mset_eq_setD [OF pairs_balanced [of os "Some (r, w)" closed]] opened_valid [of _ os]
  by (auto simp: pair_list_def)

lemma event_balanced:
  assumes "make os = (made, closed)"
  shows "mset (closed @ destroy_wake_event (fold wake_signal signals (new_wake_event made))) = mset (opened os)"
    and "wake_is_valid (new_wake_event made) \<longleftrightarrow> made \<noteq> None"
proof -
  have fds: "we_read_fd (fold wake_signal signals w) = we_read_fd w \<and> we_write_fd (fold wake_signal signals w) = we_write_fd w" for w
    by (induction signals arbitrary: w) (auto simp: wake_signal_def)
  show "mset (closed @ destroy_wake_event (fold wake_signal signals (new_wake_event made))) = mset (opened os)"
    using pairs_balanced [OF assms] made_valid assms
    by (cases made) (auto simp: destroy_wake_event_def fds new_wake_event_def close_fd_def pair_list_def add_mset_commute)
  show "wake_is_valid (new_wake_event made) \<longleftrightarrow> made \<noteq> None"
    using made_valid assms by (cases made) (auto simp: wake_is_valid_def new_wake_event_def)
qed

end

text \<open>On POSIX the pair is a pipe; a descriptor that the system returns is not negative.\<close>

definition make_pipe :: "(nat \<times> nat) option \<Rightarrow> (int \<times> int) option \<times> int list" where
  "make_pipe made = (map_option (map_prod int int) made, [])"

interpretation posix_pipe: wake_pairs make_pipe "\<lambda>made. pair_list (fst (make_pipe made))"
  by unfold_locales (auto simp: make_pipe_def pair_list_def split: option.splits prod.splits)

text \<open>A failed \<^verbatim>\<open>tcp_listen\<close> or \<^verbatim>\<open>tcp_connect\<close> closes the socket it created, a successful one closes nothing.\<close>

lemma tcp_descriptors:
  assumes "socket = Inr fd"
  shows "tcp_listen pton socket bound listening host port = (Inl e, closed) \<Longrightarrow>
      closed = (case fill_addr pton host port of Inl _ \<Rightarrow> [] | Inr _ \<Rightarrow> [fd])"
    and "tcp_connect pton socket rc ready so_error host port = (Inl e, closed) \<Longrightarrow>
      closed = (case fill_addr pton host port of Inl _ \<Rightarrow> [] | Inr _ \<Rightarrow> [fd])"
    and "tcp_listen pton socket bound listening host port = (Inr fd', closed) \<Longrightarrow> fd' = fd \<and> closed = []"
    and "tcp_connect pton socket rc ready so_error host port = (Inr fd', closed) \<Longrightarrow> fd' = fd \<and> closed = []"
  using assms
  by (auto simp: tcp_listen_def tcp_connect_def split: sum.splits option.splits connecting.splits if_splits)

subsection \<open>The environment of a child\<close>

text \<open>\<^verbatim>\<open>getenv\<close>: the first entry with the name.\<close>

fun env_lookup :: "string \<Rightarrow> string list \<Rightarrow> string option" where
  "env_lookup k [] = None"
| "env_lookup k (e # es) = (if starts_with e (k @ ''='') then Some (drop (length k + 1) e) else env_lookup k es)"

lemma starts_with_append [simp]: "starts_with (k @ rest) k" "starts_with (k @ c # rest) (k @ [c])"
  by (simp_all add: starts_with_def)

lemma env_key_entry: "CHR ''='' \<notin> set k \<Longrightarrow> starts_with e (k @ ''='') \<Longrightarrow> env_key e = k"
  unfolding env_key_def starts_with_def
  by (metis (no_types, lifting) append.assoc append_Cons append_self_conv2 append_take_drop_id append_eq_conv_conj find_char_append option.simps(5))

lemma env_lookup_append: "env_lookup k (es @ es') = (case env_lookup k es of None \<Rightarrow> env_lookup k es' | Some v \<Rightarrow> Some v)"
  by (induction es) auto

lemma env_lookup_entries:
  "CHR ''='' \<notin> set k \<Longrightarrow> \<forall>n \<in> fst ` set env. CHR ''='' \<notin> set n \<Longrightarrow>
   env_lookup k (map (\<lambda>(k, v). k @ ''='' @ v) env) = map_of env k"
proof (induction env)
  case (Cons kv env)
  obtain n v where kv: "kv = (n, v)" by (cases kv)
  have "starts_with (n @ ''='' @ v) (k @ ''='') \<longleftrightarrow> n = k"
    using env_key_entry [of k "n @ ''='' @ v"] env_key_entry [of n "n @ ''='' @ v"] Cons.prems kv by auto
  with Cons kv show ?case by auto
qed simp

lemma env_lookup_filtered:
  "CHR ''='' \<notin> set k \<Longrightarrow>
   env_lookup k (filter (\<lambda>e. map_of env (env_key e) = None) es) = (if map_of env k = None then env_lookup k es else None)"
proof (induction es)
  case (Cons e es)
  with env_key_entry [of k e] show ?case by auto
qed simp

text \<open>
  The child's environment: the variables of the launch parameters override the inherited ones, and
  every other variable is inherited.
\<close>

lemma child_environment:
  assumes "CHR ''='' \<notin> set k" and "\<forall>n \<in> fst ` set env. CHR ''='' \<notin> set n"
  shows "env_lookup k (spawn_environment env environ) =
    (case map_of env k of Some v \<Rightarrow> Some v | None \<Rightarrow> env_lookup k environ)"
  using env_lookup_entries [OF assms]
  by (simp add: spawn_environment_def env_lookup_append env_lookup_filtered [OF assms(1)] split: option.split)

text \<open>
  Descriptors of \<^verbatim>\<open>spawn\<close>: after success the parent keeps exactly the three ends it hands out; after a failed
  fork it keeps none.  When a later \<^verbatim>\<open>pipe\<close> fails, the pipes made before stay open.
\<close>

lemma spawn_descriptors:
  assumes "pipes = [Some (a, b), Some (c, d), Some (e, f)]" and "distinct [a, b, c, d, e, f]"
  shows "spawn pipes (Inr pid) = (Inr p, closed) \<Longrightarrow>
      {a, b, c, d, e, f} - set closed = {pr_stdin_fd p, pr_stdout_fd p, pr_stderr_fd p} \<and> pr_pid p = pid"
    and "spawn pipes (Inl msg) = (Inl msg', closed) \<Longrightarrow> {a, b, c, d, e, f} - set closed = {}"
    and "spawn [Some (a, b), None] forked = (Inl ''failed to create pipes'', [])"
  using assms by (auto simp: spawn_def)

text \<open>\<^verbatim>\<open>wait_exit\<close> reports the first exit it sees before the deadline passes.\<close>

lemma wait_exit_reports:
  assumes "\<forall>c \<in> set cs. c = (Still_Running, False)"
  shows "wait_exit (cs @ (Child_Exited status, late) # os) = Call_Returns (Some status)"
    and "wait_exit (cs @ (Still_Running, True) # os) = Call_Returns None"
  using assms by (induction cs) auto

lemma exit_code_of_exit: "0 \<le> c \<Longrightarrow> c < 256 \<Longrightarrow> exited_normally (256 * c) \<and> exit_code (256 * c) = c"
  by (auto simp: exited_normally_def exit_code_def)

text \<open>A value that was set is what the waiting thread gets, whenever it looks.\<close>

lemma one_shot_handoff: "one_shot_get new_one_shot = None" "one_shot_get (one_shot_set v s) = Some v"
  by (simp_all add: one_shot_get_def one_shot_set_def new_one_shot_def)

end
