(* ===== verification/Mcp_Blocking.thy ===== *)
theory Mcp_Blocking
  imports Mcp_Concurrency Mcp_Platform
begin

text \<open>
  Blocking requests (\<^verbatim>\<open>Session::send_request_sync\<close> in \<^verbatim>\<open>src/core/session.cpp\<close>): a request whose callback hands its result to a
  \<^verbatim>\<open>OneShot\<close> for which the caller waits.  The slot is what the callbacks in the session's trace have made of it.
\<close>

fun hand_over :: "request_id \<Rightarrow> effect \<Rightarrow> json result one_shot \<Rightarrow> json result one_shot" where
  "hand_over i (Invoked j cb r) slot = (if j = i then one_shot_set r slot else slot)"
| "hand_over i _ slot = slot"

definition sync_slot :: "request_id \<Rightarrow> effect list \<Rightarrow> json result one_shot" where
  "sync_slot i es = fold (hand_over i) es new_one_shot"

text \<open>The call split at its wait; \<open>None\<close>: the caller still waits.\<close>

definition send_request_sync_begin :: "int \<Rightarrow> string \<Rightarrow> json option \<Rightarrow> callback \<Rightarrow> request_options \<Rightarrow>
    ('a, 'b, 'z) session_scheme \<Rightarrow> request_id throws \<times> ('a, 'b, 'z) session_scheme" where
  "send_request_sync_begin now m params slot opts s = send_request now m params slot opts s"

definition send_request_sync_end :: "request_id \<Rightarrow> ('a, 'b, 'z) session_scheme \<Rightarrow> json result option" where
  "send_request_sync_end i s = one_shot_get (sync_slot i (s_trace s))"

subsection \<open>The slot and the trace\<close>

lemma sync_slot_snoc [simp]:
  "sync_slot i [] = new_one_shot" "sync_slot i (es @ [e]) = hand_over i e (sync_slot i es)"
  by (simp_all add: sync_slot_def)

lemma completions_none: "completions i es = 0 \<longleftrightarrow> (\<forall>cb r. Invoked i cb r \<notin> set es)"
proof (induction es)
  case (Cons e es)
  then show ?case by (cases e) auto
qed simp

lemma sync_slot_result:
  "completions i es \<le> 1 \<Longrightarrow> one_shot_get (sync_slot i es) = Some r \<longleftrightarrow> (\<exists>cb. Invoked i cb r \<in> set es)"
proof (induction es rule: rev_induct)
  case Nil
  show ?case by (simp add: new_one_shot_def one_shot_get_def)
next
  case (snoc e es)
  show ?case
  proof (cases "completion i e")
    case 0
    then have "hand_over i e slot = slot" for slot by (cases e) (auto split: if_splits)
    with snoc 0 show ?thesis by (cases e) auto
  next
    case (Suc n)
    then obtain cb q where e: "e = Invoked i cb q" by (cases e) (auto split: if_splits)
    with snoc.prems have "completions i es = 0" by simp
    with e show ?thesis by (auto simp: completions_none one_shot_set_def one_shot_get_def)
  qed
qed

lemma sync_slot_waits: "completions i es = 0 \<Longrightarrow> one_shot_get (sync_slot i es) = None"
  using sync_slot_result [of i es] completions_none [of i es] by (metis not_Some_eq zero_le)

lemma perform_trace: "\<exists>es. s_trace (fst (perform a s)) = s_trace s @ es"
proof (cases a)
  case (Track now i opts)
  then show ?thesis by simp
qed (auto simp: split_beta Let_def close_tracking_def collect_expired_def)

lemma concurrent_trace: "concurrent\<^sup>*\<^sup>* c c' \<Longrightarrow> \<exists>es. s_trace (fst c') = s_trace (fst c) @ es"
proof (induction rule: rtranclp_induct)
  case (step c' c'')
  from step.hyps(2) have "interleave c' c''" by (simp add: concurrent_def)
  then have "\<exists>es. s_trace (fst c'') = s_trace (fst c') @ es"
  proof cases
    case (act k ts a as s s' bs)
    with perform_trace [of a s] show ?thesis by simp
  qed simp
  with step.IH show ?case by auto
qed simp

subsection \<open>Properties\<close>

text \<open>
  C13. A blocking request returns the outcome of its request and cannot hang while the session works: however the threads interleave after the
  request was allocated, the caller gets a value exactly if the request's callback was called, and then that result, which does not
  change any more; as long as the caller waits, exactly one table entry or thread still owes it a result; and when every thread
  has finished and nothing is pending, as after the connection closed, the call has returned.
\<close>

theorem sync_request_returns:
  assumes "idle s" and "concurrent\<^sup>*\<^sup>* (s, []) c" and "obligation i c = 1"
    and "concurrent\<^sup>*\<^sup>* c c1" and "concurrent\<^sup>*\<^sup>* c1 (t, ts)"
  shows "(\<forall>r. send_request_sync_end i (fst c1) = Some r \<longrightarrow> send_request_sync_end i t = Some r) \<and>
    (\<forall>r. send_request_sync_end i t = Some r \<longleftrightarrow> (\<exists>cb. Invoked i cb r \<in> set (s_trace t))) \<and>
    (send_request_sync_end i t = None \<longrightarrow> held i ts + awaited i t = 1) \<and>
    ((\<forall>p \<in> set ts. p = []) \<longrightarrow> pending (s_router t) = [] \<longrightarrow> (\<exists>r. send_request_sync_end i t = Some r))"
proof -
  have c: "consistent c" using concurrent_consistent [OF assms(2) idle_consistent [OF assms(1)]] by simp
  have ct: "concurrent\<^sup>*\<^sup>* c (t, ts)" using assms(4,5) by simp
  have owes: "obligation i c1 = 1" "obligation i (t, ts) = 1"
    using concurrent_consistent [OF assms(4) c] concurrent_consistent [OF ct c] assms(3) by (simp_all del: obligation.simps)
  obtain s1 ts1 where c1: "c1 = (s1, ts1)" by (cases c1)
  with owes have once: "completions i (s_trace s1) \<le> 1" "completions i (s_trace t) \<le> 1" by simp_all
  obtain es where es: "s_trace t = s_trace s1 @ es" using concurrent_trace [OF assms(5)] c1 by auto
  note result = sync_slot_result [OF once(2), folded send_request_sync_end_def]
  have "send_request_sync_end i t = Some r" if "send_request_sync_end i s1 = Some r" for r
    using that sync_slot_result [OF once(1)] result es by (auto simp: send_request_sync_end_def)
  moreover have waits: "completions i (s_trace t) = 0" if "send_request_sync_end i t = None"
    using that result by (auto simp: completions_none)
  moreover have "\<exists>r. send_request_sync_end i t = Some r" if "completions i (s_trace t) \<noteq> 0" using that waits by force
  moreover have "held i ts = 0" if "\<forall>p \<in> set ts. p = []" using that by (induction ts) (auto simp: held_def)
  ultimately show ?thesis
    using owes(2) result c1 by (auto simp: awaited_def)
qed

lemma sync_request_returns_witness:
  "\<exists>r. send_request_sync_end (Id_Int 1) (cancel_request (Id_Int 1) None
     (snd (send_request 0 ''m'' None 7 no_options (new_session :: (unit, unit) session)))) = Some r"
  using sync_request_returns [OF cancelled_run(1,2,5,3,4), THEN conjunct2, THEN conjunct2, THEN conjunct2] cancelled_run_ends by simp

end
