(* ===== verification/Mcp_Endpoint.thy ===== *)
theory Mcp_Endpoint
  imports Mcp_Platform
begin

text \<open>
  The life of the HTTP listener (\<^verbatim>\<open>HttpEndpoint\<close> in \<^verbatim>\<open>src/transport/http/http_endpoint.cpp\<close>): starting, the
  accept loop, the end of a connection thread, and stopping.  What a connection does with its request is
  in the theory of the HTTP server; here it is a thread that holds a descriptor until it ends.

  The accept thread, the connection threads and the thread that calls \<^verbatim>\<open>stop\<close> interleave at their critical
  sections; \<open>endpoint_step\<close> has one rule per section.  The open descriptors of the listener and those
  that were closed without being open are ghosts.
\<close>

subsection \<open>The endpoint\<close>

record endpoint =
  ep_running :: bool
  ep_listen_fd :: int
  ep_bound_port :: nat
  ep_conn_fds :: "int list"

definition new_endpoint :: endpoint where
  "new_endpoint = \<lparr>ep_running = False, ep_listen_fd = -1, ep_bound_port = 0, ep_conn_fds = []\<rparr>"

text \<open>\<open>listened\<close>: the outcome of \<^verbatim>\<open>tcp_listen\<close>; \<open>valid\<close>: that of creating the wake event.\<close>

definition endpoint_start :: "string + int \<Rightarrow> bool \<Rightarrow> nat \<Rightarrow> endpoint \<Rightarrow> (string + unit) \<times> endpoint \<times> int list" where
  "endpoint_start listened valid local_port e =
     (if ep_running e then (Inr (), e, [])
      else case listened of
        Inl err \<Rightarrow> (Inl err, e\<lparr>ep_listen_fd := -1\<rparr>, [])
      | Inr fd \<Rightarrow>
          if \<not> valid
          then (case close_fd fd of (closed, fd') \<Rightarrow>
                  (Inl ''failed to create wake event'', e\<lparr>ep_listen_fd := fd'\<rparr>, closed))
          else (Inr (), e\<lparr>ep_running := True, ep_listen_fd := fd, ep_bound_port := local_port\<rparr>, []))"

text \<open>The section of the accept loop that holds the mutex: the endpoint, and whether the connection was taken.\<close>

definition admit :: "int \<Rightarrow> endpoint \<Rightarrow> bool \<times> endpoint" where
  "admit fd e = (if \<not> ep_running e then (False, e) else (True, e\<lparr>ep_conn_fds := ep_conn_fds e @ [fd]\<rparr>))"

text \<open>The end of \<^verbatim>\<open>handle_connection\<close>: the descriptor is closed by whoever removes it from the list.\<close>

definition release :: "int \<Rightarrow> endpoint \<Rightarrow> int list \<times> endpoint" where
  "release fd e = (if fd \<in> set (ep_conn_fds e) then ([fd], e\<lparr>ep_conn_fds := remove1 fd (ep_conn_fds e)\<rparr>) else ([], e))"

text \<open>The last part of \<^verbatim>\<open>stop\<close>.\<close>

definition close_all :: "endpoint \<Rightarrow> int list \<times> endpoint" where
  "close_all e =
     (case close_fd (ep_listen_fd e) of (closed, fd) \<Rightarrow>
        (concat (map (\<lambda>d. fst (close_fd d)) (ep_conn_fds e)) @ closed, e\<lparr>ep_conn_fds := [], ep_listen_fd := fd\<rparr>))"

subsection \<open>Interleaving\<close>

datatype accept_phase = Polling | Accepting | Has_Connection int | Accept_Done

datatype stop_phase = Serving | Stop_Requested | Connections_Shut | Accept_Joined | Connections_Joined | Stopped

record ep_conf =
  ec_endpoint :: endpoint
  ec_accept :: accept_phase
  ec_conns :: "int list"
  ec_stop :: stop_phase
  ec_shut :: "int set"
  ec_open :: "int set"
  ec_misclosed :: "int list"

fun close_list :: "int list \<Rightarrow> ep_conf \<Rightarrow> ep_conf" where
  "close_list [] k = k"
| "close_list (fd # fds) k =
     close_list fds (k\<lparr>ec_open := ec_open k - {fd}, ec_shut := ec_shut k - {fd},
                       ec_misclosed := ec_misclosed k @ (if fd \<in> ec_open k then [] else [fd])\<rparr>)"

inductive endpoint_step :: "ep_conf \<Rightarrow> ep_conf \<Rightarrow> bool" where
  poll_ready: "ec_accept k = Polling \<Longrightarrow> ep_running (ec_endpoint k) \<Longrightarrow> endpoint_step k (k\<lparr>ec_accept := Accepting\<rparr>)"
| poll_ends: "ec_accept k = Polling \<Longrightarrow> endpoint_step k (k\<lparr>ec_accept := Accept_Done\<rparr>)"
| accept_fails: "ec_accept k = Accepting \<Longrightarrow> endpoint_step k (k\<lparr>ec_accept := Polling\<rparr>)"
| accepts: "ec_accept k = Accepting \<Longrightarrow> fd \<ge> 0 \<Longrightarrow> fd \<notin> ec_open k \<Longrightarrow>
    endpoint_step k (k\<lparr>ec_accept := Has_Connection fd, ec_open := insert fd (ec_open k), ec_shut := ec_shut k - {fd}\<rparr>)"
| admits: "ec_accept k = Has_Connection fd \<Longrightarrow> admit fd (ec_endpoint k) = (True, e) \<Longrightarrow>
    endpoint_step k (k\<lparr>ec_accept := Polling, ec_endpoint := e, ec_conns := fd # ec_conns k\<rparr>)"
| refuses: "ec_accept k = Has_Connection fd \<Longrightarrow> admit fd (ec_endpoint k) = (False, e) \<Longrightarrow>
    endpoint_step k (close_list [fd] (k\<lparr>ec_accept := Accept_Done, ec_endpoint := e\<rparr>))"
| connection_ends: "fd \<in> set (ec_conns k) \<Longrightarrow> release fd (ec_endpoint k) = (closed, e) \<Longrightarrow>
    endpoint_step k (close_list closed (k\<lparr>ec_endpoint := e, ec_conns := remove1 fd (ec_conns k)\<rparr>))"
| stop_begins: "ec_stop k = Serving \<Longrightarrow> ep_running (ec_endpoint k) \<Longrightarrow>
    endpoint_step k (k\<lparr>ec_endpoint := (ec_endpoint k)\<lparr>ep_running := False\<rparr>, ec_stop := Stop_Requested\<rparr>)"
| stop_shuts: "ec_stop k = Stop_Requested \<Longrightarrow>
    endpoint_step k (k\<lparr>ec_shut := ec_shut k \<union> set (ep_conn_fds (ec_endpoint k)), ec_stop := Connections_Shut\<rparr>)"
| stop_joins_accept: "ec_stop k = Connections_Shut \<Longrightarrow> ec_accept k = Accept_Done \<Longrightarrow>
    endpoint_step k (k\<lparr>ec_stop := Accept_Joined\<rparr>)"
| stop_joins_connections: "ec_stop k = Accept_Joined \<Longrightarrow> ec_conns k = [] \<Longrightarrow>
    endpoint_step k (k\<lparr>ec_stop := Connections_Joined\<rparr>)"
| stop_closes: "ec_stop k = Connections_Joined \<Longrightarrow> close_all (ec_endpoint k) = (closed, e) \<Longrightarrow>
    endpoint_step k (close_list closed (k\<lparr>ec_endpoint := e, ec_stop := Stopped\<rparr>))"

inductive_cases endpoint_stepE: "endpoint_step k k'"

definition started :: "int \<Rightarrow> nat \<Rightarrow> ep_conf" where
  "started fd port =
     \<lparr>ec_endpoint = fst (snd (endpoint_start (Inr fd) True port new_endpoint)), ec_accept = Polling, ec_conns = [],
      ec_stop = Serving, ec_shut = {}, ec_open = {fd}, ec_misclosed = []\<rparr>"

inductive endpoint_reachable :: "int \<Rightarrow> nat \<Rightarrow> ep_conf \<Rightarrow> bool" for fd port where
  "endpoint_reachable fd port (started fd port)"
| "endpoint_reachable fd port k \<Longrightarrow> endpoint_step k k' \<Longrightarrow> endpoint_reachable fd port k'"

subsection \<open>Invariant\<close>

definition held :: "ep_conf \<Rightarrow> int set" where
  "held k = (case ec_accept k of Has_Connection fd \<Rightarrow> {fd} | _ \<Rightarrow> {})"

definition listening :: "ep_conf \<Rightarrow> int set" where
  "listening k = (if ec_stop k = Stopped then {} else {ep_listen_fd (ec_endpoint k)})"

definition descriptors_ok :: "ep_conf \<Rightarrow> bool" where
  "descriptors_ok k \<longleftrightarrow>
     (let fds = set (ep_conn_fds (ec_endpoint k)) in
      ec_misclosed k = [] \<and> distinct (ep_conn_fds (ec_endpoint k)) \<and> distinct (ec_conns k) \<and> set (ec_conns k) = fds \<and>
      ec_open k = fds \<union> held k \<union> listening k \<and> fds \<inter> held k = {} \<and> (fds \<union> held k) \<inter> listening k = {} \<and>
      (\<forall>fd \<in> ec_open k. 0 \<le> fd))"

definition stop_ok :: "ep_conf \<Rightarrow> bool" where
  "stop_ok k \<longleftrightarrow>
     (ec_stop k \<noteq> Serving \<longrightarrow> \<not> ep_running (ec_endpoint k)) \<and>
     (ec_stop k \<notin> {Serving, Stop_Requested} \<longrightarrow> set (ec_conns k) \<subseteq> ec_shut k) \<and>
     (ec_stop k \<in> {Accept_Joined, Connections_Joined, Stopped} \<longrightarrow> ec_accept k = Accept_Done) \<and>
     (ec_stop k \<in> {Connections_Joined, Stopped} \<longrightarrow> ec_conns k = [])"

lemma close_list_fields [simp]:
  "ec_endpoint (close_list fds k) = ec_endpoint k" "ec_accept (close_list fds k) = ec_accept k"
  "ec_conns (close_list fds k) = ec_conns k" "ec_stop (close_list fds k) = ec_stop k"
  "ec_open (close_list fds k) = ec_open k - set fds" "ec_shut (close_list fds k) = ec_shut k - set fds"
  by (induction fds arbitrary: k) auto

lemma held_simps [simp]:
  "ec_accept k = Has_Connection fd \<Longrightarrow> held k = {fd}"
  "ec_accept k = Polling \<Longrightarrow> held k = {}" "ec_accept k = Accepting \<Longrightarrow> held k = {}" "ec_accept k = Accept_Done \<Longrightarrow> held k = {}"
  by (simp_all add: held_def)

lemma started_ok: "0 \<le> fd \<Longrightarrow> descriptors_ok (started fd port) \<and> stop_ok (started fd port)"
  by (simp add: descriptors_ok_def stop_ok_def started_def new_endpoint_def endpoint_start_def held_def listening_def)

lemma close_all_nonneg:
  assumes "\<forall>fd \<in> set (ep_conn_fds e). 0 \<le> fd" and "0 \<le> ep_listen_fd e"
  shows "close_all e = (ep_conn_fds e @ [ep_listen_fd e], e\<lparr>ep_conn_fds := [], ep_listen_fd := -1\<rparr>)"
proof -
  have "concat (map (\<lambda>d. fst (close_fd d)) ds) = ds" if "\<forall>fd \<in> set ds. 0 \<le> fd" for ds
    using that by (induction ds) (simp_all add: close_fd_def)
  with assms show ?thesis by (simp add: close_all_def) (simp add: close_fd_def)
qed

lemma endpoint_step_descriptors:
  assumes "endpoint_step k k'" and "descriptors_ok k" and "stop_ok k"
  shows "descriptors_ok k'"
proof -
  note ok = assms(2)[unfolded descriptors_ok_def Let_def]
  from assms(1) show ?thesis
  proof (cases rule: endpoint_step.cases)
    case (accepts fd)
    with ok show ?thesis by (auto simp: descriptors_ok_def Let_def listening_def)
  next
    case (admits fd e)
    then have e: "e = (ec_endpoint k)\<lparr>ep_conn_fds := ep_conn_fds (ec_endpoint k) @ [fd]\<rparr>"
      by (auto simp: admit_def split: if_splits)
    with admits ok show ?thesis by (auto simp: descriptors_ok_def Let_def listening_def)
  next
    case (refuses fd e)
    then have "e = ec_endpoint k" by (auto simp: admit_def split: if_splits)
    with refuses ok show ?thesis
      by (auto simp: descriptors_ok_def Let_def listening_def held_def)
  next
    case (connection_ends fd closed e)
    then have e: "closed = [fd]" "e = (ec_endpoint k)\<lparr>ep_conn_fds := remove1 fd (ep_conn_fds (ec_endpoint k))\<rparr>"
      using ok by (auto simp: release_def)
    have h: "held k' = held k" using connection_ends by (simp add: held_def)
    have l: "listening k' = listening k" using connection_ends e by (simp add: listening_def)
    have fds: "set (remove1 fd (ep_conn_fds (ec_endpoint k))) = set (ep_conn_fds (ec_endpoint k)) - {fd}"
      "set (remove1 fd (ec_conns k)) = set (ec_conns k) - {fd}" using ok by simp_all
    have fd: "fd \<in> ec_open k" "fd \<notin> held k \<union> listening k" using ok connection_ends(2) by blast+
    show ?thesis unfolding descriptors_ok_def Let_def h l
    proof (intro conjI)
      show "ec_open k' = set (ep_conn_fds (ec_endpoint k')) \<union> held k \<union> listening k"
        using fd ok by (simp add: connection_ends(1) e fds) blast
      show "set (ep_conn_fds (ec_endpoint k')) \<inter> held k = {}"
        "(set (ep_conn_fds (ec_endpoint k')) \<union> held k) \<inter> listening k = {}"
        using ok by (simp_all add: connection_ends(1) e fds) blast+
    qed (use ok fd in \<open>simp_all add: connection_ends(1) e fds\<close>)
  next
    case (stop_closes closed e)
    have idle: "ec_accept k = Accept_Done" "ec_conns k = []" using assms(3) stop_closes by (auto simp: stop_ok_def)
    with ok have fds: "ep_conn_fds (ec_endpoint k) = []" by simp
    have "0 \<le> ep_listen_fd (ec_endpoint k)" using ok stop_closes by (auto simp: listening_def)
    with fds stop_closes close_all_nonneg [of "ec_endpoint k"]
    have "closed = [ep_listen_fd (ec_endpoint k)]" "e = (ec_endpoint k)\<lparr>ep_conn_fds := [], ep_listen_fd := -1\<rparr>" by auto
    with stop_closes ok idle fds show ?thesis
      by (auto simp: descriptors_ok_def Let_def listening_def held_def)
  qed (use ok in \<open>auto simp: descriptors_ok_def Let_def listening_def held_def\<close>)
qed

lemma endpoint_step_stop:
  assumes "endpoint_step k k'" and "descriptors_ok k" and "stop_ok k"
  shows "stop_ok k'"
proof -
  note ok = assms(2)[unfolded descriptors_ok_def Let_def]
  from assms(1) show ?thesis
  proof (cases rule: endpoint_step.cases)
    case (connection_ends fd closed e)
    then have "closed = [fd]" "ep_running e = ep_running (ec_endpoint k)" using ok by (auto simp: release_def)
    with connection_ends assms(3) ok show ?thesis by (auto simp: stop_ok_def)
  next
    case (stop_closes closed e)
    with assms(3) show ?thesis by (auto simp: stop_ok_def close_all_def split: prod.splits)
  qed (use assms(3) ok in \<open>auto simp: stop_ok_def admit_def split: if_splits\<close>)
qed

lemma endpoint_reachable_ok:
  assumes "endpoint_reachable fd port k" and "0 \<le> fd"
  shows "descriptors_ok k \<and> stop_ok k"
  using assms
proof (induction rule: endpoint_reachable.induct)
  case 1
  then show ?case by (rule started_ok)
next
  case (2 k k')
  then show ?case using endpoint_step_descriptors endpoint_step_stop by blast
qed

subsection \<open>Stopping ends\<close>

fun accept_rank :: "accept_phase \<Rightarrow> nat" where
  "accept_rank Accept_Done = 0" | "accept_rank Polling = 1" | "accept_rank (Has_Connection _) = 2" | "accept_rank Accepting = 3"

fun stop_rank :: "stop_phase \<Rightarrow> nat" where
  "stop_rank Stopped = 0" | "stop_rank Connections_Joined = 1" | "stop_rank Accept_Joined = 2"
| "stop_rank Connections_Shut = 3" | "stop_rank Stop_Requested = 4" | "stop_rank Serving = 5"

definition remaining :: "ep_conf \<Rightarrow> nat" where
  "remaining k = accept_rank (ec_accept k) + length (ec_conns k) + stop_rank (ec_stop k)"

lemma stopping_decreases:
  assumes "endpoint_step k k'" and "stop_ok k" and "ec_stop k \<noteq> Serving"
  shows "remaining k' < remaining k \<and> ec_stop k' \<noteq> Serving"
  using assms
  by (cases rule: endpoint_step.cases)
    (auto simp: remaining_def stop_ok_def admit_def length_remove1 dest: length_pos_if_in_set split: if_splits)

lemma stopping_progress:
  assumes "stop_ok k" and "ec_stop k \<notin> {Serving, Stopped}"
  shows "\<exists>k'. endpoint_step k k'"
proof (cases "ec_stop k")
  case Connections_Shut
  show ?thesis
  proof (cases "ec_accept k")
    case (Has_Connection fd)
    then show ?thesis
      by (cases "admit fd (ec_endpoint k)") (metis admits refuses)
  qed (use Connections_Shut in \<open>blast intro: endpoint_step.intros\<close>)+
next
  case Accept_Joined
  show ?thesis
  proof (cases "ec_conns k")
    case (Cons fd fds)
    then show ?thesis
      using connection_ends [of fd k] by (cases "release fd (ec_endpoint k)") auto
  qed (use Accept_Joined in \<open>blast intro: endpoint_step.intros\<close>)
next
  case Connections_Joined
  then show ?thesis by (cases "close_all (ec_endpoint k)") (blast intro: endpoint_step.intros)
qed (use assms in \<open>auto intro: endpoint_step.intros\<close>)

subsection \<open>Properties\<close>

text \<open>
  C18. The listener's threads: however the accept loop, the connection threads and a call of \<^verbatim>\<open>stop\<close> interleave, no
  descriptor is closed twice or without being open, and the open ones are exactly those of the listener, of the
  connections listed and of the one just accepted.  Once \<^verbatim>\<open>stop\<close> waits for the threads every connection that
  still runs was shut down, also one accepted meanwhile; each step brings \<^verbatim>\<open>stop\<close> nearer to its end, it
  never gets stuck, and at its end nothing is open and no thread runs.
\<close>

theorem endpoint_stops_cleanly:
  assumes "endpoint_reachable fd port k" and "0 \<le> fd"
  shows "ec_misclosed k = [] \<and>
    ec_open k = set (ep_conn_fds (ec_endpoint k)) \<union> held k \<union> listening k \<and>
    (ec_stop k \<notin> {Serving, Stop_Requested} \<longrightarrow> set (ec_conns k) \<subseteq> ec_shut k) \<and>
    (ec_stop k \<noteq> Serving \<longrightarrow> endpoint_step k k' \<longrightarrow> remaining k' < remaining k) \<and>
    (ec_stop k \<notin> {Serving, Stopped} \<longrightarrow> (\<exists>k'. endpoint_step k k')) \<and>
    (ec_stop k = Stopped \<longrightarrow> ec_open k = {} \<and> ec_conns k = [] \<and> ec_accept k = Accept_Done)"
proof -
  have ok: "descriptors_ok k" "stop_ok k" using endpoint_reachable_ok [OF assms] by blast+
  have idle: "ec_stop k = Stopped \<Longrightarrow> ec_conns k = [] \<and> ec_accept k = Accept_Done"
    using ok(2) by (simp add: stop_ok_def)
  with ok(1) have "ec_stop k = Stopped \<Longrightarrow> ec_open k = {}"
    by (auto simp: descriptors_ok_def Let_def listening_def)
  with ok idle stopping_decreases [of k k'] stopping_progress [of k] show ?thesis
    by (auto simp: descriptors_ok_def stop_ok_def Let_def)
qed

lemma endpoint_stops_cleanly_witness:
  "\<exists>k. endpoint_reachable 3 80 k \<and> ec_stop k = Connections_Shut \<and> ec_conns k = [4] \<and> 4 \<in> ec_shut k"
proof -
  let ?k = "started 3 80"
  note reach = endpoint_reachable.intros
  have "endpoint_reachable 3 80 (?k\<lparr>ec_accept := Accepting\<rparr>)"
    by (rule reach(2) [OF reach(1) poll_ready]) (simp_all add: started_def new_endpoint_def endpoint_start_def)
  then have "endpoint_reachable 3 80 (?k\<lparr>ec_accept := Has_Connection 4, ec_open := {4, 3}\<rparr>)"
    using reach(2) [OF _ accepts [of "?k\<lparr>ec_accept := Accepting\<rparr>" 4]] by (simp add: started_def)
  from reach(2) [OF this admits] have
    "endpoint_reachable 3 80 (?k\<lparr>ec_open := {4, 3}, ec_endpoint := (ec_endpoint ?k)\<lparr>ep_conn_fds := [4]\<rparr>, ec_conns := [4]\<rparr>)"
    by (simp add: started_def new_endpoint_def endpoint_start_def admit_def)
  from reach(2) [OF this stop_begins] have
    "endpoint_reachable 3 80 (?k\<lparr>ec_open := {4, 3}, ec_endpoint := (ec_endpoint ?k)\<lparr>ep_conn_fds := [4], ep_running := False\<rparr>,
       ec_conns := [4], ec_stop := Stop_Requested\<rparr>)" (is "endpoint_reachable 3 80 ?r")
    by (simp add: started_def new_endpoint_def endpoint_start_def)
  from reach(2) [OF this stop_shuts] have r: "endpoint_reachable 3 80 (?r\<lparr>ec_shut := {4}, ec_stop := Connections_Shut\<rparr>)"
    by (simp add: started_def)
  from endpoint_stops_cleanly [OF r] have "4 \<in> ec_shut (?r\<lparr>ec_shut := {4}, ec_stop := Connections_Shut\<rparr>)" by simp
  with r show ?thesis by (intro exI [of _ "?r\<lparr>ec_shut := {4}, ec_stop := Connections_Shut\<rparr>"]) simp
qed

text \<open>A failed start leaves nothing running and closes the socket it made.\<close>

lemma failed_start:
  assumes "endpoint_start listened valid port e = (Inl err, e', closed)" and "\<forall>fd. listened = Inr fd \<longrightarrow> 0 \<le> fd"
  shows "\<not> ep_running e' \<and> ep_listen_fd e' = -1 \<and> closed = (case listened of Inr fd \<Rightarrow> [fd] | Inl _ \<Rightarrow> [])"
  using assms by (auto simp: endpoint_start_def close_fd_def split: sum.splits if_splits)

end
