(* ===== verification/Mcp_Win32.thy ===== *)
theory Mcp_Win32
  imports Mcp_Platform
begin

text \<open>
  The platform layer on Windows (\<^verbatim>\<open>src/platform/win32/process.cpp\<close> and \<^verbatim>\<open>io.cpp\<close>): command lines and
  environment blocks for \<^verbatim>\<open>CreateProcess\<close>, the handles of a spawned child, and descriptor I/O on sockets
  and on descriptors of the C runtime.  As in the POSIX theory, the outcomes of the system's calls are
  given as lists.  Command lines and environments are free of the character NUL.
\<close>

subsection \<open>Command lines\<close>

abbreviation bslash :: char where
  "bslash \<equiv> CHR 0x5C"

abbreviation dquote :: char where
  "dquote \<equiv> CHR 0x22"

text \<open>The loop of \<^verbatim>\<open>append_quoted\<close>; \<open>n\<close> is the number of backslashes just passed.\<close>

fun quote_body :: "string \<Rightarrow> nat \<Rightarrow> string" where
  "quote_body [] n = replicate (2 * n) bslash"
| "quote_body (c # cs) n =
     (if c = bslash then quote_body cs (n + 1)
      else if c = dquote then replicate (2 * n + 1) bslash @ dquote # quote_body cs 0
      else replicate n bslash @ c # quote_body cs 0)"

definition needs_quotes :: "string \<Rightarrow> bool" where
  "needs_quotes arg \<longleftrightarrow> arg = [] \<or> list_ex (\<lambda>c. c \<in> {CHR '' '', CHR 0x09, CHR 0x0A, CHR 0x0B, dquote}) arg"

definition append_quoted :: "string \<Rightarrow> string \<Rightarrow> string" where
  "append_quoted out arg = (if \<not> needs_quotes arg then out @ arg else out @ [dquote] @ quote_body arg 0 @ [dquote])"

definition command_line :: "process_spec \<Rightarrow> string" where
  "command_line spec = fold (\<lambda>arg out. append_quoted (out @ '' '') arg) (ps_args spec) (append_quoted [] (ps_command spec))"

text \<open>
  How the C runtime of the child splits the rest of a command line into arguments, as documented:
  \<open>2 n\<close> backslashes before a quote stand for \<open>n\<close> and the quote toggles the quoting, \<open>2 n + 1\<close> stand for
  \<open>n\<close> and a literal quote; other backslashes are literal; a blank outside quotes ends the argument.
\<close>

fun split_argument :: "bool \<Rightarrow> nat \<Rightarrow> string \<Rightarrow> string \<times> string" where
  "split_argument inside n [] = (replicate n bslash, [])"
| "split_argument inside n (c # cs) =
     (if c = bslash then split_argument inside (n + 1) cs
      else if c = dquote then
        (if even n then apfst ((@) (replicate (n div 2) bslash)) (split_argument (\<not> inside) 0 cs)
         else apfst ((@) (replicate (n div 2) bslash @ [dquote])) (split_argument inside 0 cs))
      else if c \<in> {CHR '' '', CHR 0x09} \<and> \<not> inside then (replicate n bslash, c # cs)
      else apfst ((@) (replicate n bslash @ [c])) (split_argument inside 0 cs))"

lemma split_argument_rest: "length (snd (split_argument q n s)) \<le> length s"
  by (induction q n s rule: split_argument.induct) (auto simp: apfst_def map_prod_def split: prod.splits)

lemma split_argument_shorter:
  assumes "split_argument q n (c # cs) = (arg, rest)" and "c \<notin> {CHR '' '', CHR 0x09}"
  shows "length rest < Suc (length cs)"
  using assms split_argument_rest [of q "n + 1" cs] split_argument_rest [of q 0 cs] split_argument_rest [of "\<not> q" 0 cs]
  by (auto simp: less_Suc_eq_le apfst_def map_prod_def split: if_splits prod.splits)

function split_arguments :: "string \<Rightarrow> string list" where
  "split_arguments s =
     (case s of
        [] \<Rightarrow> []
      | c # cs \<Rightarrow>
          if c \<in> {CHR '' '', CHR 0x09} then split_arguments cs
          else case split_argument False 0 s of (arg, rest) \<Rightarrow> arg # split_arguments rest)"
  by pat_completeness auto

termination
  by (relation "measure length") (auto simp del: split_argument.simps dest: split_argument_shorter [OF sym])

declare split_arguments.simps [simp del]

lemma split_argument_backslashes: "split_argument q m (replicate k bslash @ s) = split_argument q (m + k) s"
  by (induction k arbitrary: m) simp_all

lemma split_quoted:
  "split_argument True 0 (quote_body arg n @ dquote # s) =
     apfst ((@) (replicate n bslash @ arg)) (split_argument False 0 s)"
proof (induction arg arbitrary: n)
  case Nil
  show ?case using split_argument_backslashes [of True 0 "2 * n" "dquote # s"] by simp
next
  case (Cons c arg)
  consider "c = bslash" | "c = dquote" | "c \<noteq> bslash" "c \<noteq> dquote" by blast
  then show ?case
  proof cases
    case 1
    with Cons [of "n + 1"] show ?thesis
      by (simp add: replicate_app_Cons_same)
  next
    case 2
    with Cons [of 0] split_argument_backslashes [of True 0 "2 * n + 1" "dquote # quote_body arg 0 @ dquote # s"]
    show ?thesis by (simp add: apfst_def map_prod_def split: prod.split)
  next
    case 3
    with Cons [of 0] split_argument_backslashes [of True 0 n "c # quote_body arg 0 @ dquote # s"]
    show ?thesis by (simp add: apfst_def map_prod_def split: prod.split)
  qed
qed

lemma split_plain:
  assumes "list_all (\<lambda>c. c \<notin> {CHR '' '', CHR 0x09, dquote}) arg" and "s = [] \<or> hd s = CHR '' ''"
  shows "split_argument False n (arg @ s) = (replicate n bslash @ arg, s)"
  using assms
proof (induction arg arbitrary: n)
  case Nil
  then show ?case by (cases s) auto
next
  case (Cons c arg)
  then show ?case
    using Cons.IH [of "n + 1"] Cons.IH [of 0] by (auto simp: replicate_app_Cons_same)
qed

lemma append_quoted_nil: "append_quoted out arg = out @ append_quoted [] arg"
  by (simp add: append_quoted_def)

lemma command_line_append:
  "command_line spec = append_quoted [] (ps_command spec) @ concat (map (\<lambda>a. CHR '' '' # append_quoted [] a) (ps_args spec))"
proof -
  have "fold (\<lambda>arg out. append_quoted (out @ '' '') arg) as out = out @ concat (map (\<lambda>a. CHR '' '' # append_quoted [] a) as)" for as out
    by (induction as arbitrary: out) (simp_all add: append_quoted_nil [of "_ @ '' ''"])
  then show ?thesis by (simp add: command_line_def)
qed

lemma split_appended:
  assumes "s = [] \<or> hd s = CHR '' ''"
  shows "split_argument False 0 (append_quoted [] a @ s) = (a, s)"
proof (cases "needs_quotes a")
  case True
  have "split_argument False 0 s = ([], s)" using assms by (cases s) auto
  then show ?thesis using True split_quoted [of a 0 s] by (simp add: append_quoted_def)
next
  case False
  then show ?thesis
    using split_plain [OF _ assms, of a 0] by (auto simp: append_quoted_def needs_quotes_def list_all_iff list_ex_iff)
qed

lemma append_quoted_start:
  obtains c cs where "append_quoted [] a = c # cs" and "c \<notin> {CHR '' '', CHR 0x09}"
proof (cases "needs_quotes a")
  case True
  then show ?thesis by (intro that [of dquote "quote_body a 0 @ [dquote]"]) (simp_all add: append_quoted_def)
next
  case False
  then obtain c cs where "a = c # cs" by (cases a) (auto simp: needs_quotes_def)
  with False show ?thesis by (intro that [of c cs]) (auto simp: append_quoted_def needs_quotes_def)
qed

lemma split_blank: "split_arguments (CHR '' '' # s) = split_arguments s"
  by (simp add: split_arguments.simps)

lemma split_words: "split_arguments (concat (map (\<lambda>a. CHR '' '' # append_quoted [] a) as)) = as"
proof (induction as)
  case Nil
  show ?case by (simp add: split_arguments.simps)
next
  case (Cons a as)
  let ?s = "concat (map (\<lambda>a. CHR '' '' # append_quoted [] a) as)"
  obtain c cs where q: "append_quoted [] a = c # cs" "c \<notin> {CHR '' '', CHR 0x09}" by (rule append_quoted_start)
  have "split_argument False 0 (append_quoted [] a @ ?s) = (a, ?s)"
    by (rule split_appended) (cases as; simp)
  with q have "split_arguments (append_quoted [] a @ ?s) = a # split_arguments ?s"
    by (simp add: split_arguments.simps [of "c # cs @ ?s"] del: split_argument.simps)
  with Cons show ?case by (simp add: split_blank)
qed

subsection \<open>Environment blocks\<close>

definition stricmp :: "string \<Rightarrow> string \<Rightarrow> bool" where
  "stricmp a b \<longleftrightarrow> map lower_char a = map lower_char b"

text \<open>The search for the sign starts at the second character.\<close>

definition block_key :: "string \<Rightarrow> string" where
  "block_key e = (case find_from ''='' e 1 of None \<Rightarrow> e | Some n \<Rightarrow> take n e)"

definition block_entries :: "(string \<times> string) list \<Rightarrow> string list \<Rightarrow> string list" where
  "block_entries overrides inherited =
     filter (\<lambda>e. \<not> list_ex (\<lambda>(name, _). stricmp name (block_key e)) overrides) inherited @
     map (\<lambda>(name, value). name @ ''='' @ value) overrides"

definition build_env_block :: "(string \<times> string) list \<Rightarrow> string list \<Rightarrow> string" where
  "build_env_block overrides inherited = concat (map (\<lambda>e. e @ [CHR 0x00]) (block_entries overrides inherited)) @ [CHR 0x00]"

text \<open>How a block is read: strings that end in NUL, up to an empty one.\<close>

function read_block :: "string \<Rightarrow> string list" where
  "read_block b =
     (case takeWhile (\<lambda>c. c \<noteq> CHR 0x00) b of
        [] \<Rightarrow> []
      | e \<Rightarrow> e # read_block (drop (length e + 1) b))"
  by pat_completeness auto

termination
  apply (relation "measure length")
   apply simp
  subgoal for b by (cases b) simp_all
  done

declare read_block.simps [simp del]

lemma block_roundtrip:
  assumes "\<forall>e \<in> set es. e \<noteq> [] \<and> CHR 0x00 \<notin> set e"
  shows "read_block (concat (map (\<lambda>e. e @ [CHR 0x00]) es) @ [CHR 0x00]) = es"
  using assms
proof (induction es)
  case Nil
  show ?case by (simp add: read_block.simps)
next
  case (Cons e es)
  let ?b = "e @ CHR 0x00 # concat (map (\<lambda>e. e @ [CHR 0x00]) es) @ [CHR 0x00]"
  have tw: "takeWhile (\<lambda>c. c \<noteq> CHR 0x00) ?b = e"
    using Cons.prems by (subst takeWhile_append2) auto
  have "read_block ?b = e # read_block (drop (length e + 1) ?b)"
    using Cons.prems by (subst read_block.simps, subst tw) (cases e; simp)
  with Cons show ?case by simp
qed

fun block_lookup :: "string \<Rightarrow> string list \<Rightarrow> string option" where
  "block_lookup k [] = None"
| "block_lookup k (e # es) = (if stricmp k (block_key e) then Some (drop (length (block_key e) + 1) e) else block_lookup k es)"

lemma block_key_entry: "n \<noteq> [] \<Longrightarrow> CHR ''='' \<notin> set n \<Longrightarrow> block_key (n @ CHR ''='' # v) = n"
  by (cases n) (simp_all add: block_key_def find_from_def find_char_append)

lemma list_ex_find: "list_ex P xs \<longleftrightarrow> find P xs \<noteq> None"
  by (auto simp: find_None_iff list_ex_iff)

lemma block_lookup_append:
  "block_lookup k (es @ es') = (case block_lookup k es of None \<Rightarrow> block_lookup k es' | Some v \<Rightarrow> Some v)"
  by (induction es) auto

lemma block_lookup_overrides:
  "\<forall>n \<in> fst ` set ov. n \<noteq> [] \<and> CHR ''='' \<notin> set n \<Longrightarrow>
   block_lookup k (map (\<lambda>(name, v). name @ CHR ''='' # v) ov) = map_option snd (find (\<lambda>(name, _). stricmp k name) ov)"
  by (induction ov) (auto simp: block_key_entry)

lemma block_lookup_inherited:
  "block_lookup k (filter (\<lambda>e. \<not> list_ex (\<lambda>(name, _). stricmp name (block_key e)) (ov :: (string \<times> string) list)) es) =
     (if list_ex (\<lambda>(name, _). stricmp k name) ov then None else block_lookup k es)"
proof (induction es)
  case (Cons e es)
  have "(\<lambda>(name, _). stricmp name (block_key e)) = (\<lambda>(name, _ :: string). stricmp k name)"
    if "stricmp k (block_key e)" using that by (auto simp: fun_eq_iff stricmp_def)
  with Cons show ?case by auto
qed simp

text \<open>
  The child's environment on Windows: the variables of the launch parameters override the inherited ones whatever
  the case of their names, and every other variable is inherited.
\<close>

lemma child_environment_w32:
  assumes "\<forall>n \<in> fst ` set ov. n \<noteq> [] \<and> CHR ''='' \<notin> set n"
  shows "block_lookup k (block_entries ov es) =
    (case find (\<lambda>(name, _). stricmp k name) ov of Some (_, v) \<Rightarrow> Some v | None \<Rightarrow> block_lookup k es)"
  using block_lookup_overrides [OF assms, of k] block_lookup_inherited [of k ov es]
  by (cases "find (\<lambda>(name, _). stricmp k name) ov")
    (auto simp: block_entries_def block_lookup_append list_ex_find [of "\<lambda>(name, _). stricmp k name"] split: option.split)

subsection \<open>Spawning and waiting\<close>

text \<open>
  \<open>pipes\<close>: the outcomes of the three calls of \<^verbatim>\<open>make_inheritable_pipe\<close> as read and write handles; \<open>created\<close>: that of
  \<^verbatim>\<open>CreateProcess\<close>, the last error or the ids and handles of process and thread; \<open>open_osfhandle\<close> wraps a handle as a
  descriptor.  The second component lists the handles closed.
\<close>

definition spawn_w32 :: "(int \<Rightarrow> int) \<Rightarrow> (int \<times> int) option list \<Rightarrow> nat + int \<times> int \<times> int \<Rightarrow> (string + process) \<times> int list" where
  "spawn_w32 open_osfhandle pipes created =
     (case pipes of
        [Some (in_read, in_write), Some (out_read, out_write), Some (err_read, err_write)] \<Rightarrow>
          (case created of
             Inl e \<Rightarrow>
               (Inl (''CreateProcess failed: '' @ nat_to_string e),
                [in_read, out_write, err_write, in_write, out_read, err_read])
           | Inr (pid, process_handle, thread_handle) \<Rightarrow>
               (Inr \<lparr>pr_pid = pid, pr_native_handle = process_handle, pr_stdin_fd = open_osfhandle in_write,
                     pr_stdout_fd = open_osfhandle out_read, pr_stderr_fd = open_osfhandle err_read\<rparr>,
                [in_read, out_write, err_write, thread_handle]))
      | _ \<Rightarrow> (Inl ''failed to create pipes'', []))"

text \<open>\<open>signalled\<close>: whether the handle was signalled in time, \<open>exit_value\<close>: the exit code as a signed number.\<close>

definition wait_exit_w32 :: "bool \<Rightarrow> int \<Rightarrow> process \<Rightarrow> int option \<times> process \<times> int list" where
  "wait_exit_w32 signalled exit_value p =
     (if pr_native_handle p = 0 then (Some (-1), p, [])
      else if \<not> signalled then (None, p, [])
      else (Some exit_value, p\<lparr>pr_native_handle := 0\<rparr>, [pr_native_handle p]))"

definition terminate_w32 :: "process \<Rightarrow> bool \<Rightarrow> int option" where
  "terminate_w32 p force = (if pr_native_handle p \<noteq> 0 then Some (pr_native_handle p) else None)"

subsection \<open>Descriptor I/O\<close>

text \<open>The error of a socket read is either the end of the connection or another one.\<close>

datatype recv_outcome = Recv string | Recv_Reset | Recv_Error

definition read_some_w32 :: "bool \<Rightarrow> recv_outcome \<Rightarrow> string option" where
  "read_some_w32 socket c =
     (case c of
        Recv bytes \<Rightarrow> Some bytes
      | Recv_Reset \<Rightarrow> if socket then Some [] else None
      | Recv_Error \<Rightarrow> None)"

text \<open>Sockets and descriptors have the same loop; an outcome is the count accepted, or \<open>None\<close> for an error.\<close>

fun write_all_w32 :: "string \<Rightarrow> nat \<Rightarrow> nat option list \<Rightarrow> bool call \<times> string" where
  "write_all_w32 data written os =
     (if \<not> written < length data then (Call_Returns True, [])
      else case os of
        [] \<Rightarrow> (Pending_Call, [])
      | None # os' \<Rightarrow> (Call_Returns False, [])
      | Some n # os' \<Rightarrow>
          let (ok, out) = write_all_w32 data (written + n) os' in (ok, take n (drop written data) @ out))"

declare write_all_w32.simps [simp del]

text \<open>Without interruptions it is the POSIX loop.\<close>

lemma write_all_w32_posix:
  "write_all_w32 data written os =
     write_all data written (map (\<lambda>c. case c of None \<Rightarrow> Inl (Errno []) | Some n \<Rightarrow> Inr n) os)"
  by (induction os arbitrary: written)
    (simp_all add: write_all.simps write_all_w32.simps split: option.split)

interpretation windows: descriptor_writer "\<lambda>data. write_all_w32 data 0"
  by unfold_locales (simp add: write_all_w32_posix posix.writes_prefix)

definition poll_socket_w32 :: "bool \<Rightarrow> int \<Rightarrow> bool \<Rightarrow> bool \<Rightarrow> int" where
  "poll_socket_w32 has_wake rc readable woken =
     (if rc < 0 then -1
      else if rc = 0 then 0
      else if has_wake \<and> woken then 0
      else if readable then 1 else 0)"

text \<open>
  One turn of the loop for pipes and consoles: whether the wake socket is readable, the outcome of the
  check, and whether the deadline has passed then.
\<close>

datatype pipe_check = Broken_Pipe | Available nat

datatype console_check = Signalled | Wait_Failed | Not_Yet

fun poll_pipe_w32 :: "bool \<Rightarrow> (bool \<times> pipe_check \<times> bool) list \<Rightarrow> int call" where
  "poll_pipe_w32 has_wake [] = Pending_Call"
| "poll_pipe_w32 has_wake ((woken, check, late) # os) =
     (if has_wake \<and> woken then Call_Returns 0
      else case check of
        Broken_Pipe \<Rightarrow> Call_Returns 1
      | Available n \<Rightarrow> if n > 0 then Call_Returns 1 else if late then Call_Returns 0 else poll_pipe_w32 has_wake os)"

fun poll_console_w32 :: "bool \<Rightarrow> (bool \<times> console_check \<times> bool) list \<Rightarrow> int call" where
  "poll_console_w32 has_wake [] = Pending_Call"
| "poll_console_w32 has_wake ((woken, check, late) # os) =
     (if has_wake \<and> woken then Call_Returns 0
      else case check of
        Signalled \<Rightarrow> Call_Returns 1
      | Wait_Failed \<Rightarrow> Call_Returns (-1)
      | Not_Yet \<Rightarrow> if late then Call_Returns 0 else poll_console_w32 has_wake os)"

text \<open>As on POSIX, a waiter that was woken is never told that its descriptor is readable.\<close>

lemma woken_polls_w32:
  shows "poll_socket_w32 True rc readable True \<noteq> 1"
    and "\<forall>c \<in> set os. fst c \<Longrightarrow> poll_pipe_w32 True os \<noteq> Call_Returns 1"
    and "\<forall>c \<in> set cs. fst c \<Longrightarrow> poll_console_w32 True cs \<noteq> Call_Returns 1"
proof -
  show "poll_socket_w32 True rc readable True \<noteq> 1" by (simp add: poll_socket_w32_def)
  show "\<forall>c \<in> set os. fst c \<Longrightarrow> poll_pipe_w32 True os \<noteq> Call_Returns 1" by (cases os) auto
  show "\<forall>c \<in> set cs. fst c \<Longrightarrow> poll_console_w32 True cs \<noteq> Call_Returns 1" by (cases cs) auto
qed

text \<open>After a successful wait the process handle is closed, once.\<close>

lemma wait_exit_w32_once:
  assumes "wait_exit_w32 True exit_value p = (Some status, p', closed)" and "pr_native_handle p \<noteq> 0"
  shows "closed = [pr_native_handle p] \<and> wait_exit_w32 signalled exit_value' p' = (Some (-1), p', []) \<and> terminate_w32 p' force = None"
  using assms by (auto simp: wait_exit_w32_def terminate_w32_def)

subsection \<open>Properties\<close>

text \<open>
  C33. Command lines for Windows: whatever the arguments of a server to launch hold, blanks, quotes and runs of
  backslashes included, and even if they are empty, the rest of the command line that \<^verbatim>\<open>spawn\<close> builds is split
  by the child's C runtime into exactly those arguments.
\<close>

theorem command_line_roundtrip:
  "\<exists>rest. command_line spec = append_quoted [] (ps_command spec) @ rest \<and> split_arguments rest = ps_args spec"
  using command_line_append split_words by blast

end
