(* ===== verification/Mcp_Vx_Io.thy ===== *)
theory Mcp_Vx_Io
  imports Mcp_Platform Mcp_Json
begin

text \<open>
  The platform layer on VxWorks (\<^verbatim>\<open>src/platform/vxworks/io.cpp\<close> and \<^verbatim>\<open>net.cpp\<close>): descriptor I/O, the
  wake event over a loopback connection, polling with \<^verbatim>\<open>select\<close>, and sockets.  As in the POSIX part, loops run over what
  the system calls return.
\<close>

subsection \<open>Descriptor I/O\<close>

fun read_some_vx :: "(errno + string) list \<Rightarrow> string option call" where
  "read_some_vx [] = Pending_Call"
| "read_some_vx (Inr bytes # os) = Call_Returns (Some bytes)"
| "read_some_vx (Inl e # os) = (if e \<noteq> EINTR then Call_Returns None else read_some_vx os)"

fun write_all_vx :: "string \<Rightarrow> nat \<Rightarrow> (errno + nat) list \<Rightarrow> bool call \<times> string" where
  "write_all_vx data written os =
     (if \<not> written < length data then (Call_Returns True, [])
      else case os of
        [] \<Rightarrow> (Pending_Call, [])
      | Inl e # os' \<Rightarrow> if e = EINTR then write_all_vx data written os' else (Call_Returns False, [])
      | Inr n # os' \<Rightarrow>
          let (ok, out) = write_all_vx data (written + n) os' in (ok, take n (drop written data) @ out))"

declare write_all_vx.simps [simp del]

lemma read_some_vx_posix: "read_some_vx os = fst (read_some os)"
  by (induction os rule: read_some_vx.induct) auto

lemma write_all_vx_posix: "write_all_vx data written os = write_all data written os"
proof (induction os arbitrary: written)
  case Nil
  show ?case by (simp add: write_all.simps write_all_vx.simps)
next
  case (Cons c os)
  show ?case by (subst write_all_vx.simps, subst write_all.simps) (simp add: Cons.IH split: sum.split)
qed

interpretation vxworks: descriptor_writer "\<lambda>data. write_all_vx data 0"
  by unfold_locales (simp add: write_all_vx_posix posix.writes_prefix)

definition close_fd_vx :: "int \<Rightarrow> int list \<times> int" where
  "close_fd_vx fd = (if fd \<ge> 0 then ([fd], -1) else ([], fd))"

definition shutdown_fd_vx :: "int \<Rightarrow> int list" where
  "shutdown_fd_vx fd = (if fd \<ge> 0 then [fd] else [])"

subsection \<open>Wake events\<close>

text \<open>
  What the calls of \<^verbatim>\<open>make_loopback_pair\<close> return: the listening socket, whether it was bound, is listening and has a
  name, the connecting socket, whether it was connected, and the accepted socket; negative for failure.
\<close>

record loopback_calls =
  lc_listener :: int
  lc_prepared :: bool
  lc_connector :: int
  lc_connected :: bool
  lc_accepted :: int

text \<open>The read and the write side, and the descriptors closed.\<close>

definition make_loopback_pair :: "loopback_calls \<Rightarrow> (int \<times> int) option \<times> int list" where
  "make_loopback_pair c =
     (if lc_listener c < 0 then (None, [])
      else if \<not> lc_prepared c then (None, [lc_listener c])
      else if lc_connector c < 0 \<or> \<not> lc_connected c
      then (None, (if 0 \<le> lc_connector c then [lc_connector c] else []) @ [lc_listener c])
      else if lc_accepted c < 0 then (None, [lc_listener c, lc_connector c])
      else (Some (lc_accepted c, lc_connector c), [lc_listener c]))"

text \<open>What these calls opened: a call is made only if the ones before it succeeded.\<close>

definition loopback_opened :: "loopback_calls \<Rightarrow> int list" where
  "loopback_opened c =
     (if lc_listener c < 0 then [] else lc_listener c #
       (if \<not> lc_prepared c \<or> lc_connector c < 0 then [] else lc_connector c #
         (if \<not> lc_connected c \<or> lc_accepted c < 0 then [] else [lc_accepted c])))"

interpretation vx_pair: wake_pairs make_loopback_pair loopback_opened
  by unfold_locales (auto simp: make_loopback_pair_def loopback_opened_def pair_list_def split: if_splits)

definition new_wake_event_vx :: "loopback_calls \<Rightarrow> wake_event \<times> int list" where
  "new_wake_event_vx c =
     (case make_loopback_pair c of
        (None, shut) \<Rightarrow> (\<lparr>we_read_fd = -1, we_write_fd = -1, we_in_pipe = 0\<rparr>, shut)
      | (Some (r, w), shut) \<Rightarrow> (\<lparr>we_read_fd = r, we_write_fd = w, we_in_pipe = 0\<rparr>, shut))"

definition destroy_wake_event_vx :: "wake_event \<Rightarrow> int list" where
  "destroy_wake_event_vx w = fst (close_fd_vx (we_read_fd w)) @ fst (close_fd_vx (we_write_fd w))"

definition wake_is_valid_vx :: "wake_event \<Rightarrow> bool" where
  "wake_is_valid_vx w \<longleftrightarrow> we_read_fd w \<ge> 0"

definition wake_signal_vx :: "(errno + nat) list \<Rightarrow> wake_event \<Rightarrow> wake_event" where
  "wake_signal_vx os w =
     (if we_write_fd w \<ge> 0 then w\<lparr>we_in_pipe := we_in_pipe w + length (snd (write_all_vx [CHR 0x00] 0 os))\<rparr> else w)"

lemma wake_event_vx_posix:
  "new_wake_event_vx c = (new_wake_event (fst (make_loopback_pair c)), snd (make_loopback_pair c))"
  "wake_signal_vx = wake_signal" "destroy_wake_event_vx = destroy_wake_event" "wake_is_valid_vx = wake_is_valid"
  by (auto simp: new_wake_event_vx_def new_wake_event_def wake_signal_vx_def wake_signal_def write_all_vx_posix fun_eq_iff
      destroy_wake_event_vx_def destroy_wake_event_def close_fd_vx_def close_fd_def wake_is_valid_vx_def wake_is_valid_def
      split: option.split prod.split)

subsection \<open>Polling\<close>

text \<open>The time limit as seconds and microseconds, if there is one.\<close>

definition timeval_of :: "int \<Rightarrow> (int \<times> int) option" where
  "timeval_of ms = (if ms \<ge> 0 then Some (ms div 1000, ms mod 1000 * 1000) else None)"

fun select_loop :: "int \<Rightarrow> (errno + int \<times> bool \<times> bool) list \<Rightarrow> int call" where
  "select_loop wake_fd [] = Pending_Call"
| "select_loop wake_fd (Inl e # os) = (if e = EINTR then select_loop wake_fd os else Call_Returns (-1))"
| "select_loop wake_fd (Inr (rc, fd_set, wake_set) # os) =
     (if rc = 0 then Call_Returns 0
      else if wake_fd \<ge> 0 \<and> wake_set then Call_Returns 0
      else if fd_set then Call_Returns 1
      else select_loop wake_fd os)"

text \<open>
  \<^verbatim>\<open>FD_SET\<close> writes a bit of a fixed array: a descriptor that is negative or not below \<^verbatim>\<open>FD_SETSIZE\<close> is undefined
  behaviour.  The wake descriptor is entered only if it is not negative.
\<close>

definition poll_readable_vx :: "int \<Rightarrow> int \<Rightarrow> int \<Rightarrow> (errno + int \<times> bool \<times> bool) list \<Rightarrow> int call throws" where
  "poll_readable_vx fd_setsize fd wake_fd os =
     (if fd < 0 \<or> fd_setsize \<le> fd \<or> fd_setsize \<le> wake_fd then Inl (Undefined ''FD_SET outside of the set'')
      else Inr (select_loop wake_fd os))"

lemma timeval_exact:
  "timeval_of ms = Some (sec, usec) \<Longrightarrow> sec * 1000000 + usec = ms * 1000 \<and> 0 \<le> usec \<and> usec < 1000000"
proof -
  assume "timeval_of ms = Some (sec, usec)"
  then have "sec = ms div 1000" "usec = ms mod 1000 * 1000" by (auto simp: timeval_of_def split: if_splits)
  moreover have "ms div 1000 * 1000 + ms mod 1000 = ms" "0 \<le> ms mod 1000" "ms mod 1000 < 1000"
    by (rule div_mult_mod_eq, simp_all)
  ultimately show ?thesis by (simp only: distrib_left distrib_right) linarith
qed

lemma select_loop_posix: "select_loop wake_fd os = poll_readable wake_fd os"
  by (induction wake_fd os rule: select_loop.induct) auto

text \<open>
  The client's interruptible sleep passes the handle of its wake event as the descriptor to poll: with an invalid wake event
  that is \<open>-1\<close>, which \<^verbatim>\<open>poll\<close> ignores and \<^verbatim>\<open>FD_SET\<close> does not.
\<close>

lemma invalid_wake_sleep:
  "\<not> wake_is_valid_vx w \<Longrightarrow> poll_readable_vx n (poll_handle w) (- 1) os = Inl (Undefined ''FD_SET outside of the set'')"
  by (simp add: poll_readable_vx_def wake_is_valid_vx_def poll_handle_def)

subsection \<open>Sockets\<close>

definition tcp_listen_vx :: "(string \<Rightarrow> 'a option) \<Rightarrow> string + int \<Rightarrow> string option \<Rightarrow> string option \<Rightarrow> string \<Rightarrow> nat \<Rightarrow>
    (string + int) \<times> int list" where
  "tcp_listen_vx pton socket bound listening host port =
     (case fill_addr pton host port of
        Inl e \<Rightarrow> (Inl e, [])
      | Inr _ \<Rightarrow>
          (case socket of
             Inl e \<Rightarrow> (Inl e, [])
           | Inr fd \<Rightarrow>
               (case (case bound of Some e \<Rightarrow> Some e | None \<Rightarrow> listening) of
                  Some e \<Rightarrow> (Inl e, [fd])
                | None \<Rightarrow> (Inr fd, []))))"

text \<open>\<open>name\<close>: the port in the socket's name, if the system returns one.\<close>

definition tcp_local_port_vx :: "nat option \<Rightarrow> nat" where
  "tcp_local_port_vx name = (case name of None \<Rightarrow> 0 | Some port \<Rightarrow> port)"

text \<open>\<open>nonblocking\<close>: whether the socket could be made non-blocking; \<open>ready\<close> is the result of \<^verbatim>\<open>select\<close> for writing.\<close>

definition tcp_connect_vx :: "(string \<Rightarrow> 'a option) \<Rightarrow> string + int \<Rightarrow> bool \<Rightarrow> connecting \<Rightarrow> int \<Rightarrow> string option \<Rightarrow> string \<Rightarrow>
    nat \<Rightarrow> (string + int) \<times> int list" where
  "tcp_connect_vx pton socket nonblocking rc ready so_error host port =
     (case fill_addr pton host port of
        Inl e \<Rightarrow> (Inl e, [])
      | Inr _ \<Rightarrow>
          (case socket of
             Inl e \<Rightarrow> (Inl e, [])
           | Inr fd \<Rightarrow>
               if \<not> nonblocking then (Inl ''FIONBIO failed'', [fd])
               else (case rc of
                  Connected \<Rightarrow> (Inr fd, [])
                | Connect_Failed e \<Rightarrow> (Inl e, [fd])
                | In_Progress \<Rightarrow>
                    if ready \<le> 0 then (Inl ''connect timed out'', [fd])
                    else (case so_error of Some e \<Rightarrow> (Inl e, [fd]) | None \<Rightarrow> (Inr fd, [])))))"

definition tcp_accept_vx :: "int \<Rightarrow> int" where
  "tcp_accept_vx fd = (if fd < 0 then -1 else fd)"

lemma tcp_vx_posix:
  "tcp_listen_vx pton socket bound listening host port = tcp_listen pton socket bound listening host port"
  "tcp_connect_vx pton socket True rc ready so_error host port = tcp_connect pton socket rc ready so_error host port"
  "tcp_connect_vx pton (Inr fd) nonblocking rc ready so_error host port = (Inl e, shut) \<Longrightarrow>
     shut = (case fill_addr pton host port of Inl _ \<Rightarrow> [] | Inr _ \<Rightarrow> [fd])"
  by (auto simp: tcp_listen_vx_def tcp_listen_def tcp_connect_vx_def tcp_connect_def
      split: sum.splits option.splits connecting.splits if_splits)

end
