(* ===== verification/Mcp_Win32_Net.thy ===== *)
theory Mcp_Win32_Net
  imports Mcp_Win32 Mcp_Vx_Io
begin

text \<open>
  Sockets, wake events and the dispatch between sockets and C runtime descriptors on Windows
  (\<^verbatim>\<open>src/platform/win32/io.cpp\<close> and \<^verbatim>\<open>net.cpp\<close>), and what the three backends' wake events have in common.
\<close>

subsection \<open>Sockets and descriptors\<close>

text \<open>\<open>alive\<close>: the handles that are open sockets, as \<^verbatim>\<open>getsockopt\<close> finds them.\<close>

definition is_socket :: "(int \<Rightarrow> bool) \<Rightarrow> int \<Rightarrow> bool" where
  "is_socket alive fd \<longleftrightarrow> (if fd < 0 then False else alive fd)"

datatype closing = Close_Socket int | Close_Crt int

definition close_fd_w32 :: "(int \<Rightarrow> bool) \<Rightarrow> int \<Rightarrow> closing list \<times> int" where
  "close_fd_w32 alive fd =
     (if fd < 0 then ([], fd) else if is_socket alive fd then ([Close_Socket fd], -1) else ([Close_Crt fd], -1))"

text \<open>The overload for \<^verbatim>\<open>int\<close> descriptors.\<close>

definition close_crt_w32 :: "int \<Rightarrow> closing list \<times> int" where
  "close_crt_w32 fd = (if fd \<ge> 0 then ([Close_Crt fd], -1) else ([], fd))"

definition shutdown_fd_w32 :: "(int \<Rightarrow> bool) \<Rightarrow> int \<Rightarrow> int list" where
  "shutdown_fd_w32 alive fd = (if fd \<ge> 0 \<and> is_socket alive fd then [fd] else [])"

text \<open>Descriptors are closed once.\<close>

lemma close_fd_w32_once:
  "close_fd_w32 alive fd = (closings, fd') \<Longrightarrow> close_fd_w32 alive' fd' = ([], fd') \<and> length closings \<le> 1"
  by (auto simp: close_fd_w32_def split: if_splits)

subsection \<open>Polling\<close>

datatype file_type = File_Pipe | File_Other

text \<open>
  \<open>socket_poll\<close> is the outcome of \<^verbatim>\<open>WSAPoll\<close>: its result and whether the descriptor and the wake socket have events; \<open>file\<close> is the
  type of the descriptor's file, if it has a handle, and \<open>pipes\<close> and \<open>consoles\<close> are the turns of the loop.
\<close>

definition poll_readable_w32 :: "(int \<Rightarrow> bool) \<Rightarrow> int \<Rightarrow> int option \<Rightarrow> int \<times> bool \<times> bool \<Rightarrow> file_type option \<Rightarrow>
    (bool \<times> pipe_check \<times> bool) list \<Rightarrow> (bool \<times> console_check \<times> bool) list \<Rightarrow> int call" where
  "poll_readable_w32 alive fd wake socket_poll file pipes consoles =
     (let has_wake = (case wake of Some h \<Rightarrow> h \<ge> 0 | None \<Rightarrow> False)
      in if is_socket alive fd
         then (case socket_poll of (rc, readable, woken) \<Rightarrow> Call_Returns (poll_socket_w32 has_wake rc readable woken))
         else (case file of
             None \<Rightarrow> Call_Returns (-1)
           | Some File_Pipe \<Rightarrow> poll_pipe_w32 has_wake pipes
           | Some File_Other \<Rightarrow> poll_console_w32 has_wake consoles))"

text \<open>Whatever the descriptor is, a waiter whose wake event is signalled is never told that there is something to read.\<close>

lemma woken_never_readable_w32:
  assumes "0 \<le> h" and "\<forall>c \<in> set pipes. fst c" and "\<forall>c \<in> set consoles. fst c"
  shows "poll_readable_w32 alive fd (Some h) (rc, readable, True) file pipes consoles \<noteq> Call_Returns 1"
  using assms woken_polls_w32
  by (auto simp: poll_readable_w32_def split: option.split file_type.split)

subsection \<open>Wake events\<close>

text \<open>
  What the calls of \<^verbatim>\<open>make_socket_pair\<close> return; the record is that of the loopback connection on VxWorks.  The result is
  the pair of the signalling and the polled side; the listening socket is closed before the accepted one is examined.
\<close>

definition make_socket_pair :: "loopback_calls \<Rightarrow> (int \<times> int) option \<times> int list" where
  "make_socket_pair c =
     (if lc_listener c < 0 then (None, [])
      else if \<not> lc_prepared c then (None, [lc_listener c])
      else if lc_connector c < 0 \<or> \<not> lc_connected c
      then (None, lc_listener c # (if 0 \<le> lc_connector c then [lc_connector c] else []))
      else if lc_accepted c < 0 then (None, [lc_listener c, lc_connector c])
      else (Some (lc_connector c, lc_accepted c), [lc_listener c]))"

interpretation w32_pair: wake_pairs make_socket_pair loopback_opened
  by unfold_locales (auto simp: make_socket_pair_def loopback_opened_def pair_list_def split: if_splits)

definition new_wake_event_w32 :: "loopback_calls \<Rightarrow> wake_event \<times> int list" where
  "new_wake_event_w32 c =
     (case make_socket_pair c of
        (None, shut) \<Rightarrow> (\<lparr>we_read_fd = -1, we_write_fd = -1, we_in_pipe = 0\<rparr>, shut)
      | (Some (write_side, read_side), shut) \<Rightarrow>
          (\<lparr>we_read_fd = read_side, we_write_fd = write_side, we_in_pipe = 0\<rparr>, shut))"

definition destroy_wake_event_w32 :: "wake_event \<Rightarrow> int list" where
  "destroy_wake_event_w32 w =
     (if we_read_fd w \<ge> 0 then [we_read_fd w] else []) @ (if we_write_fd w \<ge> 0 then [we_write_fd w] else [])"

text \<open>One byte is sent, once: \<open>sent\<close> is the count accepted, if the call succeeds.\<close>

definition wake_signal_w32 :: "nat option \<Rightarrow> wake_event \<Rightarrow> wake_event" where
  "wake_signal_w32 sent w =
     (if we_write_fd w \<ge> 0 then w\<lparr>we_in_pipe := we_in_pipe w + (case sent of None \<Rightarrow> 0 | Some n \<Rightarrow> n)\<rparr> else w)"

definition wake_is_valid_w32 :: "wake_event \<Rightarrow> bool" where
  "wake_is_valid_w32 w \<longleftrightarrow> we_read_fd w \<ge> 0"

lemma wake_signals_keep_fds [simp]:
  "we_read_fd (fold wake_signal_w32 sent w) = we_read_fd w"
  "we_write_fd (fold wake_signal_w32 sent w) = we_write_fd w"
  by (induction sent arbitrary: w) (auto simp: wake_signal_w32_def)

subsection \<open>Connections\<close>

definition wsa_error :: "nat \<Rightarrow> string" where
  "wsa_error last_error = ''winsock error '' @ nat_to_string last_error"

text \<open>A socket call returns a socket or leaves an error number; \<open>bound\<close> is \<^verbatim>\<open>bind\<close> followed by \<^verbatim>\<open>listen\<close>.\<close>

definition tcp_listen_w32 :: "(string \<Rightarrow> 'a option) \<Rightarrow> nat + int \<Rightarrow> nat option \<Rightarrow> nat option \<Rightarrow> string \<Rightarrow> nat \<Rightarrow>
    (string + int) \<times> int list" where
  "tcp_listen_w32 pton socket bound listening host port =
     (case fill_addr pton host port of
        Inl e \<Rightarrow> (Inl e, [])
      | Inr _ \<Rightarrow>
          (case socket of
             Inl n \<Rightarrow> (Inl (wsa_error n), [])
           | Inr fd \<Rightarrow>
               (case (case bound of Some n \<Rightarrow> Some n | None \<Rightarrow> listening) of
                  Some n \<Rightarrow> (Inl (wsa_error n), [fd])
                | None \<Rightarrow> (Inr fd, []))))"

definition tcp_local_port_w32 :: "nat option \<Rightarrow> nat" where
  "tcp_local_port_w32 name = (case name of None \<Rightarrow> 0 | Some port \<Rightarrow> port)"

datatype connecting_w32 = Connected_W32 | Would_Block | Connect_Failed_W32 nat

text \<open>
  \<open>ready\<close> is the result of \<^verbatim>\<open>WSAPoll\<close>, \<open>so_error\<close> the pending error of the socket, \<open>poll_error\<close> whether \<^verbatim>\<open>POLLERR\<close> was
  reported and \<open>last_error\<close> what \<^verbatim>\<open>WSAGetLastError\<close> returns after that.
\<close>

definition tcp_connect_w32 :: "(string \<Rightarrow> 'a option) \<Rightarrow> nat + int \<Rightarrow> connecting_w32 \<Rightarrow> int \<Rightarrow> nat \<Rightarrow> bool \<Rightarrow> nat \<Rightarrow>
    string \<Rightarrow> nat \<Rightarrow> (string + int) \<times> int list" where
  "tcp_connect_w32 pton socket rc ready so_error poll_error last_error host port =
     (case fill_addr pton host port of
        Inl e \<Rightarrow> (Inl e, [])
      | Inr _ \<Rightarrow>
          (case socket of
             Inl n \<Rightarrow> (Inl (wsa_error n), [])
           | Inr fd \<Rightarrow>
               (case rc of
                  Connected_W32 \<Rightarrow> (Inr fd, [])
                | Connect_Failed_W32 n \<Rightarrow> (Inl (wsa_error n), [fd])
                | Would_Block \<Rightarrow>
                    if ready \<le> 0 \<or> so_error \<noteq> 0 \<or> poll_error
                    then (Inl (if ready \<le> 0 then ''connect timed out'' else wsa_error last_error), [fd])
                    else (Inr fd, []))))"

text \<open>\<open>None\<close> is \<^verbatim>\<open>INVALID_SOCKET\<close>.\<close>

definition tcp_accept_w32 :: "int option \<Rightarrow> int" where
  "tcp_accept_w32 fd = (case fd of None \<Rightarrow> -1 | Some s \<Rightarrow> s)"

lemma tcp_descriptors_w32:
  assumes "socket = Inr fd"
  shows "tcp_listen_w32 pton socket bound listening host port = (Inl e, shut) \<Longrightarrow>
      shut = (case fill_addr pton host port of Inl _ \<Rightarrow> [] | Inr _ \<Rightarrow> [fd])"
    and "tcp_connect_w32 pton socket rc ready so_error poll_error last_error host port = (Inl e, shut) \<Longrightarrow>
      shut = (case fill_addr pton host port of Inl _ \<Rightarrow> [] | Inr _ \<Rightarrow> [fd])"
    and "tcp_listen_w32 pton socket bound listening host port = (Inr fd', shut) \<Longrightarrow> fd' = fd \<and> shut = []"
    and "tcp_connect_w32 pton socket rc ready so_error poll_error last_error host port = (Inr fd', shut) \<Longrightarrow>
      fd' = fd \<and> shut = []"
  using assms
  by (auto simp: tcp_listen_w32_def tcp_connect_w32_def split: sum.splits option.splits connecting_w32.splits if_splits)

text \<open>
  A connection that fails after the call has returned is reported with the thread's last error, and the socket's pending
  error, which says why, is not used: the refusal and any other reason give the same message.
\<close>

lemma connect_reason_lost:
  assumes "so_error \<noteq> 0" and "so_error' \<noteq> 0"
  shows "tcp_connect_w32 pton socket Would_Block ready so_error poll_error last_error host port =
    tcp_connect_w32 pton socket Would_Block ready so_error' poll_error last_error host port"
  using assms by (simp add: tcp_connect_w32_def split: sum.split)

subsection \<open>Properties\<close>

text \<open>
  C25. Wake events leak no descriptor and close none twice, on any platform: whatever the system calls return while the event's pipe
  or loopback connection is made, and however often it is signalled, the descriptors closed while it is made and when it is
  destroyed are together exactly those that were opened, each as often as it was opened, and the event counts as valid exactly
  if its pair could be made.
\<close>

theorem wake_event_balanced:
  "(case make_pipe made of (pair, shut) \<Rightarrow>
      mset (shut @ destroy_wake_event (fold wake_signal writes (new_wake_event pair))) = mset (pair_list pair) \<and>
      (wake_is_valid (new_wake_event pair) \<longleftrightarrow> made \<noteq> None)) \<and>
   (case new_wake_event_vx calls of (event, shut) \<Rightarrow>
      mset (shut @ destroy_wake_event_vx (fold wake_signal_vx writes event)) = mset (loopback_opened calls) \<and>
      (wake_is_valid_vx event \<longleftrightarrow> fst (make_loopback_pair calls) \<noteq> None)) \<and>
   (case new_wake_event_w32 calls of (event, shut) \<Rightarrow>
      mset (shut @ destroy_wake_event_w32 (fold wake_signal_w32 sends event)) = mset (loopback_opened calls) \<and>
      (wake_is_valid_w32 event \<longleftrightarrow> fst (make_socket_pair calls) \<noteq> None))"
proof (intro conjI)
  show "case make_pipe made of (pair, shut) \<Rightarrow>
      mset (shut @ destroy_wake_event (fold wake_signal writes (new_wake_event pair))) = mset (pair_list pair) \<and>
      (wake_is_valid (new_wake_event pair) \<longleftrightarrow> made \<noteq> None)"
    using posix_pipe.event_balanced [OF prod.collapse [symmetric], of made]
    by (auto simp: make_pipe_def)
  show "case new_wake_event_vx calls of (event, shut) \<Rightarrow>
      mset (shut @ destroy_wake_event_vx (fold wake_signal_vx writes event)) = mset (loopback_opened calls) \<and>
      (wake_is_valid_vx event \<longleftrightarrow> fst (make_loopback_pair calls) \<noteq> None)"
    using vx_pair.event_balanced [OF prod.collapse [symmetric], of calls]
    by (simp add: wake_event_vx_posix)
  obtain pair shut where p: "make_socket_pair calls = (pair, shut)" by fastforce
  show "case new_wake_event_w32 calls of (event, shut) \<Rightarrow>
      mset (shut @ destroy_wake_event_w32 (fold wake_signal_w32 sends event)) = mset (loopback_opened calls) \<and>
      (wake_is_valid_w32 event \<longleftrightarrow> fst (make_socket_pair calls) \<noteq> None)"
    using p w32_pair.pairs_balanced [OF p] w32_pair.made_valid [of calls]
    by (cases pair) (auto simp: new_wake_event_w32_def destroy_wake_event_w32_def wake_is_valid_w32_def pair_list_def)
qed

end
