(* ===== verification/Mcp_Vx_Threading.thy ===== *)
theory Mcp_Vx_Threading
  imports Mcp_Prelude
begin

text \<open>
  The threading primitives for VxWorks (\<^verbatim>\<open>src/platform/vxworks/threading.cpp\<close>,
  \<^verbatim>\<open>include/mcp/sys/threading_vxworks.hpp\<close>): condition variables on a counting semaphore and a guarded
  count of waiters, timeouts in clock ticks, and threads joined through a semaphore.

  A wait is cut at the points where other tasks may run: registering, taking the counting semaphore
  (or timing out), and reconciling; the parts between them hold the internal semaphore.
  \<open>condvar_step\<close> interleaves these parts of any number of tasks with \<^verbatim>\<open>notify_all\<close>.
\<close>

subsection \<open>Time\<close>

text \<open>\<^verbatim>\<open>static_cast<int>\<close> of a \<^verbatim>\<open>long long\<close>.\<close>

definition int_cast :: "int \<Rightarrow> int" where
  "int_cast n = (n + 2 ^ 31) mod 2 ^ 32 - 2 ^ 31"

definition ms_to_ticks :: "int \<Rightarrow> int \<Rightarrow> int" where
  "ms_to_ticks rate ms =
     (if ms \<le> 0 then 0
      else let ticks = (ms * rate + 999) div 1000 in int_cast (if ticks < 1 then 1 else ticks))"

definition wait_until_ms :: "int \<Rightarrow> int \<Rightarrow> int" where
  "wait_until_ms now_ns deadline_ns = (if deadline_ns > now_ns then (deadline_ns - now_ns) div 1000000 else 0)"

subsection \<open>Mutexes\<close>

text \<open>
  A mutual-exclusion semaphore with its owner and how often the owner has taken it; \<open>None\<close>: the semaphore could not be
  made.  Taking it waits (\<open>None\<close>) while another task owns it; a task that does not own it cannot give it.
\<close>

record vx_mutex =
  mx_owner :: "(nat \<times> nat) option"

definition new_mutex :: vx_mutex where
  "new_mutex = \<lparr>mx_owner = None\<rparr>"

definition mutex_lock :: "nat \<Rightarrow> vx_mutex \<Rightarrow> vx_mutex option" where
  "mutex_lock task m =
     (case mx_owner m of
        None \<Rightarrow> Some (m\<lparr>mx_owner := Some (task, 1)\<rparr>)
      | Some (owner, n) \<Rightarrow> if owner = task then Some (m\<lparr>mx_owner := Some (owner, n + 1)\<rparr>) else None)"

definition mutex_unlock :: "nat \<Rightarrow> vx_mutex \<Rightarrow> vx_mutex" where
  "mutex_unlock task m =
     (case mx_owner m of
        None \<Rightarrow> m
      | Some (owner, n) \<Rightarrow>
          if owner \<noteq> task then m else m\<lparr>mx_owner := if n \<le> 1 then None else Some (owner, n - 1)\<rparr>)"

definition mutex_try_lock :: "nat \<Rightarrow> vx_mutex \<Rightarrow> bool \<times> vx_mutex" where
  "mutex_try_lock task m = (case mutex_lock task m of None \<Rightarrow> (False, m) | Some m' \<Rightarrow> (True, m'))"

text \<open>A task that has taken a mutex keeps the others out until it has given it back as often as it took it.\<close>

lemma locked_excludes:
  assumes "mx_owner m = None" and "fold (\<lambda>_ m. Option.bind m (mutex_lock a)) [0..<Suc k] (Some m) = Some m'" and "a \<noteq> b"
  shows "mx_owner m' = Some (a, Suc k) \<and> mutex_lock b m' = None \<and> mutex_unlock b m' = m' \<and>
    (mutex_unlock a ^^ Suc k) m' = m"
proof -
  have lock: "fold (\<lambda>_ m. Option.bind m (mutex_lock a)) [0..<Suc k] (Some m) = Some (m\<lparr>mx_owner := Some (a, Suc k)\<rparr>)"
    by (induction k) (simp_all add: mutex_lock_def assms(1))
  have "(mutex_unlock a ^^ Suc k) (m\<lparr>mx_owner := Some (a, Suc k)\<rparr>) = m\<lparr>mx_owner := None\<rparr>"
    by (induction k) (simp_all add: mutex_unlock_def funpow_swap1 del: funpow.simps(2) add: funpow_Suc_right)
  moreover have "m\<lparr>mx_owner := None\<rparr> = m" using assms(1) by (cases m) simp
  moreover have "m' = m\<lparr>mx_owner := Some (a, Suc k)\<rparr>" using trans [OF lock [symmetric] assms(2)] by simp
  ultimately show ?thesis using assms(3) by (simp add: mutex_lock_def mutex_unlock_def [of b] del: funpow.simps(2))
qed

text \<open>\<^verbatim>\<open>this_thread::sleep_for_ms\<close>: the argument of \<^verbatim>\<open>taskDelay\<close>; at least one tick for a positive time.\<close>

definition sleep_ticks :: "int \<Rightarrow> int \<Rightarrow> int" where
  "sleep_ticks rate ms = (if ms \<le> 0 then 0 else ms_to_ticks rate ms)"

lemma sleep_positive: "0 < ms \<Longrightarrow> 0 < rate \<Longrightarrow> ms * rate + 999 < 2 ^ 31 * 1000 \<Longrightarrow> 0 < sleep_ticks rate ms"
  by (auto simp: sleep_ticks_def ms_to_ticks_def int_cast_def Let_def)

subsection \<open>Condition variables\<close>

record condvar =
  cv_sema :: nat
  cv_waiters :: int

definition new_condvar :: condvar where
  "new_condvar = \<lparr>cv_sema = 0, cv_waiters = 0\<rparr>"

function notify_all :: "condvar \<Rightarrow> condvar" where
  "notify_all c =
     (if cv_waiters c > 0 then notify_all (c\<lparr>cv_waiters := cv_waiters c - 1, cv_sema := cv_sema c + 1\<rparr>) else c)"
  by pat_completeness auto

termination
  by (relation "measure (\<lambda>c. nat (cv_waiters c))") auto

declare notify_all.simps [simp del]

text \<open>The parts of \<^verbatim>\<open>wait_for_ms\<close>.\<close>

definition wait_register :: "condvar \<Rightarrow> condvar" where
  "wait_register c = c\<lparr>cv_waiters := cv_waiters c + 1\<rparr>"

definition sema_take :: "condvar \<Rightarrow> condvar option" where
  "sema_take c = (if cv_sema c > 0 then Some (c\<lparr>cv_sema := cv_sema c - 1\<rparr>) else None)"

definition wait_reconcile :: "bool \<Rightarrow> condvar \<Rightarrow> condvar" where
  "wait_reconcile ok c =
     (if ok then c
      else if cv_waiters c > 0 then c\<lparr>cv_waiters := cv_waiters c - 1\<rparr>
      else case sema_take c of None \<Rightarrow> c | Some c' \<Rightarrow> c')"

subsection \<open>Threads\<close>

text \<open>\<open>None\<close> for \<^verbatim>\<open>state_ == nullptr\<close>; the flag tells whether the task has given its semaphore.\<close>

record vx_thread =
  th_state :: "(nat \<times> bool) option"

definition thread_start :: "nat option \<Rightarrow> vx_thread" where
  "thread_start spawned = \<lparr>th_state = map_option (\<lambda>tid. (tid, False)) spawned\<rparr>"

definition task_done :: "vx_thread \<Rightarrow> vx_thread" where
  "task_done t = t\<lparr>th_state := map_option (\<lambda>(tid, _). (tid, True)) (th_state t)\<rparr>"

definition joinable :: "vx_thread \<Rightarrow> bool" where
  "joinable t \<longleftrightarrow> th_state t \<noteq> None"

text \<open>\<open>None\<close>: the caller waits.\<close>

definition thread_join :: "vx_thread \<Rightarrow> vx_thread option" where
  "thread_join t =
     (case th_state t of
        None \<Rightarrow> Some t
      | Some (_, finished) \<Rightarrow> if finished then Some (t\<lparr>th_state := None\<rparr>) else None)"

definition thread_get_id :: "vx_thread \<Rightarrow> nat option" where
  "thread_get_id t = map_option fst (th_state t)"

text \<open>
  Moving takes the other thread's task, which is left with none; the results are this thread and the other one.  Assigning to, or
  destroying, a thread that is still joinable ends the program, which is \<open>None\<close>.
\<close>

definition default_thread :: vx_thread where
  "default_thread = \<lparr>th_state = None\<rparr>"

definition thread_move :: "vx_thread \<Rightarrow> vx_thread \<times> vx_thread" where
  "thread_move t = (default_thread\<lparr>th_state := th_state t\<rparr>, t\<lparr>th_state := th_state default_thread\<rparr>)"

definition thread_assign :: "vx_thread \<Rightarrow> vx_thread \<Rightarrow> (vx_thread \<times> vx_thread) option" where
  "thread_assign t u = (if joinable t then None else Some (t\<lparr>th_state := th_state u\<rparr>, u\<lparr>th_state := th_state t\<rparr>))"

definition thread_destroy :: "vx_thread \<Rightarrow> unit option" where
  "thread_destroy t = (if joinable t then None else Some ())"

text \<open>No task is lost or owned twice: the program goes on exactly if no joinable thread is overwritten or destroyed.\<close>

lemma thread_ownership:
  "thread_move t = (u, t') \<Longrightarrow> u = t \<and> \<not> joinable t'"
  "thread_assign t u = Some (t', u') \<Longrightarrow> t' = u \<and> u' = t \<and> \<not> joinable u'"
  "thread_join t = Some t' \<Longrightarrow> thread_destroy t' = Some ()"
  "thread_destroy t = None \<longleftrightarrow> thread_get_id t \<noteq> None"
  by (auto simp: thread_move_def default_thread_def thread_assign_def thread_join_def thread_destroy_def thread_get_id_def joinable_def
      split: option.splits if_splits prod.splits)

subsection \<open>Interleaving\<close>

datatype phase = Outside | Waits | Woken_Up | Timed_Out

text \<open>\<open>vc_notified t\<close>: a \<^verbatim>\<open>notify_all\<close> ran since task \<open>t\<close> registered for its present wait.\<close>

record 't vx_conf =
  vc_condvar :: condvar
  vc_phase :: "'t \<Rightarrow> phase"
  vc_notified :: "'t \<Rightarrow> bool"

inductive condvar_step :: "'t set \<Rightarrow> 't vx_conf \<Rightarrow> 't vx_conf \<Rightarrow> bool" for W where
  step_register: "t \<in> W \<Longrightarrow> vc_phase k t = Outside \<Longrightarrow>
    condvar_step W k (k\<lparr>vc_condvar := wait_register (vc_condvar k), vc_phase := (vc_phase k)(t := Waits),
                        vc_notified := (vc_notified k)(t := False)\<rparr>)"
| step_take: "vc_phase k t = Waits \<Longrightarrow> sema_take (vc_condvar k) = Some c \<Longrightarrow>
    condvar_step W k (k\<lparr>vc_condvar := c, vc_phase := (vc_phase k)(t := Woken_Up)\<rparr>)"
| step_timeout: "vc_phase k t = Waits \<Longrightarrow> sema_take (vc_condvar k) = None \<Longrightarrow>
    condvar_step W k (k\<lparr>vc_phase := (vc_phase k)(t := Timed_Out)\<rparr>)"
| step_reconcile: "vc_phase k t \<in> {Woken_Up, Timed_Out} \<Longrightarrow>
    condvar_step W k (k\<lparr>vc_condvar := wait_reconcile (vc_phase k t = Woken_Up) (vc_condvar k),
                        vc_phase := (vc_phase k)(t := Outside)\<rparr>)"
| step_notify: "condvar_step W k (k\<lparr>vc_condvar := notify_all (vc_condvar k), vc_notified := (\<lambda>_. True)\<rparr>)"

inductive_cases condvar_stepE: "condvar_step W k k'"

definition vx_start :: "'t vx_conf" where
  "vx_start = \<lparr>vc_condvar = new_condvar, vc_phase = (\<lambda>_. Outside), vc_notified = (\<lambda>_. False)\<rparr>"

inductive condvar_reachable :: "'t set \<Rightarrow> 't vx_conf \<Rightarrow> bool" for W where
  "condvar_reachable W vx_start"
| "condvar_reachable W k \<Longrightarrow> condvar_step W k k' \<Longrightarrow> condvar_reachable W k'"

text \<open>The tasks that are owed a wakeup or a correction of the count.\<close>

definition owed :: "'t vx_conf \<Rightarrow> 't set" where
  "owed k = {t. vc_phase k t \<in> {Waits, Timed_Out}}"

definition condvar_ok :: "'t set \<Rightarrow> 't vx_conf \<Rightarrow> bool" where
  "condvar_ok W k \<longleftrightarrow> owed k \<subseteq> W \<and> 0 \<le> cv_waiters (vc_condvar k) \<and>
     cv_waiters (vc_condvar k) + int (cv_sema (vc_condvar k)) = int (card (owed k))"

subsection \<open>The counts\<close>

lemma notify_all_counts:
  assumes "0 \<le> cv_waiters c"
  shows "cv_waiters (notify_all c) = 0 \<and> int (cv_sema (notify_all c)) = cv_waiters c + int (cv_sema c)"
  using assms
proof (induction c rule: notify_all.induct)
  case (1 c)
  then show ?case by (cases "cv_waiters c > 0") (simp_all add: notify_all.simps [of c])
qed

lemma owed_phase:
  "owed (k\<lparr>vc_phase := (vc_phase k)(t := p)\<rparr>) = (if p \<in> {Waits, Timed_Out} then insert t (owed k) else owed k - {t})"
  "owed (k\<lparr>vc_condvar := c\<rparr>) = owed k" "owed (k\<lparr>vc_notified := n\<rparr>) = owed k"
  by (auto simp: owed_def)

lemma condvar_step_ok:
  assumes "condvar_step W k k'" and "condvar_ok W k" and "finite W"
  shows "condvar_ok W k'"
proof -
  have fin: "finite (owed k)" using assms(2,3) finite_subset unfolding condvar_ok_def by blast
  have upd: "owed (k\<lparr>vc_condvar := c, vc_phase := (vc_phase k)(t := p)\<rparr>) =
      (if p \<in> {Waits, Timed_Out} then insert t (owed k) else owed k - {t})"
    "owed (k\<lparr>vc_condvar := c, vc_phase := (vc_phase k)(t := p), vc_notified := n\<rparr>) =
      (if p \<in> {Waits, Timed_Out} then insert t (owed k) else owed k - {t})"
    "owed (k\<lparr>vc_condvar := c, vc_notified := n\<rparr>) = owed k" for c t p n
    by (auto simp: owed_def)
  have member: "t \<in> owed k \<longleftrightarrow> vc_phase k t \<in> {Waits, Timed_Out}" for t by (simp add: owed_def)
  have card_pos: "t \<in> owed k \<Longrightarrow> card (owed k) > 0" for t using fin card_gt_0_iff by blast
  from assms(1) show ?thesis
  proof (cases rule: condvar_step.cases)
    case (step_register t)
    with assms(2) fin member [of t] show ?thesis
      by (auto simp: condvar_ok_def upd wait_register_def)
  next
    case (step_take t c)
    with assms(2) fin member [of t] card_pos [of t] show ?thesis
      by (auto simp: condvar_ok_def upd sema_take_def card_Diff_singleton split: if_splits)
  next
    case (step_timeout t)
    with assms(2) fin member [of t] show ?thesis
      by (auto simp: condvar_ok_def owed_phase insert_absorb)
  next
    case (step_reconcile t)
    with assms(2) fin member [of t] card_pos [of t] show ?thesis
      by (auto simp: condvar_ok_def upd wait_reconcile_def sema_take_def card_Diff_singleton split: if_splits)
  next
    case step_notify
    with assms(2) notify_all_counts [of "vc_condvar k"] show ?thesis
      by (auto simp: condvar_ok_def upd)
  qed
qed

lemma condvar_reachable_ok:
  assumes "condvar_reachable W k" and "finite W"
  shows "condvar_ok W k"
  using assms
proof (induction rule: condvar_reachable.induct)
  case 1
  then show ?case by (simp add: condvar_ok_def vx_start_def owed_def new_condvar_def)
next
  case (2 k k')
  then show ?case using condvar_step_ok by blast
qed

lemma single_waiter_served:
  assumes "condvar_reachable W k" and "W = {t}"
  shows "vc_notified k t \<longrightarrow> vc_phase k t = Waits \<longrightarrow> cv_waiters (vc_condvar k) = 0"
  using assms
proof (induction rule: condvar_reachable.induct)
  case 1
  then show ?case by (simp add: vx_start_def)
next
  case (2 k k')
  then have ok: "condvar_ok W k" using condvar_reachable_ok by blast
  from "2.hyps"(2) show ?case
  proof (cases rule: condvar_step.cases)
    case (step_reconcile u)
    then have "u = t \<or> vc_phase k u = Woken_Up" using ok "2.prems" by (auto simp: condvar_ok_def owed_def)
    with step_reconcile "2.IH" [OF "2.prems"] show ?thesis by (auto simp: wait_reconcile_def)
  next
    case step_notify
    with ok notify_all_counts [of "vc_condvar k"] show ?thesis by (simp add: condvar_ok_def)
  qed (use "2.IH" [OF "2.prems"] "2.prems" in \<open>auto simp: sema_take_def split: if_splits\<close>)
qed

text \<open>Ticks are rounded up: a wait is never shorter than asked for, and at most one tick longer.\<close>

lemma ticks_rounded_up:
  assumes "0 < ms" and "0 < rate" and "(ms * rate + 999) div 1000 < 2 ^ 31"
  shows "1 \<le> ms_to_ticks rate ms" "ms * rate \<le> 1000 * ms_to_ticks rate ms"
    "1000 * ms_to_ticks rate ms < ms * rate + 1000"
proof -
  let ?n = "(ms * rate + 999) div 1000"
  have "1 \<le> ms * rate" using assms(1,2) by (metis int_one_le_iff_zero_less mult_pos_pos)
  then have n: "1 \<le> ?n" "ms * rate \<le> 1000 * ?n" "1000 * ?n < ms * rate + 1000" by linarith+
  then have "ms_to_ticks rate ms = ?n"
    using assms(1,3) by (simp add: ms_to_ticks_def int_cast_def Let_def)
  with n show "1 \<le> ms_to_ticks rate ms" "ms * rate \<le> 1000 * ms_to_ticks rate ms"
    "1000 * ms_to_ticks rate ms < ms * rate + 1000" by simp_all
qed

text \<open>A thread that was started is joinable until its task is done and it was joined; one that failed to start never is.\<close>

lemma thread_lifecycle:
  "joinable (thread_start (Some tid))" "thread_join (thread_start (Some tid)) = None"
  "thread_join (task_done (thread_start (Some tid))) = Some (thread_start None)"
  "\<not> joinable (thread_start None)" "thread_join (thread_start None) = Some (thread_start None)"
  by (simp_all add: joinable_def thread_start_def thread_join_def task_done_def)

subsection \<open>Properties\<close>

text \<open>
  C20. The condition variable on semaphores: however the parts of the waits of any tasks interleave with
  notifications, the registered waiters and the free counts of the semaphore together always number the
  tasks that wait or have timed out.  So a task that timed out and finds itself no longer registered
  finds the count to consume, after a notification there is a count for every waiting task, and a
  condition variable with a single waiter loses no wakeup: once notified it is not blocked.
\<close>

theorem condvar_counts:
  assumes "condvar_reachable W k" and "finite W"
  shows "cv_waiters (vc_condvar k) + int (cv_sema (vc_condvar k)) = int (card (owed k)) \<and>
    (vc_phase k t = Timed_Out \<longrightarrow> \<not> cv_waiters (vc_condvar k) > 0 \<longrightarrow> sema_take (vc_condvar k) \<noteq> None) \<and>
    card {t. vc_phase k t = Waits} \<le> cv_sema (notify_all (vc_condvar k)) \<and>
    (W = {t} \<longrightarrow> vc_notified k t \<longrightarrow> vc_phase k t = Waits \<longrightarrow> sema_take (vc_condvar k) \<noteq> None)"
proof -
  have ok: "condvar_ok W k" using condvar_reachable_ok [OF assms] .
  have fin: "finite (owed k)" using ok assms(2) finite_subset unfolding condvar_ok_def by blast
  have "0 < card (owed k)" if "vc_phase k t \<in> {Waits, Timed_Out}"
    using that fin card_gt_0_iff by (fastforce simp: owed_def)
  moreover have "card {t. vc_phase k t = Waits} \<le> card (owed k)"
    using fin by (rule card_mono) (auto simp: owed_def)
  ultimately show ?thesis
    using ok single_waiter_served [OF assms(1), of t] notify_all_counts [of "vc_condvar k"]
    by (auto simp: condvar_ok_def sema_take_def)
qed

definition notified_waiter :: "nat vx_conf" where
  "notified_waiter = \<lparr>vc_condvar = \<lparr>cv_sema = 1, cv_waiters = 0\<rparr>, vc_phase = (\<lambda>_. Outside)(0 := Waits), vc_notified = (\<lambda>_. True)\<rparr>"

lemma notified_waiter_reachable: "0 \<in> W \<Longrightarrow> condvar_reachable W notified_waiter"
proof -
  assume W: "0 \<in> W"
  note reach = condvar_reachable.intros
  from reach(2) [OF reach(1) step_register [OF W, of vx_start]]
  have "condvar_reachable W (vx_start\<lparr>vc_condvar := wait_register new_condvar, vc_phase := (\<lambda>_. Outside)(0 := Waits),
      vc_notified := (\<lambda>_. False)(0 := False)\<rparr>)" by (simp add: vx_start_def)
  from reach(2) [OF this step_notify] show "condvar_reachable W notified_waiter"
    by (simp add: notified_waiter_def vx_start_def wait_register_def new_condvar_def notify_all.simps)
qed

lemma condvar_counts_witness: "sema_take (vc_condvar notified_waiter) \<noteq> None"
  using condvar_counts [OF notified_waiter_reachable [of "{0}"], of 0] by (simp add: notified_waiter_def)

text \<open>
  With two waiting tasks a wakeup can be lost: a task that begins to wait after the notification may take
  the count meant for a task that has registered but not yet reached the semaphore; that task is then
  notified and blocked.
\<close>

lemma notified_task_may_block:
  "\<exists>k. condvar_reachable {0, 1::nat} k \<and> vc_notified k 0 \<and> vc_phase k 0 = Waits \<and> sema_take (vc_condvar k) = None \<and>
     vc_phase k 1 = Outside"
proof -
  let ?W = "{0, 1::nat}"
  have r0: "condvar_reachable ?W notified_waiter" by (rule notified_waiter_reachable) simp
  have "condvar_step ?W notified_waiter \<lparr>vc_condvar = \<lparr>cv_sema = 1, cv_waiters = 1\<rparr>,
      vc_phase = (\<lambda>_. Outside)(0 := Waits, 1 := Waits), vc_notified = (\<lambda>_. True)(1 := False)\<rparr>" (is "condvar_step _ _ ?k1")
    using step_register [of 1 ?W notified_waiter] by (simp add: notified_waiter_def wait_register_def)
  with r0 have r1: "condvar_reachable ?W ?k1" by (rule condvar_reachable.intros)
  have "condvar_step ?W ?k1 (?k1\<lparr>vc_condvar := \<lparr>cv_sema = 0, cv_waiters = 1\<rparr>,
      vc_phase := (\<lambda>_. Outside)(0 := Waits, 1 := Woken_Up)\<rparr>)" (is "condvar_step _ _ ?k2")
    using step_take [of ?k1 1 "\<lparr>cv_sema = 0, cv_waiters = 1\<rparr>" ?W] by (simp add: sema_take_def)
  with r1 have r2: "condvar_reachable ?W ?k2" by (rule condvar_reachable.intros)
  have "condvar_step ?W ?k2 (?k2\<lparr>vc_phase := (\<lambda>_. Outside)(0 := Waits, 1 := Outside)\<rparr>)" (is "condvar_step _ _ ?k3")
    using step_reconcile [of ?k2 1 ?W] by (simp add: wait_reconcile_def)
  with r2 have "condvar_reachable ?W ?k3" by (rule condvar_reachable.intros)
  then show ?thesis by (intro exI [of _ ?k3]) (simp add: sema_take_def)
qed

end
