(* ===== verification/Mcp_Log.thy ===== *)
theory Mcp_Log
  imports Mcp_Prelude
begin

text \<open>
  Diagnostic logging of the library itself (\<^verbatim>\<open>src/core/log.cpp\<close>, \<^verbatim>\<open>include/mcp/log.hpp\<close>): the threshold that is
  taken from the environment at first use, the sink, and the line written when there is none.  The state
  is the pair of the two globals; \<open>env\<close> is the value of the variable \<^verbatim>\<open>MCP_LOG\<close>.
\<close>

datatype log_level = Log_Trace | Log_Debug | Log_Info | Log_Warn | Log_Error | Log_Off

fun log_number :: "log_level \<Rightarrow> int" where
  "log_number Log_Trace = 0" | "log_number Log_Debug = 1" | "log_number Log_Info = 2" | "log_number Log_Warn = 3"
| "log_number Log_Error = 4" | "log_number Log_Off = 5"

record log_state =
  ls_level :: int
  ls_sink :: bool

definition new_log_state :: log_state where
  "new_log_state = \<lparr>ls_level = -1, ls_sink = False\<rparr>"

definition level_from_env :: "string option \<Rightarrow> log_level" where
  "level_from_env env =
     (case env of
        None \<Rightarrow> Log_Info
      | Some v \<Rightarrow>
          if v = ''trace'' then Log_Trace
          else if v = ''debug'' then Log_Debug
          else if v = ''info'' then Log_Info
          else if v = ''warn'' then Log_Warn
          else if v = ''error'' then Log_Error
          else if v = ''off'' then Log_Off
          else Log_Info)"

definition current_level :: "string option \<Rightarrow> log_state \<Rightarrow> int \<times> log_state" where
  "current_level env s =
     (if ls_level s < 0 then let n = log_number (level_from_env env) in (n, s\<lparr>ls_level := n\<rparr>) else (ls_level s, s))"

fun level_name :: "log_level \<Rightarrow> string" where
  "level_name Log_Trace = ''trace''" | "level_name Log_Debug = ''debug''" | "level_name Log_Info = ''info ''"
| "level_name Log_Warn = ''warn ''" | "level_name Log_Error = ''error''" | "level_name Log_Off = ''?    ''"

definition set_log_sink :: "bool \<Rightarrow> log_state \<Rightarrow> log_state" where
  "set_log_sink present s = s\<lparr>ls_sink := present\<rparr>"

definition set_log_level :: "log_level \<Rightarrow> log_state \<Rightarrow> log_state" where
  "set_log_level l s = s\<lparr>ls_level := log_number l\<rparr>"

definition log_enabled :: "string option \<Rightarrow> log_level \<Rightarrow> log_state \<Rightarrow> bool \<times> log_state" where
  "log_enabled env l s = (case current_level env s of (n, s) \<Rightarrow> (log_number l \<ge> n, s))"

datatype log_output = To_Sink log_level string string | To_Stderr string

text \<open>\<open>stamp\<close> is the formatted local time.\<close>

definition log_emit :: "string \<Rightarrow> log_level \<Rightarrow> string \<Rightarrow> string \<Rightarrow> log_state \<Rightarrow> log_output" where
  "log_emit stamp l component line s =
     (if ls_sink s then To_Sink l component line
      else To_Stderr (''['' @ stamp @ ''] ['' @ level_name l @ ''] ['' @ component @ ''] '' @ line @ [CHR 0x0A]))"

text \<open>The macro \<^verbatim>\<open>MCP_LOG\<close>.\<close>

definition mcp_log :: "string option \<Rightarrow> string \<Rightarrow> log_level \<Rightarrow> string \<Rightarrow> string \<Rightarrow> log_state \<Rightarrow> log_output list \<times> log_state" where
  "mcp_log env stamp l component line s =
     (case log_enabled env l s of (on, s) \<Rightarrow> (if on then [log_emit stamp l component line s] else [], s))"

text \<open>
  The threshold: the first message fixes it from the environment, unless it was set before; later changes
  of the environment have no effect, and a message appears exactly if it is at or above it.
\<close>

lemma log_number_nonneg: "0 \<le> log_number l"
  by (cases l) simp_all

lemma log_threshold:
  assumes "mcp_log env stamp l component line s = (out, s')"
  shows "out \<noteq> [] \<longleftrightarrow> log_number l \<ge> (if ls_level s < 0 then log_number (level_from_env env) else ls_level s)"
    and "fst (mcp_log env' stamp l' component line s') \<noteq> [] \<longleftrightarrow> log_number l' \<ge> ls_level s'"
    and "ls_level s' = (if ls_level s < 0 then log_number (level_from_env env) else ls_level s)"
  using assms log_number_nonneg [of "level_from_env env"]
  by (auto simp: mcp_log_def log_enabled_def current_level_def Let_def split: if_splits)

lemma log_level_set: "fst (mcp_log env stamp l component line (set_log_level t s)) \<noteq> [] \<longleftrightarrow> log_number l \<ge> log_number t"
  using log_number_nonneg [of t] by (auto simp: mcp_log_def log_enabled_def current_level_def set_log_level_def)

end
