(* ===== verification/Mcp_Process.thy ===== *)
theory Mcp_Process
  imports Mcp_Win32
begin

text \<open>
  Launching a child with its standard streams on pipes (\<^verbatim>\<open>spawn\<close> of \<^verbatim>\<open>src/platform/posix/process.cpp\<close> and of
  \<^verbatim>\<open>src/platform/win32/process.cpp\<close>), with the descriptors that parent and child hold afterwards.  The tables of
  descriptors belong to the operating system: the calls on them are parameters whose documented laws are the locales
  \<open>descriptor_table\<close>, \<open>posix_table\<close> and \<open>windows_table\<close>, interpreted on a table that is a list.
\<close>

subsection \<open>Descriptor tables\<close>

text \<open>What a descriptor stands for: an end of a pipe, known by the pipe's number, or something else.\<close>

datatype descriptor = Read_End nat | Write_End nat | Other_File nat

text \<open>
  Each open descriptor has a flag: whether a program started with this table gets it (on POSIX the negation of
  \<^verbatim>\<open>FD_CLOEXEC\<close>, on Windows \<^verbatim>\<open>HANDLE_FLAG_INHERIT\<close>).  \<open>pipe n\<close> makes the pipe number \<open>n\<close>, and both its ends have the
  flag: \<^verbatim>\<open>pipe\<close> leaves \<^verbatim>\<open>FD_CLOEXEC\<close> clear, and \<^verbatim>\<open>CreatePipe\<close> is called with \<^verbatim>\<open>bInheritHandle\<close>.  \<open>started\<close> is the table of a
  new program.
\<close>

locale descriptor_table =
  fixes lookup :: "'t \<Rightarrow> int \<Rightarrow> (descriptor \<times> bool) option"
    and pipe :: "nat \<Rightarrow> 't \<Rightarrow> ((int \<times> int) \<times> 't) option"
    and close :: "int \<Rightarrow> 't \<Rightarrow> 't"
    and started :: "'t \<Rightarrow> 't"
  assumes pipe_made: "pipe n t = Some ((r, w), t') \<Longrightarrow>
      r \<noteq> w \<and> lookup t r = None \<and> lookup t w = None \<and>
      lookup t' = (lookup t)(r \<mapsto> (Read_End n, True), w \<mapsto> (Write_End n, True))"
    and lookup_close: "lookup (close d t) = (lookup t)(d := None)"
    and lookup_started: "lookup (started t) d = (case lookup t d of Some (f, True) \<Rightarrow> Some (f, True) | _ \<Rightarrow> None)"

locale posix_table = descriptor_table lookup pipe close started
  for lookup :: "'t \<Rightarrow> int \<Rightarrow> (descriptor \<times> bool) option"
    and pipe close started +
  fixes dup2 :: "int \<Rightarrow> int \<Rightarrow> 't \<Rightarrow> 't"
  assumes dup2_open: "lookup t a = Some (f, b) \<Longrightarrow> 0 \<le> d \<Longrightarrow> a \<noteq> d \<Longrightarrow> lookup (dup2 a d t) = (lookup t)(d \<mapsto> (f, True))"
    and dup2_same: "dup2 a a t = t"

locale windows_table = descriptor_table lookup pipe close started
  for lookup :: "'t \<Rightarrow> int \<Rightarrow> (descriptor \<times> bool) option"
    and pipe close started +
  fixes set_inherit :: "int \<Rightarrow> bool \<Rightarrow> 't \<Rightarrow> 't"
  assumes lookup_set_inherit: "lookup (set_inherit d b t) = (lookup t)(d := map_option (\<lambda>(f, _). (f, b)) (lookup t d))"

subsection \<open>Pipes\<close>

text \<open>The attempts joined by \<^verbatim>\<open>||\<close>: the first that fails is the last one made.\<close>

fun open_pipes :: "('t \<Rightarrow> ((int \<times> int) \<times> 't) option) list \<Rightarrow> 't \<Rightarrow> (int \<times> int) option list \<times> 't" where
  "open_pipes [] t = ([], t)"
| "open_pipes (attempt # rest) t =
     (case attempt t of
        None \<Rightarrow> ([None], t)
      | Some (p, t') \<Rightarrow> let (ps, t'') = open_pipes rest t' in (Some p # ps, t''))"

lemma open_pipes_three:
  "open_pipes [a, b, c] t = ([Some p, Some q, Some s], t3) \<longleftrightarrow>
     (\<exists>t1 t2. a t = Some (p, t1) \<and> b t1 = Some (q, t2) \<and> c t2 = Some (s, t3))"
  by (auto split: option.splits prod.splits)

subsection \<open>POSIX\<close>

text \<open>What becomes of the child: it ends with a status of its own, or runs the program.\<close>

datatype child_end = Exits nat | Executes "string list" "string list"

type_synonym pipes = "(int \<times> int) \<times> (int \<times> int) \<times> (int \<times> int)"

definition pipe_fds :: "pipes \<Rightarrow> int list" where
  "pipe_fds ps = (case ps of ((in_read, in_write), (out_read, out_write), (err_read, err_write)) \<Rightarrow>
     [in_read, in_write, out_read, out_write, err_read, err_write])"

definition child_setup :: "(int \<Rightarrow> int \<Rightarrow> 't \<Rightarrow> 't) \<Rightarrow> (int \<Rightarrow> 't \<Rightarrow> 't) \<Rightarrow> pipes \<Rightarrow> 't \<Rightarrow> 't" where
  "child_setup dup2 close ps t =
     (case ps of ((in_read, in_write), (out_read, out_write), (err_read, err_write)) \<Rightarrow>
      let t = dup2 in_read 0 t;
        t = dup2 out_write 1 t;
        t = dup2 err_write 2 t
      in fold close (pipe_fds ps) t)"

text \<open>
  The branch of the child.  \<open>chdir\<close> tells whether the directory could be entered, \<open>execvp\<close> whether the program could be
  started; it is looked up and run with the new environment.
\<close>

definition run_child :: "('t \<Rightarrow> 't) \<Rightarrow> (string \<Rightarrow> bool) \<Rightarrow> (string list \<Rightarrow> string list \<Rightarrow> bool) \<Rightarrow>
    process_spec \<Rightarrow> string list \<Rightarrow> 't \<Rightarrow> child_end \<times> 't" where
  "run_child started chdir execvp spec environ t =
     (let argv = spawn_argv spec; envp = spawn_environment (ps_env spec) environ in
      if (case ps_cwd spec of None \<Rightarrow> False | Some d \<Rightarrow> \<not> chdir d) then (Exits 126, t)
      else if execvp argv envp then (Executes argv envp, started t)
      else (Exits 127, t))"

text \<open>
  The whole of \<^verbatim>\<open>spawn\<close>: its result, the table of the parent, and, when there is a child, its end and its table.  The
  pipes get the numbers \<open>n\<close>, \<open>n + 1\<close> and \<open>n + 2\<close>; \<^verbatim>\<open>fork\<close> gives the child a copy of the table.
\<close>

record 't spawn_calls =
  sc_pipe :: "nat \<Rightarrow> 't \<Rightarrow> ((int \<times> int) \<times> 't) option"
  sc_close :: "int \<Rightarrow> 't \<Rightarrow> 't"
  sc_dup2 :: "int \<Rightarrow> int \<Rightarrow> 't \<Rightarrow> 't"
  sc_started :: "'t \<Rightarrow> 't"
  sc_fork :: "string + int"
  sc_chdir :: "string \<Rightarrow> bool"
  sc_execvp :: "string list \<Rightarrow> string list \<Rightarrow> bool"

definition spawn_posix :: "'t spawn_calls \<Rightarrow> process_spec \<Rightarrow> string list \<Rightarrow> nat \<Rightarrow> 't \<Rightarrow>
    (string + process) \<times> 't \<times> (child_end \<times> 't) option" where
  "spawn_posix os spec environ n t =
     (let (made, t) = open_pipes (map (sc_pipe os) [n, n + 1, n + 2]) t;
        (result, closed) = spawn made (sc_fork os)
      in (result, fold (sc_close os) closed t,
          case (made, sc_fork os) of
            ([Some p, Some q, Some s], Inr pid) \<Rightarrow>
              Some (run_child (sc_started os) (sc_chdir os) (sc_execvp os) spec environ
                (child_setup (sc_dup2 os) (sc_close os) (p, q, s) t))
          | _ \<Rightarrow> None))"

subsection \<open>Windows\<close>

text \<open>\<open>create_pipe\<close> makes both ends inheritable.\<close>

definition make_inheritable_pipe :: "(nat \<Rightarrow> 't \<Rightarrow> ((int \<times> int) \<times> 't) option) \<Rightarrow> (int \<Rightarrow> bool \<Rightarrow> 't \<Rightarrow> 't) \<Rightarrow>
    bool \<Rightarrow> nat \<Rightarrow> 't \<Rightarrow> ((int \<times> int) \<times> 't) option" where
  "make_inheritable_pipe create_pipe set_inherit child_reads n t =
     (case create_pipe n t of
        None \<Rightarrow> None
      | Some ((read_end, write_end), t) \<Rightarrow>
          Some ((read_end, write_end), set_inherit (if child_reads then write_end else read_end) False t))"

text \<open>
  The result, the table of the parent, and for a child its standard handles and its table (an inherited handle keeps its
  value).  \<open>created\<close> is the outcome of \<^verbatim>\<open>CreateProcess\<close> as for \<open>spawn_w32\<close>.
\<close>

definition spawn_windows :: "(nat \<Rightarrow> 't \<Rightarrow> ((int \<times> int) \<times> 't) option) \<Rightarrow> (int \<Rightarrow> 't \<Rightarrow> 't) \<Rightarrow>
    (int \<Rightarrow> bool \<Rightarrow> 't \<Rightarrow> 't) \<Rightarrow> ('t \<Rightarrow> 't) \<Rightarrow> (int \<Rightarrow> int) \<Rightarrow> nat + int \<times> int \<times> int \<Rightarrow> nat \<Rightarrow> 't \<Rightarrow>
    (string + process) \<times> 't \<times> ((int \<times> int \<times> int) \<times> 't) option" where
  "spawn_windows create_pipe close set_inherit started open_osfhandle created n t =
     (let attempt = make_inheritable_pipe create_pipe set_inherit;
        (made, t) = open_pipes [attempt True n, attempt False (n + 1), attempt False (n + 2)] t;
        (result, closed) = spawn_w32 open_osfhandle made created
      in (result, fold close closed t,
          case (made, created) of
            ([Some p, Some q, Some s], Inr _) \<Rightarrow> Some ((fst p, snd q, snd s), started t)
          | _ \<Rightarrow> None))"

subsection \<open>Signals\<close>

text \<open>
  Signals by number; a handler is not set anywhere in the sources.
\<close>

datatype disposition = Default | Ignored

definition SIGPIPE :: nat where
  "SIGPIPE = 13"

definition ignore_broken_pipe_signals :: "(nat \<Rightarrow> disposition) \<Rightarrow> nat \<Rightarrow> disposition" where
  "ignore_broken_pipe_signals signals = signals(SIGPIPE := Ignored)"

definition ignore_broken_pipe_signals_w32 :: "(nat \<Rightarrow> disposition) \<Rightarrow> nat \<Rightarrow> disposition" where
  "ignore_broken_pipe_signals_w32 signals = signals"

text \<open>
  A \<^verbatim>\<open>write\<close> to a pipe or socket nobody reads: it fails with \<^verbatim>\<open>EPIPE\<close>, or the process is killed (\<open>None\<close>).  Then
  \<open>write_all\<close> reports the failure.
\<close>

definition broken_write :: "(nat \<Rightarrow> disposition) \<Rightarrow> (errno + nat) option" where
  "broken_write signals = (if signals SIGPIPE = Ignored then Some (Inl (Errno ''EPIPE'')) else None)"

lemma broken_write_reported:
  "\<exists>outcome. broken_write (ignore_broken_pipe_signals signals) = Some outcome \<and>
     (data \<noteq> [] \<longrightarrow> write_all data 0 [outcome] = (Call_Returns False, []))"
  by (simp add: broken_write_def ignore_broken_pipe_signals_def write_all.simps)

text \<open>
  A program that is started keeps ignoring what was ignored: \<^verbatim>\<open>StdioClientTransport::connect\<close> ignores \<^verbatim>\<open>SIGPIPE\<close> before it
  spawns, and nothing resets it in the child.
\<close>

lemma child_ignores_broken_pipes:
  assumes "\<And>s. signals s = Ignored \<Longrightarrow> started_with signals s = Ignored" and "signals = ignore_broken_pipe_signals parent_signals"
  shows "started_with signals SIGPIPE = Ignored"
  using assms by (simp add: ignore_broken_pipe_signals_def)

subsection \<open>What the two processes hold\<close>

lemma three_fresh:
  assumes "a \<noteq> b \<and> m a = None \<and> m b = None \<and> m1 = m(a \<mapsto> u1, b \<mapsto> v1)"
    and "c \<noteq> d \<and> m1 c = None \<and> m1 d = None \<and> m2 = m1(c \<mapsto> u2, d \<mapsto> v2)"
    and "e \<noteq> f \<and> m2 e = None \<and> m2 f = None \<and> m3 = m2(e \<mapsto> u3, f \<mapsto> v3)"
  shows "distinct [a, b, c, d, e, f]" "\<forall>x \<in> set [a, b, c, d, e, f]. m x = None"
    "m3 = m(a \<mapsto> u1, b \<mapsto> v1, c \<mapsto> u2, d \<mapsto> v2, e \<mapsto> u3, f \<mapsto> v3)"
  using assms by (auto split: if_splits)

context descriptor_table
begin

lemma lookup_close_all: "lookup (fold close ds t) d = (if d \<in> set ds then None else lookup t d)"
  by (induction ds arbitrary: t) (simp_all add: lookup_close)

text \<open>The ends of three pipes are six descriptors that were unused.\<close>

lemma three_pipes:
  assumes "open_pipes (map pipe [n, n + 1, n + 2]) t = ([Some (a, b), Some (c, d), Some (e, f)], t')"
  shows "distinct [a, b, c, d, e, f]" "\<forall>x \<in> set [a, b, c, d, e, f]. lookup t x = None"
    "lookup t' = (lookup t)(a \<mapsto> (Read_End n, True), b \<mapsto> (Write_End n, True), c \<mapsto> (Read_End (n + 1), True),
       d \<mapsto> (Write_End (n + 1), True), e \<mapsto> (Read_End (n + 2), True), f \<mapsto> (Write_End (n + 2), True))"
proof -
  obtain t1 t2 where "pipe n t = Some ((a, b), t1)" "pipe (n + 1) t1 = Some ((c, d), t2)" "pipe (n + 2) t2 = Some ((e, f), t')"
    using assms unfolding list.map open_pipes_three by blast
  note three_fresh [OF pipe_made [OF this(1)] pipe_made [OF this(2)] pipe_made [OF this(3)]]
  then show "distinct [a, b, c, d, e, f]" "\<forall>x \<in> set [a, b, c, d, e, f]. lookup t x = None"
    "lookup t' = (lookup t)(a \<mapsto> (Read_End n, True), b \<mapsto> (Write_End n, True), c \<mapsto> (Read_End (n + 1), True),
       d \<mapsto> (Write_End (n + 1), True), e \<mapsto> (Read_End (n + 2), True), f \<mapsto> (Write_End (n + 2), True))"
    by blast+
qed

end

context posix_table
begin

lemma lookup_child_setup:
  assumes "distinct [a, b, c, d, e, f]" and "\<forall>x \<in> set [a, b, c, d, e, f]. x \<notin> {0, 1, 2}"
    and "lookup t a = Some (i, True)" and "lookup t d = Some (j, True)" and "lookup t f = Some (k, True)"
  shows "lookup (child_setup dup2 close ((a, b), (c, d), (e, f)) t) x =
    (if x = 0 then Some (i, True) else if x = 1 then Some (j, True) else if x = 2 then Some (k, True)
     else if x \<in> set [a, b, c, d, e, f] then None else lookup t x)"
proof -
  let ?u = "dup2 a 0 t" let ?v = "dup2 d 1 ?u" let ?w = "dup2 f 2 ?v"
  have "lookup ?u = (lookup t)(0 \<mapsto> (i, True))" using assms by (intro dup2_open) auto
  moreover from this have "lookup ?v = (lookup ?u)(1 \<mapsto> (j, True))" using assms by (intro dup2_open) auto
  moreover from calculation have "lookup ?w = (lookup ?v)(2 \<mapsto> (k, True))" using assms by (intro dup2_open) auto
  ultimately have "lookup ?w = (lookup t)(0 \<mapsto> (i, True), 1 \<mapsto> (j, True), 2 \<mapsto> (k, True))" by simp
  then show ?thesis
    using assms(2) by (auto simp: child_setup_def pipe_fds_def lookup_close)
qed

text \<open>A descriptor of the pipes is closed at the end of the setup, whatever it was.\<close>

lemma child_setup_closes: "x \<in> set (pipe_fds ps) \<Longrightarrow> lookup (child_setup dup2 close ps t) x = None"
  by (auto simp: child_setup_def lookup_close_all Let_def split: prod.splits)

lemma spawned:
  assumes "spawn_posix \<lparr>sc_pipe = pipe, sc_close = close, sc_dup2 = dup2, sc_started = started, sc_fork = fork,
      sc_chdir = chdir, sc_execvp = execvp\<rparr> spec environ n t = (Inr p, parent, Some (Executes argv env, child))"
    and "\<forall>x \<in> {0, 1, 2}. lookup t x \<noteq> None"
  obtains r w1 w2 where
    "distinct [r, pr_stdin_fd p, pr_stdout_fd p, w1, pr_stderr_fd p, w2]"
    "\<forall>x \<in> set [r, pr_stdin_fd p, pr_stdout_fd p, w1, pr_stderr_fd p, w2]. lookup t x = None"
    "lookup parent = (lookup t)(pr_stdin_fd p \<mapsto> (Write_End n, True), pr_stdout_fd p \<mapsto> (Read_End (n + 1), True),
       pr_stderr_fd p \<mapsto> (Read_End (n + 2), True))"
    "\<And>x. lookup child x = (if x = 0 then Some (Read_End n, True) else if x = 1 then Some (Write_End (n + 1), True)
       else if x = 2 then Some (Write_End (n + 2), True)
       else case lookup t x of Some (g, True) \<Rightarrow> Some (g, True) | _ \<Rightarrow> None)"
    "argv = spawn_argv spec" "env = spawn_environment (ps_env spec) environ"
proof -
  obtain made t' where opened: "open_pipes (map pipe [n, n + 1, n + 2]) t = (made, t')" by fastforce
  from assms(1) opened obtain a b c d e f pid where made: "made = [Some (a, b), Some (c, d), Some (e, f)]"
    and fork: "fork = Inr pid"
    by (auto simp: spawn_posix_def Let_def split: list.splits option.splits sum.splits prod.splits)
  note pipes = three_pipes [OF opened [unfolded made]]
  have p: "pr_stdin_fd p = b" "pr_stdout_fd p = c" "pr_stderr_fd p = e"
    and parent: "parent = fold close [a, d, f] t'"
    and child: "(Executes argv env, child) =
      run_child started chdir execvp spec environ (child_setup dup2 close ((a, b), (c, d), (e, f)) t')"
    using assms(1) opened made fork by (auto simp: spawn_posix_def spawn_def)
  show thesis
  proof (rule that [of a d f, unfolded p])
    show "distinct [a, b, c, d, e, f]" "\<forall>x \<in> set [a, b, c, d, e, f]. lookup t x = None" by (fact pipes)+
    show "lookup parent = (lookup t)(b \<mapsto> (Write_End n, True), c \<mapsto> (Read_End (n + 1), True), e \<mapsto> (Read_End (n + 2), True))"
      using pipes by (auto simp: parent lookup_close)
    have std: "\<forall>x \<in> set [a, b, c, d, e, f]. x \<notin> {0, 1, 2}" using pipes(2) assms(2) by fastforce
    have "lookup t' a = Some (Read_End n, True)" "lookup t' d = Some (Write_End (n + 1), True)"
      "lookup t' f = Some (Write_End (n + 2), True)" using pipes(1,3) by auto
    note wired = lookup_child_setup [OF pipes(1) std this]
    have "child = started (child_setup dup2 close ((a, b), (c, d), (e, f)) t')"
      using child by (auto simp: run_child_def Let_def split: if_splits)
    then show "lookup child x = (if x = 0 then Some (Read_End n, True) else if x = 1 then Some (Write_End (n + 1), True)
       else if x = 2 then Some (Write_End (n + 2), True)
       else case lookup t x of Some (g, True) \<Rightarrow> Some (g, True) | _ \<Rightarrow> None)" for x
      using pipes(2) by (auto simp: lookup_started wired pipes(3))
    show "argv = spawn_argv spec" "env = spawn_environment (ps_env spec) environ"
      using child by (auto simp: run_child_def Let_def split: if_splits)
  qed
qed

end

context windows_table
begin

lemma inheritable_pipe:
  assumes "make_inheritable_pipe pipe set_inherit child_reads n t = Some ((r, w), t')"
  shows "r \<noteq> w \<and> lookup t r = None \<and> lookup t w = None \<and>
    lookup t' = (lookup t)(r \<mapsto> (Read_End n, child_reads), w \<mapsto> (Write_End n, \<not> child_reads))"
proof -
  obtain t1 where "pipe n t = Some ((r, w), t1)" "t' = set_inherit (if child_reads then w else r) False t1"
    using assms by (auto simp: make_inheritable_pipe_def split: option.splits)
  with pipe_made [OF this(1)] show ?thesis by (auto simp: lookup_set_inherit)
qed

text \<open>
  The child gets exactly its three ends besides what was inheritable before, as its standard handles; the parent keeps
  the other three, which no child can inherit.
\<close>

lemma spawned_windows:
  assumes "spawn_windows pipe close set_inherit started open_osfhandle (Inr (pid, process_handle, thread_handle)) n t =
      (Inr p, parent, Some ((h0, h1, h2), child))"
    and "lookup t thread_handle = None"
  obtains w r1 r2 where "p = \<lparr>pr_pid = pid, pr_native_handle = process_handle, pr_stdin_fd = open_osfhandle w,
      pr_stdout_fd = open_osfhandle r1, pr_stderr_fd = open_osfhandle r2\<rparr>"
    "distinct [h0, h1, h2, w, r1, r2]" "\<forall>x \<in> set [h0, h1, h2, w, r1, r2]. lookup t x = None"
    "thread_handle \<notin> {w, r1, r2} \<Longrightarrow> lookup parent =
      (lookup t)(w \<mapsto> (Write_End n, False), r1 \<mapsto> (Read_End (n + 1), False), r2 \<mapsto> (Read_End (n + 2), False))"
    "\<And>x. lookup child x = (if x = h0 then Some (Read_End n, True) else if x = h1 then Some (Write_End (n + 1), True)
       else if x = h2 then Some (Write_End (n + 2), True)
       else case lookup t x of Some (g, True) \<Rightarrow> Some (g, True) | _ \<Rightarrow> None)"
proof -
  let ?make = "make_inheritable_pipe pipe set_inherit"
  obtain made t' where opened: "open_pipes [?make True n, ?make False (n + 1), ?make False (n + 2)] t = (made, t')" by fastforce
  from assms(1) opened obtain a b c d e f where made: "made = [Some (a, b), Some (c, d), Some (e, f)]"
    by (auto simp: spawn_windows_def Let_def split: list.splits option.splits sum.splits prod.splits)
  then obtain t1 t2 where "?make True n t = Some ((a, b), t1)" "?make False (n + 1) t1 = Some ((c, d), t2)"
      "?make False (n + 2) t2 = Some ((e, f), t')"
    using opened unfolding made open_pipes_three by blast
  note pipes = three_fresh [OF inheritable_pipe [OF this(1)] inheritable_pipe [OF this(2)] inheritable_pipe [OF this(3)]]
  have result: "h0 = a" "h1 = d" "h2 = f" "child = started t'" "parent = fold close [a, d, f, thread_handle] t'"
    "p = \<lparr>pr_pid = pid, pr_native_handle = process_handle, pr_stdin_fd = open_osfhandle b,
      pr_stdout_fd = open_osfhandle c, pr_stderr_fd = open_osfhandle e\<rparr>"
    using assms(1) opened made by (auto simp: spawn_windows_def spawn_w32_def)
  show thesis
  proof (rule that [of b c e, unfolded result])
    show "distinct [a, d, f, b, c, e]" "\<forall>x \<in> set [a, d, f, b, c, e]. lookup t x = None" using pipes(1,2) by auto
    show "lookup (fold close [a, d, f, thread_handle] t') =
      (lookup t)(b \<mapsto> (Write_End n, False), c \<mapsto> (Read_End (n + 1), False), e \<mapsto> (Read_End (n + 2), False))"
      if "thread_handle \<notin> {b, c, e}"
      using pipes(1,2) that assms(2) by (auto simp: lookup_close pipes(3))
    show "lookup (started t') x = (if x = a then Some (Read_End n, True) else if x = d then Some (Write_End (n + 1), True)
       else if x = f then Some (Write_End (n + 2), True)
       else case lookup t x of Some (g, True) \<Rightarrow> Some (g, True) | _ \<Rightarrow> None)" for x
      using pipes(1,2) by (auto simp: lookup_started pipes(3))
  qed (rule refl)
qed

end

subsection \<open>Status on Windows\<close>

text \<open>A status is the exit code itself.\<close>

definition exited_normally_w32 :: "int \<Rightarrow> bool" where
  "exited_normally_w32 status = True"

definition exit_code_w32 :: "int \<Rightarrow> int" where
  "exit_code_w32 status = status"

text \<open>
  The two platforms agree on a program that ended by itself with code \<open>n\<close>, whose POSIX status is \<open>256 * n\<close>.
\<close>

lemma exit_codes_agree:
  "0 \<le> n \<Longrightarrow> n < 256 \<Longrightarrow> exited_normally (256 * n) = exited_normally_w32 n \<and> exit_code (256 * n) = exit_code_w32 n"
  by (simp add: exited_normally_def exit_code_def exited_normally_w32_def exit_code_w32_def)

subsection \<open>A table that is a list\<close>

text \<open>
  A descriptor is an index of the list.  A new one is the lowest that is unused.
\<close>

type_synonym fd_list = "(descriptor \<times> bool) option list"

definition fd_lookup :: "fd_list \<Rightarrow> int \<Rightarrow> (descriptor \<times> bool) option" where
  "fd_lookup t d = (if 0 \<le> d \<and> nat d < length t then t ! nat d else None)"

definition fd_store :: "int \<Rightarrow> (descriptor \<times> bool) option \<Rightarrow> fd_list \<Rightarrow> fd_list" where
  "fd_store d e t = (if d < 0 then t else (t @ replicate (nat d + 1 - length t) None)[nat d := e])"

definition fd_free :: "fd_list \<Rightarrow> int" where
  "fd_free t = int (length (takeWhile (\<lambda>e. e \<noteq> None) t))"

definition fd_pipe :: "nat \<Rightarrow> fd_list \<Rightarrow> ((int \<times> int) \<times> fd_list) option" where
  "fd_pipe n t =
     (let r = fd_free t; t = fd_store r (Some (Read_End n, True)) t; w = fd_free t
      in Some ((r, w), fd_store w (Some (Write_End n, True)) t))"

definition fd_close :: "int \<Rightarrow> fd_list \<Rightarrow> fd_list" where
  "fd_close d t = fd_store d None t"

definition fd_started :: "fd_list \<Rightarrow> fd_list" where
  "fd_started t = map (\<lambda>e. case e of Some (f, True) \<Rightarrow> e | _ \<Rightarrow> None) t"

definition fd_dup2 :: "int \<Rightarrow> int \<Rightarrow> fd_list \<Rightarrow> fd_list" where
  "fd_dup2 a d t =
     (case fd_lookup t a of None \<Rightarrow> t | Some (f, _) \<Rightarrow> if a = d then t else fd_store d (Some (f, True)) t)"

definition fd_set_inherit :: "int \<Rightarrow> bool \<Rightarrow> fd_list \<Rightarrow> fd_list" where
  "fd_set_inherit d b t = (case fd_lookup t d of None \<Rightarrow> t | Some (f, _) \<Rightarrow> fd_store d (Some (f, b)) t)"

lemma fd_lookup_store: "0 \<le> d \<Longrightarrow> fd_lookup (fd_store d e t) = (fd_lookup t)(d := e)"
  by (auto simp: fd_lookup_def fd_store_def fun_eq_iff nth_list_update nth_append eq_nat_nat_iff)

lemma fd_store_negative: "d < 0 \<Longrightarrow> fd_lookup (fd_store d None t) = (fd_lookup t)(d := None)"
  by (auto simp: fd_store_def fd_lookup_def fun_eq_iff)

lemma fd_free_unused [simp]: "0 \<le> fd_free t" "fd_lookup t (fd_free t) = None"
  using nth_length_takeWhile [of "\<lambda>e. e \<noteq> None" t] by (simp_all add: fd_free_def fd_lookup_def del: not_None_eq)

lemma fd_lookup_nonneg: "fd_lookup t d = Some e \<Longrightarrow> 0 \<le> d"
  by (simp add: fd_lookup_def split: if_splits)

interpretation fds: descriptor_table fd_lookup fd_pipe fd_close fd_started
proof
  fix n t r w t' d
  show "r \<noteq> w \<and> fd_lookup t r = None \<and> fd_lookup t w = None \<and>
      fd_lookup t' = (fd_lookup t)(r \<mapsto> (Read_End n, True), w \<mapsto> (Write_End n, True))"
    if "fd_pipe n t = Some ((r, w), t')"
  proof -
    let ?u = "fd_store (fd_free t) (Some (Read_End n, True)) t"
    have t': "r = fd_free t" "w = fd_free ?u" "t' = fd_store w (Some (Write_End n, True)) ?u"
      using that by (auto simp: fd_pipe_def Let_def)
    moreover have "fd_lookup ?u w = None" by (simp add: t'(2))
    ultimately show ?thesis by (auto simp: fd_lookup_store split: if_splits)
  qed
  show "fd_lookup (fd_close d t) = (fd_lookup t)(d := None)"
    using fd_lookup_store [of d None t] fd_store_negative [of d t] by (cases "d < 0") (auto simp: fd_close_def)
  show "fd_lookup (fd_started t) d = (case fd_lookup t d of Some (f, True) \<Rightarrow> Some (f, True) | _ \<Rightarrow> None)"
    by (auto simp: fd_lookup_def fd_started_def split: option.split bool.split)
qed

interpretation posix_fds: posix_table fd_lookup fd_pipe fd_close fd_started fd_dup2
  by unfold_locales (auto simp: fd_dup2_def fd_lookup_store split: option.split)

interpretation windows_handles: windows_table fd_lookup fd_pipe fd_close fd_started fd_set_inherit
  by unfold_locales (auto simp: fd_set_inherit_def fd_lookup_store fun_eq_iff dest: fd_lookup_nonneg split: option.splits)

subsection \<open>Failures\<close>

text \<open>The child ends with 126 in a directory it cannot enter and with 127 when there is no such program.\<close>

lemma child_failures:
  "ps_cwd spec = Some d \<Longrightarrow> \<not> chdir d \<Longrightarrow> fst (run_child started chdir execvp spec environ t) = Exits 126"
  "(case ps_cwd spec of None \<Rightarrow> True | Some d \<Rightarrow> chdir d) \<Longrightarrow>
     \<not> execvp (spawn_argv spec) (spawn_environment (ps_env spec) environ) \<Longrightarrow>
     fst (run_child started chdir execvp spec environ t) = Exits 127"
  by (auto simp: run_child_def Let_def split: option.splits)

context descriptor_table
begin

text \<open>A failed \<^verbatim>\<open>fork\<close> leaves the parent's table as it was.\<close>

lemma failed_fork:
  assumes "open_pipes (map pipe [n, n + 1, n + 2]) t = ([Some (a, b), Some (c, d), Some (e, f)], t')"
  shows "lookup (fold close (snd (spawn [Some (a, b), Some (c, d), Some (e, f)] (Inl error))) t') = lookup t"
  using three_pipes [OF assms] by (auto simp: spawn_def lookup_close)

end

subsection \<open>Properties\<close>

text \<open>
  C19. A child on POSIX runs the command in the environment asked for with its standard streams on the right ends of the
  three pipes; otherwise it has what the parent would hand to any program, and nothing of the pipes; the parent keeps
  its three ends and what it had.  So once the parent closes the descriptor for the child's input neither holds a
  writing end of it, and the child reads the end of its input.  (The parent has its own standard streams open.)
\<close>

theorem child_stdio_wired:
  assumes "posix_table lookup pipe close started dup2"
    and "\<forall>x \<in> {0, 1, 2}. lookup t x \<noteq> None" and "\<forall>x b. lookup t x \<noteq> Some (Write_End n, b)"
    and "spawn_posix \<lparr>sc_pipe = pipe, sc_close = close, sc_dup2 = dup2, sc_started = started, sc_fork = fork,
      sc_chdir = chdir, sc_execvp = execvp\<rparr> spec environ n t = (Inr p, parent, Some (Executes argv env, child))"
  shows "argv = ps_command spec # ps_args spec \<and> env = spawn_environment (ps_env spec) environ \<and>
    map (lookup child) [0, 1, 2] = [Some (Read_End n, True), Some (Write_End (n + 1), True), Some (Write_End (n + 2), True)] \<and>
    (\<forall>x. x \<notin> {0, 1, 2} \<longrightarrow> lookup child x = (case lookup t x of Some (g, True) \<Rightarrow> Some (g, True) | _ \<Rightarrow> None)) \<and>
    map (lookup parent) [pr_stdin_fd p, pr_stdout_fd p, pr_stderr_fd p] =
      [Some (Write_End n, True), Some (Read_End (n + 1), True), Some (Read_End (n + 2), True)] \<and>
    (\<forall>x. x \<notin> {pr_stdin_fd p, pr_stdout_fd p, pr_stderr_fd p} \<longrightarrow> lookup parent x = lookup t x) \<and>
    (\<forall>x b. lookup child x \<noteq> Some (Write_End n, b) \<and> lookup (close (pr_stdin_fd p) parent) x \<noteq> Some (Write_End n, b))"
proof (rule posix_table.spawned [OF assms(1,4,2)])
  fix r w1 w2
  assume six: "distinct [r, pr_stdin_fd p, pr_stdout_fd p, w1, pr_stderr_fd p, w2]"
    and parent: "lookup parent = (lookup t)(pr_stdin_fd p \<mapsto> (Write_End n, True), pr_stdout_fd p \<mapsto> (Read_End (n + 1), True),
       pr_stderr_fd p \<mapsto> (Read_End (n + 2), True))"
    and child: "\<And>x. lookup child x = (if x = 0 then Some (Read_End n, True) else if x = 1 then Some (Write_End (n + 1), True)
       else if x = 2 then Some (Write_End (n + 2), True)
       else case lookup t x of Some (g, True) \<Rightarrow> Some (g, True) | _ \<Rightarrow> None)"
    and run: "argv = spawn_argv spec" "env = spawn_environment (ps_env spec) environ"
  have "lookup (close d u) = (lookup u)(d := None)" for d u
    using descriptor_table.lookup_close [OF posix_table.axioms(1) [OF assms(1)]] .
  with six parent assms(3)
  have "\<forall>x b. lookup (close (pr_stdin_fd p) parent) x \<noteq> Some (Write_End n, b)" by simp
  moreover have "\<forall>x b. lookup child x \<noteq> Some (Write_End n, b)"
    using assms(3) by (auto simp: child split: option.splits bool.splits)
  ultimately show ?thesis using six by (simp add: run spawn_argv_def parent child)
qed

definition sample_calls :: "fd_list spawn_calls" where
  "sample_calls = \<lparr>sc_pipe = fd_pipe, sc_close = fd_close, sc_dup2 = fd_dup2, sc_started = fd_started, sc_fork = Inr 42,
     sc_chdir = (\<lambda>d. d = ''/''), sc_execvp = (\<lambda>argv env. True)\<rparr>"

definition sample_spec :: process_spec where
  "sample_spec = \<lparr>ps_command = ''s'', ps_args = [''-v''], ps_env = [(''A'', ''1'')], ps_cwd = Some ''/''\<rparr>"

text \<open>The terminal on the three standard descriptors and a log file that programs inherit.\<close>

definition sample_table :: fd_list where
  "sample_table = [Some (Other_File 0, True), Some (Other_File 0, True), Some (Other_File 0, True), Some (Other_File 1, True)]"

definition sample_parent :: "process \<times> fd_list" where
  "sample_parent =
     (new_process\<lparr>pr_pid := 42, pr_stdin_fd := 5, pr_stdout_fd := 6, pr_stderr_fd := 8\<rparr>,
      sample_table @ [None, Some (Write_End 0, True), Some (Read_End 1, True), None, Some (Read_End 2, True), None])"

lemma sample_spawned:
  "spawn_posix sample_calls sample_spec [''A=0'', ''B=2''] 0 sample_table =
     (Inr (fst sample_parent), snd sample_parent,
      Some (Executes [''s'', ''-v''] [''B=2'', ''A=1''],
        [Some (Read_End 0, True), Some (Write_End 1, True), Some (Write_End 2, True), Some (Other_File 1, True),
         None, None, None, None, None, None]))"
  by code_simp

lemma child_stdio_wired_witness:
  "\<forall>x b. fd_lookup (fd_close 5 (snd sample_parent)) x \<noteq> Some (Write_End 0, b)"
proof -
  have "\<forall>x \<in> {0, 1, 2}. fd_lookup sample_table x \<noteq> None" by code_simp
  moreover have "\<forall>x b. fd_lookup sample_table x \<noteq> Some (Write_End 0, b)"
    by (auto simp: fd_lookup_def sample_table_def nth_Cons' split: if_splits)
  ultimately show ?thesis
    using child_stdio_wired [OF posix_fds.posix_table_axioms _ _ sample_spawned [unfolded sample_calls_def]]
    by (simp add: sample_parent_def)
qed

text \<open>
  The parent's ends are handed to any other program it starts meanwhile: a second child gets the writing end for the
  first one's input, which then stays open when the parent closes its own.
\<close>

lemma sibling_holds_stdin:
  "let (result, parent, second) = spawn_posix sample_calls sample_spec [] 3 (snd sample_parent)
   in map_option (\<lambda>(_, t). fd_lookup t (pr_stdin_fd (fst sample_parent))) second = Some (Some (Write_End 0, True))"
  by code_simp

text \<open>In a process without standard input the first pipe gets descriptor 0, and the child's input ends up closed.\<close>

lemma low_descriptors_lost:
  "let (result, parent, child) = spawn_posix sample_calls sample_spec [] 0 (None # tl sample_table)
   in map_option (\<lambda>(_, t). fd_lookup t 0) child = Some None"
  by code_simp

end
