(* ===== verification/Mcp_Pagination.thy ===== *)
theory Mcp_Pagination
  imports Mcp_Message
begin

text \<open>
  Cursor pagination over a snapshot (\<^verbatim>\<open>include/mcp/detail/pagination.hpp\<close>), used by every list
  operation of the server.  \<^verbatim>\<open>std::size_t\<close> is 64 bits wide: sums and products wrap.  Assigning a
  reversed iterator range is undefined behaviour and is modelled as such.
\<close>

record 'a page =
  page_items :: "'a list"
  next_cursor :: "string option"

definition size_t :: "nat \<Rightarrow> nat" where
  "size_t n = n mod 2 ^ 64"

text \<open>The loop over the cursor's digits, leaving early when the index passes the end.\<close>

fun cursor_digits :: "nat \<Rightarrow> nat \<Rightarrow> string \<Rightarrow> nat option" where
  "cursor_digits n start [] = Some start"
| "cursor_digits n start (c # s) =
     (let start' = size_t (start * 10 + digit_value c)
      in if start' > n then None else cursor_digits n start' s)"

definition cursor_start :: "nat \<Rightarrow> string option \<Rightarrow> nat result" where
  "cursor_start n cursor =
     (case cursor of
        None \<Rightarrow> Inr 0
      | Some s \<Rightarrow>
          if s = [] then Inl (mk_error PaginationError ''invalid cursor'')
          else if \<not> list_all is_digit s then Inl (mk_error PaginationError ''invalid cursor'')
          else case cursor_digits n 0 s of
                 None \<Rightarrow> Inl (mk_error PaginationError ''cursor out of range'')
               | Some start \<Rightarrow> Inr start)"

definition paginate :: "'a list \<Rightarrow> string option \<Rightarrow> nat \<Rightarrow> 'a page result throws" where
  "paginate items cursor page_size =
     (case cursor_start (length items) cursor of
        Inl e \<Rightarrow> Inr (Inl e)
      | Inr start \<Rightarrow>
          let last = min (size_t (start + page_size)) (length items) in
          if last < start then Inl (Undefined ''assign of a reversed range'')
          else returns
            \<lparr>page_items = take (last - start) (drop start items),
             next_cursor = (if last < length items then Some (nat_to_string last) else None)\<rparr>)"

subsection \<open>Cursors\<close>

lemma size_t_id [simp]: "n < 2 ^ 64 \<Longrightarrow> size_t n = n"
  by (simp add: size_t_def)

lemma cursor_digits_bound: "cursor_digits n start s = Some k \<Longrightarrow> start \<le> n \<Longrightarrow> k \<le> n"
  by (induction n start s rule: cursor_digits.induct) (auto simp: Let_def split: if_splits)

lemma foldl_digits_ge: "start \<le> foldl (\<lambda>n c. n * 10 + digit_value c) start s"
proof (induction s arbitrary: start)
  case Nil
  then show ?case by simp
next
  case (Cons c s)
  have "start \<le> start * 10 + digit_value c" by simp
  also have "\<dots> \<le> foldl (\<lambda>n c. n * 10 + digit_value c) (start * 10 + digit_value c) s"
    by (rule Cons.IH)
  finally show ?case by simp
qed

text \<open>Without wrap-around the loop computes the value of the digits, cut off above the length.\<close>

lemma cursor_digits_eq:
  assumes "n < 2 ^ 60" and "start \<le> n" and "list_all is_digit s"
  shows "cursor_digits n start s =
    (let v = foldl (\<lambda>n c. n * 10 + digit_value c) start s in if v \<le> n then Some v else None)"
  using assms(2,3)
proof (induction s arbitrary: start)
  case Nil
  then show ?case by simp
next
  case (Cons c s)
  let ?start' = "start * 10 + digit_value c"
  have "digit_value c < 10" using Cons.prems(2) by (simp add: digit_value_less)
  with Cons.prems(1) assms(1) have eq: "size_t ?start' = ?start'" by (simp add: size_t_def)
  show ?case
  proof (cases "?start' \<le> n")
    case True
    with Cons.IH [of ?start'] Cons.prems(2) eq show ?thesis by (simp add: Let_def)
  next
    case False
    with eq foldl_digits_ge [of ?start' s] show ?thesis by (simp add: Let_def)
  qed
qed

lemma cursor_start_eq:
  assumes "n < 2 ^ 60" and "s \<noteq> []" and "list_all is_digit s"
  shows "cursor_start n (Some s) =
    (if digits_value s \<le> n then Inr (digits_value s)
     else Inl (mk_error PaginationError ''cursor out of range''))"
  using assms cursor_digits_eq [of n 0 s]
  by (simp add: cursor_start_def digits_value_def Let_def)

lemma cursor_start_to_string:
  "n < 2 ^ 60 \<Longrightarrow> k \<le> n \<Longrightarrow> cursor_start n (Some (nat_to_string k)) = Inr k"
  using cursor_start_eq [of n "nat_to_string k"] nat_to_string_digits [of k]
  by (simp add: list_all_iff digits_value_to_string)

lemma cursor_start_bound: "cursor_start n cursor = Inr k \<Longrightarrow> k \<le> n"
  by (auto simp: cursor_start_def dest: cursor_digits_bound split: option.splits if_splits)

lemma cursor_start_error_code: "cursor_start n cursor = Inl e \<Longrightarrow> err_code e = -32006"
  by (auto simp: cursor_start_def split: option.splits if_splits)

subsection \<open>Pages\<close>

lemma paginate_from:
  assumes "cursor_start (length items) cursor = Inr start"
    and "0 < page_size" and "length items + page_size < 2 ^ 64"
  shows "paginate items cursor page_size = returns
    \<lparr>page_items = take page_size (drop start items),
     next_cursor = (if start + page_size < length items
                    then Some (nat_to_string (start + page_size)) else None)\<rparr>"
proof -
  have le: "start \<le> length items" using assms(1) by (rule cursor_start_bound)
  with assms(3) have eq: "size_t (start + page_size) = start + page_size" by simp
  show ?thesis
  proof (cases "start + page_size < length items")
    case True
    with assms(1) eq show ?thesis by (simp add: paginate_def Let_def)
  next
    case False
    then have "take (length items - start) (drop start items) = take page_size (drop start items)"
      by simp
    with False le assms(1) eq show ?thesis by (simp add: paginate_def Let_def)
  qed
qed

text \<open>
  A client that follows \<^verbatim>\<open>nextCursor\<close> from the first page on; \<open>None\<close> when the fuel runs out or a page
  is refused.
\<close>

fun collect_pages :: "nat \<Rightarrow> 'a list \<Rightarrow> string option \<Rightarrow> nat \<Rightarrow> 'a list option" where
  "collect_pages 0 items cursor ps = None"
| "collect_pages (Suc fuel) items cursor ps =
     (case paginate items cursor ps of
        Inr (Inr p) \<Rightarrow>
          (case next_cursor p of
             None \<Rightarrow> Some (page_items p)
           | Some c \<Rightarrow> map_option (\<lambda>rest. page_items p @ rest) (collect_pages fuel items (Some c) ps))
      | _ \<Rightarrow> None)"

lemma collect_pages_from:
  assumes "cursor_start (length items) cursor = Inr start" and "length items - start < fuel"
    and "0 < ps" and "length items < 2 ^ 60" and "ps < 2 ^ 60"
  shows "collect_pages fuel items cursor ps = Some (drop start items)"
  using assms(1,2)
proof (induction fuel arbitrary: cursor start)
  case 0
  then show ?case by simp
next
  case (Suc fuel)
  have sum: "length items + ps < 2 ^ 64" using assms(4,5) by simp
  note page = paginate_from [OF Suc.prems(1) assms(3) sum]
  show ?case
  proof (cases "start + ps < length items")
    case True
    then have "cursor_start (length items) (Some (nat_to_string (start + ps))) = Inr (start + ps)"
      using assms(4) by (simp add: cursor_start_to_string)
    moreover have "length items - (start + ps) < fuel" using Suc.prems(2) True assms(3) by linarith
    ultimately have "collect_pages fuel items (Some (nat_to_string (start + ps))) ps =
        Some (drop (start + ps) items)"
      by (rule Suc.IH)
    moreover have "take ps (drop start items) @ drop (start + ps) items = drop start items"
      by (metis add.commute append_take_drop_id drop_drop)
    ultimately show ?thesis using page True by simp
  next
    case False
    with page show ?thesis by simp
  qed
qed

subsection \<open>Properties\<close>

text \<open>
  Following the cursors from the first page returns every item once, in order, and ends: a page
  for each \<open>page_size\<close> items, whatever the page size is.
\<close>

theorem pages_cover_items:
  assumes "0 < page_size" and "length items < 2 ^ 60" and "page_size < 2 ^ 60"
  shows "collect_pages (Suc (length items)) items None page_size = Some items"
  using collect_pages_from [of items None 0 "Suc (length items)" page_size] assms
  by (simp add: cursor_start_def)

lemma pages_cover_items_witness:
  "collect_pages (Suc (length [''a'', ''b'', ''c''])) [''a'', ''b'', ''c''] None 2 = Some [''a'', ''b'', ''c'']"
  by (rule pages_cover_items) simp_all

text \<open>
  A page never leaves the list: for every cursor a client may send, \<^verbatim>\<open>paginate\<close> answers with a
  contiguous part of the items and a cursor only if items are left, or with the pagination error
  \<open>-32006\<close>.  The iterator range is never reversed while the end of the page fits in 64 bits.
\<close>

theorem paginate_total:
  assumes "0 < page_size" and "length items + page_size < 2 ^ 64"
  shows "(\<exists>start \<le> length items. paginate items cursor page_size = returns
      \<lparr>page_items = take page_size (drop start items),
       next_cursor = (if start + page_size < length items
                      then Some (nat_to_string (start + page_size)) else None)\<rparr>) \<or>
    (\<exists>e. paginate items cursor page_size = Inr (Inl e) \<and> err_code e = -32006)"
proof (cases "cursor_start (length items) cursor")
  case (Inl e)
  then show ?thesis
    using cursor_start_error_code [OF Inl] by (simp add: paginate_def)
next
  case (Inr start)
  with paginate_from [OF Inr assms] cursor_start_bound [OF Inr] show ?thesis by blast
qed

lemma paginate_total_witness:
  "(\<exists>start \<le> length [''a'', ''b'', ''c'']. paginate [''a'', ''b'', ''c''] (Some ''x'') 2 = returns
      \<lparr>page_items = take 2 (drop start [''a'', ''b'', ''c'']),
       next_cursor = (if start + 2 < length [''a'', ''b'', ''c'']
                      then Some (nat_to_string (start + 2)) else None)\<rparr>) \<or>
    (\<exists>e. paginate [''a'', ''b'', ''c''] (Some ''x'') 2 = Inr (Inl e) \<and> err_code e = -32006)"
  by (rule paginate_total) simp_all

end
