(* ===== verification/Mcp_Registry.thy ===== *)
theory Mcp_Registry
  imports Mcp_Pagination
begin

text \<open>
  What the tool registry, the resource provider, the prompt provider and the roots provider have in
  common: a vector of entries in insertion order, looked up by a name with \<^verbatim>\<open>std::find_if\<close>, with
  duplicates refused, and listed in pages.  \<open>named_registry\<close> is the contract of such a component;
  each provider interprets it.
\<close>

definition find_entry :: "('e \<Rightarrow> string) \<Rightarrow> string \<Rightarrow> 'e list \<Rightarrow> 'e option" where
  "find_entry key k es = List.find (\<lambda>e. key e = k) es"

fun erase_first :: "('e \<Rightarrow> string) \<Rightarrow> string \<Rightarrow> 'e list \<Rightarrow> 'e list" where
  "erase_first key k [] = []"
| "erase_first key k (e # es) = (if key e = k then es else e # erase_first key k es)"

definition page_size_of :: "nat \<Rightarrow> nat" where
  "page_size_of n = (if n = 0 then 1 else n)"

lemma map_fst_tagged [simp]: "map (fst \<circ> (\<lambda>(m, f). (m, g f))) xs = map fst xs"
  by (induction xs) auto

lemma page_size_of_pos [simp]: "0 < page_size_of n"
  by (simp add: page_size_of_def)

lemma find_entry_simps [simp]:
  "find_entry key k [] = None"
  "find_entry key k (e # es) = (if key e = k then Some e else find_entry key k es)"
  by (simp_all add: find_entry_def)

lemma find_entry_append:
  "find_entry key k (es @ fs) = (case find_entry key k es of Some e \<Rightarrow> Some e | None \<Rightarrow> find_entry key k fs)"
  by (induction es) auto

lemma find_entry_None: "find_entry key k es = None \<longleftrightarrow> k \<notin> key ` set es"
  by (induction es) auto

lemma find_entry_Some: "find_entry key k es = Some e \<Longrightarrow> e \<in> set es \<and> key e = k"
  by (induction es) (auto split: if_splits)

lemma find_entry_cases:
  "(find_entry key k es = None \<and> k \<notin> key ` set es) \<or>
   (\<exists>e \<in> set es. key e = k \<and> find_entry key k es = Some e)"
  by (induction es) auto

lemma find_entry_distinct:
  "distinct (map key es) \<Longrightarrow> e \<in> set es \<Longrightarrow> find_entry key (key e) es = Some e"
  by (induction es) (auto simp: image_iff)

lemma erase_first_keys: "map key (erase_first key k es) = remove1 k (map key es)"
  by (induction es) auto

lemma erase_first_absent [simp]: "k \<notin> key ` set es \<Longrightarrow> erase_first key k es = es"
  by (induction es) auto

lemma erase_first_filter:
  "distinct (map key es) \<Longrightarrow> erase_first key k es = filter (\<lambda>e. key e \<noteq> k) es"
  by (induction es) (auto simp: image_iff intro!: filter_True [symmetric])

lemma erase_first_snoc: "k \<notin> key ` set es \<Longrightarrow> key e = k \<Longrightarrow> erase_first key k (es @ [e]) = es"
  by (induction es) auto

text \<open>
  \<open>add\<close> and \<open>remove\<close> report success and leave the new registry; \<open>valid\<close> is what is checked of an
  entry besides its name being free.
\<close>

locale named_registry =
  fixes entries :: "'r \<Rightarrow> 'e list" and key :: "'e \<Rightarrow> string" and valid :: "'e \<Rightarrow> bool"
    and add :: "'e \<Rightarrow> 'r \<Rightarrow> bool \<times> 'r" and remove :: "string \<Rightarrow> 'r \<Rightarrow> bool \<times> 'r"
  assumes add_new: "valid e \<Longrightarrow> key e \<notin> key ` set (entries r) \<Longrightarrow>
      fst (add e r) \<and> entries (snd (add e r)) = entries r @ [e]"
    and add_refused: "\<not> valid e \<or> key e \<in> key ` set (entries r) \<Longrightarrow> add e r = (False, r)"
    and remove_found: "fst (remove k r) \<longleftrightarrow> k \<in> key ` set (entries r)"
    and remove_entries: "entries (snd (remove k r)) = erase_first key k (entries r)"
begin

definition wf :: "'r \<Rightarrow> bool" where
  "wf r \<longleftrightarrow> distinct (map key (entries r)) \<and> list_all valid (entries r)"

lemma add_cases:
  "(fst (add e r) \<and> valid e \<and> key e \<notin> key ` set (entries r) \<and> entries (snd (add e r)) = entries r @ [e]) \<or>
   (add e r = (False, r) \<and> (\<not> valid e \<or> key e \<in> key ` set (entries r)))"
  using add_new add_refused by blast

lemma wf_add: "wf r \<Longrightarrow> wf (snd (add e r))"
  using add_cases [of e r] by (auto simp: wf_def)

lemma wf_remove: "wf r \<Longrightarrow> wf (snd (remove k r))"
  by (auto simp: wf_def remove_entries erase_first_keys erase_first_filter distinct_map_filter list_all_iff)

lemma find_add:
  assumes "fst (add e r)"
  shows "find_entry key k (entries (snd (add e r))) = (if k = key e then Some e else find_entry key k (entries r))"
  using add_cases [of e r] assms find_entry_None [of key "key e" "entries r"]
  by (auto simp: find_entry_append split: option.split)

lemma find_remove:
  assumes "wf r"
  shows "find_entry key k' (entries (snd (remove k r))) = (if k' = k then None else find_entry key k' (entries r))"
proof -
  have "find_entry key k' (filter (\<lambda>e. key e \<noteq> k) es) = (if k' = k then None else find_entry key k' es)" for es
    by (induction es) auto
  with assms show ?thesis by (simp add: remove_entries erase_first_filter wf_def)
qed

lemma remove_add: "fst (add e r) \<Longrightarrow> entries (snd (remove (key e) (snd (add e r)))) = entries r"
  using add_cases [of e r] by (auto simp: remove_entries erase_first_snoc)

lemma add_again: "fst (add e r) \<Longrightarrow> key e' = key e \<Longrightarrow> add e' (snd (add e r)) = (False, snd (add e r))"
  using add_cases [of e r] by (intro add_refused) auto

end

end
