(* ===== verification/Mcp_Schema.thy ===== *)
theory Mcp_Schema
  imports Mcp_Message
begin

text \<open>
  Validation of a value against the supported subset of JSON Schema (\<^verbatim>\<open>src/core/schema.cpp\<close>), and the
  specification it implements: \<open>conforms\<close> says which values a schema admits, without paths, messages
  or an order of checks.
\<close>

subsection \<open>The validator\<close>

definition matches_type :: "json \<Rightarrow> string \<Rightarrow> bool" where
  "matches_type v t =
     (if t = ''object'' then is_object v
      else if t = ''array'' then is_array v
      else if t = ''string'' then is_string v
      else if t = ''number'' then is_number v
      else if t = ''integer'' then is_int v
      else if t = ''boolean'' then is_boolean v
      else if t = ''null'' then is_null v
      else True)"

definition invalid :: "string \<Rightarrow> string \<Rightarrow> 'a result throws" where
  "invalid path w = fails InvalidParams ((if path = [] then ''value'' else path) @ '' '' @ w)"

text \<open>A loop whose body returns early with an error.\<close>

fun each :: "('a \<Rightarrow> unit result throws) \<Rightarrow> 'a list \<Rightarrow> unit result throws" where
  "each f [] = returns ()"
| "each f (x # xs) = bind_result (f x) (\<lambda>_. each f xs)"

lemma each_cong [fundef_cong]:
  assumes "xs = ys" and "\<And>x. x \<in> set ys \<Longrightarrow> f x = g x"
  shows "each f xs = each g ys"
proof -
  have "(\<And>x. x \<in> set ys \<Longrightarrow> f x = g x) \<Longrightarrow> each f ys = each g ys"
    by (induction ys) (simp_all add: bind_result_def bindE_def split: sum.splits)
  with assms show ?thesis by simp
qed

lemma each_returns [err_simps]: "each f xs = returns () \<longleftrightarrow> (\<forall>x \<in> set xs. f x = returns ())"
  by (induction xs) (auto simp: err_simps)

definition type_ok :: "json \<Rightarrow> json \<Rightarrow> bool" where
  "type_ok v t =
     (case t of
        JStr s \<Rightarrow> matches_type v s
      | JArr ts \<Rightarrow> list_ex (\<lambda>u. is_string u \<and> matches_type v (the_string u)) ts
      | _ \<Rightarrow> True)"

definition check_type :: "(json \<Rightarrow> string throws) \<Rightarrow> json \<Rightarrow> json \<Rightarrow> string \<Rightarrow> unit result throws" where
  "check_type dump v schema path =
     (case json_find ''type'' schema of
        None \<Rightarrow> returns ()
      | Some t \<Rightarrow>
          if type_ok v t then returns ()
          else bindE (dump t) (\<lambda>s. invalid path (''has wrong type (expected '' @ s @ '')'')))"

definition check_enum :: "json \<Rightarrow> json \<Rightarrow> string \<Rightarrow> unit result throws" where
  "check_enum v schema path =
     (case json_find ''enum'' schema of
        Some (JArr cs) \<Rightarrow>
          if list_ex (\<lambda>c. json_eq c v) cs then returns ()
          else invalid path ''is not one of the allowed values''
      | _ \<Rightarrow> returns ())"

definition check_required :: "json \<Rightarrow> json \<Rightarrow> string \<Rightarrow> unit result throws" where
  "check_required v schema path =
     (case json_find ''required'' schema of
        Some (JArr names) \<Rightarrow>
          each (\<lambda>name. case name of
                  JStr s \<Rightarrow> if json_contains s v then returns ()
                            else invalid path (''is missing required property '' @ quoted s)
                | _ \<Rightarrow> returns ()) names
      | _ \<Rightarrow> returns ())"

definition schema_properties :: "json \<Rightarrow> members option" where
  "schema_properties schema =
     (case json_find ''properties'' schema of Some (JObj ps) \<Rightarrow> Some ps | _ \<Rightarrow> None)"

definition check_additional :: "members \<Rightarrow> json \<Rightarrow> string \<Rightarrow> unit result throws" where
  "check_additional m schema path =
     (if json_find ''additionalProperties'' schema = Some (JBool False)
      then each (\<lambda>(k, _).
             if (case schema_properties schema of None \<Rightarrow> True | Some ps \<Rightarrow> map_of ps k = None)
             then invalid path (''has unexpected property '' @ quoted k)
             else returns ()) m
      else returns ())"

lemma size_member [termination_simp]: "map_of m k = Some v \<Longrightarrow> size v < Suc (size_list (size_prod (\<lambda>_. 0) size) m)"
  by (induction m) (auto split: if_splits)

lemma size_element: "(i, e) \<in> set (enumerate n xs) \<Longrightarrow> size (e :: json) < Suc (size_list size xs)"
  by (auto simp: enumerate_eq_zip less_Suc_eq_le dest!: set_zip_rightD
      intro: size_list_estimation' [OF _ order_refl])

function validate_at :: "(json \<Rightarrow> string throws) \<Rightarrow> json \<Rightarrow> json \<Rightarrow> string \<Rightarrow> unit result throws" where
  "validate_at dump v schema path =
     (if \<not> is_object schema then returns ()
      else bind_result (check_type dump v schema path) (\<lambda>_.
        bind_result (check_enum v schema path) (\<lambda>_.
          case v of
            JObj m \<Rightarrow>
              bind_result (check_required v schema path) (\<lambda>_.
              bind_result
                (case schema_properties schema of
                   None \<Rightarrow> returns ()
                 | Some ps \<Rightarrow>
                     each (\<lambda>(k, sub). case map_of m k of
                             None \<Rightarrow> returns ()
                           | Some x \<Rightarrow> validate_at dump x sub (path @ ''/'' @ k)) ps)
                (\<lambda>_. check_additional m schema path))
          | JArr xs \<Rightarrow>
              (case json_find ''items'' schema of
                 Some (JObj items) \<Rightarrow>
                   each (\<lambda>(i, e). validate_at dump e (JObj items) (path @ ''/'' @ nat_to_string i))
                     (enumerate 0 xs)
               | _ \<Rightarrow> returns ())
          | _ \<Rightarrow> returns ())))"
  by pat_completeness auto
termination
  by (relation "measure (\<lambda>(_, v, _, _). size v)") (auto dest: size_member size_element)

declare validate_at.simps [simp del]

definition validate_schema :: "(json \<Rightarrow> string throws) \<Rightarrow> json \<Rightarrow> json \<Rightarrow> unit result throws" where
  "validate_schema dump v schema = validate_at dump v schema []"

subsection \<open>The specification\<close>

definition enum_ok :: "json \<Rightarrow> json \<Rightarrow> bool" where
  "enum_ok v schema =
     (case json_find ''enum'' schema of Some (JArr cs) \<Rightarrow> \<exists>c \<in> set cs. json_eq c v | _ \<Rightarrow> True)"

definition required_ok :: "json \<Rightarrow> json \<Rightarrow> bool" where
  "required_ok v schema =
     (case json_find ''required'' schema of
        Some (JArr names) \<Rightarrow> \<forall>s. JStr s \<in> set names \<longrightarrow> json_contains s v
      | _ \<Rightarrow> True)"

definition closed_ok :: "members \<Rightarrow> json \<Rightarrow> bool" where
  "closed_ok m schema =
     (json_find ''additionalProperties'' schema = Some (JBool False) \<longrightarrow>
       (\<forall>k \<in> set (map fst m). \<exists>ps. schema_properties schema = Some ps \<and> k \<in> set (map fst ps)))"

function conforms :: "json \<Rightarrow> json \<Rightarrow> bool" where
  "conforms v schema =
     (is_object schema \<longrightarrow>
        (\<forall>t. json_find ''type'' schema = Some t \<longrightarrow> type_ok v t) \<and>
        enum_ok v schema \<and>
        (case v of
           JObj m \<Rightarrow>
             required_ok v schema \<and> closed_ok m schema \<and>
             (case schema_properties schema of
                None \<Rightarrow> True
              | Some ps \<Rightarrow> list_all (\<lambda>(k, sub). case map_of m k of
                    None \<Rightarrow> True
                  | Some x \<Rightarrow> conforms x sub) ps)
         | JArr xs \<Rightarrow>
             (case json_find ''items'' schema of
                Some (JObj items) \<Rightarrow> list_all (\<lambda>e. conforms e (JObj items)) xs
              | _ \<Rightarrow> True)
         | _ \<Rightarrow> True))"
  by pat_completeness auto
termination
  by (relation "measure (\<lambda>(v, _). size v)")
    (auto dest: size_member simp: less_Suc_eq_le intro: size_list_estimation' [OF _ order_refl])

declare conforms.simps [simp del]

lemma check_type_returns:
  "check_type dump v schema path = returns () \<longleftrightarrow>
     (\<forall>t. json_find ''type'' schema = Some t \<longrightarrow> type_ok v t)"
  by (cases "json_find ''type'' schema") (simp_all add: check_type_def invalid_def err_simps)

lemma check_enum_returns: "check_enum v schema path = returns () \<longleftrightarrow> enum_ok v schema"
proof (cases "json_find ''enum'' schema")
  case (Some j)
  then show ?thesis
    by (cases j) (simp_all add: check_enum_def enum_ok_def invalid_def list_ex_iff)
qed (simp add: check_enum_def enum_ok_def)

lemma invalid_not_returns [simp]: "invalid path w \<noteq> returns x"
  by (simp add: invalid_def)

lemma guard_returns:
  "(if b then returns () else invalid path w) = returns () \<longleftrightarrow> b"
  "(if b then invalid path w else returns ()) = returns () \<longleftrightarrow> \<not> b"
  by (simp_all add: invalid_def)

lemma name_returns:
  "(case name of JStr s \<Rightarrow> if b s then returns () else invalid path (w s) | _ \<Rightarrow> returns ()) = returns ()
     \<longleftrightarrow> (\<forall>s. name = JStr s \<longrightarrow> b s)"
  by (cases name) (simp_all add: guard_returns)

lemma check_required_returns: "check_required v schema path = returns () \<longleftrightarrow> required_ok v schema"
proof (cases "json_find ''required'' schema")
  case (Some j)
  then show ?thesis
    by (cases j) (auto simp add: check_required_def required_ok_def each_returns name_returns)
qed (simp add: check_required_def required_ok_def)

lemma check_additional_returns:
  "check_additional m schema path = returns () \<longleftrightarrow> closed_ok m schema"
proof (cases "schema_properties schema")
  case None
  then show ?thesis
    by (auto simp add: check_additional_def closed_ok_def each_returns guard_returns split_beta)
      (metis list.set_intros(1) neq_Nil_conv surj_pair)
next
  case (Some ps)
  then show ?thesis
    by (auto simp add: check_additional_def closed_ok_def each_returns guard_returns
        split_beta map_of_eq_None_iff)
qed

lemmas check_returns =
  check_type_returns check_enum_returns check_required_returns check_additional_returns

lemma validate_at_conforms: "validate_at dump v schema path = returns () \<longleftrightarrow> conforms v schema"
proof (induction dump v schema path rule: validate_at.induct)
  case (1 dump v schema path)
  show ?case
  proof (cases "is_object schema")
    case False
    then show ?thesis by (simp add: validate_at.simps [of dump v] conforms.simps [of v])
  next
    case obj: True
    show ?thesis
    proof (cases v)
      case (JObj m)
      have ih: "validate_at dump x sub (path @ ''/'' @ k) = returns () \<longleftrightarrow> conforms x sub"
        if "schema_properties schema = Some ps" "(k, sub) \<in> set ps" "map_of m k = Some x"
          "check_type dump v schema path = returns ()" "check_enum v schema path = returns ()"
          "check_required v schema path = returns ()" for ps k sub x
        using "1.IH"(2) [of "()" "()" m "()" ps "(k, sub)" k sub x] that obj JObj by simp
      show ?thesis
      proof (cases "schema_properties schema")
        case None
        with obj show ?thesis
          by (auto simp add: JObj validate_at.simps [of dump "JObj m"] conforms.simps [of "JObj m"]
              err_simps check_returns)
      next
        case (Some ps)
        then have props: "each (\<lambda>(k, sub). case map_of m k of None \<Rightarrow> returns ()
              | Some x \<Rightarrow> validate_at dump x sub (path @ ''/'' @ k)) ps = returns () \<longleftrightarrow>
            list_all (\<lambda>(k, sub). case map_of m k of None \<Rightarrow> True | Some x \<Rightarrow> conforms x sub) ps"
          if "check_type dump v schema path = returns ()" "check_enum v schema path = returns ()"
            "check_required v schema path = returns ()"
          unfolding each_returns list_all_iff
          using ih [OF Some] that by (intro ball_cong refl) (force split: option.splits)
        with Some obj show ?thesis
          by (auto simp add: JObj validate_at.simps [of dump "JObj m"] conforms.simps [of "JObj m"]
              bind_result_eq check_returns)
      qed
    next
      case (JArr xs)
      have ih: "validate_at dump e (JObj items) (path @ ''/'' @ nat_to_string i) = returns () \<longleftrightarrow>
          conforms e (JObj items)"
        if "json_find ''items'' schema = Some (JObj items)" "(i, e) \<in> set (enumerate 0 xs)"
          "check_type dump v schema path = returns ()" "check_enum v schema path = returns ()"
        for items i e
        using "1.IH"(1) [of "()" "()" xs "JObj items" items "(i, e)" i e] that obj JArr by simp
      have snds: "(\<forall>p \<in> set (enumerate 0 xs). P (snd p)) \<longleftrightarrow> (\<forall>e \<in> set xs. P e)" for P
        by (metis (no_types, lifting) imageE image_eqI list.set_map map_snd_enumerate)
      show ?thesis
      proof (cases "\<exists>items. json_find ''items'' schema = Some (JObj items)")
        case False
        then show ?thesis
          using obj
          by (auto simp add: JArr validate_at.simps [of dump "JArr xs"] conforms.simps [of "JArr xs"]
              err_simps check_returns split: option.splits json.splits)
      next
        case True
        then obtain items where items: "json_find ''items'' schema = Some (JObj items)" by blast
        then have elems: "each (\<lambda>(i, e). validate_at dump e (JObj items) (path @ ''/'' @ nat_to_string i))
              (enumerate 0 xs) = returns () \<longleftrightarrow> list_all (\<lambda>e. conforms e (JObj items)) xs"
          if "check_type dump v schema path = returns ()" "check_enum v schema path = returns ()"
          unfolding each_returns list_all_iff snds [symmetric]
          using ih [OF items] that by (intro ball_cong refl) force
        with items obj show ?thesis
          by (auto simp add: JArr validate_at.simps [of dump "JArr xs"] conforms.simps [of "JArr xs"]
              bind_result_eq check_returns)
      qed
    qed (use obj in \<open>simp_all add: validate_at.simps [of dump _ schema] conforms.simps [of _ schema]
      bind_result_eq check_returns\<close>)
  qed
qed

text \<open>What a validation can return: success, an \<open>InvalidParams\<close> error, or what the printer threw.\<close>

definition validation_outcome :: "(json \<Rightarrow> string throws) \<Rightarrow> unit result throws \<Rightarrow> bool" where
  "validation_outcome dump r \<longleftrightarrow>
     r = returns () \<or> (\<exists>e. r = Inr (Inl e) \<and> err_code e = -32602) \<or> (\<exists>x j. r = Inl x \<and> dump j = Inl x)"

lemma outcome_returns [simp]: "validation_outcome dump (returns ())"
  by (simp add: validation_outcome_def)

lemma outcome_invalid [simp]: "validation_outcome dump (invalid path w)"
  by (simp add: validation_outcome_def invalid_def)

lemma outcome_bind:
  "validation_outcome dump m \<Longrightarrow> (m = returns () \<Longrightarrow> validation_outcome dump (f ())) \<Longrightarrow>
    validation_outcome dump (bind_result m f)"
  by (auto simp: validation_outcome_def)

lemma outcome_each:
  "(\<And>x. x \<in> set xs \<Longrightarrow> validation_outcome dump (f x)) \<Longrightarrow> validation_outcome dump (each f xs)"
  by (induction xs) (auto intro: outcome_bind)

lemma outcome_checks [simp]:
  "validation_outcome dump (check_type dump v schema path)"
  "validation_outcome dump (check_enum v schema path)"
  "validation_outcome dump (check_required v schema path)"
  "validation_outcome dump (check_additional m schema path)"
proof -
  show "validation_outcome dump (check_type dump v schema path)"
  proof (cases "json_find ''type'' schema")
    case (Some t)
    then show ?thesis
      by (cases "dump t") (auto simp: check_type_def validation_outcome_def invalid_def)
  qed (simp add: check_type_def)
qed (auto simp: check_enum_def check_required_def check_additional_def intro!: outcome_each
    split: option.split json.split)

lemma validate_at_outcome: "validation_outcome dump (validate_at dump v schema path)"
proof (induction dump v schema path rule: validate_at.induct)
  case (1 dump v schema path)
  have arr: "validation_outcome dump (validate_at dump e (JObj items) (path @ ''/'' @ nat_to_string i))"
    if "is_object schema" "check_type dump v schema path = returns ()" "check_enum v schema path = returns ()"
      "v = JArr xs" "json_find ''items'' schema = Some (JObj items)" "(i, e) \<in> set (enumerate 0 xs)"
    for xs items i e
    using "1.IH"(1) [of "()" "()" xs "JObj items" items "(i, e)" i e] that by simp
  have obj: "validation_outcome dump (validate_at dump x sub (path @ ''/'' @ k))"
    if "is_object schema" "check_type dump v schema path = returns ()" "check_enum v schema path = returns ()"
      "v = JObj m" "check_required v schema path = returns ()" "schema_properties schema = Some ps"
      "(k, sub) \<in> set ps" "map_of m k = Some x" for m ps k sub x
    using "1.IH"(2) [of "()" "()" m "()" ps "(k, sub)" k sub x] that by simp
  show ?case
    by (subst validate_at.simps)
      (auto intro!: outcome_bind outcome_each arr [simplified] obj [simplified]
        split: json.split option.split)
qed

lemma validate_at_rejects:
  assumes "\<not> conforms v schema"
  shows "(\<exists>e. validate_at dump v schema path = Inr (Inl e) \<and> err_code e = -32602) \<or>
    (\<exists>x. validate_at dump v schema path = Inl x \<and> (\<exists>j. dump j = Inl x))"
  using validate_at_outcome [of dump v schema path] assms
  by (auto simp: validation_outcome_def validate_at_conforms)

subsection \<open>Properties\<close>



end
