(* ===== verification/Mcp_Content.thy ===== *)
theory Mcp_Content
  imports Mcp_Types
begin

text \<open>
  Content blocks of prompts, tool results and sampling messages (\<^verbatim>\<open>include/mcp/content.hpp\<close> and
  \<^verbatim>\<open>src/core/content.cpp\<close>).  The variant is recursive: a tool result carries content blocks.
\<close>

record annotations =
  an_audience :: "string list option"
  an_priority :: "rat option"
  an_last_modified :: "string option"

record icon =
  ic_src :: string
  ic_mime_type :: "string option"
  ic_sizes :: "string option"

record resource_contents =
  rs_uri :: string
  rs_mime_type :: "string option"
  rs_text :: "string option"
  rs_blob :: "string option"

datatype content =
    Text_Content string "annotations option"
  | Image_Content string string "annotations option"
  | Audio_Content string string "annotations option"
  | Embedded_Resource resource_contents "annotations option"
  | Tool_Use string string json
  | Tool_Result string "content list" bool

datatype role = User | Assistant

fun role_to_string :: "role \<Rightarrow> string" where
  "role_to_string Assistant = ''assistant''"
| "role_to_string User = ''user''"

definition role_from_string :: "string \<Rightarrow> role option" where
  "role_from_string name =
     (if name = ''user'' then Some User else if name = ''assistant'' then Some Assistant else None)"

lemma role_roundtrip [simp]: "role_from_string (role_to_string r) = Some r"
  by (cases r) (simp_all add: role_from_string_def)

definition text_content :: "string \<Rightarrow> content" where
  "text_content text = Text_Content text None"

subsection \<open>Annotations, icons, resource contents\<close>

definition annotations_to_json :: "annotations \<Rightarrow> json" where
  "annotations_to_json a =
     JObj (set_optional JStr ''lastModified'' (an_last_modified a)
          (set_optional JFloat ''priority'' (an_priority a)
          (set_optional (put_vector JStr) ''audience'' (an_audience a) [])))"

definition annotations_from_json :: "json \<Rightarrow> annotations throws" where
  "annotations_from_json j =
     bindE (get_optional (get_vector get_string) ''audience'' j) (\<lambda>audience.
     bindE (get_optional get_double ''priority'' j) (\<lambda>priority.
     bindE (get_optional get_string ''lastModified'' j) (\<lambda>modified.
     Inr \<lparr>an_audience = audience, an_priority = priority, an_last_modified = modified\<rparr>)))"

definition icon_to_json :: "icon \<Rightarrow> json" where
  "icon_to_json i =
     JObj (set_optional JStr ''sizes'' (ic_sizes i)
          (set_optional JStr ''mimeType'' (ic_mime_type i)
          (mk_members [(''src'', JStr (ic_src i))])))"

definition icon_from_json :: "json \<Rightarrow> icon throws" where
  "icon_from_json j =
     bindE (bindE (json_at ''src'' j) get_string) (\<lambda>src.
     bindE (get_optional get_string ''mimeType'' j) (\<lambda>mime.
     bindE (get_optional get_string ''sizes'' j) (\<lambda>sizes.
     Inr \<lparr>ic_src = src, ic_mime_type = mime, ic_sizes = sizes\<rparr>)))"

definition resource_contents_to_json :: "resource_contents \<Rightarrow> json" where
  "resource_contents_to_json rc =
     JObj (set_optional JStr ''blob'' (rs_blob rc)
          (set_optional JStr ''text'' (rs_text rc)
          (set_optional JStr ''mimeType'' (rs_mime_type rc)
          (mk_members [(''uri'', JStr (rs_uri rc))]))))"

definition resource_contents_from_json :: "json \<Rightarrow> resource_contents throws" where
  "resource_contents_from_json j =
     bindE (bindE (json_at ''uri'' j) get_string) (\<lambda>uri.
     bindE (get_optional get_string ''mimeType'' j) (\<lambda>mime.
     bindE (get_optional get_string ''text'' j) (\<lambda>text.
     bindE (get_optional get_string ''blob'' j) (\<lambda>blob.
     Inr \<lparr>rs_uri = uri, rs_mime_type = mime, rs_text = text, rs_blob = blob\<rparr>))))"

interpretation string_list_codec:
  json_codec "put_vector JStr" "get_vector get_string" "list_all any_value"
  by (rule string_codec.codec_vector)

lemmas string_field_roundtrips =
  string_codec.field_roundtrip double_codec.field_roundtrip bool_codec.field_roundtrip
  string_list_codec.field_roundtrip

interpretation annotations_codec: json_codec annotations_to_json annotations_from_json any_value
  by unfold_locales
    (simp_all add: annotations_to_json_def annotations_from_json_def string_field_roundtrips)

interpretation icon_codec: json_codec icon_to_json icon_from_json any_value
  by unfold_locales (simp_all add: icon_to_json_def icon_from_json_def string_field_roundtrips)

interpretation resource_contents_codec:
  json_codec resource_contents_to_json resource_contents_from_json any_value
  by unfold_locales
    (simp_all add: resource_contents_to_json_def resource_contents_from_json_def
       string_field_roundtrips)

interpretation icon_list_codec:
  json_codec "put_vector icon_to_json" "get_vector icon_from_json" "list_all any_value"
  by (rule icon_codec.codec_vector)

lemmas content_field_roundtrips =
  string_field_roundtrips annotations_codec.field_roundtrip icon_list_codec.field_roundtrip

subsection \<open>Content blocks\<close>

definition set_annotations :: "annotations option \<Rightarrow> members \<Rightarrow> members" where
  "set_annotations a m = set_optional annotations_to_json ''annotations'' a m"

definition get_annotations :: "json \<Rightarrow> annotations option throws" where
  "get_annotations j = get_optional annotations_from_json ''annotations'' j"

fun content_to_json :: "content \<Rightarrow> json" where
  "content_to_json (Text_Content text a) =
     JObj (set_annotations a (mk_members [(''type'', JStr ''text''), (''text'', JStr text)]))"
| "content_to_json (Image_Content data mime a) =
     JObj (set_annotations a (mk_members
       [(''type'', JStr ''image''), (''data'', JStr data), (''mimeType'', JStr mime)]))"
| "content_to_json (Audio_Content data mime a) =
     JObj (set_annotations a (mk_members
       [(''type'', JStr ''audio''), (''data'', JStr data), (''mimeType'', JStr mime)]))"
| "content_to_json (Embedded_Resource rc a) =
     JObj (set_annotations a (mk_members
       [(''type'', JStr ''resource''), (''resource'', resource_contents_to_json rc)]))"
| "content_to_json (Tool_Use i name input) =
     json_obj [(''type'', JStr ''tool_use''), (''id'', JStr i), (''name'', JStr name),
               (''input'', input)]"
| "content_to_json (Tool_Result i cs e) =
     json_obj [(''type'', JStr ''tool_result''), (''toolUseId'', JStr i),
               (''content'', JArr (map content_to_json cs)), (''isError'', JBool e)]"

definition content_list_to_json :: "content list \<Rightarrow> json" where
  "content_list_to_json cs = JArr (map content_to_json cs)"

lemma size_json_value:
  assumes "json_value get_json k (JArr []) j = Inr (JArr xs)" and "x \<in> set xs"
  shows "size x < size j"
proof -
  from assms obtain m where j: "j = JObj m" and f: "map_of m k = Some (JArr xs)"
    by (cases j) (auto simp: json_value_def split: option.splits)
  from f have "size (JArr xs) < size j"
    unfolding j by (induction m) (auto split: if_splits)
  moreover have "size x \<le> size_list size xs"
    using assms(2) by (rule size_list_estimation') simp
  ultimately show ?thesis by simp
qed

function content_from_json :: "json \<Rightarrow> content result throws" where
  "content_from_json j =
     (case json_find ''type'' j of
        Some (JStr type) \<Rightarrow>
          catch_json (\<lambda>w. Inl (mk_error InvalidParams (''malformed content: '' @ w)))
            (if type = ''text'' then
               bindE (bindE (json_at ''text'' j) get_string) (\<lambda>text.
               bindE (get_annotations j) (\<lambda>a. returns (Text_Content text a)))
             else if type = ''image'' then
               bindE (bindE (json_at ''data'' j) get_string) (\<lambda>data.
               bindE (bindE (json_at ''mimeType'' j) get_string) (\<lambda>mime.
               bindE (get_annotations j) (\<lambda>a. returns (Image_Content data mime a))))
             else if type = ''audio'' then
               bindE (bindE (json_at ''data'' j) get_string) (\<lambda>data.
               bindE (bindE (json_at ''mimeType'' j) get_string) (\<lambda>mime.
               bindE (get_annotations j) (\<lambda>a. returns (Audio_Content data mime a))))
             else if type = ''resource'' then
               bindE (bindE (json_at ''resource'' j) resource_contents_from_json) (\<lambda>rc.
               bindE (get_annotations j) (\<lambda>a. returns (Embedded_Resource rc a)))
             else if type = ''tool_use'' then
               bindE (bindE (json_at ''id'' j) get_string) (\<lambda>i.
               bindE (bindE (json_at ''name'' j) get_string) (\<lambda>name.
               bindE (json_value get_json ''input'' (JObj []) j) (\<lambda>input.
               returns (Tool_Use i name input))))
             else if type = ''tool_result'' then
               bindE (json_value get_json ''content'' (JArr []) j) (\<lambda>v.
               bind_result
                 (case v of
                    JArr xs \<Rightarrow> traverse_result content_from_json xs
                  | _ \<Rightarrow> fails InvalidParams ''content must be an array'')
                 (\<lambda>cs.
               bindE (bindE (json_at ''toolUseId'' j) get_string) (\<lambda>i.
               bindE (json_value get_bool ''isError'' False j) (\<lambda>e.
               returns (Tool_Result i cs e)))))
             else fails InvalidParams (''unknown content type: '' @ type))
      | _ \<Rightarrow> fails InvalidParams ''content is missing a type'')"
  by pat_completeness auto
termination
  by (relation "measure size") (auto dest: size_json_value)

declare content_from_json.simps [simp del]

definition content_list_from_json :: "json \<Rightarrow> content list result throws" where
  "content_list_from_json j =
     (case j of
        JArr xs \<Rightarrow> traverse_result content_from_json xs
      | _ \<Rightarrow> fails InvalidParams ''content must be an array'')"

subsection \<open>Round trip and totality\<close>

lemma content_roundtrip: "content_from_json (content_to_json c) = returns c"
proof (induction c)
  case (Tool_Result i cs e)
  then have "traverse_result content_from_json (map content_to_json cs) = returns cs"
    by (simp add: traverse_result_map)
  then show ?case
    by (subst content_from_json.simps) (simp add: json_obj_def json_value_def)
qed (subst content_from_json.simps, simp add: json_obj_def json_value_def set_annotations_def
  get_annotations_def content_field_roundtrips resource_contents_codec.dec_enc)+

lemma content_list_roundtrip: "content_list_from_json (content_list_to_json cs) = returns cs"
  by (simp add: content_list_from_json_def content_list_to_json_def traverse_result_map
      content_roundtrip)

lemma content_to_json_object [simp]: "is_object (content_to_json c)"
  by (cases c) simp_all

text \<open>Decoding content never throws: what the JSON library throws becomes an error value.\<close>

lemma json_only_vector [intro]: "(\<And>v. json_only (get v)) \<Longrightarrow> json_only (get_vector get j)"
proof -
  assume g: "\<And>v. json_only (get v)"
  have "json_only (traverse get xs)" for xs
    by (induction xs) (auto intro: g)
  then show ?thesis
    by (cases j) (auto simp: get_vector_def wrong_type_def type_error_def json_only_def)
qed

lemma json_only_content_parts [simp]:
  "json_only (annotations_from_json j)" "json_only (icon_from_json j)"
  "json_only (resource_contents_from_json j)" "json_only (get_annotations j)"
  unfolding annotations_from_json_def icon_from_json_def resource_contents_from_json_def
    get_annotations_def
  by (intro json_only_bind json_only_opt_field json_only_vector json_only_basic)+

lemma json_only_bind_result: "json_only m \<Longrightarrow> (\<And>x. json_only (f x)) \<Longrightarrow> json_only (bind_result m f)"
  by (auto simp: bind_result_def intro!: json_only_bind split: sum.splits)

lemma json_only_if: "(b \<Longrightarrow> json_only x) \<Longrightarrow> (\<not> b \<Longrightarrow> json_only y) \<Longrightarrow> json_only (if b then x else y)"
  by simp

lemma json_only_catch: "json_only m \<Longrightarrow> \<exists>x. catch_json h m = Inr x"
  by (cases m) (auto simp: json_only_def)

lemma content_from_json_total: "\<exists>r. content_from_json j = Inr r"
proof (induction j rule: content_from_json.induct)
  case (1 j)
  show ?case
  proof (cases "\<exists>t. json_find ''type'' j = Some (JStr t)")
    case False
    then show ?thesis
      by (auto simp: content_from_json.simps [of j] split: option.splits json.splits)
  next
    case True
    then obtain t where t: "json_find ''type'' j = Some (JStr t)" by blast
    have nested: "json_only (case v of JArr xs \<Rightarrow> traverse_result content_from_json xs
        | _ \<Rightarrow> fails InvalidParams ''content must be an array'')"
      if v: "json_value get_json ''content'' (JArr []) j = Inr v" and tr: "t = ''tool_result''" for v
    proof (cases v)
      case (JArr xs)
      have "\<exists>r. content_from_json x = Inr r" if "x \<in> set xs" for x
        using "1.IH" [OF t refl] tr v JArr that by simp
      then have "json_only (traverse_result content_from_json xs)"
      proof (induction xs)
        case (Cons x xs)
        obtain r where r: "content_from_json x = Inr r" using Cons.prems by force
        have "json_only (traverse_result content_from_json xs)" using Cons by simp
        with r show ?case
          by (simp only: traverse_result.simps) (intro json_only_bind_result json_only_basic; simp)
      qed simp
      with JArr show ?thesis by simp
    qed auto
    have res: "json_only (bindE (json_value get_json ''content'' (JArr []) j) (\<lambda>v.
        bind_result (case v of JArr xs \<Rightarrow> traverse_result content_from_json xs
          | _ \<Rightarrow> fails InvalidParams ''content must be an array'') (\<lambda>cs.
        bindE (bindE (json_at ''toolUseId'' j) get_string) (\<lambda>i.
        bindE (json_value get_bool ''isError'' False j) (\<lambda>e. returns (Tool_Result i cs e))))))"
      if "t = ''tool_result''"
    proof (cases "json_value get_json ''content'' (JArr []) j")
      case (Inr v)
      with nested that show ?thesis
        by (auto intro!: json_only_bind_result json_only_bind json_only_value)
    next
      case (Inl e)
      have "json_only (json_value get_json ''content'' (JArr []) j)" by (auto intro: json_only_value)
      with Inl show ?thesis by (simp add: json_only_def)
    qed
    show ?thesis
      unfolding content_from_json.simps [of j] t option.case json.case
      by (intro json_only_catch json_only_if;
          (rule res, assumption
           | intro json_only_bind json_only_value json_only_basic json_only_content_parts))
  qed
qed

lemma content_list_from_json_total: "\<exists>r. content_list_from_json j = Inr r"
proof (cases j)
  case (JArr xs)
  have "\<exists>r. traverse_result content_from_json xs = Inr r"
  proof (induction xs)
    case (Cons x xs)
    obtain r where r: "content_from_json x = Inr r" using content_from_json_total by blast
    from Cons.IH obtain q where "traverse_result content_from_json xs = Inr q" by blast
    with r show ?case by (cases r; cases q) simp_all
  qed simp
  with JArr show ?thesis by (simp add: content_list_from_json_def)
qed (simp_all add: content_list_from_json_def)

subsection \<open>Properties\<close>

text \<open>
  Content blocks survive the wire whatever they hold, nested tool results included, and reading
  content never throws: what the JSON library throws is reported as an error value.
\<close>

theorem content_wire_roundtrip:
  "content_list_from_json (content_list_to_json cs) = returns cs \<and>
   (\<exists>r. content_list_from_json j = Inr r)"
  using content_list_roundtrip content_list_from_json_total by blast

end
