(* ===== verification/Mcp_Tools.thy ===== *)
theory Mcp_Tools
  imports Mcp_Registry Mcp_Schema Mcp_Content Mcp_Types
begin

text \<open>
  Tools: the definition and its codec, and the registry with listing and invocation
  (\<^verbatim>\<open>include/mcp/server/tool_registry.hpp\<close>, \<^verbatim>\<open>src/server/tool_registry.cpp\<close>).

  A handler is a function from the arguments to a result or an exception; what it does to the
  application is not modelled.  An operation that runs the changed callback reports it.
\<close>

record tool =
  tool_name :: string
  tool_title :: "string option"
  tool_description :: "string option"
  tool_icons :: "icon list option"
  tool_input_schema :: json
  tool_output_schema :: "json option"
  tool_annotations :: "annotations option"
  tool_execution :: "json option"

definition any_object_schema :: json where
  "any_object_schema = json_obj [(''type'', JStr ''object'')]"

definition tool_to_json :: "tool \<Rightarrow> json" where
  "tool_to_json t =
     JObj (set_optional (\<lambda>j. j) ''execution'' (tool_execution t)
          (set_optional annotations_to_json ''annotations'' (tool_annotations t)
          (set_optional (\<lambda>j. j) ''outputSchema'' (tool_output_schema t)
          (set_optional (put_vector icon_to_json) ''icons'' (tool_icons t)
          (set_optional JStr ''description'' (tool_description t)
          (set_optional JStr ''title'' (tool_title t)
          (mk_members [(''name'', JStr (tool_name t)), (''inputSchema'', tool_input_schema t)])))))))"

definition tool_from_json :: "json \<Rightarrow> tool throws" where
  "tool_from_json j =
     bindE (bindE (json_at ''name'' j) get_string) (\<lambda>name.
     bindE (json_value get_json ''inputSchema'' any_object_schema j) (\<lambda>input_schema.
     bindE (get_optional get_string ''title'' j) (\<lambda>title.
     bindE (get_optional get_string ''description'' j) (\<lambda>description.
     bindE (get_optional (get_vector icon_from_json) ''icons'' j) (\<lambda>icons.
     bindE (get_optional get_json ''outputSchema'' j) (\<lambda>output_schema.
     bindE (get_optional annotations_from_json ''annotations'' j) (\<lambda>an.
     bindE (get_optional get_json ''execution'' j) (\<lambda>execution.
     Inr \<lparr>tool_name = name, tool_title = title, tool_description = description, tool_icons = icons,
          tool_input_schema = input_schema, tool_output_schema = output_schema,
          tool_annotations = an, tool_execution = execution\<rparr>))))))))"

definition valid_tool :: "tool \<Rightarrow> bool" where
  "valid_tool t \<longleftrightarrow> pred_option non_null (tool_output_schema t) \<and> pred_option non_null (tool_execution t)"

interpretation tool_codec: json_codec tool_to_json tool_from_json valid_tool
  by unfold_locales
    (simp add: tool_to_json_def tool_from_json_def valid_tool_def json_value_def
       content_field_roundtrips raw_codec.field_roundtrip,
     simp add: tool_to_json_def)

subsection \<open>Results of tools\<close>

record call_tool_result =
  ctr_content :: "content list"
  ctr_is_error :: bool

definition call_tool_result_to_json :: "call_tool_result \<Rightarrow> json" where
  "call_tool_result_to_json r =
     json_obj [(''content'', content_list_to_json (ctr_content r)), (''isError'', JBool (ctr_is_error r))]"

type_synonym tool_handler = "json \<Rightarrow> call_tool_result throws"

subsection \<open>The registry\<close>

definition tool_name_char :: "char \<Rightarrow> bool" where
  "tool_name_char c \<longleftrightarrow>
     is_upper c \<or> is_lower c \<or> is_digit c \<or> c = CHR ''.'' \<or> c = CHR ''_'' \<or> c = CHR ''-''"

definition is_valid_tool_name :: "string \<Rightarrow> bool" where
  "is_valid_tool_name name \<longleftrightarrow> name \<noteq> [] \<and> length name \<le> 128 \<and> list_all tool_name_char name"

record tool_registry =
  tr_tools :: "(tool \<times> tool_handler) list"
  tr_page_size :: nat
  tr_has_changed_callback :: bool

definition new_tool_registry :: tool_registry where
  "new_tool_registry = \<lparr>tr_tools = [], tr_page_size = 100, tr_has_changed_callback = False\<rparr>"

definition tool_key :: "tool \<times> tool_handler \<Rightarrow> string" where
  "tool_key e = tool_name (fst e)"

text \<open>The result, whether the changed callback ran, and the registry.\<close>

definition register_tool :: "tool \<Rightarrow> tool_handler option \<Rightarrow> tool_registry \<Rightarrow> unit result \<times> bool \<times> tool_registry" where
  "register_tool t h r =
     (if \<not> is_valid_tool_name (tool_name t)
      then (Inl (mk_error InvalidParams (''invalid tool name: '' @ quoted (tool_name t) @
              '' (1-128 chars from [A-Za-z0-9._-])'')), False, r)
      else case h of
        None \<Rightarrow> (Inl (mk_error InvalidParams (''tool '' @ quoted (tool_name t) @ '' requires a handler'')), False, r)
      | Some f \<Rightarrow>
          if list_ex (\<lambda>e. tool_key e = tool_name t) (tr_tools r)
          then (Inl (mk_error InvalidParams (''tool already registered: '' @ tool_name t)), False, r)
          else (Inr (), tr_has_changed_callback r, r\<lparr>tr_tools := tr_tools r @ [(t, f)]\<rparr>))"

definition remove_tool :: "string \<Rightarrow> tool_registry \<Rightarrow> bool \<times> bool \<times> tool_registry" where
  "remove_tool name r =
     (case find_entry tool_key name (tr_tools r) of
        None \<Rightarrow> (False, False, r)
      | Some _ \<Rightarrow> (True, tr_has_changed_callback r,
                   r\<lparr>tr_tools := erase_first tool_key name (tr_tools r)\<rparr>))"

definition tools_size :: "tool_registry \<Rightarrow> nat" where
  "tools_size r = length (tr_tools r)"

definition list_tools :: "string option \<Rightarrow> tool_registry \<Rightarrow> tool page result throws" where
  "list_tools cursor r = paginate (map fst (tr_tools r)) cursor (tr_page_size r)"

definition call_tool :: "(json \<Rightarrow> string throws) \<Rightarrow> string \<Rightarrow> json \<Rightarrow> tool_registry \<Rightarrow>
    call_tool_result result throws" where
  "call_tool dump name arguments r =
     (case find_entry tool_key name (tr_tools r) of
        None \<Rightarrow> fails InvalidParams (''unknown tool: '' @ name)
      | Some (t, handler) \<Rightarrow>
          (case validate_schema dump arguments (tool_input_schema t) of
             Inl x \<Rightarrow> Inl x
           | Inr (Inl e) \<Rightarrow>
               fails InvalidParams (''invalid arguments for tool '' @ quoted name @ '': '' @ err_message e)
           | Inr (Inr _) \<Rightarrow>
               catch_all (\<lambda>e. Inr \<lparr>ctr_content = [text_content (err_message e)], ctr_is_error = True\<rparr>)
                 (\<lambda>w. Inr \<lparr>ctr_content = [text_content w], ctr_is_error = True\<rparr>)
                 (mapE Inr (handler arguments))))"

definition set_tools_page_size :: "nat \<Rightarrow> tool_registry \<Rightarrow> tool_registry" where
  "set_tools_page_size n r = r\<lparr>tr_page_size := page_size_of n\<rparr>"

definition set_tools_changed_callback :: "bool \<Rightarrow> tool_registry \<Rightarrow> tool_registry" where
  "set_tools_changed_callback present r = r\<lparr>tr_has_changed_callback := present\<rparr>"

subsection \<open>The registry keeps its contract\<close>

definition add_tool_entry :: "tool \<times> tool_handler \<Rightarrow> tool_registry \<Rightarrow> bool \<times> tool_registry" where
  "add_tool_entry e r =
     (case register_tool (fst e) (Some (snd e)) r of (res, _, r') \<Rightarrow> (res = Inr (), r'))"

definition remove_tool_entry :: "string \<Rightarrow> tool_registry \<Rightarrow> bool \<times> tool_registry" where
  "remove_tool_entry name r = (case remove_tool name r of (found, _, r') \<Rightarrow> (found, r'))"

interpretation tools: named_registry tr_tools tool_key "\<lambda>e. is_valid_tool_name (tool_name (fst e))"
  add_tool_entry remove_tool_entry
proof unfold_locales
  show "add_tool_entry e r = (False, r)"
    if "\<not> is_valid_tool_name (tool_name (fst e)) \<or> tool_key e \<in> tool_key ` set (tr_tools r)" for e r
    using that by (auto simp: add_tool_entry_def register_tool_def tool_key_def list_ex_iff)
  show "fst (remove_tool_entry k r) \<longleftrightarrow> k \<in> tool_key ` set (tr_tools r)" for k r
    using find_entry_cases [of tool_key k "tr_tools r"]
    by (auto simp: remove_tool_entry_def remove_tool_def)
  show "tr_tools (snd (remove_tool_entry k r)) = erase_first tool_key k (tr_tools r)" for k r
    using find_entry_cases [of tool_key k "tr_tools r"]
    by (auto simp: remove_tool_entry_def remove_tool_def)
qed (auto simp: add_tool_entry_def register_tool_def tool_key_def list_ex_iff image_iff)

lemma call_tool_known:
  assumes "find_entry tool_key name (tr_tools r) = Some (t, h)"
    and "validate_schema dump arguments (tool_input_schema t) = returns ()"
  shows "call_tool dump name arguments r =
    catch_all (\<lambda>e. Inr \<lparr>ctr_content = [text_content (err_message e)], ctr_is_error = True\<rparr>)
      (\<lambda>w. Inr \<lparr>ctr_content = [text_content w], ctr_is_error = True\<rparr>) (mapE Inr (h arguments))"
  using assms by (simp add: call_tool_def)

end
