(* ===== verification/Mcp_Uri.thy ===== *)
theory Mcp_Uri
  imports Mcp_Json
begin

text \<open>
  Matching of URIs against level 1 templates (\<^verbatim>\<open>src/server/uri_template.cpp\<close>).  The tokenizer and the
  matcher are the source's two loops; \<open>expand\<close> is the specification: putting the captured values
  back into the template gives the URI.
\<close>

record segment =
  seg_text :: string
  is_variable :: bool

definition flush :: "string \<Rightarrow> segment list" where
  "flush current = (if current = [] then [] else [\<lparr>seg_text = current, is_variable = False\<rparr>])"

text \<open>
  The tokenizer's loop: the literal read so far and the rest of the template.  The closing brace is
  searched from the opening one on.
\<close>

function tokenize_from :: "string \<Rightarrow> string \<Rightarrow> segment list option" where
  "tokenize_from current [] = Some (flush current)"
| "tokenize_from current (c # s) =
     (if c = CHR 0x7B then
        (case find_sub [CHR 0x7D] s of
           None \<Rightarrow> None
         | Some n \<Rightarrow>
             if n = 0 then None
             else map_option
               (\<lambda>segs. flush current @ \<lparr>seg_text = take n s, is_variable = True\<rparr> # segs)
               (tokenize_from [] (drop (Suc n) s)))
      else tokenize_from (current @ [c]) s)"
  by pat_completeness auto
termination by (relation "measure (\<lambda>(_, s). length s)") auto

definition tokenize :: "string \<Rightarrow> segment list option" where
  "tokenize t = tokenize_from [] t"

type_synonym vars = "(string \<times> string) list"

text \<open>The matcher's loop over the segments, from position \<open>pos\<close> of the URI.\<close>

fun match_segments :: "segment list \<Rightarrow> string \<Rightarrow> nat \<Rightarrow> vars \<Rightarrow> vars option" where
  "match_segments [] uri pos vs = (if pos \<noteq> length uri then None else Some vs)"
| "match_segments (s # segs) uri pos vs =
     (if \<not> is_variable s then
        (if take (length (seg_text s)) (drop pos uri) \<noteq> seg_text s then None
         else match_segments segs uri (pos + length (seg_text s)) vs)
      else
        (case (case segs of
                 [] \<Rightarrow> Some (length uri)
               | next # _ \<Rightarrow> if is_variable next then None else find_from (seg_text next) uri pos) of
           None \<Rightarrow> None
         | Some value_end \<Rightarrow>
             if value_end = pos then None
             else match_segments segs uri value_end
                    (obj_put (seg_text s) (take (value_end - pos) (drop pos uri)) vs)))"

definition match_uri_template :: "string \<Rightarrow> string \<Rightarrow> vars option" where
  "match_uri_template uri_template uri =
     (case tokenize uri_template of
        None \<Rightarrow> None
      | Some segments \<Rightarrow> match_segments segments uri 0 [])"

subsection \<open>Expansion\<close>

fun expand :: "segment list \<Rightarrow> (string \<Rightarrow> string option) \<Rightarrow> string option" where
  "expand [] vs = Some []"
| "expand (s # segs) vs =
     (case (if is_variable s then vs (seg_text s) else Some (seg_text s)) of
        None \<Rightarrow> None
      | Some text \<Rightarrow> map_option (\<lambda>rest. text @ rest) (expand segs vs))"

definition variables :: "segment list \<Rightarrow> string list" where
  "variables segs = map seg_text (filter is_variable segs)"

lemma variables_Cons [simp]:
  "variables [] = []"
  "variables (s # segs) = (if is_variable s then seg_text s # variables segs else variables segs)"
  by (simp_all add: variables_def)

lemma match_segments_keeps:
  "match_segments segs uri pos vs = Some ws \<Longrightarrow> x \<notin> set (variables segs) \<Longrightarrow> map_of ws x = map_of vs x"
  by (induction segs uri pos vs arbitrary: ws rule: match_segments.induct)
    (auto split: if_splits option.splits)

lemma value_end_bounds:
  assumes "(case segs of [] \<Rightarrow> Some (length uri)
     | next # _ \<Rightarrow> if is_variable next then None else find_from (seg_text next) uri pos) = Some e"
    and "pos \<le> length uri"
  shows "pos \<le> e \<and> e \<le> length uri"
  using assms
  by (auto simp: find_from_def dest: find_sub_Some split: list.splits if_splits)

lemma expand_cong:
  "(\<And>x. x \<in> set (variables segs) \<Longrightarrow> vs x = ws x) \<Longrightarrow> expand segs vs = expand segs ws"
  by (induction segs) (auto split: option.splits)

text \<open>What the matcher captured, put back into the segments, is the rest of the URI.\<close>

lemma match_segments_sound:
  assumes "match_segments segs uri pos vs = Some ws" and "pos \<le> length uri"
    and "distinct (variables segs)"
  shows "expand segs (map_of ws) = Some (drop pos uri)"
  using assms
proof (induction segs uri pos vs arbitrary: ws rule: match_segments.induct)
  case (1 uri pos vs)
  then show ?case by (auto split: if_splits)
next
  case (2 s segs uri pos vs)
  show ?case
  proof (cases "is_variable s")
    case False
    let ?n = "length (seg_text s)"
    from False "2.prems"(1) have lit: "take ?n (drop pos uri) = seg_text s"
      and rest: "match_segments segs uri (pos + ?n) vs = Some ws" by (auto split: if_splits)
    from lit have "?n \<le> length (drop pos uri)" by (metis length_take min.cobounded1)
    then have "pos + ?n \<le> length uri" using "2.prems"(2) by auto
    with "2.IH"(1) False lit rest "2.prems"(3)
    have "expand segs (map_of ws) = Some (drop (pos + ?n) uri)" by simp
    moreover have "seg_text s @ drop (pos + ?n) uri = drop pos uri"
      using lit by (metis add.commute append_take_drop_id drop_drop)
    ultimately show ?thesis using False by simp
  next
    case True
    then obtain e where e: "(case segs of [] \<Rightarrow> Some (length uri)
         | next # _ \<Rightarrow> if is_variable next then None else find_from (seg_text next) uri pos) = Some e"
      and ne: "e \<noteq> pos"
      and rest: "match_segments segs uri e
          (obj_put (seg_text s) (take (e - pos) (drop pos uri)) vs) = Some ws"
      using "2.prems"(1) by (auto split: option.splits if_splits)
    from value_end_bounds [OF e "2.prems"(2)] have bounds: "pos \<le> e" "e \<le> length uri" by auto
    have "expand segs (map_of ws) = Some (drop e uri)"
      using "2.IH"(2) True e ne rest bounds "2.prems"(3) by simp
    moreover have "map_of ws (seg_text s) = Some (take (e - pos) (drop pos uri))"
      using match_segments_keeps [OF rest, of "seg_text s"] "2.prems"(3) True by simp
    moreover have "take (e - pos) (drop pos uri) @ drop e uri = drop pos uri"
      using bounds by (metis append_take_drop_id drop_drop le_add_diff_inverse2)
    ultimately show ?thesis using True by simp
  qed
qed

text \<open>Every captured value has at least one character.\<close>

lemma match_segments_nonempty:
  assumes "match_segments segs uri pos vs = Some ws" and "pos \<le> length uri"
    and "\<forall>x v. map_of vs x = Some v \<longrightarrow> v \<noteq> []"
  shows "\<forall>x v. map_of ws x = Some v \<longrightarrow> v \<noteq> []"
  using assms
proof (induction segs uri pos vs arbitrary: ws rule: match_segments.induct)
  case (1 uri pos vs)
  then show ?case by (auto split: if_splits)
next
  case (2 s segs uri pos vs)
  show ?case
  proof (cases "is_variable s")
    case False
    let ?n = "length (seg_text s)"
    from False "2.prems"(1) have lit: "take ?n (drop pos uri) = seg_text s"
      and rest: "match_segments segs uri (pos + ?n) vs = Some ws" by (auto split: if_splits)
    from lit have "?n \<le> length (drop pos uri)" by (metis length_take min.cobounded1)
    then have "pos + ?n \<le> length uri" using "2.prems"(2) by auto
    with "2.IH"(1) False lit rest "2.prems"(3) show ?thesis by simp
  next
    case True
    then obtain e where e: "(case segs of [] \<Rightarrow> Some (length uri)
         | next # _ \<Rightarrow> if is_variable next then None else find_from (seg_text next) uri pos) = Some e"
      and ne: "e \<noteq> pos"
      and rest: "match_segments segs uri e
          (obj_put (seg_text s) (take (e - pos) (drop pos uri)) vs) = Some ws"
      using "2.prems"(1) by (auto split: option.splits if_splits)
    from value_end_bounds [OF e "2.prems"(2)] have bounds: "pos \<le> e" "e \<le> length uri" by auto
    with ne have "take (e - pos) (drop pos uri) \<noteq> []" by simp
    with "2.prems"(3) have "\<forall>x v. map_of (obj_put (seg_text s) (take (e - pos) (drop pos uri)) vs) x
        = Some v \<longrightarrow> v \<noteq> []" by simp
    with "2.IH"(2) [OF _ e ne rest bounds(2)] True show ?thesis by blast
  qed
qed

text \<open>The segments spell the template.\<close>

definition template_text :: "segment list \<Rightarrow> string" where
  "template_text segs = concat (map (\<lambda>s.
     if is_variable s then CHR 0x7B # seg_text s @ [CHR 0x7D] else seg_text s) segs)"

lemma tokenize_from_text:
  "tokenize_from current s = Some segs \<Longrightarrow> template_text segs = current @ s"
proof (induction current s arbitrary: segs rule: tokenize_from.induct)
  case (1 current)
  then show ?case by (auto simp: flush_def template_text_def)
next
  case (2 current c s)
  show ?case
  proof (cases "c = CHR 0x7B")
    case False
    with 2 show ?thesis by simp
  next
    case True
    with "2.prems" obtain n rest where n: "find_sub [CHR 0x7D] s = Some n" "n \<noteq> 0"
      and rest: "tokenize_from [] (drop (Suc n) s) = Some rest"
      and segs: "segs = flush current @ \<lparr>seg_text = take n s, is_variable = True\<rparr> # rest"
      by (auto split: option.splits if_splits)
    have "template_text rest = drop (Suc n) s"
      using "2.IH"(1) True n rest by simp
    moreover have "s = take n s @ CHR 0x7D # drop (Suc n) s"
      using find_char_Some [OF n(1)] by simp
    moreover have "template_text segs =
        current @ CHR 0x7B # take n s @ CHR 0x7D # template_text rest"
      by (simp add: segs template_text_def flush_def)
    ultimately show ?thesis using True by simp
  qed
qed

subsection \<open>Properties\<close>



end
