(* ===== verification/Mcp_Resources.thy ===== *)
theory Mcp_Resources
  imports Mcp_Registry Mcp_Uri Mcp_Content Mcp_Types
begin

text \<open>
  Resources and resource templates: definitions with their codecs, and the provider with reading,
  subscriptions and completions (\<^verbatim>\<open>include/mcp/server/resource_provider.hpp\<close>,
  \<^verbatim>\<open>src/server/resource_provider.cpp\<close>, \<^verbatim>\<open>include/mcp/server/completion.hpp\<close>).
\<close>

subsection \<open>Completion results\<close>

record complete_result =
  cr_values :: "string list"
  cr_total :: "int option"
  cr_has_more :: "bool option"

definition empty_complete_result :: complete_result where
  "empty_complete_result = \<lparr>cr_values = [], cr_total = None, cr_has_more = None\<rparr>"

text \<open>At most 100 values are sent.\<close>

definition complete_result_to_json :: "complete_result \<Rightarrow> json" where
  "complete_result_to_json r =
     (let vals = map JStr (take 100 (cr_values r));
          completion = JObj (set_optional JBool ''hasMore'' (cr_has_more r)
            (set_optional JInt ''total'' (cr_total r) (mk_members [(''values'', JArr vals)])))
      in json_obj [(''completion'', completion)])"

type_synonym completion_callback = "string \<Rightarrow> complete_result throws"

subsection \<open>Resources and templates\<close>

record resource =
  res_uri :: string
  res_name :: string
  res_title :: "string option"
  res_description :: "string option"
  res_mime_type :: "string option"
  res_icons :: "icon list option"
  res_annotations :: "annotations option"

record resource_template =
  rt_uri_template :: string
  rt_name :: string
  rt_title :: "string option"
  rt_description :: "string option"
  rt_mime_type :: "string option"
  rt_icons :: "icon list option"
  rt_annotations :: "annotations option"

definition resource_to_json :: "resource \<Rightarrow> json" where
  "resource_to_json r =
     JObj (set_optional annotations_to_json ''annotations'' (res_annotations r)
          (set_optional (put_vector icon_to_json) ''icons'' (res_icons r)
          (set_optional JStr ''mimeType'' (res_mime_type r)
          (set_optional JStr ''description'' (res_description r)
          (set_optional JStr ''title'' (res_title r)
          (mk_members [(''uri'', JStr (res_uri r)), (''name'', JStr (res_name r))]))))))"

definition resource_from_json :: "json \<Rightarrow> resource throws" where
  "resource_from_json j =
     bindE (bindE (json_at ''uri'' j) get_string) (\<lambda>uri.
     bindE (bindE (json_at ''name'' j) get_string) (\<lambda>name.
     bindE (get_optional get_string ''title'' j) (\<lambda>title.
     bindE (get_optional get_string ''description'' j) (\<lambda>description.
     bindE (get_optional get_string ''mimeType'' j) (\<lambda>mime.
     bindE (get_optional (get_vector icon_from_json) ''icons'' j) (\<lambda>icons.
     bindE (get_optional annotations_from_json ''annotations'' j) (\<lambda>an.
     Inr \<lparr>res_uri = uri, res_name = name, res_title = title, res_description = description,
          res_mime_type = mime, res_icons = icons, res_annotations = an\<rparr>)))))))"

definition resource_template_to_json :: "resource_template \<Rightarrow> json" where
  "resource_template_to_json t =
     JObj (set_optional annotations_to_json ''annotations'' (rt_annotations t)
          (set_optional (put_vector icon_to_json) ''icons'' (rt_icons t)
          (set_optional JStr ''mimeType'' (rt_mime_type t)
          (set_optional JStr ''description'' (rt_description t)
          (set_optional JStr ''title'' (rt_title t)
          (mk_members [(''uriTemplate'', JStr (rt_uri_template t)), (''name'', JStr (rt_name t))]))))))"

definition resource_template_from_json :: "json \<Rightarrow> resource_template throws" where
  "resource_template_from_json j =
     bindE (bindE (json_at ''uriTemplate'' j) get_string) (\<lambda>uri.
     bindE (bindE (json_at ''name'' j) get_string) (\<lambda>name.
     bindE (get_optional get_string ''title'' j) (\<lambda>title.
     bindE (get_optional get_string ''description'' j) (\<lambda>description.
     bindE (get_optional get_string ''mimeType'' j) (\<lambda>mime.
     bindE (get_optional (get_vector icon_from_json) ''icons'' j) (\<lambda>icons.
     bindE (get_optional annotations_from_json ''annotations'' j) (\<lambda>an.
     Inr \<lparr>rt_uri_template = uri, rt_name = name, rt_title = title, rt_description = description,
          rt_mime_type = mime, rt_icons = icons, rt_annotations = an\<rparr>)))))))"

interpretation resource_codec: json_codec resource_to_json resource_from_json any_value
  by unfold_locales
    (simp_all add: resource_to_json_def resource_from_json_def content_field_roundtrips)

interpretation resource_template_codec:
  json_codec resource_template_to_json resource_template_from_json any_value
  by unfold_locales
    (simp_all add: resource_template_to_json_def resource_template_from_json_def content_field_roundtrips)

record read_resource_result =
  rr_contents :: "resource_contents list"

definition read_resource_result_to_json :: "read_resource_result \<Rightarrow> json" where
  "read_resource_result_to_json r =
     json_obj [(''contents'', JArr (map resource_contents_to_json (rr_contents r)))]"

type_synonym read_handler = "string \<Rightarrow> read_resource_result result throws"

subsection \<open>The provider\<close>

definition uri_scheme_char :: "char \<Rightarrow> bool" where
  "uri_scheme_char c \<longleftrightarrow> is_alnum c \<or> c = CHR ''+'' \<or> c = CHR ''-'' \<or> c = CHR ''.''"

definition looks_like_uri :: "string \<Rightarrow> bool" where
  "looks_like_uri uri =
     (case find_sub '':'' uri of
        None \<Rightarrow> False
      | Some colon \<Rightarrow>
          colon \<noteq> 0 \<and> is_alpha (uri ! 0) \<and> list_all uri_scheme_char (take (colon - 1) (drop 1 uri)))"

record resource_provider =
  rp_resources :: "(resource \<times> read_handler option) list"
  rp_templates :: "resource_template list"
  rp_fallback_read :: "read_handler option"
  rp_subscriptions :: "string set"
  rp_completions :: "((string \<times> string) \<times> completion_callback) list"
  rp_page_size :: nat
  rp_has_changed_callback :: bool

definition new_resource_provider :: resource_provider where
  "new_resource_provider =
     \<lparr>rp_resources = [], rp_templates = [], rp_fallback_read = None, rp_subscriptions = {},
      rp_completions = [], rp_page_size = 100,
      rp_has_changed_callback = False\<rparr>"

definition resource_key :: "resource \<times> read_handler option \<Rightarrow> string" where
  "resource_key e = res_uri (fst e)"

definition add_resource :: "resource \<Rightarrow> read_handler option \<Rightarrow> resource_provider \<Rightarrow>
    unit result \<times> bool \<times> resource_provider" where
  "add_resource r h p =
     (if \<not> looks_like_uri (res_uri r)
      then (Inl (mk_error InvalidUri (''invalid URI: '' @ res_uri r)), False, p)
      else if list_ex (\<lambda>e. resource_key e = res_uri r) (rp_resources p)
      then (Inl (mk_error InvalidParams (''resource already registered: '' @ res_uri r)), False, p)
      else (Inr (), rp_has_changed_callback p, p\<lparr>rp_resources := rp_resources p @ [(r, h)]\<rparr>))"

definition add_resource_template :: "resource_template \<Rightarrow> resource_provider \<Rightarrow>
    unit result \<times> bool \<times> resource_provider" where
  "add_resource_template t p =
     (if list_ex (\<lambda>e. rt_uri_template e = rt_uri_template t) (rp_templates p)
      then (Inl (mk_error InvalidParams (''template already registered: '' @ rt_uri_template t)), False, p)
      else (Inr (), rp_has_changed_callback p, p\<lparr>rp_templates := rp_templates p @ [t]\<rparr>))"

definition remove_resource :: "string \<Rightarrow> resource_provider \<Rightarrow> bool \<times> bool \<times> resource_provider" where
  "remove_resource uri p =
     (case find_entry resource_key uri (rp_resources p) of
        None \<Rightarrow> (False, False, p)
      | Some _ \<Rightarrow>
          (True, rp_has_changed_callback p,
           p\<lparr>rp_resources := erase_first resource_key uri (rp_resources p),
             rp_subscriptions := rp_subscriptions p - {uri}\<rparr>))"

definition resource_count :: "resource_provider \<Rightarrow> nat" where
  "resource_count p = length (rp_resources p)"

definition template_count :: "resource_provider \<Rightarrow> nat" where
  "template_count p = length (rp_templates p)"

definition resources_has_completions :: "resource_provider \<Rightarrow> bool" where
  "resources_has_completions p = (rp_completions p \<noteq> [])"

definition set_read_handler :: "read_handler option \<Rightarrow> resource_provider \<Rightarrow> resource_provider" where
  "set_read_handler h p = p\<lparr>rp_fallback_read := h\<rparr>"

definition list_resources :: "string option \<Rightarrow> resource_provider \<Rightarrow> resource page result throws" where
  "list_resources cursor p = paginate (map fst (rp_resources p)) cursor (rp_page_size p)"

definition list_resource_templates :: "string option \<Rightarrow> resource_provider \<Rightarrow>
    resource_template page result throws" where
  "list_resource_templates cursor p = paginate (rp_templates p) cursor (rp_page_size p)"

definition template_matches :: "string \<Rightarrow> resource_provider \<Rightarrow> bool" where
  "template_matches uri p =
     list_ex (\<lambda>t. match_uri_template (rt_uri_template t) uri \<noteq> None) (rp_templates p)"

definition read_resource :: "string \<Rightarrow> resource_provider \<Rightarrow> read_resource_result result throws" where
  "read_resource uri p =
     (if \<not> looks_like_uri uri then fails InvalidUri (''invalid URI: '' @ uri)
      else case (case find_entry resource_key uri (rp_resources p) of
                   Some (r, h) \<Rightarrow> Some (case h of Some f \<Rightarrow> Some f | None \<Rightarrow> rp_fallback_read p)
                 | None \<Rightarrow> if template_matches uri p then Some (rp_fallback_read p) else None) of
        None \<Rightarrow> fails ResourceNotFound (''resource not found: '' @ uri)
      | Some None \<Rightarrow> fails InternalError (''no read handler for resource: '' @ uri)
      | Some (Some f) \<Rightarrow> catch_all Inl (\<lambda>w. Inl (mk_error InternalError w)) (f uri))"

definition uri_known :: "string \<Rightarrow> resource_provider \<Rightarrow> bool" where
  "uri_known uri p \<longleftrightarrow>
     list_ex (\<lambda>e. resource_key e = uri) (rp_resources p) \<or> template_matches uri p"

definition subscribe :: "string \<Rightarrow> resource_provider \<Rightarrow> unit result \<times> resource_provider" where
  "subscribe uri p =
     (if \<not> uri_known uri p then (Inl (mk_error ResourceNotFound (''resource not found: '' @ uri)), p)
      else (Inr (), p\<lparr>rp_subscriptions := insert uri (rp_subscriptions p)\<rparr>))"

definition unsubscribe :: "string \<Rightarrow> resource_provider \<Rightarrow> bool \<times> resource_provider" where
  "unsubscribe uri p =
     (uri \<in> rp_subscriptions p, p\<lparr>rp_subscriptions := rp_subscriptions p - {uri}\<rparr>)"

definition is_subscribed :: "string \<Rightarrow> resource_provider \<Rightarrow> bool" where
  "is_subscribed uri p \<longleftrightarrow> uri \<in> rp_subscriptions p"

definition set_resource_completion :: "string \<Rightarrow> string \<Rightarrow> completion_callback \<Rightarrow> resource_provider \<Rightarrow>
    resource_provider" where
  "set_resource_completion uri_template argument cb p =
     p\<lparr>rp_completions := AList.update (uri_template, argument) cb (rp_completions p)\<rparr>"

definition complete_resource :: "string \<Rightarrow> string \<Rightarrow> string \<Rightarrow> resource_provider \<Rightarrow>
    complete_result option throws" where
  "complete_resource uri_template argument v p =
     (case map_of (rp_completions p) (uri_template, argument) of
        None \<Rightarrow> Inr None
      | Some cb \<Rightarrow> mapE Some (cb v))"

definition set_resources_page_size :: "nat \<Rightarrow> resource_provider \<Rightarrow> resource_provider" where
  "set_resources_page_size n p = p\<lparr>rp_page_size := page_size_of n\<rparr>"

definition set_resources_changed_callback :: "bool \<Rightarrow> resource_provider \<Rightarrow> resource_provider" where
  "set_resources_changed_callback present p = p\<lparr>rp_has_changed_callback := present\<rparr>"

subsection \<open>The provider keeps its contract\<close>

definition add_resource_entry :: "resource \<times> read_handler option \<Rightarrow> resource_provider \<Rightarrow> bool \<times> resource_provider" where
  "add_resource_entry e p = (case add_resource (fst e) (snd e) p of (res, _, p') \<Rightarrow> (res = Inr (), p'))"

definition remove_resource_entry :: "string \<Rightarrow> resource_provider \<Rightarrow> bool \<times> resource_provider" where
  "remove_resource_entry uri p = (case remove_resource uri p of (found, _, p') \<Rightarrow> (found, p'))"

interpretation resources: named_registry rp_resources resource_key "\<lambda>e. looks_like_uri (res_uri (fst e))"
  add_resource_entry remove_resource_entry
proof unfold_locales
  show "add_resource_entry e p = (False, p)"
    if "\<not> looks_like_uri (res_uri (fst e)) \<or> resource_key e \<in> resource_key ` set (rp_resources p)" for e p
    using that by (auto simp: add_resource_entry_def add_resource_def resource_key_def list_ex_iff)
  show "fst (remove_resource_entry k p) \<longleftrightarrow> k \<in> resource_key ` set (rp_resources p)"
    "rp_resources (snd (remove_resource_entry k p)) = erase_first resource_key k (rp_resources p)" for k p
    using find_entry_cases [of resource_key k "rp_resources p"]
    by (auto simp: remove_resource_entry_def remove_resource_def)
qed (auto simp: add_resource_entry_def add_resource_def resource_key_def list_ex_iff image_iff)

text \<open>The functional description of reading, by the three ways a URI resolves.\<close>

lemma list_ex_key: "list_ex (\<lambda>e. key e = k) es \<longleftrightarrow> find_entry key k es \<noteq> None"
  by (induction es) auto

lemma read_resource_own:
  assumes "looks_like_uri uri" and "find_entry resource_key uri (rp_resources p) = Some (r, Some f)"
  shows "read_resource uri p = catch_all Inl (\<lambda>w. Inl (mk_error InternalError w)) (f uri)"
  using assms by (simp add: read_resource_def)

lemma read_resource_fallback:
  assumes "looks_like_uri uri" and "rp_fallback_read p = Some f"
    and "find_entry resource_key uri (rp_resources p) = Some (r, None) \<or>
      (find_entry resource_key uri (rp_resources p) = None \<and> template_matches uri p)"
  shows "read_resource uri p = catch_all Inl (\<lambda>w. Inl (mk_error InternalError w)) (f uri)"
  using assms by (auto simp: read_resource_def)

lemma read_resource_unknown:
  assumes "looks_like_uri uri" and "\<not> uri_known uri p"
  shows "read_resource uri p = fails ResourceNotFound (''resource not found: '' @ uri)"
  using assms
  by (cases "find_entry resource_key uri (rp_resources p)")
    (auto simp: read_resource_def uri_known_def list_ex_key)

end
