(* ===== verification/Mcp_Prompts.thy ===== *)
theory Mcp_Prompts
  imports Mcp_Resources
begin

text \<open>
  Prompts: definitions with their codecs and the provider (\<^verbatim>\<open>include/mcp/server/prompt_provider.hpp\<close>,
  \<^verbatim>\<open>src/server/prompt_provider.cpp\<close>), and the logger (\<^verbatim>\<open>include/mcp/server/logging.hpp\<close>,
  \<^verbatim>\<open>src/server/logging.cpp\<close>).
\<close>

record prompt_argument =
  pa_name :: string
  pa_title :: "string option"
  pa_description :: "string option"
  pa_required :: "bool option"

record prompt =
  pr_name :: string
  pr_title :: "string option"
  pr_description :: "string option"
  pr_icons :: "icon list option"
  pr_arguments :: "prompt_argument list option"

definition prompt_argument_to_json :: "prompt_argument \<Rightarrow> json" where
  "prompt_argument_to_json a =
     JObj (set_optional JBool ''required'' (pa_required a)
          (set_optional JStr ''description'' (pa_description a)
          (set_optional JStr ''title'' (pa_title a)
          (mk_members [(''name'', JStr (pa_name a))]))))"

definition prompt_argument_from_json :: "json \<Rightarrow> prompt_argument throws" where
  "prompt_argument_from_json j =
     bindE (bindE (json_at ''name'' j) get_string) (\<lambda>name.
     bindE (get_optional get_string ''title'' j) (\<lambda>title.
     bindE (get_optional get_string ''description'' j) (\<lambda>description.
     bindE (get_optional get_bool ''required'' j) (\<lambda>required.
     Inr \<lparr>pa_name = name, pa_title = title, pa_description = description, pa_required = required\<rparr>))))"

interpretation prompt_argument_codec:
  json_codec prompt_argument_to_json prompt_argument_from_json any_value
  by unfold_locales
    (simp_all add: prompt_argument_to_json_def prompt_argument_from_json_def content_field_roundtrips)

interpretation prompt_arguments_codec:
  json_codec "put_vector prompt_argument_to_json" "get_vector prompt_argument_from_json" "list_all any_value"
  by (rule prompt_argument_codec.codec_vector)

definition prompt_to_json :: "prompt \<Rightarrow> json" where
  "prompt_to_json p =
     JObj (set_optional (put_vector prompt_argument_to_json) ''arguments'' (pr_arguments p)
          (set_optional (put_vector icon_to_json) ''icons'' (pr_icons p)
          (set_optional JStr ''description'' (pr_description p)
          (set_optional JStr ''title'' (pr_title p)
          (mk_members [(''name'', JStr (pr_name p))])))))"

definition prompt_from_json :: "json \<Rightarrow> prompt throws" where
  "prompt_from_json j =
     bindE (bindE (json_at ''name'' j) get_string) (\<lambda>name.
     bindE (get_optional get_string ''title'' j) (\<lambda>title.
     bindE (get_optional get_string ''description'' j) (\<lambda>description.
     bindE (get_optional (get_vector icon_from_json) ''icons'' j) (\<lambda>icons.
     bindE (get_optional (get_vector prompt_argument_from_json) ''arguments'' j) (\<lambda>arguments.
     Inr \<lparr>pr_name = name, pr_title = title, pr_description = description, pr_icons = icons,
          pr_arguments = arguments\<rparr>)))))"

interpretation prompt_codec: json_codec prompt_to_json prompt_from_json any_value
  by unfold_locales
    (simp_all add: prompt_to_json_def prompt_from_json_def content_field_roundtrips
      prompt_arguments_codec.field_roundtrip)

record prompt_message =
  pm_role :: role
  pm_content :: content

record get_prompt_result =
  gp_description :: "string option"
  gp_messages :: "prompt_message list"

definition prompt_message_to_json :: "prompt_message \<Rightarrow> json" where
  "prompt_message_to_json m =
     json_obj [(''role'', JStr (role_to_string (pm_role m))), (''content'', content_to_json (pm_content m))]"

definition get_prompt_result_to_json :: "get_prompt_result \<Rightarrow> json" where
  "get_prompt_result_to_json r =
     JObj (set_optional JStr ''description'' (gp_description r)
       (mk_members [(''messages'', JArr (map prompt_message_to_json (gp_messages r)))]))"

type_synonym prompt_handler = "json \<Rightarrow> get_prompt_result result throws"

subsection \<open>The provider\<close>

record prompt_provider =
  pp_prompts :: "(prompt \<times> prompt_handler) list"
  pp_completions :: "((string \<times> string) \<times> completion_callback) list"
  pp_page_size :: nat
  pp_has_changed_callback :: bool

definition new_prompt_provider :: prompt_provider where
  "new_prompt_provider =
     \<lparr>pp_prompts = [], pp_completions = [], pp_page_size = 100,
      pp_has_changed_callback = False\<rparr>"

definition prompt_key :: "prompt \<times> prompt_handler \<Rightarrow> string" where
  "prompt_key e = pr_name (fst e)"

definition add_prompt :: "prompt \<Rightarrow> prompt_handler option \<Rightarrow> prompt_provider \<Rightarrow>
    unit result \<times> bool \<times> prompt_provider" where
  "add_prompt q h p =
     (if pr_name q = [] then (Inl (mk_error InvalidParams ''prompt name must not be empty''), False, p)
      else case h of
        None \<Rightarrow> (Inl (mk_error InvalidParams (''prompt '' @ quoted (pr_name q) @ '' requires a handler'')), False, p)
      | Some f \<Rightarrow>
          if list_ex (\<lambda>e. prompt_key e = pr_name q) (pp_prompts p)
          then (Inl (mk_error InvalidParams (''prompt already registered: '' @ pr_name q)), False, p)
          else (Inr (), pp_has_changed_callback p, p\<lparr>pp_prompts := pp_prompts p @ [(q, f)]\<rparr>))"

definition remove_prompt :: "string \<Rightarrow> prompt_provider \<Rightarrow> bool \<times> bool \<times> prompt_provider" where
  "remove_prompt name p =
     (case find_entry prompt_key name (pp_prompts p) of
        None \<Rightarrow> (False, False, p)
      | Some _ \<Rightarrow> (True, pp_has_changed_callback p,
                   p\<lparr>pp_prompts := erase_first prompt_key name (pp_prompts p)\<rparr>))"

definition prompts_size :: "prompt_provider \<Rightarrow> nat" where
  "prompts_size p = length (pp_prompts p)"

definition prompts_has_completions :: "prompt_provider \<Rightarrow> bool" where
  "prompts_has_completions p = (pp_completions p \<noteq> [])"

definition list_prompts :: "string option \<Rightarrow> prompt_provider \<Rightarrow> prompt page result throws" where
  "list_prompts cursor p = paginate (map fst (pp_prompts p)) cursor (pp_page_size p)"

fun missing_argument :: "prompt_argument list \<Rightarrow> json \<Rightarrow> string option" where
  "missing_argument [] arguments = None"
| "missing_argument (a # as) arguments =
     (if pa_required a = Some True \<and> \<not> json_contains (pa_name a) arguments then Some (pa_name a)
      else missing_argument as arguments)"

definition get_prompt :: "string \<Rightarrow> json \<Rightarrow> prompt_provider \<Rightarrow> get_prompt_result result throws" where
  "get_prompt name arguments p =
     (case find_entry prompt_key name (pp_prompts p) of
        None \<Rightarrow> fails InvalidParams (''unknown prompt: '' @ name)
      | Some (q, handler) \<Rightarrow>
          (case Option.bind (pr_arguments q) (\<lambda>as. missing_argument as arguments) of
             Some missing \<Rightarrow>
               fails InvalidParams (''prompt '' @ quoted name @ '' is missing required argument '' @ quoted missing)
           | None \<Rightarrow> catch_all Inl (\<lambda>w. Inl (mk_error InternalError w)) (handler arguments)))"

definition set_prompt_completion :: "string \<Rightarrow> string \<Rightarrow> completion_callback \<Rightarrow> prompt_provider \<Rightarrow>
    prompt_provider" where
  "set_prompt_completion name argument cb p =
     p\<lparr>pp_completions := AList.update (name, argument) cb (pp_completions p)\<rparr>"

definition complete_prompt :: "string \<Rightarrow> string \<Rightarrow> string \<Rightarrow> prompt_provider \<Rightarrow>
    complete_result option throws" where
  "complete_prompt name argument v p =
     (case map_of (pp_completions p) (name, argument) of
        None \<Rightarrow> Inr None
      | Some cb \<Rightarrow> mapE Some (cb v))"

definition set_prompts_page_size :: "nat \<Rightarrow> prompt_provider \<Rightarrow> prompt_provider" where
  "set_prompts_page_size n p = p\<lparr>pp_page_size := page_size_of n\<rparr>"

definition set_prompts_changed_callback :: "bool \<Rightarrow> prompt_provider \<Rightarrow> prompt_provider" where
  "set_prompts_changed_callback present p = p\<lparr>pp_has_changed_callback := present\<rparr>"

definition add_prompt_entry :: "prompt \<times> prompt_handler \<Rightarrow> prompt_provider \<Rightarrow> bool \<times> prompt_provider" where
  "add_prompt_entry e p = (case add_prompt (fst e) (Some (snd e)) p of (res, _, p') \<Rightarrow> (res = Inr (), p'))"

definition remove_prompt_entry :: "string \<Rightarrow> prompt_provider \<Rightarrow> bool \<times> prompt_provider" where
  "remove_prompt_entry name p = (case remove_prompt name p of (found, _, p') \<Rightarrow> (found, p'))"

interpretation prompts: named_registry pp_prompts prompt_key "\<lambda>e. pr_name (fst e) \<noteq> []"
  add_prompt_entry remove_prompt_entry
proof unfold_locales
  show "add_prompt_entry e p = (False, p)"
    if "\<not> pr_name (fst e) \<noteq> [] \<or> prompt_key e \<in> prompt_key ` set (pp_prompts p)" for e p
    using that by (auto simp: add_prompt_entry_def add_prompt_def prompt_key_def list_ex_iff)
  show "fst (remove_prompt_entry k p) \<longleftrightarrow> k \<in> prompt_key ` set (pp_prompts p)"
    "pp_prompts (snd (remove_prompt_entry k p)) = erase_first prompt_key k (pp_prompts p)" for k p
    using find_entry_cases [of prompt_key k "pp_prompts p"]
    by (auto simp: remove_prompt_entry_def remove_prompt_def)
qed (auto simp: add_prompt_entry_def add_prompt_def prompt_key_def list_ex_iff image_iff)

lemma missing_argument_None:
  "missing_argument as arguments = None \<longleftrightarrow>
     (\<forall>a \<in> set as. pa_required a = Some True \<longrightarrow> json_contains (pa_name a) arguments)"
  by (induction as arguments rule: missing_argument.induct) auto

lemma missing_argument_Some:
  "missing_argument as arguments = Some n \<Longrightarrow>
     \<exists>a \<in> set as. pa_required a = Some True \<and> pa_name a = n \<and> \<not> json_contains n arguments"
  by (induction as arguments rule: missing_argument.induct) (auto split: if_splits)

subsection \<open>The logger\<close>

datatype logging_level = Debug | Info | Notice | Warning | Error_Level | Critical | Alert | Emergency

fun severity :: "logging_level \<Rightarrow> nat" where
  "severity Debug = 0" | "severity Info = 1" | "severity Notice = 2" | "severity Warning = 3"
| "severity Error_Level = 4" | "severity Critical = 5" | "severity Alert = 6" | "severity Emergency = 7"

text \<open>The order of the enumeration is the order of severity.\<close>

instantiation logging_level :: linorder
begin

definition less_eq_logging_level :: "logging_level \<Rightarrow> logging_level \<Rightarrow> bool" where
  "less_eq_logging_level a b \<longleftrightarrow> severity a \<le> severity b"

definition less_logging_level :: "logging_level \<Rightarrow> logging_level \<Rightarrow> bool" where
  "less_logging_level a b \<longleftrightarrow> severity a < severity b"

instance
proof
  show "a = b" if "a \<le> b" "b \<le> a" for a b :: logging_level
    using that by (cases a; cases b) (simp_all add: less_eq_logging_level_def)
qed (auto simp: less_eq_logging_level_def less_logging_level_def)

end

fun logging_level_to_string :: "logging_level \<Rightarrow> string" where
  "logging_level_to_string Debug = ''debug''"
| "logging_level_to_string Info = ''info''"
| "logging_level_to_string Notice = ''notice''"
| "logging_level_to_string Warning = ''warning''"
| "logging_level_to_string Error_Level = ''error''"
| "logging_level_to_string Critical = ''critical''"
| "logging_level_to_string Alert = ''alert''"
| "logging_level_to_string Emergency = ''emergency''"

definition logging_level_from_string :: "string \<Rightarrow> logging_level option" where
  "logging_level_from_string name =
     (if name = ''debug'' then Some Debug
      else if name = ''info'' then Some Info
      else if name = ''notice'' then Some Notice
      else if name = ''warning'' then Some Warning
      else if name = ''error'' then Some Error_Level
      else if name = ''critical'' then Some Critical
      else if name = ''alert'' then Some Alert
      else if name = ''emergency'' then Some Emergency
      else None)"

lemma logging_level_roundtrip [simp]:
  "logging_level_from_string (logging_level_to_string l) = Some l"
  by (cases l) (simp_all add: logging_level_from_string_def)

record logger =
  lg_level :: logging_level
  lg_has_emitter :: bool

definition new_logger :: logger where
  "new_logger = \<lparr>lg_level = Info, lg_has_emitter = False\<rparr>"

definition set_emitter :: "bool \<Rightarrow> logger \<Rightarrow> logger" where
  "set_emitter present l = l\<lparr>lg_has_emitter := present\<rparr>"

definition set_level :: "logging_level \<Rightarrow> logger \<Rightarrow> logger" where
  "set_level level l = l\<lparr>lg_level := level\<rparr>"

text \<open>The parameters of the notification to emit, if any.\<close>

definition log_message :: "logging_level \<Rightarrow> json \<Rightarrow> string option \<Rightarrow> logger \<Rightarrow> json option" where
  "log_message level data logger_name l =
     (if level < lg_level l then None
      else if \<not> lg_has_emitter l then None
      else Some (JObj (set_optional JStr ''logger'' logger_name
             (mk_members [(''level'', JStr (logging_level_to_string level)), (''data'', data)]))))"

end
