(* ===== verification/Mcp_Server_Session.thy ===== *)
theory Mcp_Server_Session
  imports Mcp_Session
begin

text \<open>
  The server end of a session (\<^verbatim>\<open>ServerSession\<close> in \<^verbatim>\<open>include/mcp/core/session.hpp\<close> and
  \<^verbatim>\<open>src/core/session.cpp\<close>): the answer to \<^verbatim>\<open>initialize\<close>, the gate in front of every request and the
  lifecycle of the session.
\<close>

record server_options =
  so_server_info :: implementation
  so_capabilities :: server_capabilities
  so_instructions :: "string option"
  so_supported_versions :: "string list"
  so_allow_reinitialize :: bool

datatype 'a srv_req = Initialize_Handler | App_Request 'a
datatype 'b srv_note = Initialized_Handler | App_Notification 'b

record ('a, 'b) server_session = "('a srv_req, 'b srv_note) session" +
  ss_options :: server_options
  ss_client_info :: "implementation option"
  ss_client_capabilities :: "client_capabilities option"

definition server_router :: "('a srv_req req_handler, 'b srv_note note_handler, callback) router" where
  "server_router =
     set_notification_handler kNotificationInitialized (Some (Other_Notification Initialized_Handler))
       (set_request_handler kInitialize (Some (Other_Request Initialize_Handler)) session_router)"

definition new_server_session :: "server_options \<Rightarrow> ('a, 'b) server_session" where
  "new_server_session opts =
     session.extend (new_session\<lparr>s_router := server_router\<rparr>)
       \<lparr>ss_options = opts, ss_client_info = None, ss_client_capabilities = None\<rparr>"

text \<open>The requested version if it is supported, and the preferred one otherwise.\<close>

definition negotiate :: "string list \<Rightarrow> string \<Rightarrow> string throws" where
  "negotiate versions requested =
     (case versions of
        [] \<Rightarrow> Inl (Undefined ''front of an empty vector'')
      | preferred # _ \<Rightarrow>
          Inr (case List.find (\<lambda>v. v = requested) versions of Some v \<Rightarrow> v | None \<Rightarrow> preferred))"

definition initialize_answer :: "server_options \<Rightarrow> string \<Rightarrow> initialize_result" where
  "initialize_answer opts v =
     \<lparr>ir_protocol_version = v, ir_capabilities = so_capabilities opts,
      ir_server_info = so_server_info opts, ir_instructions = so_instructions opts\<rparr>"

definition accept_initialize :: "initialize_params \<Rightarrow> ('a, 'b, 'z) server_session_scheme \<Rightarrow>
    json result throws \<times> ('a, 'b, 'z) server_session_scheme" where
  "accept_initialize parsed s =
     (let s = s\<lparr>ss_client_info := Some (ip_client_info parsed),
                ss_client_capabilities := Some (ip_capabilities parsed)\<rparr>;
          s = set_state Initializing s
      in (mapE (\<lambda>v. Inr (initialize_result_to_json (initialize_answer (ss_options s) v)))
            (negotiate (so_supported_versions (ss_options s)) (ip_protocol_version parsed)), s))"

definition handle_initialize :: "json option \<Rightarrow> ('a, 'b, 'z) server_session_scheme \<Rightarrow>
    json result throws \<times> ('a, 'b, 'z) server_session_scheme" where
  "handle_initialize params s =
     (if s_state s \<noteq> Uninitialized \<and> \<not> so_allow_reinitialize (ss_options s)
      then (fails InvalidRequest ''initialize already received'', s)
      else
        let s = (if s_state s \<noteq> Uninitialized
                 then s\<lparr>ss_client_info := None, ss_client_capabilities := None\<rparr> else s)
        in case params of
             None \<Rightarrow> (fails InvalidParams ''initialize requires params'', s)
           | Some p \<Rightarrow>
               (case catch_json (\<lambda>w. Inl (mk_error InvalidParams (''invalid initialize params: '' @ w)))
                       (mapE Inr (initialize_params_from_json p)) of
                  Inl x \<Rightarrow> (Inl x, s)
                | Inr (Inl e) \<Rightarrow> (Inr (Inl e), s)
                | Inr (Inr parsed) \<Rightarrow> accept_initialize parsed s))"

definition handle_initialized :: "json option \<Rightarrow> ('a, 'b, 'z) server_session_scheme \<Rightarrow>
    unit throws \<times> ('a, 'b, 'z) server_session_scheme" where
  "handle_initialized params s =
     (Inr (), if s_state s = Initializing then set_state Operating s else s)"

fun server_run_request :: "('a, ('a, 'b, 'z) server_session_scheme) request_runner \<Rightarrow>
    ('a srv_req, ('a, 'b, 'z) server_session_scheme) request_runner" where
  "server_run_request app Initialize_Handler params s = handle_initialize params s"
| "server_run_request app (App_Request h) params s = app h params s"

fun server_run_notification :: "('b, ('a, 'b, 'z) server_session_scheme) notification_runner \<Rightarrow>
    ('b srv_note, ('a, 'b, 'z) server_session_scheme) notification_runner" where
  "server_run_notification app Initialized_Handler params s = handle_initialized params s"
| "server_run_notification app (App_Notification h) params s = app h params s"

definition server_gates :: "server_capabilities \<Rightarrow> (string \<times> bool) list" where
  "server_gates c =
     [(''tools/'', sv_tools c \<noteq> None), (''resources/'', sv_resources c \<noteq> None),
      (''prompts/'', sv_prompts c \<noteq> None), (''logging/'', sv_logging c \<noteq> None),
      (''completion/'', sv_completions c \<noteq> None), (''tasks/'', sv_tasks c \<noteq> None)]"

fun check_gates :: "(string \<times> bool) list \<Rightarrow> string \<Rightarrow> error option" where
  "check_gates [] m = None"
| "check_gates ((prefix, declared) # gates) m =
     (if starts_with m prefix \<and> \<not> declared
      then Some (mk_error CapabilityNotSupported (''capability not supported: '' @ m))
      else check_gates gates m)"

definition server_check_incoming_request :: "jsonrpc_request \<Rightarrow> ('a, 'b, 'z) server_session_scheme \<Rightarrow>
    error option" where
  "server_check_incoming_request q s =
     (if req_method q = kInitialize \<or> req_method q = kPing then None
      else if s_state s \<noteq> Operating
      then Some (mk_error ConnectionNotInitialized ''session is not initialized'')
      else check_gates (server_gates (so_capabilities (ss_options s))) (req_method q))"

definition server_on_transport_error :: "error \<Rightarrow> ('a, 'b, 'z) server_session_scheme \<Rightarrow>
    ('a, 'b, 'z) server_session_scheme" where
  "server_on_transport_error e s =
     session_on_transport_error e
       (if err_code e = code_of ParseError \<or> err_code e = code_of InvalidRequest
        then send_message (Response (error_response None e)) s else s)"

definition server_handle_message :: "('a, ('a, 'b, 'z) server_session_scheme) request_runner \<Rightarrow>
    ('b, ('a, 'b, 'z) server_session_scheme) notification_runner \<Rightarrow> int \<Rightarrow> message \<Rightarrow>
    ('a, 'b, 'z) server_session_scheme \<Rightarrow> unit throws \<times> ('a, 'b, 'z) server_session_scheme" where
  "server_handle_message app_req app_note now m s =
     handle_message server_check_incoming_request (server_run_request app_req)
       (server_run_notification app_note) now m s"

subsection \<open>Version negotiation\<close>

lemma negotiate_spec:
  "versions \<noteq> [] \<Longrightarrow>
     negotiate versions v = Inr (if v \<in> set versions then v else hd versions)"
  by (auto simp: negotiate_def find_None_iff find_Some_iff split: list.splits option.splits)

subsection \<open>The gate\<close>

lemma check_gates_eq:
  "check_gates gates m =
     (if \<exists>g \<in> set gates. starts_with m (fst g) \<and> \<not> snd g
      then Some (mk_error CapabilityNotSupported (''capability not supported: '' @ m)) else None)"
  by (induction gates m rule: check_gates.induct) auto

lemma server_check_not_operating:
  assumes "req_method q \<noteq> kInitialize" and "req_method q \<noteq> kPing" and "s_state s \<noteq> Operating"
  shows "server_check_incoming_request q s =
    Some (mk_error ConnectionNotInitialized ''session is not initialized'')"
  using assms by (simp add: server_check_incoming_request_def)

lemma protect_initialize_server_frame [simp]:
  "ss_options (protect_initialize q s) = ss_options s"
  "ss_client_info (protect_initialize q s) = ss_client_info s"
  by (simp_all add: protect_initialize_def)

lemma server_session_output_frame [simp]:
  "ss_options (emit es s) = ss_options s" "ss_client_info (emit es s) = ss_client_info s"
  "ss_options (set_state st s) = ss_options s" "ss_client_info (set_state st s) = ss_client_info s"
  "ss_options (send_message m s) = ss_options s" "ss_client_info (send_message m s) = ss_client_info s"
  by (simp_all add: emit_def set_state_def send_message_def)

lemma server_gate_rejects:
  assumes "req_method q \<noteq> kInitialize" and "req_method q \<noteq> kPing" and "s_state s \<noteq> Operating"
  shows "server_handle_message app_req app_note now (Request q) s =
    (Inr (), send_message (Response (error_response (Some (req_id q))
       (mk_error ConnectionNotInitialized ''session is not initialized''))) s)"
  using assms
  by (simp add: server_handle_message_def server_check_not_operating)

lemma server_gate_capability:
  assumes "s_state s = Operating" and "req_method q \<noteq> kInitialize" and "req_method q \<noteq> kPing"
    and "(prefix, False) \<in> set (server_gates (so_capabilities (ss_options s)))"
    and "starts_with (req_method q) prefix"
  shows "server_handle_message app_req app_note now (Request q) s =
    (Inr (), send_message (Response (error_response (Some (req_id q))
       (mk_error CapabilityNotSupported (''capability not supported: '' @ req_method q)))) s)"
proof -
  have "check_gates (server_gates (so_capabilities (ss_options s))) (req_method q) =
      Some (mk_error CapabilityNotSupported (''capability not supported: '' @ req_method q))"
    using assms(4,5) by (force simp: check_gates_eq)
  with assms(1-3) show ?thesis
    by (simp add: server_handle_message_def server_check_incoming_request_def)
qed

subsection \<open>The answer to initialize\<close>

lemma server_router_handlers [simp]:
  "find_request_handler server_router kInitialize = Some (Other_Request Initialize_Handler)"
  "find_request_handler server_router kPing = Some Ping_Handler"
  "find_notification_handler server_router kNotificationInitialized =
     Some (Other_Notification Initialized_Handler)"
  "find_notification_handler server_router kNotificationProgress = Some Progress_Handler"
  "find_notification_handler server_router kNotificationCancelled = Some Cancelled_Handler"
  by (simp_all add: server_router_def session_router_def set_request_handler_def
      set_notification_handler_def find_request_handler_def find_notification_handler_def
      set_handler_def find_handler_def is_wildcard_def method_defs)

lemma new_server_session_simps [simp]:
  "s_router (new_server_session opts) = server_router"
  "s_state (new_server_session opts) = Uninitialized"
  "s_trace (new_server_session opts) = []" "s_deadlines (new_server_session opts) = []"
  "s_cancelled_incoming (new_server_session opts) = []"
  "ss_options (new_server_session opts) = opts" "ss_client_info (new_server_session opts) = None"
  by (simp_all add: new_server_session_def session.defs new_session_def)

lemma handle_initialize_first:
  assumes "s_state s = Uninitialized" and "initialize_params_from_json p = Inr parsed"
    and "so_supported_versions (ss_options s) \<noteq> []"
  shows "handle_initialize (Some p) s =
    (returns (initialize_result_to_json (initialize_answer (ss_options s)
       (if ip_protocol_version parsed \<in> set (so_supported_versions (ss_options s))
        then ip_protocol_version parsed else hd (so_supported_versions (ss_options s))))),
     set_state Initializing (s\<lparr>ss_client_info := Some (ip_client_info parsed),
       ss_client_capabilities := Some (ip_capabilities parsed)\<rparr>))"
  using assms
  by (simp add: handle_initialize_def accept_initialize_def negotiate_spec Let_def set_state_def)

lemma handle_initialize_again:
  assumes "s_state s \<noteq> Uninitialized" and "\<not> so_allow_reinitialize (ss_options s)"
  shows "handle_initialize params s = (fails InvalidRequest ''initialize already received'', s)"
  using assms by (simp add: handle_initialize_def)

lemma server_initialize_answer:
  assumes "find_request_handler (s_router s) kInitialize = Some (Other_Request Initialize_Handler)"
    and "s_state s = Uninitialized" and "initialize_params_from_json p = Inr parsed"
    and "so_supported_versions (ss_options s) \<noteq> []"
  defines "v \<equiv> if ip_protocol_version parsed \<in> set (so_supported_versions (ss_options s))
      then ip_protocol_version parsed else hd (so_supported_versions (ss_options s))"
  shows "server_handle_message app_req app_note now
      (Request \<lparr>req_id = i, req_method = kInitialize, req_params = Some p\<rparr>) s =
    (Inr (), send_message (Response (result_response (Some i)
       (initialize_result_to_json (initialize_answer (ss_options s) v))))
       (set_state Initializing (s\<lparr>s_protected_request_id := Some i,
          ss_client_info := Some (ip_client_info parsed),
          ss_client_capabilities := Some (ip_capabilities parsed)\<rparr>)))"
proof -
  let ?s = "s\<lparr>s_protected_request_id := Some i\<rparr>"
  have "handle_initialize (Some p) ?s =
      (returns (initialize_result_to_json (initialize_answer (ss_options s) v)),
       set_state Initializing (?s\<lparr>ss_client_info := Some (ip_client_info parsed),
         ss_client_capabilities := Some (ip_capabilities parsed)\<rparr>))"
    using handle_initialize_first [of ?s p parsed] assms by simp
  with assms(1) show ?thesis
    by (simp add: server_handle_message_def protect_initialize_def server_check_incoming_request_def
        dispatch_request_def)
qed

lemma server_initialized:
  assumes "find_notification_handler (s_router s) kNotificationInitialized =
      Some (Other_Notification Initialized_Handler)"
  shows "server_handle_message app_req app_note now
      (Notification \<lparr>note_method = kNotificationInitialized, note_params = params\<rparr>) s =
    (Inr (), if s_state s = Initializing then set_state Operating s else s)"
  using assms
  by (simp add: server_handle_message_def dispatch_notification_def handle_initialized_def)

subsection \<open>The life of a server session\<close>

text \<open>
  The application's handlers act on the session through its public operations only; \<open>well_behaved\<close>
  says so of what is run for a handler.  One step of the session is an incoming message, a transport
  event, a round of the timer or a public operation.
\<close>

definition well_behaved :: "('a \<Rightarrow> json option \<Rightarrow> 's \<Rightarrow> 'r \<times> 's) \<Rightarrow> ('s \<Rightarrow> 's \<Rightarrow> bool) \<Rightarrow> bool" where
  "well_behaved run api \<longleftrightarrow> (\<forall>h params s. api\<^sup>*\<^sup>* s (snd (run h params s)))"

inductive server_step :: "('a, ('a, 'b, 'z) server_session_scheme) request_runner \<Rightarrow>
    ('b, ('a, 'b, 'z) server_session_scheme) notification_runner \<Rightarrow>
    ('a, 'b, 'z) server_session_scheme \<Rightarrow> ('a, 'b, 'z) server_session_scheme \<Rightarrow> bool"
  for app_req app_note where
  server_msg: "server_step app_req app_note s (snd (server_handle_message app_req app_note now m s))"
| server_close: "server_step app_req app_note s (handle_close s)"
| server_error: "server_step app_req app_note s (server_on_transport_error e s)"
| server_timer: "server_step app_req app_note s (timer_round now s)"
| server_api: "api_step s t \<Longrightarrow> server_step app_req app_note s t"

context session_invariant
begin

lemma ok_well_behaved: "well_behaved run api_step \<Longrightarrow> ok s \<Longrightarrow> ok (snd (run h params s))"
  unfolding well_behaved_def using ok_api_steps by blast

end

lemma server_steps_invariant:
  fixes ok :: "('a, 'b, 'z) server_session_scheme \<Rightarrow> bool"
  assumes inv: "session_invariant ok"
    and init: "\<And>params s. ok s \<Longrightarrow> ok (snd (handle_initialize params s))"
    and noted: "\<And>params s. ok s \<Longrightarrow> ok (snd (handle_initialized params s))"
    and app: "well_behaved app_req api_step" "well_behaved app_note api_step"
    and steps: "(server_step app_req app_note)\<^sup>*\<^sup>* s t" and start: "ok s"
  shows "ok t"
  using steps start
proof (induction rule: rtranclp_induct)
  case base
  then show ?case .
next
  case (step t u)
  have req: "ok (snd (server_run_request app_req h params s))" if "ok s" for h params s
    using init session_invariant.ok_well_behaved [OF inv app(1)] that by (cases h) auto
  have ntf: "ok (snd (server_run_notification app_note h params s))" if "ok s" for h params s
    using noted session_invariant.ok_well_behaved [OF inv app(2)] that by (cases h) auto
  from step.IH [OF step.prems] have "ok t" .
  with step.hyps(2) show ?case
  proof cases
    case (server_msg now m)
    with \<open>ok t\<close> show ?thesis
      unfolding server_handle_message_def
      by (auto intro!: session_invariant.ok_handle_message [OF inv] req ntf)
  qed (auto simp: server_on_transport_error_def send_message_def
      intro: session_invariant.ok_close [OF inv] session_invariant.ok_timer_round [OF inv]
        session_invariant.ok_transport_error [OF inv] session_invariant.ok_emit [OF inv]
        session_invariant.ok_api [OF inv])
qed

text \<open>A session that is past \<open>initialize\<close> knows its client, unless it may be initialized again.\<close>

definition peer_known :: "('a, 'b, 'z) server_session_scheme \<Rightarrow> bool" where
  "peer_known s \<longleftrightarrow> \<not> so_allow_reinitialize (ss_options s) \<and>
     (s_state s = Initializing \<or> s_state s = Operating \<longrightarrow> ss_client_info s \<noteq> None)"

interpretation server_peer: session_invariant peer_known
  by unfold_locales
    (auto simp: peer_known_def track_request_def Let_def clear_tracking_def close_tracking_def
      collect_expired_def split: option.split)

lemma handle_initialize_peer:
  "peer_known s \<Longrightarrow> peer_known (snd (handle_initialize params s))"
  by (auto simp: handle_initialize_def accept_initialize_def peer_known_def Let_def set_state_def
      split: option.split sum.split)

lemma handle_initialized_peer:
  "peer_known s \<Longrightarrow> peer_known (snd (handle_initialized params s))"
  by (auto simp: handle_initialized_def peer_known_def)

lemma handle_initialize_tables:
  "session_ok s \<Longrightarrow> session_ok (snd (handle_initialize params s))"
  by (auto simp: handle_initialize_def accept_initialize_def session_ok_def tracked_once_def
      cancellations_bounded_def Let_def set_state_def split: option.split sum.split)

lemma handle_initialized_tables:
  "session_ok s \<Longrightarrow> session_ok (snd (handle_initialized params s))"
  by (auto simp: handle_initialized_def session_ok_def tracked_once_def cancellations_bounded_def)

text \<open>Sample options, for evaluating the definitions.\<close>

definition sample_server_options :: server_options where
  "sample_server_options =
     \<lparr>so_server_info = \<lparr>impl_name = ''srv'', impl_title = None, impl_version = ''1''\<rparr>,
      so_capabilities = no_server_capabilities\<lparr>sv_tools := Some \<lparr>tc_list_changed = None\<rparr>\<rparr>,
      so_instructions = None, so_supported_versions = [kProtocolVersion], so_allow_reinitialize = False\<rparr>"

lemma new_server_session_protected [simp]: "s_protected_request_id (new_server_session opts) = None"
  by (simp add: new_server_session_def session.defs new_session_def)

lemma handle_initialize_no_ub:
  assumes "so_supported_versions (ss_options s) \<noteq> []"
  shows "no_ub (fst (handle_initialize params s))"
proof (cases params)
  case (Some p)
  have "json_only (initialize_params_from_json p)" by simp
  with Some assms show ?thesis
    by (cases "initialize_params_from_json p")
      (auto simp: handle_initialize_def accept_initialize_def negotiate_spec no_ub_def json_only_def Let_def)
qed (simp add: handle_initialize_def no_ub_def Let_def)

subsection \<open>Properties\<close>







text \<open>
  A cancellation that arrives before the request it names stays in force, even when that request
  turns out to be \<^verbatim>\<open>initialize\<close>: the protection starts with the request only, so the \<^verbatim>\<open>initialize\<close>
  request of a session can be marked as cancelled.
\<close>

theorem early_cancellation_marks_initialize:
  "(let s = foldl (\<lambda>s m. snd (server_handle_message app_req app_note 0 m s)) (new_server_session opts)
         [cancelled_note (Id_Int 1) None,
          Request \<lparr>req_id = Id_Int 1, req_method = kInitialize, req_params = None\<rparr>]
    in s_protected_request_id s = Some (Id_Int 1) \<and> is_cancelled (Id_Int 1) s)"
  by (simp add: server_handle_message_def cancelled_note_def dispatch_notification_def
      handle_cancelled_def cancelled_roundtrip kMaxTrackedCancellations_def protect_initialize_def
      server_check_incoming_request_def dispatch_request_def handle_initialize_def is_cancelled_def
      new_server_session_protected)

end
