(* ===== verification/Mcp_Server.thy ===== *)
theory Mcp_Server
  imports Mcp_Tools Mcp_Prompts Mcp_Server_Session
begin

text \<open>
  The server (\<^verbatim>\<open>include/mcp/server/server.hpp\<close>, \<^verbatim>\<open>src/server/server.cpp\<close>): the registries, the request
  handlers it installs on a session, the capabilities it derives, and the notifications it sends to
  the attached sessions.

  The handlers capture the server; a session that has them installed is a \<open>hosted_session\<close>, the
  server session together with the server its handlers act on.  The world holds the one server and
  the sessions by number; a message for a session is handled on that session with the server.
\<close>

record server =
  srv_info :: implementation
  srv_instructions :: "string option"
  srv_allow_reinitialize :: bool
  srv_tools :: tool_registry
  srv_resources :: resource_provider
  srv_prompts :: prompt_provider
  srv_logger :: logger
  srv_sessions :: "nat list"

definition new_server :: "string \<Rightarrow> string \<Rightarrow> server" where
  "new_server name version =
     \<lparr>srv_info = \<lparr>impl_name = name, impl_title = None, impl_version = version\<rparr>,
      srv_instructions = None, srv_allow_reinitialize = False, srv_tools = new_tool_registry,
      srv_resources = new_resource_provider, srv_prompts = new_prompt_provider,
      srv_logger = new_logger, srv_sessions = []\<rparr>"

definition set_instructions :: "string \<Rightarrow> server \<Rightarrow> server" where
  "set_instructions text s = s\<lparr>srv_instructions := Some text\<rparr>"

definition set_allow_reinitialize :: "bool \<Rightarrow> server \<Rightarrow> server" where
  "set_allow_reinitialize allow s = s\<lparr>srv_allow_reinitialize := allow\<rparr>"

definition capabilities :: "server \<Rightarrow> server_capabilities" where
  "capabilities s =
     (let c = no_server_capabilities;
          c = (if tools_size (srv_tools s) > 0
               then c\<lparr>sv_tools := Some \<lparr>tc_list_changed = Some True\<rparr>\<rparr> else c);
          c = (if resource_count (srv_resources s) > 0 \<or> template_count (srv_resources s) > 0
               then c\<lparr>sv_resources := Some \<lparr>rc_subscribe = Some True, rc_list_changed = Some True\<rparr>\<rparr> else c);
          c = (if prompts_size (srv_prompts s) > 0
               then c\<lparr>sv_prompts := Some \<lparr>pc_list_changed = Some True\<rparr>\<rparr> else c);
          c = c\<lparr>sv_logging := Some ()\<rparr>
      in if prompts_has_completions (srv_prompts s) \<or> resources_has_completions (srv_resources s)
         then c\<lparr>sv_completions := Some ()\<rparr> else c)"

definition server_options_of :: "server \<Rightarrow> server_options" where
  "server_options_of s =
     \<lparr>so_server_info = srv_info s, so_capabilities = capabilities s, so_instructions = srv_instructions s,
      so_supported_versions = [kProtocolVersion], so_allow_reinitialize = srv_allow_reinitialize s\<rparr>"

subsection \<open>Request handlers\<close>

definition has_member :: "string \<Rightarrow> json option \<Rightarrow> bool" where
  "has_member k params \<longleftrightarrow> (case params of None \<Rightarrow> False | Some p \<Rightarrow> json_contains k p)"

definition member :: "string \<Rightarrow> json option \<Rightarrow> json throws" where
  "member k params =
     (case params of None \<Rightarrow> Inl (Undefined ''access to an empty optional'') | Some p \<Rightarrow> json_at k p)"

definition parse_cursor :: "json option \<Rightarrow> string option result throws" where
  "parse_cursor params =
     (if \<not> has_member ''cursor'' params then returns None
      else bindE (member ''cursor'' params) (\<lambda>cursor.
        case cursor of
          JStr s \<Rightarrow> returns (Some s)
        | _ \<Rightarrow> fails PaginationError ''cursor must be a string''))"

definition require_string :: "string \<Rightarrow> json option \<Rightarrow> string result throws" where
  "require_string k params =
     (case Option.bind params (json_find k) of
        Some (JStr s) \<Rightarrow> returns s
      | _ \<Rightarrow> fails InvalidParams (''missing required string param '' @ quoted k))"

definition page_to_json :: "('a \<Rightarrow> json) \<Rightarrow> string \<Rightarrow> 'a page \<Rightarrow> json" where
  "page_to_json enc items_key p =
     JObj (set_optional JStr ''nextCursor'' (next_cursor p)
       (mk_members [(items_key, put_vector enc (page_items p))]))"

definition list_answer :: "('a \<Rightarrow> json) \<Rightarrow> string \<Rightarrow> (string option \<Rightarrow> 'a page result throws) \<Rightarrow> json option \<Rightarrow>
    json result throws" where
  "list_answer enc items_key list params =
     bind_result (parse_cursor params) (\<lambda>cursor.
     bind_result (list cursor) (\<lambda>p. returns (page_to_json enc items_key p)))"

definition arguments_of :: "json option \<Rightarrow> json throws" where
  "arguments_of params =
     (if has_member ''arguments'' params then member ''arguments'' params else Inr (JObj []))"

definition tools_call :: "(json \<Rightarrow> string throws) \<Rightarrow> json option \<Rightarrow> server \<Rightarrow> json result throws" where
  "tools_call dump params s =
     bind_result (require_string ''name'' params) (\<lambda>name.
     bindE (arguments_of params) (\<lambda>arguments.
     bind_result (call_tool dump name arguments (srv_tools s)) (\<lambda>r.
     returns (call_tool_result_to_json r))))"

definition resources_read :: "json option \<Rightarrow> server \<Rightarrow> json result throws" where
  "resources_read params s =
     bind_result (require_string ''uri'' params) (\<lambda>uri.
     bind_result (read_resource uri (srv_resources s)) (\<lambda>r.
     returns (read_resource_result_to_json r)))"

definition resources_subscribe :: "json option \<Rightarrow> server \<Rightarrow> json result throws \<times> server" where
  "resources_subscribe params s =
     (case require_string ''uri'' params of
        Inr (Inr uri) \<Rightarrow>
          (let (res, p) = subscribe uri (srv_resources s)
           in (case res of Inl e \<Rightarrow> Inr (Inl e) | Inr _ \<Rightarrow> returns (JObj []), s\<lparr>srv_resources := p\<rparr>))
      | Inr (Inl e) \<Rightarrow> (Inr (Inl e), s)
      | Inl x \<Rightarrow> (Inl x, s))"

definition resources_unsubscribe :: "json option \<Rightarrow> server \<Rightarrow> json result throws \<times> server" where
  "resources_unsubscribe params s =
     (case require_string ''uri'' params of
        Inr (Inr uri) \<Rightarrow>
          (returns (JObj []), s\<lparr>srv_resources := snd (unsubscribe uri (srv_resources s))\<rparr>)
      | Inr (Inl e) \<Rightarrow> (Inr (Inl e), s)
      | Inl x \<Rightarrow> (Inl x, s))"

definition prompts_get :: "json option \<Rightarrow> server \<Rightarrow> json result throws" where
  "prompts_get params s =
     bind_result (require_string ''name'' params) (\<lambda>name.
     bindE (arguments_of params) (\<lambda>arguments.
     bind_result (get_prompt name arguments (srv_prompts s)) (\<lambda>r.
     returns (get_prompt_result_to_json r))))"

definition logging_set_level :: "json option \<Rightarrow> server \<Rightarrow> json result throws \<times> server" where
  "logging_set_level params s =
     (case require_string ''level'' params of
        Inr (Inr name) \<Rightarrow>
          (case logging_level_from_string name of
             None \<Rightarrow> (fails InvalidParams (''unknown logging level: '' @ name), s)
           | Some level \<Rightarrow> (returns (JObj []), s\<lparr>srv_logger := set_level level (srv_logger s)\<rparr>))
      | Inr (Inl e) \<Rightarrow> (Inr (Inl e), s)
      | Inl x \<Rightarrow> (Inl x, s))"

definition completion_complete :: "json option \<Rightarrow> server \<Rightarrow> json result throws" where
  "completion_complete params s =
     (if \<not> has_member ''ref'' params \<or> \<not> has_member ''argument'' params
      then fails InvalidParams ''completion/complete requires ref and argument''
      else
        bindE (member ''ref'' params) (\<lambda>ref.
        bindE (member ''argument'' params) (\<lambda>argument.
        if \<not> is_object ref \<or> \<not> is_object argument \<or> \<not> json_contains ''type'' ref \<or>
           \<not> json_contains ''name'' argument \<or> \<not> json_contains ''value'' argument
        then fails InvalidParams ''malformed completion reference or argument''
        else
          bindE (bindE (json_at ''type'' ref) get_string) (\<lambda>type.
          bindE (bindE (json_at ''name'' argument) get_string) (\<lambda>arg_name.
          bindE (bindE (json_at ''value'' argument) get_string) (\<lambda>arg_value.
          bind_result
            (if type = ''ref/prompt'' \<and> json_contains ''name'' ref
             then bindE (bindE (json_at ''name'' ref) get_string) (\<lambda>name.
               mapE Inr (complete_prompt name arg_name arg_value (srv_prompts s)))
             else if type = ''ref/resource'' \<and> json_contains ''uri'' ref
             then bindE (bindE (json_at ''uri'' ref) get_string) (\<lambda>uri.
               mapE Inr (complete_resource uri arg_name arg_value (srv_resources s)))
             else fails InvalidParams (''unknown completion reference type: '' @ type))
            (\<lambda>found. returns (complete_result_to_json
               (case found of Some r \<Rightarrow> r | None \<Rightarrow> empty_complete_result)))))))))"

datatype feature =
    Tools_List | Tools_Call | Resources_List | Templates_List | Resources_Read | Resources_Subscribe
  | Resources_Unsubscribe | Prompts_List | Prompts_Get | Logging_Set_Level | Completion_Complete

fun run_feature :: "(json \<Rightarrow> string throws) \<Rightarrow> feature \<Rightarrow> json option \<Rightarrow> server \<Rightarrow>
    json result throws \<times> server" where
  "run_feature dump Tools_List params s =
     (list_answer tool_to_json ''tools'' (\<lambda>c. list_tools c (srv_tools s)) params, s)"
| "run_feature dump Tools_Call params s = (tools_call dump params s, s)"
| "run_feature dump Resources_List params s =
     (list_answer resource_to_json ''resources'' (\<lambda>c. list_resources c (srv_resources s)) params, s)"
| "run_feature dump Templates_List params s =
     (list_answer resource_template_to_json ''resourceTemplates''
        (\<lambda>c. list_resource_templates c (srv_resources s)) params, s)"
| "run_feature dump Resources_Read params s = (resources_read params s, s)"
| "run_feature dump Resources_Subscribe params s = resources_subscribe params s"
| "run_feature dump Resources_Unsubscribe params s = resources_unsubscribe params s"
| "run_feature dump Prompts_List params s =
     (list_answer prompt_to_json ''prompts'' (\<lambda>c. list_prompts c (srv_prompts s)) params, s)"
| "run_feature dump Prompts_Get params s = (prompts_get params s, s)"
| "run_feature dump Logging_Set_Level params s = logging_set_level params s"
| "run_feature dump Completion_Complete params s = (completion_complete params s, s)"

definition feature_methods :: "(string \<times> feature) list" where
  "feature_methods =
     [(kToolsList, Tools_List), (kToolsCall, Tools_Call), (kResourcesList, Resources_List),
      (kResourcesTemplatesList, Templates_List), (kResourcesRead, Resources_Read),
      (kResourcesSubscribe, Resources_Subscribe), (kResourcesUnsubscribe, Resources_Unsubscribe),
      (kPromptsList, Prompts_List), (kPromptsGet, Prompts_Get),
      (kLoggingSetLevel, Logging_Set_Level), (kCompletionComplete, Completion_Complete)]"

subsection \<open>Sessions of the server\<close>

record hosted_session = "(feature, unit) server_session" +
  hs_server :: server

definition run_hosted :: "(json \<Rightarrow> string throws) \<Rightarrow> (feature, hosted_session) request_runner" where
  "run_hosted dump f params s =
     (let (res, srv) = run_feature dump f params (hs_server s) in (res, s\<lparr>hs_server := srv\<rparr>))"

definition no_app_notifications :: "(unit, hosted_session) notification_runner" where
  "no_app_notifications h params s = (Inr (), s)"

record world =
  w_server :: server
  w_sessions :: "(nat \<times> (feature, unit) server_session) list"

definition install_features :: "(feature, unit) server_session \<Rightarrow> (feature, unit) server_session" where
  "install_features s =
     s\<lparr>s_router := foldl (\<lambda>r (m, h). set_request_handler m h r) (s_router s)
         (map (\<lambda>(m, f). (m, Some (Other_Request (App_Request f)))) feature_methods)\<rparr>"

definition attach :: "nat \<Rightarrow> world \<Rightarrow> world" where
  "attach i w =
     (let srv = w_server w;
          srv = srv\<lparr>srv_sessions := (if i \<in> set (srv_sessions srv) then srv_sessions srv
                                     else srv_sessions srv @ [i])\<rparr>;
          srv = srv\<lparr>srv_tools := set_tools_changed_callback True (srv_tools srv),
                    srv_resources := set_resources_changed_callback True (srv_resources srv),
                    srv_prompts := set_prompts_changed_callback True (srv_prompts srv),
                    srv_logger := set_emitter True (srv_logger srv)\<rparr>
      in w\<lparr>w_server := srv,
           w_sessions := map (\<lambda>(j, s). if j = i then (j, install_features s) else (j, s)) (w_sessions w)\<rparr>)"

definition detach :: "nat \<Rightarrow> world \<Rightarrow> world" where
  "detach i w =
     w\<lparr>w_server := (w_server w)\<lparr>srv_sessions := filter (\<lambda>j. j \<noteq> i) (srv_sessions (w_server w))\<rparr>\<rparr>"

definition only_session :: "server \<Rightarrow> nat option" where
  "only_session s = (case srv_sessions s of [i] \<Rightarrow> Some i | _ \<Rightarrow> None)"

definition send_notification_if_operating :: "string \<Rightarrow> json option \<Rightarrow> world \<Rightarrow> world" where
  "send_notification_if_operating m params w =
     w\<lparr>w_sessions := map (\<lambda>(i, s).
         if i \<in> set (srv_sessions (w_server w)) \<and> s_state s = Operating
         then (i, send_notification m params s) else (i, s)) (w_sessions w)\<rparr>"

definition host_message :: "(json \<Rightarrow> string throws) \<Rightarrow> int \<Rightarrow> nat \<Rightarrow> message \<Rightarrow> world \<Rightarrow> world" where
  "host_message dump now i m w =
     (case map_of (w_sessions w) i of
        None \<Rightarrow> w
      | Some s \<Rightarrow>
          let s' = snd (server_handle_message (run_hosted dump) no_app_notifications now m
                     (server_session.extend s (hosted_session.fields (w_server w))))
          in w\<lparr>w_server := hs_server s',
               w_sessions := AList.update i (server_session.truncate s') (w_sessions w)\<rparr>)"

text \<open>\<^verbatim>\<open>Server::run\<close> up to the wait: a session with the server's options, attached.\<close>

definition open_session :: "nat \<Rightarrow> world \<Rightarrow> world" where
  "open_session i w =
     attach i (w\<lparr>w_sessions := AList.update i
       ((new_server_session (server_options_of (w_server w)))\<lparr>s_has_close_callback := True\<rparr>) (w_sessions w)\<rparr>)"

subsection \<open>Changes of the registries\<close>

record tool_spec =
  ts_title :: "string option"
  ts_description :: "string option"
  ts_input_schema :: json
  ts_output_schema :: "json option"
  ts_handler :: "tool_handler option"

definition tool_of_spec :: "string \<Rightarrow> tool_spec \<Rightarrow> tool" where
  "tool_of_spec name spec =
     \<lparr>tool_name = name, tool_title = ts_title spec, tool_description = ts_description spec,
      tool_icons = None, tool_input_schema = ts_input_schema spec,
      tool_output_schema = ts_output_schema spec, tool_annotations = None, tool_execution = None\<rparr>"

definition announce :: "bool \<Rightarrow> string \<Rightarrow> world \<Rightarrow> world" where
  "announce changed m w = (if changed then send_notification_if_operating m None w else w)"

definition server_register_tool :: "string \<Rightarrow> tool_spec \<Rightarrow> world \<Rightarrow> unit result \<times> world" where
  "server_register_tool name spec w =
     (let (res, changed, r) = register_tool (tool_of_spec name spec) (ts_handler spec) (srv_tools (w_server w));
          w = w\<lparr>w_server := (w_server w)\<lparr>srv_tools := r\<rparr>\<rparr>
      in (res, announce changed kNotificationToolsListChanged w))"

definition server_remove_tool :: "string \<Rightarrow> world \<Rightarrow> bool \<times> world" where
  "server_remove_tool name w =
     (let (found, changed, r) = remove_tool name (srv_tools (w_server w));
          w = w\<lparr>w_server := (w_server w)\<lparr>srv_tools := r\<rparr>\<rparr>
      in (found, announce changed kNotificationToolsListChanged w))"

definition server_add_resource :: "resource \<Rightarrow> read_handler option \<Rightarrow> world \<Rightarrow> unit result \<times> world" where
  "server_add_resource r h w =
     (let (res, changed, p) = add_resource r h (srv_resources (w_server w));
          w = w\<lparr>w_server := (w_server w)\<lparr>srv_resources := p\<rparr>\<rparr>
      in (res, announce changed kNotificationResourcesListChanged w))"

definition server_remove_resource :: "string \<Rightarrow> world \<Rightarrow> bool \<times> world" where
  "server_remove_resource uri w =
     (let (found, changed, p) = remove_resource uri (srv_resources (w_server w));
          w = w\<lparr>w_server := (w_server w)\<lparr>srv_resources := p\<rparr>\<rparr>
      in (found, announce changed kNotificationResourcesListChanged w))"

definition server_add_prompt :: "prompt \<Rightarrow> prompt_handler option \<Rightarrow> world \<Rightarrow> unit result \<times> world" where
  "server_add_prompt q h w =
     (let (res, changed, p) = add_prompt q h (srv_prompts (w_server w));
          w = w\<lparr>w_server := (w_server w)\<lparr>srv_prompts := p\<rparr>\<rparr>
      in (res, announce changed kNotificationPromptsListChanged w))"

definition server_log :: "logging_level \<Rightarrow> json \<Rightarrow> string option \<Rightarrow> world \<Rightarrow> world" where
  "server_log level data logger_name w =
     (case log_message level data logger_name (srv_logger (w_server w)) of
        None \<Rightarrow> w
      | Some params \<Rightarrow> send_notification_if_operating kNotificationMessage (Some params) w)"

definition notify_resource_updated :: "string \<Rightarrow> world \<Rightarrow> world" where
  "notify_resource_updated uri w =
     (if is_subscribed uri (srv_resources (w_server w))
      then send_notification_if_operating kNotificationResourcesUpdated
             (Some (json_obj [(''uri'', JStr uri)])) w
      else w)"

lemma announce_server [simp]: "w_server (announce changed m w) = w_server w"
  by (simp add: announce_def send_notification_if_operating_def)

subsection \<open>The handlers of an attached session\<close>

lemma feature_methods_plain:
  "\<forall>p \<in> set feature_methods. \<not> is_wildcard (fst p)" "distinct (map fst feature_methods)"
  by (simp_all add: feature_methods_def is_wildcard_def method_defs)

lemma install_features_find:
  assumes "(m, f) \<in> set feature_methods"
  shows "find_request_handler (s_router (install_features s)) m = Some (Other_Request (App_Request f))"
proof -
  let ?hs = "map (\<lambda>(m, f). (m, Some (Other_Request (App_Request f)))) feature_methods"
  have "distinct (map fst ?hs)" using feature_methods_plain(2) by simp
  moreover have "\<forall>p \<in> set ?hs. \<not> is_wildcard (fst p)" using feature_methods_plain(1) by auto
  moreover have "(m, Some (Other_Request (App_Request f))) \<in> set ?hs" using assms by force
  ultimately show ?thesis
    using request_table.find_install [of ?hs m "Some (Other_Request (App_Request f))" "s_router s"]
    by (simp add: install_features_def)
qed

lemma install_features_other:
  assumes "m \<notin> fst ` set feature_methods"
  shows "find_request_handler (s_router (install_features s)) m = find_request_handler (s_router s) m"
proof -
  let ?hs = "map (\<lambda>(m, f). (m, Some (Other_Request (App_Request f)))) feature_methods"
  have "\<forall>p \<in> set ?hs. \<not> is_wildcard (fst p)" using feature_methods_plain(1) by auto
  moreover have "m \<notin> fst ` set ?hs" using assms by force
  ultimately show ?thesis
    using request_table.find_install_other [of ?hs m "s_router s"] by (simp add: install_features_def)
qed

definition serves :: "(feature, unit) server_session \<Rightarrow> bool" where
  "serves s \<longleftrightarrow> (\<forall>(m, f) \<in> set feature_methods.
     find_request_handler (s_router s) m = Some (Other_Request (App_Request f)))"

lemma install_features_serves [simp]: "serves (install_features s)"
  by (auto simp: serves_def install_features_find)

lemma open_session_serves:
  "\<exists>s. map_of (w_sessions (open_session i w)) i = Some s \<and> serves s \<and> s_state s = Uninitialized \<and>
     ss_options s = server_options_of (w_server w) \<and>
     find_request_handler (s_router s) kInitialize = Some (Other_Request Initialize_Handler) \<and>
     i \<in> set (srv_sessions (w_server (open_session i w)))"
proof -
  have upd: "map_of (map (\<lambda>(j, s). if j = i then (j, f s) else (j, s)) xs) i = map_option f (map_of xs i)"
    for f :: "(feature, unit) server_session \<Rightarrow> (feature, unit) server_session" and xs
    by (induction xs) auto
  have init: "kInitialize \<notin> fst ` set feature_methods" by (simp add: feature_methods_def method_defs)
  show ?thesis
    by (auto simp: open_session_def attach_def Let_def upd update_conv' install_features_other [OF init])
      (simp_all add: install_features_def)
qed

text \<open>What the session answers with, from the outcome of a handler.\<close>

definition answer :: "jsonrpc_request \<Rightarrow> json result throws \<Rightarrow> jsonrpc_response throws" where
  "answer q out =
     mapE (\<lambda>res. case res of
         Inr j \<Rightarrow> result_response (Some (req_id q)) j
       | Inl e \<Rightarrow> error_response (Some (req_id q)) e)
       (catch_all Inl (\<lambda>w. Inl (mk_error InternalError w)) out)"

lemma truncate_send [simp]:
  "server_session.truncate (send_message m s) = send_message m (server_session.truncate s)"
  "server_session.truncate (server_session.extend t (hosted_session.fields srv)) = t"
  by (simp_all add: server_session.defs hosted_session.defs send_message_def emit_def)

lemma extend_frame [simp]:
  "s_state (server_session.extend t (hosted_session.fields srv)) = s_state t"
  "s_router (server_session.extend t (hosted_session.fields srv)) = s_router t"
  "ss_options (server_session.extend t (hosted_session.fields srv)) = ss_options t"
  "hs_server (server_session.extend t (hosted_session.fields srv)) = srv"
  "(server_session.extend t (hosted_session.fields srv))\<lparr>hs_server := srv'\<rparr> =
     server_session.extend t (hosted_session.fields srv')"
  "hs_server (send_message m s) = hs_server s"
  by (simp_all add: server_session.defs hosted_session.defs send_message_def emit_def)

lemma host_request:
  assumes "map_of (w_sessions w) i = Some s" and "serves s" and "s_state s = Operating"
    and "(req_method q, f) \<in> set feature_methods"
    and "check_gates (server_gates (so_capabilities (ss_options s))) (req_method q) = None"
    and "answer q (fst (run_feature dump f (req_params q) (w_server w))) = Inr resp"
  shows "host_message dump now i (Request q) w =
    w\<lparr>w_server := snd (run_feature dump f (req_params q) (w_server w)),
      w_sessions := AList.update i (send_message (Response resp) s) (w_sessions w)\<rparr>"
proof -
  have m: "req_method q \<noteq> kInitialize" "req_method q \<noteq> kPing"
    using assms(4) by (auto simp: feature_methods_def method_defs)
  have h: "find_request_handler (s_router s) (req_method q) = Some (Other_Request (App_Request f))"
    using assms(2,4) by (auto simp: serves_def)
  show ?thesis
    using assms(1,3,5,6) m h
    by (simp add: host_message_def server_handle_message_def server_check_incoming_request_def
        dispatch_request_def run_hosted_def split_beta answer_def)
qed

text \<open>A world to evaluate the definitions on: one tool, one operating session.\<close>

definition sample_tool :: tool where
  "sample_tool = tool_of_spec ''echo''
     \<lparr>ts_title = None, ts_description = None, ts_input_schema = any_object_schema, ts_output_schema = None,
      ts_handler = None\<rparr>"

definition sample_server :: server where
  "sample_server = (new_server ''srv'' ''1'')\<lparr>srv_tools := new_tool_registry\<lparr>tr_tools :=
     [(sample_tool, \<lambda>arguments. Inr \<lparr>ctr_content = [text_content ''hi''], ctr_is_error = False\<rparr>)]\<rparr>\<rparr>"

definition sample_session :: "(feature, unit) server_session" where
  "sample_session = set_state Operating (install_features (new_server_session (server_options_of sample_server)))"

definition sample_world :: world where
  "sample_world = \<lparr>w_server = sample_server\<lparr>srv_sessions := [0]\<rparr>, w_sessions = [(0, sample_session)]\<rparr>"

lemma sample_session_simps [simp]:
  "serves sample_session" "s_state sample_session = Operating"
  "ss_options sample_session = server_options_of sample_server"
proof -
  have "serves (set_state st s) = serves s" for st s by (simp add: serves_def)
  then show "serves sample_session" by (simp add: sample_session_def)
qed (simp_all add: sample_session_def install_features_def)

lemma sample_gates [simp]:
  "check_gates (server_gates (so_capabilities (server_options_of sample_server))) kToolsList = None"
  by (simp add: check_gates_eq server_gates_def server_options_of_def capabilities_def sample_server_def
      new_server_def new_tool_registry_def tools_size_def starts_with_def method_defs Let_def)

subsection \<open>Properties\<close>



text \<open>
  A notification of the server reaches exactly the attached sessions that are operating, and changes
  nothing else: not the server, and not the sessions that are still in the handshake, shut down or
  detached.
\<close>

theorem broadcast_reaches_operating:
  "map_of (w_sessions (send_notification_if_operating m params w)) i =
     map_option (\<lambda>s. if i \<in> set (srv_sessions (w_server w)) \<and> s_state s = Operating
                     then send_notification m params s else s) (map_of (w_sessions w) i) \<and>
   w_server (send_notification_if_operating m params w) = w_server w"
proof -
  have "map_of (map (\<lambda>(i, s). if P i s then (i, f s) else (i, s)) xs) i =
      map_option (\<lambda>s. if P i s then f s else s) (map_of xs i)"
    for P and f :: "(feature, unit) server_session \<Rightarrow> (feature, unit) server_session" and xs
    by (induction xs) auto
  then show ?thesis by (simp add: send_notification_if_operating_def)
qed

text \<open>
  Registering and removing tools: a registration succeeds exactly for a well-formed, unused name
  with a handler; afterwards the name resolves to that tool and every other name resolves as before;
  a removed name resolves to nothing; the tools listed keep their order of registration; and once a
  session was attached every change is announced to the operating sessions, and nothing else is.
\<close>

theorem tool_registration:
  assumes "tools.wf (srv_tools (w_server w))"
  defines "entry \<equiv> \<lambda>w name. find_entry tool_key name (tr_tools (srv_tools (w_server w)))"
  shows "(fst (server_register_tool name spec w) = Inr () \<longleftrightarrow>
      is_valid_tool_name name \<and> ts_handler spec \<noteq> None \<and> entry w name = None) \<and>
    (\<forall>h. fst (server_register_tool name spec w) = Inr () \<and> ts_handler spec = Some h \<longrightarrow>
      (\<forall>n. entry (snd (server_register_tool name spec w)) n =
        (if n = name then Some (tool_of_spec name spec, h) else entry w n))) \<and>
    (fst (server_remove_tool name w) \<longleftrightarrow> entry w name \<noteq> None) \<and>
    (\<forall>n. entry (snd (server_remove_tool name w)) n = (if n = name then None else entry w n)) \<and>
    tools.wf (srv_tools (w_server (snd (server_register_tool name spec w)))) \<and>
    tools.wf (srv_tools (w_server (snd (server_remove_tool name w)))) \<and>
    w_sessions (snd (server_register_tool name spec w)) =
      (if fst (server_register_tool name spec w) = Inr () \<and> tr_has_changed_callback (srv_tools (w_server w))
       then w_sessions (send_notification_if_operating kNotificationToolsListChanged None w)
       else w_sessions w)"
proof -
  let ?r = "srv_tools (w_server w)"
  have reg: "srv_tools (w_server (snd (server_register_tool name spec w))) =
      (case ts_handler spec of None \<Rightarrow> ?r | Some h \<Rightarrow> snd (add_tool_entry (tool_of_spec name spec, h) ?r))"
    by (auto simp: server_register_tool_def announce_def send_notification_if_operating_def
        add_tool_entry_def register_tool_def split_beta Let_def split: option.split)
  have ok: "fst (server_register_tool name spec w) = Inr () \<longleftrightarrow>
      (\<exists>h. ts_handler spec = Some h \<and> fst (add_tool_entry (tool_of_spec name spec, h) ?r))"
    by (auto simp: server_register_tool_def add_tool_entry_def register_tool_def split_beta Let_def
        split: option.split)
  have rem: "srv_tools (w_server (snd (server_remove_tool name w))) = snd (remove_tool_entry name ?r)"
    "fst (server_remove_tool name w) = fst (remove_tool_entry name ?r)"
    by (simp_all add: server_remove_tool_def announce_def send_notification_if_operating_def
        remove_tool_entry_def split_beta Let_def)
  have told: "w_sessions (snd (server_register_tool name spec w)) =
      (if fst (server_register_tool name spec w) = Inr () \<and> tr_has_changed_callback ?r
       then w_sessions (send_notification_if_operating kNotificationToolsListChanged None w)
       else w_sessions w)"
    by (auto simp: server_register_tool_def announce_def send_notification_if_operating_def
        register_tool_def Let_def split: option.split)
  have key: "tool_key (tool_of_spec name spec, h) = name" "tool_name (tool_of_spec name spec) = name" for h
    by (simp_all add: tool_key_def tool_of_spec_def)
  have valid: "fst (add_tool_entry (tool_of_spec name spec, h) ?r) \<longleftrightarrow>
      is_valid_tool_name name \<and> entry w name = None" for h
    using tools.add_cases [of "(tool_of_spec name spec, h)" ?r]
    by (auto simp: key entry_def find_entry_None)
  show ?thesis
    using tools.find_add [of "(tool_of_spec name spec, _)" ?r] tools.find_remove [OF assms(1)]
      tools.wf_add [OF assms(1)] tools.wf_remove [OF assms(1)] tools.remove_found [of name ?r]
      assms(1) told
    by (auto simp: ok valid reg rem key entry_def find_entry_None split: option.split)
qed

lemma tool_registration_witness:
  "fst (server_remove_tool ''echo'' sample_world) \<longleftrightarrow>
     find_entry tool_key ''echo'' (tr_tools (srv_tools (w_server sample_world))) \<noteq> None"
proof -
  have "tools.wf (srv_tools (w_server sample_world))"
    unfolding tools.wf_def
    by (simp add: sample_world_def sample_server_def sample_tool_def tool_of_spec_def
        is_valid_tool_name_def tool_name_char_def is_upper_def is_lower_def)
  from tool_registration [OF this] show ?thesis by blast
qed

text \<open>
  Subscriptions: \<^verbatim>\<open>resources/subscribe\<close> succeeds exactly for a URI that names a resource or matches a
  template, and is \<open>-32003\<close> otherwise; from then on an update of the URI is notified to the operating
  sessions, until \<^verbatim>\<open>resources/unsubscribe\<close> or the removal of the resource, after which it is not.
\<close>

theorem subscription_lifecycle:
  assumes "params = Some (json_obj [(''uri'', JStr uri)])"
    and "sub = run_feature dump Resources_Subscribe params s"
    and "unsub = run_feature dump Resources_Unsubscribe params s"
  shows "(uri_known uri (srv_resources s) \<longrightarrow>
      fst sub = returns (JObj []) \<and> is_subscribed uri (srv_resources (snd sub)) \<and>
      (\<forall>w. w_server w = snd sub \<longrightarrow> notify_resource_updated uri w =
        send_notification_if_operating kNotificationResourcesUpdated params w)) \<and>
    (\<not> uri_known uri (srv_resources s) \<longrightarrow>
      fst sub = fails ResourceNotFound (''resource not found: '' @ uri) \<and> snd sub = s) \<and>
    fst unsub = returns (JObj []) \<and>
    (\<forall>w. w_server w = snd unsub \<longrightarrow> notify_resource_updated uri w = w) \<and>
    (\<forall>w. uri \<in> resource_key ` set (rp_resources (srv_resources (w_server w))) \<longrightarrow>
      \<not> is_subscribed uri (srv_resources (w_server (snd (server_remove_resource uri w)))))"
proof -
  have req: "require_string ''uri'' (Some (json_obj [(''uri'', JStr uri)])) = returns uri"
    by (simp add: require_string_def json_obj_def)
  have "\<not> is_subscribed uri (srv_resources (w_server (snd (server_remove_resource uri w))))"
    if "uri \<in> resource_key ` set (rp_resources (srv_resources (w_server w)))" for w
    using that find_entry_cases [of resource_key uri "rp_resources (srv_resources (w_server w))"]
    by (auto simp: server_remove_resource_def remove_resource_def is_subscribed_def Let_def)
  then show ?thesis
    unfolding assms
    by (simp add: resources_subscribe_def resources_unsubscribe_def req subscribe_def unsubscribe_def
        is_subscribed_def notify_resource_updated_def)
qed

lemma subscription_lifecycle_witness:
  "fst (run_feature (\<lambda>j. Inr []) Resources_Unsubscribe (Some (json_obj [(''uri'', JStr ''a:b'')])) sample_server) =
     returns (JObj [])"
  using subscription_lifecycle [OF refl refl refl, where uri = "''a:b''" and dump = "\<lambda>j. Inr []" and s = sample_server] by blast

text \<open>
  Log messages reach the operating sessions exactly when they are at or above the level set last by
  \<^verbatim>\<open>logging/setLevel\<close>; an unknown level is refused with \<open>-32602\<close> and changes nothing.
\<close>

theorem logging_threshold:
  "(\<forall>level. run_feature dump Logging_Set_Level (Some (json_obj [(''level'', JStr (logging_level_to_string level))])) s =
      (returns (JObj []), s\<lparr>srv_logger := (srv_logger s)\<lparr>lg_level := level\<rparr>\<rparr>)) \<and>
   (\<forall>name. logging_level_from_string name = None \<longrightarrow>
      run_feature dump Logging_Set_Level (Some (json_obj [(''level'', JStr name)])) s =
      (fails InvalidParams (''unknown logging level: '' @ name), s)) \<and>
   (lg_has_emitter (srv_logger (w_server w)) \<longrightarrow>
      server_log level data lname w =
        (if lg_level (srv_logger (w_server w)) \<le> level
         then send_notification_if_operating kNotificationMessage
           (Some (JObj (set_optional JStr ''logger'' lname
             (mk_members [(''level'', JStr (logging_level_to_string level)), (''data'', data)])))) w
         else w))"
  by (auto simp: logging_set_level_def require_string_def json_obj_def set_level_def server_log_def log_message_def)

lemma logging_threshold_witness:
  "run_feature (\<lambda>j. Inr []) Logging_Set_Level (Some (json_obj [(''level'', JStr ''loud'')])) sample_server =
     (fails InvalidParams (''unknown logging level: '' @ ''loud''), sample_server)"
  using logging_threshold [of "\<lambda>j. Inr []" sample_server] by (simp add: logging_level_from_string_def)

text \<open>
  The capabilities a server declares match what it can serve: with the options of
  \<^verbatim>\<open>Server::server_options\<close> the gate lets \<^verbatim>\<open>tools/\<close>, \<^verbatim>\<open>resources/\<close>, \<^verbatim>\<open>prompts/\<close> and
  \<^verbatim>\<open>completion/\<close> requests pass exactly when something of the kind was registered, and logging always.
\<close>

theorem declared_capabilities_match:
  assumes "gate = (\<lambda>m. check_gates (server_gates (so_capabilities (server_options_of s))) m)"
  shows "(gate kToolsCall = None \<longleftrightarrow> tr_tools (srv_tools s) \<noteq> []) \<and>
    (gate kResourcesRead = None \<longleftrightarrow>
      rp_resources (srv_resources s) \<noteq> [] \<or> rp_templates (srv_resources s) \<noteq> []) \<and>
    (gate kPromptsGet = None \<longleftrightarrow> pp_prompts (srv_prompts s) \<noteq> []) \<and>
    (gate kCompletionComplete = None \<longleftrightarrow>
      pp_completions (srv_prompts s) \<noteq> [] \<or> rp_completions (srv_resources s) \<noteq> []) \<and>
    gate kLoggingSetLevel = None"
  unfolding assms
  by (auto simp: check_gates_eq server_gates_def server_options_of_def capabilities_def Let_def
      no_server_capabilities_def tools_size_def resource_count_def template_count_def prompts_size_def
      prompts_has_completions_def resources_has_completions_def starts_with_def method_defs)

lemma declared_capabilities_match_witness:
  "check_gates (server_gates (so_capabilities (server_options_of sample_server))) kLoggingSetLevel = None"
  using declared_capabilities_match [OF refl, of sample_server] by blast

end
