(* ===== verification/Mcp_Sampling.thy ===== *)
theory Mcp_Sampling
  imports Mcp_Registry Mcp_Content Mcp_Types
begin

text \<open>
  What a client offers to its server: roots (\<^verbatim>\<open>include/mcp/client/roots_provider.hpp\<close>,
  \<^verbatim>\<open>src/client/roots_provider.cpp\<close>), the payloads of elicitation
  (\<^verbatim>\<open>include/mcp/client/elicitation.hpp\<close>) and sampling, and the server's tool-use loop over sampling
  (\<^verbatim>\<open>include/mcp/client/sampling.hpp\<close>, \<^verbatim>\<open>src/client/sampling.cpp\<close>).
\<close>

subsection \<open>Roots\<close>

record root =
  root_uri :: string
  root_name :: "string option"

definition root_to_json :: "root \<Rightarrow> json" where
  "root_to_json r = JObj (set_optional JStr ''name'' (root_name r) (mk_members [(''uri'', JStr (root_uri r))]))"

definition root_from_json :: "json \<Rightarrow> root throws" where
  "root_from_json j =
     bindE (bindE (json_at ''uri'' j) get_string) (\<lambda>uri.
     bindE (get_optional get_string ''name'' j) (\<lambda>name.
     Inr \<lparr>root_uri = uri, root_name = name\<rparr>))"

interpretation root_codec: json_codec root_to_json root_from_json any_value
  by unfold_locales (simp_all add: root_to_json_def root_from_json_def content_field_roundtrips)

record roots_provider =
  ro_roots :: "root list"
  ro_has_changed_callback :: bool

definition new_roots_provider :: roots_provider where
  "new_roots_provider = \<lparr>ro_roots = [], ro_has_changed_callback = False\<rparr>"

definition add_root :: "root \<Rightarrow> roots_provider \<Rightarrow> unit result \<times> bool \<times> roots_provider" where
  "add_root r p =
     (if \<not> starts_with (root_uri r) ''file://''
      then (Inl (mk_error InvalidUri (''root URI must use the file:// scheme: '' @ root_uri r)), False, p)
      else if list_ex (\<lambda>x. root_uri x = root_uri r) (ro_roots p)
      then (Inl (mk_error InvalidParams (''root already registered: '' @ root_uri r)), False, p)
      else (Inr (), ro_has_changed_callback p, p\<lparr>ro_roots := ro_roots p @ [r]\<rparr>))"

definition remove_root :: "string \<Rightarrow> roots_provider \<Rightarrow> bool \<times> bool \<times> roots_provider" where
  "remove_root uri p =
     (case find_entry root_uri uri (ro_roots p) of
        None \<Rightarrow> (False, False, p)
      | Some _ \<Rightarrow> (True, ro_has_changed_callback p, p\<lparr>ro_roots := erase_first root_uri uri (ro_roots p)\<rparr>))"

definition list_roots :: "roots_provider \<Rightarrow> root list" where
  "list_roots p = ro_roots p"

definition roots_size :: "roots_provider \<Rightarrow> nat" where
  "roots_size p = length (ro_roots p)"

definition set_roots_changed_callback :: "bool \<Rightarrow> roots_provider \<Rightarrow> roots_provider" where
  "set_roots_changed_callback present p = p\<lparr>ro_has_changed_callback := present\<rparr>"

definition add_root_entry :: "root \<Rightarrow> roots_provider \<Rightarrow> bool \<times> roots_provider" where
  "add_root_entry r p = (case add_root r p of (res, _, p') \<Rightarrow> (res = Inr (), p'))"

definition remove_root_entry :: "string \<Rightarrow> roots_provider \<Rightarrow> bool \<times> roots_provider" where
  "remove_root_entry uri p = (case remove_root uri p of (found, _, p') \<Rightarrow> (found, p'))"

interpretation roots: named_registry ro_roots root_uri "\<lambda>r. starts_with (root_uri r) ''file://''"
  add_root_entry remove_root_entry
proof unfold_locales
  show "add_root_entry e p = (False, p)"
    if "\<not> starts_with (root_uri e) ''file://'' \<or> root_uri e \<in> root_uri ` set (ro_roots p)" for e p
    using that by (auto simp: add_root_entry_def add_root_def list_ex_iff)
  show "fst (remove_root_entry k p) \<longleftrightarrow> k \<in> root_uri ` set (ro_roots p)"
    "ro_roots (snd (remove_root_entry k p)) = erase_first root_uri k (ro_roots p)" for k p
    using find_entry_cases [of root_uri k "ro_roots p"]
    by (auto simp: remove_root_entry_def remove_root_def)
qed (auto simp: add_root_entry_def add_root_def list_ex_iff image_iff)

subsection \<open>Elicitation\<close>

record elicit_request =
  el_message :: string
  el_requested_schema :: "json option"
  el_url :: "string option"

definition elicit_request_from_json :: "json \<Rightarrow> elicit_request result throws" where
  "elicit_request_from_json j =
     (case json_find ''message'' j of
        Some (JStr msg) \<Rightarrow>
          bindE (get_optional get_json ''requestedSchema'' j) (\<lambda>schema.
          bindE (get_optional get_string ''url'' j) (\<lambda>url.
          returns \<lparr>el_message = msg, el_requested_schema = schema, el_url = url\<rparr>))
      | _ \<Rightarrow> fails InvalidParams ''elicitation request requires a message'')"

definition elicit_request_to_json :: "elicit_request \<Rightarrow> json" where
  "elicit_request_to_json r =
     JObj (set_optional JStr ''url'' (el_url r)
          (set_optional (\<lambda>j. j) ''requestedSchema'' (el_requested_schema r)
          (mk_members [(''message'', JStr (el_message r))])))"

datatype elicit_action = Accept | Decline | Cancel

fun elicit_action_to_string :: "elicit_action \<Rightarrow> string" where
  "elicit_action_to_string Accept = ''accept''"
| "elicit_action_to_string Decline = ''decline''"
| "elicit_action_to_string Cancel = ''cancel''"

record elicit_result =
  er_action :: elicit_action
  er_content :: "json option"

definition elicit_result_to_json :: "elicit_result \<Rightarrow> json" where
  "elicit_result_to_json r =
     JObj (set_optional (\<lambda>j. j) ''content'' (er_content r)
       (mk_members [(''action'', JStr (elicit_action_to_string (er_action r)))]))"

type_synonym elicitation_handler = "elicit_request \<Rightarrow> elicit_result result throws"

lemma elicit_request_roundtrip:
  "pred_option non_null (el_requested_schema r) \<Longrightarrow>
     elicit_request_from_json (elicit_request_to_json r) = returns r"
  by (simp add: elicit_request_from_json_def elicit_request_to_json_def raw_codec.field_roundtrip
      string_codec.field_roundtrip)

subsection \<open>Sampling payloads\<close>

record sampling_message =
  sm_role :: role
  sm_content :: content

definition sampling_message_to_json :: "sampling_message \<Rightarrow> json" where
  "sampling_message_to_json m =
     json_obj [(''role'', JStr (role_to_string (sm_role m))), (''content'', content_to_json (sm_content m))]"

definition sampling_message_from_json :: "json \<Rightarrow> sampling_message throws" where
  "sampling_message_from_json j =
     bindE (bindE (json_at ''role'' j) get_string) (\<lambda>role.
     bindE (bindE (json_at ''content'' j) content_from_json) (\<lambda>c.
     case c of
       Inl e \<Rightarrow> Inl (Mcp_Exn e)
     | Inr c \<Rightarrow> Inr \<lparr>sm_role = (case role_from_string role of Some r \<Rightarrow> r | None \<Rightarrow> User), sm_content = c\<rparr>))"

definition model_hint_to_json :: "string \<Rightarrow> json" where
  "model_hint_to_json name = json_obj [(''name'', JStr name)]"

definition model_hint_from_json :: "json \<Rightarrow> string throws" where
  "model_hint_from_json j = bindE (json_at ''name'' j) get_string"

record model_preferences =
  mp_hints :: "string list option"
  mp_cost_priority :: "rat option"
  mp_speed_priority :: "rat option"
  mp_intelligence_priority :: "rat option"

definition model_preferences_to_json :: "model_preferences \<Rightarrow> json" where
  "model_preferences_to_json p =
     JObj (set_optional JFloat ''intelligencePriority'' (mp_intelligence_priority p)
          (set_optional JFloat ''speedPriority'' (mp_speed_priority p)
          (set_optional JFloat ''costPriority'' (mp_cost_priority p)
          (set_optional (put_vector model_hint_to_json) ''hints'' (mp_hints p) []))))"

definition model_preferences_from_json :: "json \<Rightarrow> model_preferences throws" where
  "model_preferences_from_json j =
     bindE (get_optional (get_vector model_hint_from_json) ''hints'' j) (\<lambda>hints.
     bindE (get_optional get_double ''costPriority'' j) (\<lambda>cost.
     bindE (get_optional get_double ''speedPriority'' j) (\<lambda>speed.
     bindE (get_optional get_double ''intelligencePriority'' j) (\<lambda>intelligence.
     Inr \<lparr>mp_hints = hints, mp_cost_priority = cost, mp_speed_priority = speed,
          mp_intelligence_priority = intelligence\<rparr>))))"

interpretation sampling_message_codec:
  json_codec sampling_message_to_json sampling_message_from_json any_value
  by unfold_locales
    (simp_all add: sampling_message_to_json_def sampling_message_from_json_def json_obj_def content_roundtrip)

interpretation model_hint_codec: json_codec model_hint_to_json model_hint_from_json any_value
  by unfold_locales (simp_all add: model_hint_to_json_def model_hint_from_json_def json_obj_def)

interpretation model_hints_codec:
  json_codec "put_vector model_hint_to_json" "get_vector model_hint_from_json" "list_all any_value"
  by (rule model_hint_codec.codec_vector)

interpretation model_preferences_codec:
  json_codec model_preferences_to_json model_preferences_from_json any_value
  by unfold_locales
    (simp_all add: model_preferences_to_json_def model_preferences_from_json_def
      content_field_roundtrips model_hints_codec.field_roundtrip)

record create_message_params =
  cm_messages :: "sampling_message list"
  cm_model_preferences :: "model_preferences option"
  cm_system_prompt :: "string option"
  cm_include_context :: "string option"
  cm_temperature :: "rat option"
  cm_max_tokens :: int
  cm_stop_sequences :: "string list option"
  cm_metadata :: "json option"
  cm_tools :: "json option"
  cm_tool_choice :: "json option"

definition create_message_params_to_json :: "create_message_params \<Rightarrow> json" where
  "create_message_params_to_json p =
     JObj (set_optional (\<lambda>j. j) ''toolChoice'' (cm_tool_choice p)
          (set_optional (\<lambda>j. j) ''tools'' (cm_tools p)
          (set_optional (\<lambda>j. j) ''metadata'' (cm_metadata p)
          (set_optional (put_vector JStr) ''stopSequences'' (cm_stop_sequences p)
          (set_optional JFloat ''temperature'' (cm_temperature p)
          (set_optional JStr ''includeContext'' (cm_include_context p)
          (set_optional JStr ''systemPrompt'' (cm_system_prompt p)
          (set_optional model_preferences_to_json ''modelPreferences'' (cm_model_preferences p)
          (mk_members [(''messages'', put_vector sampling_message_to_json (cm_messages p)),
                       (''maxTokens'', JInt (cm_max_tokens p))])))))))))"

definition create_message_params_from_json :: "json \<Rightarrow> create_message_params throws" where
  "create_message_params_from_json j =
     bindE (bindE (json_at ''messages'' j) (get_vector sampling_message_from_json)) (\<lambda>msgs.
     bindE (json_value get_int64 ''maxTokens'' 1024 j) (\<lambda>max_tokens.
     bindE (get_optional model_preferences_from_json ''modelPreferences'' j) (\<lambda>prefs.
     bindE (get_optional get_string ''systemPrompt'' j) (\<lambda>system_prompt.
     bindE (get_optional get_string ''includeContext'' j) (\<lambda>include_context.
     bindE (get_optional get_double ''temperature'' j) (\<lambda>temperature.
     bindE (get_optional (get_vector get_string) ''stopSequences'' j) (\<lambda>stop_sequences.
     bindE (get_optional get_json ''metadata'' j) (\<lambda>metadata.
     bindE (get_optional get_json ''tools'' j) (\<lambda>tools.
     bindE (get_optional get_json ''toolChoice'' j) (\<lambda>tool_choice.
     Inr \<lparr>cm_messages = msgs, cm_model_preferences = prefs, cm_system_prompt = system_prompt,
          cm_include_context = include_context, cm_temperature = temperature,
          cm_max_tokens = max_tokens, cm_stop_sequences = stop_sequences, cm_metadata = metadata,
          cm_tools = tools, cm_tool_choice = tool_choice\<rparr>))))))))))"

definition valid_create_message_params :: "create_message_params \<Rightarrow> bool" where
  "valid_create_message_params p \<longleftrightarrow>
     - (2 ^ 63) \<le> cm_max_tokens p \<and> cm_max_tokens p < 2 ^ 63 \<and> pred_option non_null (cm_metadata p) \<and>
     pred_option non_null (cm_tools p) \<and> pred_option non_null (cm_tool_choice p)"

record create_message_result =
  cmr_role :: role
  cmr_content :: "content list"
  cmr_model :: string
  cmr_stop_reason :: "string option"

text \<open>One block is sent as an object, any other number as an array.\<close>

definition create_message_result_to_json :: "create_message_result \<Rightarrow> json" where
  "create_message_result_to_json r =
     JObj (set_optional JStr ''stopReason'' (cmr_stop_reason r)
          (obj_put ''content''
            (case cmr_content r of [c] \<Rightarrow> content_to_json c | cs \<Rightarrow> content_list_to_json cs)
            (mk_members [(''role'', JStr (role_to_string (cmr_role r))), (''model'', JStr (cmr_model r))])))"

definition create_message_result_from_json :: "json \<Rightarrow> create_message_result result throws" where
  "create_message_result_from_json j =
     (if \<not> is_object j \<or> \<not> json_contains ''role'' j \<or> \<not> json_contains ''content'' j \<or>
         \<not> json_contains ''model'' j
      then fails InvalidParams ''malformed createMessage result''
      else
        bindE (bindE (json_at ''role'' j) get_string) (\<lambda>role.
        bindE (bindE (json_at ''model'' j) get_string) (\<lambda>model.
        bindE (get_optional get_string ''stopReason'' j) (\<lambda>stop_reason.
        bindE (json_at ''content'' j) (\<lambda>cj.
        bind_result
          (if is_array cj then content_list_from_json cj
           else bind_result (content_from_json cj) (\<lambda>c. returns [c]))
          (\<lambda>cs. returns \<lparr>cmr_role = (case role_from_string role of Some r \<Rightarrow> r | None \<Rightarrow> Assistant),
             cmr_content = cs, cmr_model = model, cmr_stop_reason = stop_reason\<rparr>))))))"

lemma create_message_params_roundtrip:
  "valid_create_message_params p \<Longrightarrow>
     create_message_params_from_json (create_message_params_to_json p) = Inr p"
  by (simp add: create_message_params_to_json_def create_message_params_from_json_def
      valid_create_message_params_def content_field_roundtrips model_preferences_codec.field_roundtrip
      raw_codec.field_roundtrip sampling_message_codec.vector_roundtrip json_value_def get_int64_def)

lemma create_message_result_roundtrip:
  "create_message_result_from_json (create_message_result_to_json r) = returns r"
proof (cases "\<exists>c. cmr_content r = [c]")
  case True
  then obtain c where c: "cmr_content r = [c]" by blast
  have "\<not> is_array (content_to_json c)" using content_to_json_object [of c] by (cases "content_to_json c") auto
  with c show ?thesis
    by (cases r)
      (simp add: create_message_result_to_json_def create_message_result_from_json_def
        content_roundtrip string_codec.field_roundtrip json_contains_def)
next
  case False
  then have "(case cmr_content r of [c] \<Rightarrow> content_to_json c | cs \<Rightarrow> content_list_to_json cs) =
      content_list_to_json (cmr_content r)"
    by (auto split: list.split)
  moreover have "is_array (content_list_to_json cs)" for cs by (simp add: content_list_to_json_def)
  ultimately show ?thesis
    by (simp add: create_message_result_to_json_def create_message_result_from_json_def
        content_list_roundtrip string_codec.field_roundtrip json_contains_def)
qed

subsection \<open>The tool-use loop\<close>

text \<open>
  \<open>ask\<close> is the blocking request to the client, \<open>execute\<close> the tool executor; both act on a state of
  the caller's choice.
\<close>

type_synonym tool_use = "string \<times> string \<times> json"
type_synonym tool_result = "string \<times> content list \<times> bool"
type_synonym 'w tool_executor = "tool_use \<Rightarrow> 'w \<Rightarrow> tool_result \<times> 'w"

fun tool_uses :: "content list \<Rightarrow> tool_use list" where
  "tool_uses [] = []"
| "tool_uses (c # cs) = (case c of Tool_Use i n inp \<Rightarrow> (i, n, inp) # tool_uses cs | _ \<Rightarrow> tool_uses cs)"

fun execute_all :: "'w tool_executor \<Rightarrow> tool_use list \<Rightarrow> 'w \<Rightarrow> tool_result list \<times> 'w" where
  "execute_all execute [] w = ([], w)"
| "execute_all execute (u # us) w =
     (let (r, w) = execute u w; (rs, w) = execute_all execute us w in (r # rs, w))"

definition append_turn :: "content list \<Rightarrow> tool_result list \<Rightarrow> create_message_params \<Rightarrow> create_message_params" where
  "append_turn answer tool_results p =
     p\<lparr>cm_messages := cm_messages p @
         map (\<lambda>c. \<lparr>sm_role = Assistant, sm_content = c\<rparr>) answer @
         map (\<lambda>(i, cs, err). \<lparr>sm_role = User, sm_content = Tool_Result i cs err\<rparr>) tool_results\<rparr>"

fun sampling_turns :: "(json \<Rightarrow> 'w \<Rightarrow> json result \<times> 'w) \<Rightarrow> 'w tool_executor \<Rightarrow> nat \<Rightarrow>
    create_message_params \<Rightarrow> 'w \<Rightarrow> create_message_result result throws \<times> 'w" where
  "sampling_turns ask execute 0 p w =
     (fails InternalError ''sampling tool-use loop exceeded max turns'', w)"
| "sampling_turns ask execute (Suc n) p w =
     (case ask (create_message_params_to_json p) w of
        (Inl e, w) \<Rightarrow> (Inr (Inl e), w)
      | (Inr response, w) \<Rightarrow>
          (case create_message_result_from_json response of
             Inl x \<Rightarrow> (Inl x, w)
           | Inr (Inl e) \<Rightarrow> (Inr (Inl e), w)
           | Inr (Inr res) \<Rightarrow>
               if tool_uses (cmr_content res) = [] then (returns res, w)
               else
                 let (rs, w) = execute_all execute (tool_uses (cmr_content res)) w
                 in sampling_turns ask execute n (append_turn (cmr_content res) rs p) w))"

definition run_sampling_tool_loop :: "(json \<Rightarrow> 'w \<Rightarrow> json result \<times> 'w) \<Rightarrow>
    'w tool_executor \<Rightarrow> create_message_params \<Rightarrow> int \<Rightarrow> 'w \<Rightarrow>
    create_message_result result throws \<times> 'w" where
  "run_sampling_tool_loop ask execute p max_turns w = sampling_turns ask execute (nat max_turns) p w"

subsection \<open>What the loop does\<close>

lemma tool_uses_Nil: "tool_uses cs = [] \<longleftrightarrow> (\<forall>c \<in> set cs. \<forall>i n inp. c \<noteq> Tool_Use i n inp)"
  by (induction cs) (auto split: content.split)

lemma execute_all_length: "length (fst (execute_all execute us w)) = length us"
  by (induction us arbitrary: w) (auto simp: split_beta Let_def)

text \<open>An observer that counts the requests and keeps the last one.\<close>

definition recording :: "(json \<Rightarrow> 'w \<Rightarrow> json result \<times> 'w) \<Rightarrow> json \<Rightarrow> 'w \<times> json list \<Rightarrow>
    json result \<times> 'w \<times> json list" where
  "recording ask j w = (case ask j (fst w) of (r, w') \<Rightarrow> (r, w', snd w @ [j]))"

definition recording_executor :: "'w tool_executor \<Rightarrow> ('w \<times> json list) tool_executor" where
  "recording_executor execute u w = (case execute u (fst w) of (r, w') \<Rightarrow> (r, w', snd w))"

lemma execute_all_recording [simp]:
  "snd (snd (execute_all (recording_executor execute) us w)) = snd w"
  by (induction us arbitrary: w) (auto simp: split_beta Let_def recording_executor_def)

lemma sampling_turns_bounded:
  "\<exists>js. snd (snd (sampling_turns (recording ask) (recording_executor execute) n p w)) = snd w @ js \<and>
     length js \<le> n"
proof (induction n arbitrary: p w)
  case 0
  then show ?case by simp
next
  case (Suc n)
  obtain r w' where "ask (create_message_params_to_json p) (fst w) = (r, w')" by fastforce
  then have ask: "recording ask (create_message_params_to_json p) w =
      (r, w', snd w @ [create_message_params_to_json p])"
    by (simp add: recording_def)
  show ?case
  proof (cases r)
    case (Inl e)
    with ask show ?thesis by simp
  next
    case (Inr response)
    show ?thesis
    proof (cases "\<exists>res. create_message_result_from_json response = returns res \<and> tool_uses (cmr_content res) \<noteq> []")
      case False
      with ask Inr show ?thesis
        by (auto split: sum.split)
    next
      case True
      then obtain res where res: "create_message_result_from_json response = returns res"
        "tool_uses (cmr_content res) \<noteq> []" by blast
      let ?ex = "execute_all (recording_executor execute) (tool_uses (cmr_content res))
        (w', snd w @ [create_message_params_to_json p])"
      from Suc.IH [of "append_turn (cmr_content res) (fst ?ex) p" "snd ?ex"] obtain js where
        "snd (snd (sampling_turns (recording ask) (recording_executor execute) n
          (append_turn (cmr_content res) (fst ?ex) p) (snd ?ex))) = snd (snd ?ex) @ js" "length js \<le> n"
        by blast
      with ask Inr res show ?thesis
        by (auto simp: split_beta Let_def intro!: exI [of _ "create_message_params_to_json p # js"])
    qed
  qed
qed

lemma sampling_turns_final:
  "fst (sampling_turns ask execute n p w) = returns res \<Longrightarrow> tool_uses (cmr_content res) = []"
proof (induction n arbitrary: p w)
  case (Suc n)
  then show ?case
    by (cases "ask (create_message_params_to_json p) w")
      (auto simp: split_beta Let_def split: sum.splits if_splits)
qed simp

subsection \<open>Properties\<close>

text \<open>
  C40. The sampling loop of a server ends: it asks the client at most \<open>max_turns\<close> times, whatever the
  client answers, and a result it returns holds no tool use that was left unanswered.
\<close>

theorem sampling_loop_bounded:
  "length (snd (snd (run_sampling_tool_loop (recording ask) (recording_executor execute) p max_turns (w, []))))
      \<le> nat max_turns \<and>
   (\<forall>res. fst (run_sampling_tool_loop ask execute p max_turns w) = returns res \<longrightarrow>
      (\<forall>c \<in> set (cmr_content res). \<forall>i n inp. c \<noteq> Tool_Use i n inp))"
  using sampling_turns_bounded [of ask execute "nat max_turns" p "(w, [])"]
    sampling_turns_final [of ask execute "nat max_turns" p w]
  by (auto simp: run_sampling_tool_loop_def tool_uses_Nil)

definition sample_params :: create_message_params where
  "sample_params = \<lparr>cm_messages = [], cm_model_preferences = None, cm_system_prompt = None,
     cm_include_context = None, cm_temperature = None, cm_max_tokens = 10, cm_stop_sequences = None,
     cm_metadata = None, cm_tools = None, cm_tool_choice = None\<rparr>"

definition sample_answer :: create_message_result where
  "sample_answer = \<lparr>cmr_role = Assistant, cmr_content = [text_content ''done''], cmr_model = ''m'',
     cmr_stop_reason = None\<rparr>"

lemma sampling_loop_bounded_witness:
  "fst (run_sampling_tool_loop (\<lambda>(j :: json) (w :: unit). (Inr (create_message_result_to_json sample_answer), w))
       (\<lambda>u w. (([], [], False), w)) sample_params 1 ()) = returns sample_answer \<and>
   tool_uses (cmr_content sample_answer) = []"
proof -
  let ?ask = "\<lambda>(j :: json) (w :: unit). (Inr (create_message_result_to_json sample_answer) :: json result, w)"
  have run: "fst (run_sampling_tool_loop ?ask (\<lambda>u w. (([], [], False), w)) sample_params 1 ()) = returns sample_answer"
    by (simp add: run_sampling_tool_loop_def create_message_result_roundtrip)
      (simp add: sample_answer_def text_content_def)
  with sampling_loop_bounded [of ?ask "\<lambda>u w. (([], [], False), w)" sample_params 1 "()"]
  have "tool_uses (cmr_content sample_answer) = []" by (auto simp: tool_uses_Nil)
  with run show ?thesis by simp
qed

end
