(* ===== verification/Mcp_Client_Session.thy ===== *)
theory Mcp_Client_Session
  imports Mcp_Server_Session
begin

text \<open>
  The client end of a session (\<^verbatim>\<open>ClientSession\<close> in \<^verbatim>\<open>include/mcp/core/session.hpp\<close> and
  \<^verbatim>\<open>src/core/session.cpp\<close>) and the handshake of a client with a server session.

  \<^verbatim>\<open>ClientSession::initialize\<close> blocks on the response; \<open>initialize_begin\<close> is the part up to the
  wait, \<open>initialize_end\<close> the part that continues with what the response callback received.
\<close>

record client_options =
  co_client_info :: implementation
  co_capabilities :: client_capabilities
  co_supported_versions :: "string list"
  co_initialize_timeout :: int

record ('a, 'b) client_session = "('a, 'b) session" +
  cs_options :: client_options
  cs_server_info :: "implementation option"
  cs_server_capabilities :: "server_capabilities option"

definition new_client_session :: "client_options \<Rightarrow> ('a, 'b) client_session" where
  "new_client_session opts =
     session.extend new_session
       \<lparr>cs_options = opts, cs_server_info = None, cs_server_capabilities = None\<rparr>"

definition initialize_request_params :: "client_options \<Rightarrow> string \<Rightarrow> initialize_params" where
  "initialize_request_params opts v =
     \<lparr>ip_protocol_version = v, ip_capabilities = co_capabilities opts,
      ip_client_info = co_client_info opts\<rparr>"

text \<open>\<open>returns id\<close> is the request waited for, \<open>Inl\<close> an error returned at once.\<close>

definition initialize_begin :: "int \<Rightarrow> callback \<Rightarrow> ('a, 'b, 'z) client_session_scheme \<Rightarrow>
    request_id result throws \<times> ('a, 'b, 'z) client_session_scheme" where
  "initialize_begin now cb s =
     (if s_state s \<noteq> Uninitialized
      then (fails InvalidRequest ''session already initialized'', s)
      else
        let s = set_state Initializing s in
        case co_supported_versions (cs_options s) of
          [] \<Rightarrow> (Inl (Undefined ''front of an empty vector''), s)
        | v # _ \<Rightarrow>
            let params = initialize_request_params (cs_options s) v;
                opts = (if co_initialize_timeout (cs_options s) > 0
                        then no_options\<lparr>ro_timeout := Some (co_initialize_timeout (cs_options s))\<rparr>
                        else no_options);
                (sent, s) = send_request now kInitialize (Some (initialize_params_to_json params)) cb opts s
            in (mapE Inr sent, s))"

definition initialize_end :: "json result \<Rightarrow> ('a, 'b, 'z) client_session_scheme \<Rightarrow>
    initialize_result result throws \<times> ('a, 'b, 'z) client_session_scheme" where
  "initialize_end response s =
     (case response of
        Inl e \<Rightarrow> (Inr (Inl e), set_state Uninitialized s)
      | Inr value \<Rightarrow>
          (case initialize_result_from_json value of
             Inl (Json_Exn w) \<Rightarrow>
               (fails InternalError (''invalid initialize result: '' @ w), set_state Uninitialized s)
           | Inl x \<Rightarrow> (Inl x, s)
           | Inr res \<Rightarrow>
               if ir_protocol_version res \<notin> set (co_supported_versions (cs_options s))
               then (fails InvalidRequest
                       (''unsupported protocol version: '' @ ir_protocol_version res), disconnect s)
               else
                 let s = s\<lparr>cs_server_info := Some (ir_server_info res),
                           cs_server_capabilities := Some (ir_capabilities res)\<rparr>;
                     s = send_notification kNotificationInitialized None s
                 in (returns res, set_state Operating s)))"

definition client_gates :: "client_capabilities \<Rightarrow> (string \<times> bool) list" where
  "client_gates c =
     [(''sampling/'', cl_sampling c \<noteq> None), (''roots/'', cl_roots c \<noteq> None),
      (''elicitation/'', cl_elicitation c \<noteq> None), (''tasks/'', cl_tasks c \<noteq> None)]"

definition client_check_incoming_request :: "jsonrpc_request \<Rightarrow> ('a, 'b, 'z) client_session_scheme \<Rightarrow>
    error option" where
  "client_check_incoming_request q s =
     (if req_method q = kPing then None
      else if s_state s \<noteq> Operating
      then Some (mk_error ConnectionNotInitialized ''session is not initialized'')
      else check_gates (client_gates (co_capabilities (cs_options s))) (req_method q))"

definition client_handle_message :: "('a, ('a, 'b, 'z) client_session_scheme) request_runner \<Rightarrow>
    ('b, ('a, 'b, 'z) client_session_scheme) notification_runner \<Rightarrow> int \<Rightarrow> message \<Rightarrow>
    ('a, 'b, 'z) client_session_scheme \<Rightarrow> unit throws \<times> ('a, 'b, 'z) client_session_scheme" where
  "client_handle_message app_req app_note now m s =
     handle_message client_check_incoming_request app_req app_note now m s"

subsection \<open>The gate of the client\<close>

lemma client_gate_rejects:
  assumes "req_method q \<noteq> kPing" and "req_method q \<noteq> kInitialize" and "s_state s \<noteq> Operating"
  shows "client_handle_message app_req app_note now (Request q) s =
    (Inr (), send_message (Response (error_response (Some (req_id q))
       (mk_error ConnectionNotInitialized ''session is not initialized''))) s)"
  using assms by (simp add: client_handle_message_def client_check_incoming_request_def)

lemma client_gate_capability:
  assumes "s_state s = Operating" and "req_method q \<noteq> kPing" and "req_method q \<noteq> kInitialize"
    and "(prefix, False) \<in> set (client_gates (co_capabilities (cs_options s)))"
    and "starts_with (req_method q) prefix"
  shows "client_handle_message app_req app_note now (Request q) s =
    (Inr (), send_message (Response (error_response (Some (req_id q))
       (mk_error CapabilityNotSupported (''capability not supported: '' @ req_method q)))) s)"
proof -
  have "check_gates (client_gates (co_capabilities (cs_options s))) (req_method q) =
      Some (mk_error CapabilityNotSupported (''capability not supported: '' @ req_method q))"
    using assms(4,5) by (force simp: check_gates_eq)
  with assms(1-3) show ?thesis
    by (simp add: client_handle_message_def client_check_incoming_request_def)
qed

subsection \<open>The steps of the handshake\<close>

lemma client_session_frame [simp]:
  "cs_options (set_state st s) = cs_options s" "cs_server_info (set_state st s) = cs_server_info s"
  "cs_options (emit es s) = cs_options s" "cs_server_info (emit es s) = cs_server_info s"
  "cs_options (send_message m s) = cs_options s" "cs_server_info (send_message m s) = cs_server_info s"
  "cs_options (invoke invs s) = cs_options s"
  "cs_options (clear_tracking i s) = cs_options s"
  "cs_options (track_request now i opts s) = cs_options s"
  by (auto simp: set_state_def emit_def send_message_def invoke_def clear_tracking_def
      track_request_def Let_def split: option.split)

lemma initialize_begin_sends:
  assumes "s_state s = Uninitialized" and "co_supported_versions (cs_options s) = v # vs"
  shows "\<exists>s'. initialize_begin now cb s = (returns (Id_Int (s_next_request_id s)), s') \<and>
    s_trace s' = s_trace s @ [Sent (Request \<lparr>req_id = Id_Int (s_next_request_id s),
      req_method = kInitialize,
      req_params = Some (initialize_params_to_json (initialize_request_params (cs_options s) v))\<rparr>)] \<and>
    s_state s' = Initializing \<and> cs_options s' = cs_options s \<and>
    map_of (pending (s_router s')) (Id_Int (s_next_request_id s)) = Some cb"
  using assms
  by (simp add: initialize_begin_def send_request_def no_options_def Let_def split_beta)

lemma client_receives_response:
  assumes "map_of (pending (s_router s)) i = Some cb"
  shows "\<exists>s'. client_handle_message app_req app_note now (Response (result_response (Some i) v)) s =
      (Inr (), s') \<and> s_trace s' = s_trace s @ [Invoked i cb (Inr v)] \<and> s_state s' = s_state s \<and>
    cs_options s' = cs_options s"
proof -
  have opts: "cs_options (complete_response resp t) = cs_options t" for resp t
    by (simp add: complete_response_def split_beta Let_def)
  show ?thesis
    using assms
    by (simp add: client_handle_message_def complete_response_def dispatch_response_alt Let_def
        result_response_def opts)
qed

lemma initialize_end_accepts:
  assumes "initialize_result_from_json v = Inr res"
    and "ir_protocol_version res \<in> set (co_supported_versions (cs_options s))"
  shows "\<exists>s'. initialize_end (Inr v) s = (returns res, s') \<and> s_state s' = Operating \<and>
    s_trace s' = s_trace s @
      [Sent (Notification \<lparr>note_method = kNotificationInitialized, note_params = None\<rparr>)] \<and>
    cs_server_info s' = Some (ir_server_info res)"
  using assms by (simp add: initialize_end_def Let_def send_notification_def)

lemma initialize_end_rejects:
  assumes "initialize_result_from_json v = Inr res"
    and "ir_protocol_version res \<notin> set (co_supported_versions (cs_options s))"
  shows "initialize_end (Inr v) s =
    (fails InvalidRequest (''unsupported protocol version: '' @ ir_protocol_version res), disconnect s)"
  using assms by (simp add: initialize_end_def)

lemma initialize_end_cases:
  "(\<exists>res. fst (initialize_end r s) = returns res \<and> s_state (snd (initialize_end r s)) = Operating \<and>
      ir_protocol_version res \<in> set (co_supported_versions (cs_options s))) \<or>
   (\<exists>e. fst (initialize_end r s) = Inr (Inl e) \<and>
      (s_state (snd (initialize_end r s)) = Uninitialized \<or>
       s_state (snd (initialize_end r s)) = Shutdown))"
proof (cases r)
  case (Inl e)
  then show ?thesis by (simp add: initialize_end_def)
next
  case (Inr v)
  have "json_only (initialize_result_from_json v)" by simp
  with Inr show ?thesis
    by (cases "initialize_result_from_json v")
      (auto simp: initialize_end_def json_only_def Let_def disconnect_def)
qed

subsection \<open>The handshake\<close>

text \<open>
  A fresh client and a fresh server exchange the three messages of the handshake; each message
  crosses the wire as its JSON text does, through \<open>message_to_json\<close> and \<open>parse_message\<close>.
\<close>

definition deliver :: "message \<Rightarrow> message option" where
  "deliver m = (case parse_message (message_to_json m) of Inr (Inr m') \<Rightarrow> Some m' | _ \<Rightarrow> None)"

lemma deliver_valid [simp]: "valid_message m \<Longrightarrow> deliver m = Some m"
  by (simp add: deliver_def parse_message_to_json)

definition last_sent :: "effect list \<Rightarrow> message option" where
  "last_sent es = (case rev es of Sent m # _ \<Rightarrow> Some m | _ \<Rightarrow> None)"

lemma last_sent_snoc [simp]: "last_sent (es @ [Sent m]) = Some m"
  by (simp add: last_sent_def)

definition last_invoked :: "effect list \<Rightarrow> json result option" where
  "last_invoked es = (case rev es of Invoked i cb r # _ \<Rightarrow> Some r | _ \<Rightarrow> None)"

lemma last_invoked_snoc [simp]: "last_invoked (es @ [Invoked i cb r]) = Some r"
  by (simp add: last_invoked_def)

definition chosen_version :: "string list \<Rightarrow> string list \<Rightarrow> string" where
  "chosen_version client server =
     (if hd client \<in> set server then hd client else hd server)"

type_synonym ('a, 'b) client_app =
  "('a, ('a, 'b) client_session) request_runner \<times> ('b, ('a, 'b) client_session) notification_runner"
type_synonym ('c, 'd) server_app =
  "('c, ('c, 'd) server_session) request_runner \<times> ('d, ('c, 'd) server_session) notification_runner"

definition handshake :: "('a, 'b) client_app \<Rightarrow> ('c, 'd) server_app \<Rightarrow> client_options \<Rightarrow> server_options \<Rightarrow>
    (initialize_result result throws \<times> ('a, 'b) client_session \<times> ('c, 'd) server_session) option" where
  "handshake capp sapp copts sopts =
     (let c1 = snd (initialize_begin 0 0 (new_client_session copts)) in
      Option.bind (Option.bind (last_sent (s_trace c1)) deliver) (\<lambda>m1.
      let s1 = snd (server_handle_message (fst sapp) (snd sapp) 0 m1 (new_server_session sopts)) in
      Option.bind (Option.bind (last_sent (s_trace s1)) deliver) (\<lambda>m2.
      let c2 = snd (client_handle_message (fst capp) (snd capp) 0 m2 c1) in
      Option.bind (last_invoked (s_trace c2)) (\<lambda>r.
      let (res, c3) = initialize_end r c2 in
      Some (res, c3,
        case Option.bind (last_sent (s_trace c3)) deliver of
          None \<Rightarrow> s1
        | Some m3 \<Rightarrow> snd (server_handle_message (fst sapp) (snd sapp) 0 m3 s1))))))"

lemma new_client_session_simps [simp]:
  "s_state (new_client_session opts) = Uninitialized" "cs_options (new_client_session opts) = opts"
  "s_trace (new_client_session opts) = []" "s_next_request_id (new_client_session opts) = 1"
  by (simp_all add: new_client_session_def session.defs new_session_def)

lemma initialize_params_valid [simp]: "valid_params (initialize_params_to_json p)"
  by (simp add: initialize_params_to_json_def json_obj_def valid_params_def)

lemma result_response_sel [simp]:
  "resp_id (result_response i j) = i" "resp_result (result_response i j) = Some j"
  "resp_error (result_response i j) = None"
  by (simp_all add: result_response_def)

lemma handshake_result:
  fixes capp :: "('a, 'b) client_app" and sapp :: "('c, 'd) server_app"
  assumes "co_supported_versions copts \<noteq> []" and "so_supported_versions sopts \<noteq> []"
    and "valid_client_capabilities (co_capabilities copts)"
    and "valid_server_capabilities (so_capabilities sopts)"
  defines "v \<equiv> chosen_version (co_supported_versions copts) (so_supported_versions sopts)"
  shows "\<exists>c s. handshake capp sapp copts sopts =
      Some (if v \<in> set (co_supported_versions copts) then returns (initialize_answer sopts v)
            else fails InvalidRequest (''unsupported protocol version: '' @ v), c, s) \<and>
    ss_client_info s = Some (co_client_info copts) \<and>
    (if v \<in> set (co_supported_versions copts)
     then s_state c = Operating \<and> s_state s = Operating \<and> cs_server_info c = Some (so_server_info sopts)
     else s_state c = Shutdown \<and> s_state s = Initializing)"
proof -
  obtain ver vs where vers: "co_supported_versions copts = ver # vs"
    using assms(1) by (cases "co_supported_versions copts") auto
  let ?p = "initialize_params_to_json (initialize_request_params copts ver)"
  let ?q = "Request \<lparr>req_id = Id_Int 1, req_method = kInitialize, req_params = Some ?p\<rparr>"
  obtain c1 :: "('a, 'b) client_session" where
    c1: "initialize_begin 0 0 (new_client_session copts) = (returns (Id_Int 1), c1)"
    "s_trace c1 = [Sent ?q]" "cs_options c1 = copts"
    "map_of (pending (s_router c1)) (Id_Int 1) = Some 0"
    using initialize_begin_sends [of "new_client_session copts" ver vs 0 0] vers by auto
  have parsed: "initialize_params_from_json ?p = Inr (initialize_request_params copts ver)"
    using assms(3) by (simp add: initialize_params_roundtrip initialize_request_params_def)
  have v: "v = (if ver \<in> set (so_supported_versions sopts) then ver else hd (so_supported_versions sopts))"
    by (simp add: v_def chosen_version_def vers)
  let ?ans = "initialize_result_to_json (initialize_answer sopts v)"
  obtain s1 :: "('c, 'd) server_session" where
    s1: "server_handle_message (fst sapp) (snd sapp) 0 ?q (new_server_session sopts) = (Inr (), s1)"
    "s_trace s1 = [Sent (Response (result_response (Some (Id_Int 1)) ?ans))]"
    "s_state s1 = Initializing" "ss_client_info s1 = Some (co_client_info copts)"
    "s_router s1 = server_router"
    using server_initialize_answer [of "new_server_session sopts" ?p _ "fst sapp" "snd sapp" 0 "Id_Int 1",
        OF _ _ parsed] assms(2)
    by (simp add: v initialize_request_params_def)
  obtain c2 :: "('a, 'b) client_session" where
    c2: "client_handle_message (fst capp) (snd capp) 0
        (Response (result_response (Some (Id_Int 1)) ?ans)) c1 = (Inr (), c2)"
    "s_trace c2 = s_trace c1 @ [Invoked (Id_Int 1) 0 (Inr ?ans)]" "cs_options c2 = copts"
    using client_receives_response [OF c1(4), of "fst capp" "snd capp" 0 ?ans] c1(3) by auto
  have res: "initialize_result_from_json ?ans = Inr (initialize_answer sopts v)"
    using assms(4) by (simp add: initialize_result_roundtrip initialize_answer_def)
  have so_far: "handshake capp sapp copts sopts =
      Some (fst (initialize_end (Inr ?ans) c2), snd (initialize_end (Inr ?ans) c2),
        case Option.bind (last_sent (s_trace (snd (initialize_end (Inr ?ans) c2)))) deliver of
          None \<Rightarrow> s1
        | Some m3 \<Rightarrow> snd (server_handle_message (fst sapp) (snd sapp) 0 m3 s1))"
    unfolding handshake_def
    using last_sent_snoc [of "[]"] last_invoked_snoc [of "s_trace c1"]
    by (simp add: c1(1,2) s1(1,2) c2(1,2) split_beta)
  show ?thesis
  proof (cases "v \<in> set (co_supported_versions copts)")
    case True
    then obtain c3 where "initialize_end (Inr ?ans) c2 = (returns (initialize_answer sopts v), c3)"
      "s_state c3 = Operating" "cs_server_info c3 = Some (so_server_info sopts)"
      "s_trace c3 = s_trace c2 @
         [Sent (Notification \<lparr>note_method = kNotificationInitialized, note_params = None\<rparr>)]"
      using initialize_end_accepts [OF res, of c2] c2(3) by (auto simp: initialize_answer_def)
    with True so_far s1 show ?thesis
      by (simp add: server_initialized)
  next
    case False
    then have "initialize_end (Inr ?ans) c2 =
        (fails InvalidRequest (''unsupported protocol version: '' @ v), disconnect c2)"
      using initialize_end_rejects [OF res, of c2] c2(3) by (simp add: initialize_answer_def)
    with False so_far s1 show ?thesis
      by (simp add: disconnect_def last_sent_def)
  qed
qed

subsection \<open>Properties\<close>

text \<open>
  C2. The handshake: a fresh client and a fresh server that exchange the messages of
  \<^verbatim>\<open>initialize\<close> over the wire agree on the client's preferred version if the server supports it and
  on the server's otherwise.  If the client supports that version both sessions are \<open>Operating\<close> and
  know each other's implementation info; if not, the client reports the version and is \<open>Shutdown\<close>, and
  the server is not \<open>Operating\<close>.
\<close>

theorem handshake_completes:
  fixes capp :: "('a, 'b) client_app" and sapp :: "('c, 'd) server_app"
  assumes "co_supported_versions copts \<noteq> []" and "so_supported_versions sopts \<noteq> []"
    and "valid_client_capabilities (co_capabilities copts)"
    and "valid_server_capabilities (so_capabilities sopts)"
    and "v = chosen_version (co_supported_versions copts) (so_supported_versions sopts)"
  shows "\<exists>c s. handshake capp sapp copts sopts =
      Some (if v \<in> set (co_supported_versions copts) then returns (initialize_answer sopts v)
            else fails InvalidRequest (''unsupported protocol version: '' @ v), c, s) \<and>
    ss_client_info s = Some (co_client_info copts) \<and>
    (if v \<in> set (co_supported_versions copts)
     then s_state c = Operating \<and> s_state s = Operating \<and> cs_server_info c = Some (so_server_info sopts)
     else s_state c = Shutdown \<and> s_state s = Initializing)"
  unfolding assms(5) by (rule handshake_result [OF assms(1-4)])

definition sample_client_options :: client_options where
  "sample_client_options =
     \<lparr>co_client_info = \<lparr>impl_name = ''cli'', impl_title = None, impl_version = ''1''\<rparr>,
      co_capabilities = no_client_capabilities, co_supported_versions = [kProtocolVersion],
      co_initialize_timeout = 10000\<rparr>"

lemma handshake_completes_witness:
  "\<exists>c s. handshake (\<lambda>h params s. (returns JNull, s), \<lambda>h params s. (Inr (), s))
      (\<lambda>h params s. (returns JNull, s), \<lambda>h params s. (Inr (), s))
      sample_client_options sample_server_options =
    Some (returns (initialize_answer sample_server_options kProtocolVersion),
      c :: (unit, unit) client_session, s :: (unit, unit) server_session) \<and>
    s_state c = Operating \<and> s_state s = Operating"
  using handshake_completes [of sample_client_options sample_server_options kProtocolVersion
      "(\<lambda>h params s. (returns JNull, s), \<lambda>h params s. (Inr (), s)) :: (unit, unit) client_app"
      "(\<lambda>h params s. (returns JNull, s), \<lambda>h params s. (Inr (), s)) :: (unit, unit) server_app"]
  by (auto simp: sample_client_options_def sample_server_options_def valid_client_capabilities_def
      valid_server_capabilities_def no_client_capabilities_def no_server_capabilities_def chosen_version_def)

text \<open>
  \<^verbatim>\<open>ClientSession::initialize\<close> ends in a defined state on every response: \<open>Operating\<close> with a
  version the client supports, or an error with the session back to \<open>Uninitialized\<close> (it may be tried
  again) or \<open>Shutdown\<close>; no exception leaves it, whatever the server sent as result.
\<close>

theorem initialize_end_total:
  "(\<exists>res. fst (initialize_end r s) = returns res \<and> s_state (snd (initialize_end r s)) = Operating \<and>
      ir_protocol_version res \<in> set (co_supported_versions (cs_options s))) \<or>
   (\<exists>e. fst (initialize_end r s) = Inr (Inl e) \<and>
      s_state (snd (initialize_end r s)) \<in> {Uninitialized, Shutdown})"
  using initialize_end_cases [of r s] by auto

text \<open>
  The gate of the client: requests of the server are refused with \<open>-32000\<close> until the handshake is
  complete, and with \<open>-32002\<close> when they need a capability the client did not declare; no handler
  runs and the session does not change.
\<close>

theorem client_gate:
  assumes "req_method q \<noteq> kPing" and "req_method q \<noteq> kInitialize"
    and "s_state s \<noteq> Operating \<or>
      (\<exists>g \<in> set (client_gates (co_capabilities (cs_options s))). starts_with (req_method q) (fst g) \<and> \<not> snd g)"
  shows "\<exists>e. client_handle_message app_req app_note now (Request q) s =
      (Inr (), send_message (Response (error_response (Some (req_id q)) e)) s) \<and>
    err_code e = (if s_state s = Operating then -32002 else -32000)"
proof (cases "s_state s = Operating")
  case False
  with client_gate_rejects [OF assms(1,2), of s] show ?thesis by auto
next
  case True
  with assms(3) obtain prefix where
    "(prefix, False) \<in> set (client_gates (co_capabilities (cs_options s)))" "starts_with (req_method q) prefix"
    by auto
  with client_gate_capability [OF True assms(1,2)] True show ?thesis by auto
qed

lemma client_gate_witness:
  "\<exists>e. client_handle_message (\<lambda>h params s. (Inl (Std_Exn ''boom''), s)) (\<lambda>h params s. (Inr (), s)) 0
      (Request \<lparr>req_id = Id_Int 5, req_method = ''roots/list'', req_params = None\<rparr>)
      (new_client_session sample_client_options :: (unit, unit) client_session) =
      (Inr (), send_message (Response (error_response
        (Some (req_id \<lparr>req_id = Id_Int 5, req_method = ''roots/list'', req_params = None\<rparr>)) e))
        (new_client_session sample_client_options)) \<and>
    err_code e = (if s_state (new_client_session sample_client_options :: (unit, unit) client_session) = Operating
      then -32002 else -32000)"
  by (rule client_gate) (simp_all add: method_defs)

end
