(* ===== verification/Mcp_Client.thy ===== *)
theory Mcp_Client
  imports Mcp_Sampling Mcp_Tools Mcp_Prompts Mcp_Client_Session
begin

text \<open>
  The client (\<^verbatim>\<open>include/mcp/client/client.hpp\<close>, \<^verbatim>\<open>src/client/client.cpp\<close>): the capabilities it
  derives, the handlers it installs for the requests and notifications of the server, and the typed
  wrappers of the server's features.

  A blocking wrapper is two functions, the parameters it sends and what it makes of the response.
\<close>

datatype client_hook = Tools_Changed | Resources_Changed | Prompts_Changed | Resource_Updated | Log_Message

type_synonym sampling_handler = "create_message_params \<Rightarrow> create_message_result result throws"

record mcp_client =
  mc_info :: implementation
  mc_roots :: roots_provider
  mc_roots_enabled :: bool
  mc_sampling_handler :: "sampling_handler option"
  mc_elicitation_handler :: "elicitation_handler option"
  mc_hooks :: "client_hook set"
  mc_timeout :: int

definition new_client :: "string \<Rightarrow> string \<Rightarrow> mcp_client" where
  "new_client name version =
     \<lparr>mc_info = \<lparr>impl_name = name, impl_title = None, impl_version = version\<rparr>,
      mc_roots = new_roots_provider, mc_roots_enabled = False, mc_sampling_handler = None,
      mc_elicitation_handler = None, mc_hooks = {}, mc_timeout = 30000\<rparr>"

definition set_sampling_handler :: "sampling_handler option \<Rightarrow> mcp_client \<Rightarrow> mcp_client" where
  "set_sampling_handler h c = c\<lparr>mc_sampling_handler := h\<rparr>"

definition set_elicitation_handler :: "elicitation_handler option \<Rightarrow> mcp_client \<Rightarrow> mcp_client" where
  "set_elicitation_handler h c = c\<lparr>mc_elicitation_handler := h\<rparr>"

definition enable_roots :: "mcp_client \<Rightarrow> mcp_client" where
  "enable_roots c = c\<lparr>mc_roots_enabled := True\<rparr>"

definition on_hook :: "client_hook \<Rightarrow> mcp_client \<Rightarrow> mcp_client" where
  "on_hook h c = c\<lparr>mc_hooks := insert h (mc_hooks c)\<rparr>"

definition client_capabilities_of :: "mcp_client \<Rightarrow> client_capabilities" where
  "client_capabilities_of c =
     (let k = no_client_capabilities;
          k = (if mc_roots_enabled c \<or> roots_size (mc_roots c) > 0
               then k\<lparr>cl_roots := Some \<lparr>rootc_list_changed = Some True\<rparr>\<rparr> else k);
          k = (if mc_sampling_handler c \<noteq> None
               then k\<lparr>cl_sampling := Some \<lparr>sc_tools = Some True, sc_context = Some True\<rparr>\<rparr> else k)
      in if mc_elicitation_handler c \<noteq> None
         then k\<lparr>cl_elicitation := Some \<lparr>ec_form = Some True, ec_url = Some True\<rparr>\<rparr> else k)"

definition client_options_of :: "mcp_client \<Rightarrow> client_options" where
  "client_options_of c =
     \<lparr>co_client_info = mc_info c, co_capabilities = client_capabilities_of c,
      co_supported_versions = [kProtocolVersion], co_initialize_timeout = 10000\<rparr>"

subsection \<open>Handlers for the server\<close>

definition parse_typed :: "'a result throws \<Rightarrow> 'a result throws" where
  "parse_typed m = catch_json (\<lambda>w. Inl (mk_error InternalError (''malformed server response: '' @ w))) m"

definition handle_roots_list :: "mcp_client \<Rightarrow> json result throws" where
  "handle_roots_list c = returns (json_obj [(''roots'', put_vector root_to_json (list_roots (mc_roots c)))])"

definition handle_create_message :: "json option \<Rightarrow> mcp_client \<Rightarrow> json result throws" where
  "handle_create_message params c =
     (case mc_sampling_handler c of
        None \<Rightarrow> fails CapabilityNotSupported ''no sampling handler configured''
      | Some handler \<Rightarrow>
          (case params of
             None \<Rightarrow> fails InvalidParams ''createMessage requires params''
           | Some p \<Rightarrow>
               parse_typed (bindE (create_message_params_from_json p) (\<lambda>request.
                 bind_result (handler request) (\<lambda>r. returns (create_message_result_to_json r))))))"

definition handle_elicitation :: "(json \<Rightarrow> string throws) \<Rightarrow> json option \<Rightarrow> mcp_client \<Rightarrow> json result throws" where
  "handle_elicitation dump params c =
     (case mc_elicitation_handler c of
        None \<Rightarrow> fails CapabilityNotSupported ''no elicitation handler configured''
      | Some handler \<Rightarrow>
          (case params of
             None \<Rightarrow> fails InvalidParams ''elicitation requires params''
           | Some p \<Rightarrow>
               bind_result (elicit_request_from_json p) (\<lambda>request.
               bind_result (handler request) (\<lambda>res.
               case (er_action res, el_requested_schema request, er_content res) of
                 (Accept, Some schema, Some v) \<Rightarrow>
                   (case validate_schema dump v schema of
                      Inl x \<Rightarrow> Inl x
                    | Inr (Inl e) \<Rightarrow>
                        fails InvalidParams
                          (''elicitation content does not match the requested schema: '' @ err_message e)
                    | Inr (Inr _) \<Rightarrow> returns (elicit_result_to_json res))
               | _ \<Rightarrow> returns (elicit_result_to_json res)))))"

datatype client_feature = Roots_List | Create_Message | Elicitation_Create

fun run_client_feature :: "(json \<Rightarrow> string throws) \<Rightarrow> client_feature \<Rightarrow> json option \<Rightarrow> mcp_client \<Rightarrow>
    json result throws" where
  "run_client_feature dump Roots_List params c = handle_roots_list c"
| "run_client_feature dump Create_Message params c = handle_create_message params c"
| "run_client_feature dump Elicitation_Create params c = handle_elicitation dump params c"

text \<open>The calls of the application's hooks.\<close>

datatype hook_call = Changed_Hook client_hook | Updated_Hook string | Log_Hook json

fun run_hook :: "client_hook \<Rightarrow> json option \<Rightarrow> hook_call list" where
  "run_hook Resource_Updated params =
     (case Option.bind params (json_find ''uri'') of Some (JStr uri) \<Rightarrow> [Updated_Hook uri] | _ \<Rightarrow> [])"
| "run_hook Log_Message params = (case params of Some p \<Rightarrow> [Log_Hook p] | None \<Rightarrow> [])"
| "run_hook h params = [Changed_Hook h]"

record wired_session = "(client_feature, client_hook) client_session" +
  ws_client :: mcp_client
  ws_calls :: "hook_call list"

definition run_wired :: "(json \<Rightarrow> string throws) \<Rightarrow> (client_feature, wired_session) request_runner" where
  "run_wired dump f params s = (run_client_feature dump f params (ws_client s), s)"

definition run_wired_hook :: "(client_hook, wired_session) notification_runner" where
  "run_wired_hook h params s = (Inr (), s\<lparr>ws_calls := ws_calls s @ run_hook h params\<rparr>)"

definition client_feature_methods :: "(string \<times> client_feature) list" where
  "client_feature_methods =
     [(kRootsList, Roots_List), (kSamplingCreateMessage, Create_Message), (kElicitationCreate, Elicitation_Create)]"

definition hook_methods :: "(string \<times> client_hook) list" where
  "hook_methods =
     [(kNotificationToolsListChanged, Tools_Changed), (kNotificationResourcesListChanged, Resources_Changed),
      (kNotificationPromptsListChanged, Prompts_Changed), (kNotificationResourcesUpdated, Resource_Updated),
      (kNotificationMessage, Log_Message)]"

definition wire_session :: "wired_session \<Rightarrow> wired_session" where
  "wire_session s =
     (let r = foldl (\<lambda>r (m, h). set_request_handler m h r) (s_router s)
                (map (\<lambda>(m, f). (m, Some (Other_Request f))) client_feature_methods);
          r = foldl (\<lambda>r (m, h). set_notification_handler m h r) r
                (map (\<lambda>(m, h). (m, Some (Other_Notification h)))
                  (filter (\<lambda>(m, h). h \<in> mc_hooks (ws_client s)) hook_methods));
          c = ws_client s
      in s\<lparr>s_router := r,
           ws_client := c\<lparr>mc_roots := set_roots_changed_callback True (mc_roots c)\<rparr>\<rparr>)"

definition new_wired_session :: "mcp_client \<Rightarrow> wired_session" where
  "new_wired_session c =
     wire_session (client_session.extend (new_client_session (client_options_of c))
       (wired_session.fields c []))"

definition wired_handle_message :: "(json \<Rightarrow> string throws) \<Rightarrow> int \<Rightarrow> message \<Rightarrow> wired_session \<Rightarrow>
    unit throws \<times> wired_session" where
  "wired_handle_message dump now m s = client_handle_message (run_wired dump) run_wired_hook now m s"

text \<open>\<^verbatim>\<open>Client::connect\<close> around the wait for the response to \<^verbatim>\<open>initialize\<close>.\<close>

definition connect_begin :: "int \<Rightarrow> callback \<Rightarrow> mcp_client \<Rightarrow> wired_session option \<Rightarrow>
    request_id result throws \<times> wired_session option" where
  "connect_begin now cb c session =
     (case session of
        Some s \<Rightarrow> (fails InvalidRequest ''client is already connected'', session)
      | None \<Rightarrow> (let (r, s) = initialize_begin now cb (new_wired_session c) in (r, Some s)))"

definition connect_end :: "json result \<Rightarrow> wired_session \<Rightarrow> initialize_result result throws \<times> wired_session option" where
  "connect_end response s =
     (let (r, s) = initialize_end response s
      in case r of Inr (Inl e) \<Rightarrow> (r, None) | _ \<Rightarrow> (r, Some s))"

text \<open>Roots may change while connected; the server is told once the session is operating.\<close>

definition announce_roots :: "bool \<Rightarrow> wired_session \<Rightarrow> wired_session" where
  "announce_roots changed s =
     (if changed \<and> s_state s = Operating
      then send_notification kNotificationRootsListChanged None s else s)"

definition client_add_root :: "root \<Rightarrow> wired_session \<Rightarrow> unit result \<times> wired_session" where
  "client_add_root r s =
     (let (res, changed, p) = add_root r (mc_roots (ws_client s));
          s = s\<lparr>ws_client := (ws_client s)\<lparr>mc_roots := p\<rparr>\<rparr>
      in (res, announce_roots changed s))"

definition client_remove_root :: "string \<Rightarrow> wired_session \<Rightarrow> bool \<times> wired_session" where
  "client_remove_root uri s =
     (let (found, changed, p) = remove_root uri (mc_roots (ws_client s));
          s = s\<lparr>ws_client := (ws_client s)\<lparr>mc_roots := p\<rparr>\<rparr>
      in (found, announce_roots changed s))"

subsection \<open>Typed wrappers\<close>

definition client_request :: "int \<Rightarrow> string \<Rightarrow> json option \<Rightarrow> callback \<Rightarrow> wired_session option \<Rightarrow>
    request_id result throws \<times> wired_session option" where
  "client_request now m params cb session =
     (case session of
        None \<Rightarrow> (fails ConnectionNotInitialized ''client is not connected'', None)
      | Some s \<Rightarrow>
          (let (r, s) = send_request now m params cb (no_options\<lparr>ro_timeout := Some (mc_timeout (ws_client s))\<rparr>) s
           in (mapE Inr r, Some s)))"

definition on_response :: "(json \<Rightarrow> 'a result throws) \<Rightarrow> json result \<Rightarrow> 'a result throws" where
  "on_response parse response = (case response of Inl e \<Rightarrow> Inr (Inl e) | Inr v \<Rightarrow> parse v)"

definition cursor_params :: "string option \<Rightarrow> json option" where
  "cursor_params cursor = map_option (\<lambda>c. json_obj [(''cursor'', JStr c)]) cursor"

definition parse_list :: "(json \<Rightarrow> 'a throws) \<Rightarrow> string \<Rightarrow> json \<Rightarrow> 'a page result throws" where
  "parse_list dec k j =
     parse_typed
       (bindE (bindE (json_at k j) (get_vector dec)) (\<lambda>items.
        bindE (get_optional get_string ''nextCursor'' j) (\<lambda>cursor.
        returns \<lparr>page_items = items, next_cursor = cursor\<rparr>)))"

definition list_tools_response :: "json result \<Rightarrow> tool page result throws" where
  "list_tools_response r = on_response (parse_list tool_from_json ''tools'') r"

definition list_resources_response :: "json result \<Rightarrow> resource page result throws" where
  "list_resources_response r = on_response (parse_list resource_from_json ''resources'') r"

definition list_resource_templates_response :: "json result \<Rightarrow> resource_template page result throws" where
  "list_resource_templates_response r =
     on_response (parse_list resource_template_from_json ''resourceTemplates'') r"

definition list_prompts_response :: "json result \<Rightarrow> prompt page result throws" where
  "list_prompts_response r = on_response (parse_list prompt_from_json ''prompts'') r"

definition call_params :: "string \<Rightarrow> json \<Rightarrow> json" where
  "call_params name arguments = json_obj [(''name'', JStr name), (''arguments'', arguments)]"

definition call_tool_response :: "json result \<Rightarrow> call_tool_result result throws" where
  "call_tool_response r =
     on_response (\<lambda>v. parse_typed
       (bindE (json_value get_json ''content'' (JArr []) v) (\<lambda>cj.
        bind_result (content_list_from_json cj) (\<lambda>cs.
        bindE (json_value get_bool ''isError'' False v) (\<lambda>is_err.
        returns \<lparr>ctr_content = cs, ctr_is_error = is_err\<rparr>))))) r"

definition uri_params :: "string \<Rightarrow> json" where
  "uri_params uri = json_obj [(''uri'', JStr uri)]"

definition read_resource_response :: "json result \<Rightarrow> read_resource_result result throws" where
  "read_resource_response r =
     on_response (\<lambda>v. parse_typed
       (bindE (bindE (json_at ''contents'' v) (get_vector resource_contents_from_json)) (\<lambda>cs.
        returns \<lparr>rr_contents = cs\<rparr>))) r"

definition void_response :: "json result \<Rightarrow> unit result throws" where
  "void_response r = on_response (\<lambda>v. returns ()) r"

definition prompt_message_from_json :: "json \<Rightarrow> prompt_message result throws" where
  "prompt_message_from_json m =
     bindE (json_at ''content'' m) (\<lambda>cj.
     bind_result (content_from_json cj) (\<lambda>c.
     bindE (json_value get_string ''role'' ''user'' m) (\<lambda>role.
     returns \<lparr>pm_role = (case role_from_string role of Some r \<Rightarrow> r | None \<Rightarrow> User), pm_content = c\<rparr>)))"

definition get_prompt_response :: "json result \<Rightarrow> get_prompt_result result throws" where
  "get_prompt_response r =
     on_response (\<lambda>v. parse_typed
       (bindE (get_optional get_string ''description'' v) (\<lambda>description.
        bindE (json_value get_json ''messages'' (JArr []) v) (\<lambda>ms.
        bind_result (traverse_result prompt_message_from_json (json_elems ms)) (\<lambda>msgs.
        returns \<lparr>gp_description = description, gp_messages = msgs\<rparr>))))) r"

definition complete_prompt_params :: "string \<Rightarrow> string \<Rightarrow> string \<Rightarrow> json" where
  "complete_prompt_params name argument v =
     json_obj [(''ref'', json_obj [(''type'', JStr ''ref/prompt''), (''name'', JStr name)]),
               (''argument'', json_obj [(''name'', JStr argument), (''value'', JStr v)])]"

definition complete_resource_params :: "string \<Rightarrow> string \<Rightarrow> string \<Rightarrow> json" where
  "complete_resource_params uri_template argument v =
     json_obj [(''ref'', json_obj [(''type'', JStr ''ref/resource''), (''uri'', JStr uri_template)]),
               (''argument'', json_obj [(''name'', JStr argument), (''value'', JStr v)])]"

definition complete_response_typed :: "json result \<Rightarrow> complete_result result throws" where
  "complete_response_typed r =
     on_response (\<lambda>j. parse_typed
       (bindE (json_at ''completion'' j) (\<lambda>completion.
        bindE (bindE (json_at ''values'' completion) (get_vector get_string)) (\<lambda>vals.
        bindE (get_optional get_int32 ''total'' completion) (\<lambda>total.
        bindE (get_optional get_bool ''hasMore'' completion) (\<lambda>has_more.
        returns \<lparr>cr_values = vals, cr_total = total, cr_has_more = has_more\<rparr>)))))) r"

definition set_level_params :: "logging_level \<Rightarrow> json" where
  "set_level_params level = json_obj [(''level'', JStr (logging_level_to_string level))]"

subsection \<open>Properties\<close>

text \<open>
  What a client reports as accepted form content conforms to the schema the server asked for: an
  answer of the application that does not is refused with \<open>-32602\<close> and never sent.
\<close>

theorem elicitation_content_checked:
  assumes "mc_elicitation_handler c = Some handler" and "elicit_request_from_json p = returns request"
    and "handler request = returns res" and "er_action res = Accept"
    and "el_requested_schema request = Some schema" and "er_content res = Some v"
  shows "(handle_elicitation dump (Some p) c = returns (elicit_result_to_json res) \<longleftrightarrow> conforms v schema) \<and>
    (\<forall>j. handle_elicitation dump (Some p) c = returns j \<longrightarrow> conforms v schema) \<and>
    (\<forall>e. handle_elicitation dump (Some p) c = Inr (Inl e) \<longrightarrow> err_code e = -32602)"
proof -
  have "handle_elicitation dump (Some p) c =
      (case validate_schema dump v schema of
         Inl x \<Rightarrow> Inl x
       | Inr (Inl e) \<Rightarrow> fails InvalidParams
           (''elicitation content does not match the requested schema: '' @ err_message e)
       | Inr (Inr _) \<Rightarrow> returns (elicit_result_to_json res))"
    using assms by (simp add: handle_elicitation_def)
  moreover have "validate_schema dump v schema = returns () \<longleftrightarrow> conforms v schema"
    by (simp add: validate_schema_def validate_at_conforms)
  ultimately show ?thesis by (auto split: sum.split)
qed

lemma elicitation_content_checked_witness:
  "handle_elicitation (\<lambda>j. Inr []) (Some (elicit_request_to_json
       \<lparr>el_message = ''m'', el_requested_schema = Some (JBool True), el_url = None\<rparr>))
     ((new_client ''c'' ''1'')\<lparr>mc_elicitation_handler :=
       Some (\<lambda>r. returns \<lparr>er_action = Accept, er_content = Some (JInt 1)\<rparr>)\<rparr>) =
   returns (elicit_result_to_json \<lparr>er_action = Accept, er_content = Some (JInt 1)\<rparr>)"
proof -
  have "conforms (JInt 1) (JBool True)" by (subst conforms.simps) simp
  then show ?thesis
    by (intro elicitation_content_checked [where
          request = "\<lparr>el_message = ''m'', el_requested_schema = Some (JBool True), el_url = None\<rparr>"
          and schema = "JBool True" and v = "JInt 1", THEN conjunct1, THEN iffD2])
      (simp_all add: elicit_request_roundtrip non_null_def)
qed

text \<open>
  The client declares what it can answer: with the options of \<^verbatim>\<open>Client::client_options\<close> the gate lets a
  server's \<^verbatim>\<open>sampling/\<close>, \<^verbatim>\<open>elicitation/\<close> and \<^verbatim>\<open>roots/\<close> requests pass exactly when a handler is
  configured or roots are enabled or registered, so the handlers never report a missing handler.
\<close>

theorem client_capabilities_match:
  assumes "gate = (\<lambda>m. check_gates (client_gates (co_capabilities (client_options_of c))) m)"
  shows "(gate kSamplingCreateMessage = None \<longleftrightarrow> mc_sampling_handler c \<noteq> None) \<and>
    (gate kElicitationCreate = None \<longleftrightarrow> mc_elicitation_handler c \<noteq> None) \<and>
    (gate kRootsList = None \<longleftrightarrow> mc_roots_enabled c \<or> ro_roots (mc_roots c) \<noteq> [])"
  unfolding assms
  by (auto simp: check_gates_eq client_gates_def client_options_of_def client_capabilities_of_def Let_def
      no_client_capabilities_def roots_size_def starts_with_def method_defs)

lemma client_capabilities_match_witness:
  "check_gates (client_gates (co_capabilities (client_options_of (enable_roots (new_client ''c'' ''1''))))) kRootsList = None"
  using client_capabilities_match [OF refl, of "enable_roots (new_client ''c'' ''1'')"]
  by (simp add: enable_roots_def)

end
