(* ===== verification/Mcp_Features.thy ===== *)
theory Mcp_Features
  imports Mcp_Server Mcp_Client
begin

text \<open>
  The server's feature handlers and the client's typed wrappers together: what the client parses
  from the answer is what the server's registries hold.
\<close>

subsection \<open>Listing\<close>

text \<open>
  The client follows the cursors: \<open>ask\<close> is the answer of the server to a list request, \<open>parse\<close> the
  client's wrapper.
\<close>

fun fetch_all :: "nat \<Rightarrow> (json option \<Rightarrow> json result throws) \<Rightarrow> (json result \<Rightarrow> 'a page result throws) \<Rightarrow>
    string option \<Rightarrow> 'a list option" where
  "fetch_all 0 ask parse cursor = None"
| "fetch_all (Suc fuel) ask parse cursor =
     (case ask (cursor_params cursor) of
        Inr response \<Rightarrow>
          (case parse response of
             Inr (Inr p) \<Rightarrow>
               (case next_cursor p of
                  None \<Rightarrow> Some (page_items p)
                | Some c \<Rightarrow> map_option (\<lambda>rest. page_items p @ rest) (fetch_all fuel ask parse (Some c)))
           | _ \<Rightarrow> None)
      | Inl x \<Rightarrow> None)"

lemma parse_cursor_params [simp]: "parse_cursor (cursor_params cursor) = returns cursor"
  by (cases cursor)
    (simp_all add: parse_cursor_def cursor_params_def has_member_def member_def json_obj_def json_contains_def)

lemma on_response_simps [simp]:
  "on_response parse (Inl e) = Inr (Inl e)" "on_response parse (Inr v) = parse v"
  by (simp_all add: on_response_def)

context json_codec
begin

lemma parse_list_page:
  assumes "list_all ok (page_items p)" and "k \<noteq> ''nextCursor''"
  shows "parse_list dec k (page_to_json enc k p) = returns p"
  using assms
  by (simp add: parse_list_def parse_typed_def page_to_json_def vector_roundtrip
      string_codec.field_roundtrip)

lemma fetch_all_pages:
  assumes "list_all ok items" and "k \<noteq> ''nextCursor''"
  shows "fetch_all fuel (list_answer enc k (\<lambda>c. paginate items c ps)) (on_response (parse_list dec k)) cursor =
    collect_pages fuel items cursor ps"
proof (induction fuel arbitrary: cursor)
  case (Suc fuel)
  have sub: "list_all ok (page_items p)" if "paginate items cursor ps = returns p" for p
  proof -
    from that have "set (page_items p) \<subseteq> set items"
      by (auto simp: paginate_def Let_def split: sum.splits if_splits dest!: in_set_takeD in_set_dropD)
    with assms(1) show ?thesis by (auto simp: list_all_iff)
  qed
  show ?case
  proof (cases "paginate items cursor ps")
    case (Inr r)
    with sub Suc.IH assms(2) show ?thesis
      by (cases r) (auto simp: list_answer_def parse_list_page split: option.split)
  qed (simp add: list_answer_def)
qed simp

lemma fetch_all_items:
  assumes "list_all ok items" and "k \<noteq> ''nextCursor''"
    and "0 < ps" and "length items < 2 ^ 60" and "ps < 2 ^ 60"
  shows "fetch_all (Suc (length items)) (list_answer enc k (\<lambda>c. paginate items c ps))
    (on_response (parse_list dec k)) None = Some items"
  using fetch_all_pages [OF assms(1,2)] collect_pages_from [of items None 0 "Suc (length items)" ps] assms(3-5)
  by (simp add: cursor_start_def)

end

subsection \<open>Results\<close>

lemma call_tool_wire: "call_tool_response (Inr (call_tool_result_to_json r)) = returns r"
  by (simp add: call_tool_response_def call_tool_result_to_json_def parse_typed_def json_obj_def
      json_value_def content_list_roundtrip)

lemma read_resource_wire: "read_resource_response (Inr (read_resource_result_to_json r)) = returns r"
  using resource_contents_codec.vector_roundtrip [of "rr_contents r"]
  by (simp add: read_resource_response_def read_resource_result_to_json_def parse_typed_def json_obj_def
      put_vector_def)

lemma prompt_message_wire: "prompt_message_from_json (prompt_message_to_json m) = returns m"
  by (simp add: prompt_message_from_json_def prompt_message_to_json_def json_obj_def json_value_def
      content_roundtrip)

lemma get_prompt_wire: "get_prompt_response (Inr (get_prompt_result_to_json r)) = returns r"
  by (simp add: get_prompt_response_def get_prompt_result_to_json_def parse_typed_def json_value_def
      string_codec.field_roundtrip traverse_result_map prompt_message_wire)

definition wire_complete_result :: "complete_result \<Rightarrow> bool" where
  "wire_complete_result r \<longleftrightarrow> pred_option (\<lambda>n. - (2 ^ 31) \<le> n \<and> n < 2 ^ 31) (cr_total r)"

interpretation int32_codec: json_codec JInt get_int32 "\<lambda>n. - (2 ^ 31) \<le> n \<and> n < 2 ^ 31"
  by unfold_locales (simp_all add: get_int32_def)

lemma complete_wire:
  assumes "wire_complete_result r"
  shows "complete_response_typed (Inr (complete_result_to_json r)) =
    returns (r\<lparr>cr_values := take 100 (cr_values r)\<rparr>)"
  using assms string_codec.vector_roundtrip [of "take 100 (cr_values r)"]
  by (simp add: complete_response_typed_def complete_result_to_json_def parse_typed_def json_obj_def Let_def
      wire_complete_result_def int32_codec.field_roundtrip bool_codec.field_roundtrip put_vector_def)

subsection \<open>Calls\<close>

lemma require_string_member [simp]:
  "require_string k (Some (JObj m)) =
     (case map_of m k of Some (JStr s) \<Rightarrow> returns s
      | _ \<Rightarrow> fails InvalidParams (''missing required string param '' @ quoted k))"
  by (simp add: require_string_def)

lemma call_params_read:
  "require_string ''name'' (Some (call_params name arguments)) = returns name"
  "arguments_of (Some (call_params name arguments)) = Inr arguments"
  by (simp_all add: call_params_def json_obj_def arguments_of_def has_member_def member_def json_contains_def)

lemma uri_params_read: "require_string ''uri'' (Some (uri_params uri)) = returns uri"
  by (simp add: uri_params_def json_obj_def)

lemma response_error [simp]:
  "call_tool_response (Inl e) = Inr (Inl e)" "read_resource_response (Inl e) = Inr (Inl e)"
  by (simp_all add: call_tool_response_def read_resource_response_def)

text \<open>A wrapper that decodes what the handler encodes gives the handler's outcome.\<close>

lemma wrapper_outcome:
  assumes "\<And>r. parse (Inr (enc r)) = returns r" and "\<And>e. parse (Inl e) = Inr (Inl e)"
  shows "bindE (bind_result m (\<lambda>r. returns (enc r))) parse = m"
proof (cases m)
  case (Inr r)
  with assms show ?thesis by (cases r) simp_all
qed simp

definition tool_failure :: "string \<Rightarrow> call_tool_result" where
  "tool_failure msg = \<lparr>ctr_content = [text_content msg], ctr_is_error = True\<rparr>"

text \<open>What a tool answers to arguments that its schema admits.\<close>

fun tool_outcome :: "call_tool_result throws \<Rightarrow> call_tool_result throws" where
  "tool_outcome (Inr r) = Inr r"
| "tool_outcome (Inl (Mcp_Exn e)) = Inr (tool_failure (err_message e))"
| "tool_outcome (Inl (Json_Exn w)) = Inr (tool_failure w)"
| "tool_outcome (Inl (Std_Exn w)) = Inr (tool_failure w)"
| "tool_outcome (Inl (Undefined w)) = Inl (Undefined w)"

lemma call_tool_outcome:
  assumes "find_entry tool_key name (tr_tools r) = Some (t, h)" and "conforms arguments (tool_input_schema t)"
  shows "call_tool dump name arguments r = mapE Inr (tool_outcome (h arguments))"
proof -
  have "validate_schema dump arguments (tool_input_schema t) = returns ()"
    using assms(2) by (simp add: validate_schema_def validate_at_conforms)
  from call_tool_known [OF assms(1) this] show ?thesis
    by (cases "h arguments" rule: tool_outcome.cases) (simp_all add: tool_failure_def)
qed

text \<open>A call over the wire is the call of the registry.\<close>

lemma call_on_wire:
  "bindE (fst (run_feature dump Tools_Call (Some (call_params name arguments)) s)) call_tool_response =
     call_tool dump name arguments (srv_tools s)"
proof -
  have "fst (run_feature dump Tools_Call (Some (call_params name arguments)) s) =
      bind_result (call_tool dump name arguments (srv_tools s)) (\<lambda>r. returns (call_tool_result_to_json r))"
    by (simp add: tools_call_def call_params_read)
  moreover have "bindE (bind_result m (\<lambda>r. returns (call_tool_result_to_json r))) call_tool_response = m" for m
    by (rule wrapper_outcome) (simp_all add: call_tool_wire)
  ultimately show ?thesis by simp
qed

lemma call_outcome_on_wire:
  assumes "find_entry tool_key name (tr_tools (srv_tools s)) = Some (t, h)" and "conforms arguments (tool_input_schema t)"
  shows "bindE (fst (run_feature dump Tools_Call (Some (call_params name arguments)) s)) call_tool_response =
    mapE Inr (tool_outcome (h arguments))"
  unfolding call_on_wire by (rule call_tool_outcome [OF assms])

subsection \<open>Keeping a connection alive\<close>

definition client_ping :: "int \<Rightarrow> callback \<Rightarrow> wired_session option \<Rightarrow> request_id result throws \<times> wired_session option" where
  "client_ping now cb session = client_request now kPing None cb session"

text \<open>\<^verbatim>\<open>Client::disconnect\<close> leaves the session in place: the client is not connected again (\<open>connect_begin\<close>).\<close>

definition mc_disconnect :: "wired_session option \<Rightarrow> wired_session option" where
  "mc_disconnect session = map_option disconnect session"

definition client_server_capabilities :: "wired_session option \<Rightarrow> server_capabilities option" where
  "client_server_capabilities session = Option.bind session cs_server_capabilities"

definition set_request_timeout :: "int \<Rightarrow> mcp_client \<Rightarrow> mcp_client" where
  "set_request_timeout ms c = c\<lparr>mc_timeout := ms\<rparr>"

text \<open>
  A ping is answered in every state of the server's session, before the handshake and during shutdown as well, and nothing
  but the trace of the session changes.
\<close>

lemma ping_answered:
  assumes "find_request_handler (s_router s) kPing = Some Ping_Handler"
  shows "server_handle_message app_req app_note now (Request \<lparr>req_id = i, req_method = kPing, req_params = params\<rparr>) s =
    (Inr (), send_message (Response (result_response (Some i) (JObj []))) s)"
  using assms
  by (simp add: server_handle_message_def server_check_incoming_request_def dispatch_request_def protect_initialize_def
      method_defs)

lemma disconnected_client:
  assumes "session = Some s"
  shows "connect_begin now cb c (mc_disconnect session) =
      (fails InvalidRequest ''client is already connected'', mc_disconnect session) \<and>
    (\<exists>s'. mc_disconnect session = Some s' \<and> s_state s' = Shutdown \<and>
      client_server_capabilities (mc_disconnect session) = client_server_capabilities session)"
  using assms by (simp add: mc_disconnect_def connect_begin_def client_server_capabilities_def disconnect_def emit_def set_state_def)

subsection \<open>Properties\<close>

text \<open>
  C28. A client that follows the cursors of \<^verbatim>\<open>tools/list\<close>, \<^verbatim>\<open>resources/list\<close>,
  \<^verbatim>\<open>resources/templates/list\<close> and \<^verbatim>\<open>prompts/list\<close> gets every registered item, once and in the order of
  registration, whatever the page size, decoded to the very value that was registered.
\<close>

theorem listings_complete:
  assumes "length (tr_tools (srv_tools s)) < 2 ^ 60" and "length (rp_resources (srv_resources s)) < 2 ^ 60"
    and "length (rp_templates (srv_resources s)) < 2 ^ 60" and "length (pp_prompts (srv_prompts s)) < 2 ^ 60"
    and "0 < tr_page_size (srv_tools s)" and "tr_page_size (srv_tools s) < 2 ^ 60"
    and "0 < rp_page_size (srv_resources s)" and "rp_page_size (srv_resources s) < 2 ^ 60"
    and "0 < pp_page_size (srv_prompts s)" and "pp_page_size (srv_prompts s) < 2 ^ 60"
    and "list_all valid_tool (map fst (tr_tools (srv_tools s)))"
  shows "fetch_all (Suc (length (tr_tools (srv_tools s)))) (\<lambda>params. fst (run_feature dump Tools_List params s))
      list_tools_response None = Some (map fst (tr_tools (srv_tools s))) \<and>
    fetch_all (Suc (length (rp_resources (srv_resources s)))) (\<lambda>params. fst (run_feature dump Resources_List params s))
      list_resources_response None = Some (map fst (rp_resources (srv_resources s))) \<and>
    fetch_all (Suc (length (rp_templates (srv_resources s)))) (\<lambda>params. fst (run_feature dump Templates_List params s))
      list_resource_templates_response None = Some (rp_templates (srv_resources s)) \<and>
    fetch_all (Suc (length (pp_prompts (srv_prompts s)))) (\<lambda>params. fst (run_feature dump Prompts_List params s))
      list_prompts_response None = Some (map fst (pp_prompts (srv_prompts s)))"
  using assms
    tool_codec.fetch_all_items [of "map fst (tr_tools (srv_tools s))" "''tools''"]
    resource_codec.fetch_all_items [of "map fst (rp_resources (srv_resources s))" "''resources''"]
    resource_template_codec.fetch_all_items [of "rp_templates (srv_resources s)" "''resourceTemplates''"]
    prompt_codec.fetch_all_items [of "map fst (pp_prompts (srv_prompts s))" "''prompts''"]
  by (simp add: list_tools_def list_resources_def list_resource_templates_def list_prompts_def
      list_tools_response_def [abs_def] list_resources_response_def [abs_def]
      list_resource_templates_response_def [abs_def] list_prompts_response_def [abs_def])

lemma listings_complete_witness:
  "fetch_all (Suc (length (tr_tools (srv_tools sample_server))))
     (\<lambda>params. fst (run_feature (\<lambda>j. Inr []) Tools_List params sample_server)) list_tools_response None =
   Some (map fst (tr_tools (srv_tools sample_server)))"
  by (rule listings_complete [THEN conjunct1])
    (simp_all add: sample_server_def new_server_def new_tool_registry_def new_resource_provider_def
      new_prompt_provider_def sample_tool_def tool_of_spec_def valid_tool_def)

text \<open>
  C26. Calling a tool end to end: for arguments that conform to the tool's input schema the client gets
  what the handler returned, block by block, and a failure of the handler as a result marked as an
  error with the exception's text; arguments that do not conform and unknown tools are
  \<open>-32602\<close> errors, the handler not being run.
\<close>

theorem tool_call_end_to_end:
  assumes "\<And>j. \<exists>text. dump j = Inr text"
    and "reply = fst (run_feature dump Tools_Call (Some (call_params name arguments)) s)"
  shows "(\<forall>t h. find_entry tool_key name (tr_tools (srv_tools s)) = Some (t, h) \<longrightarrow>
      conforms arguments (tool_input_schema t) \<longrightarrow>
      bindE reply call_tool_response = mapE Inr (tool_outcome (h arguments))) \<and>
    (\<forall>t h. find_entry tool_key name (tr_tools (srv_tools s)) = Some (t, h) \<longrightarrow>
      \<not> conforms arguments (tool_input_schema t) \<longrightarrow>
      (\<exists>e. bindE reply call_tool_response = Inr (Inl e) \<and> err_code e = -32602)) \<and>
    (find_entry tool_key name (tr_tools (srv_tools s)) = None \<longrightarrow>
      bindE reply call_tool_response = fails InvalidParams (''unknown tool: '' @ name))"
proof -
  have call: "bindE reply call_tool_response = call_tool dump name arguments (srv_tools s)"
    unfolding assms(2) by (rule call_on_wire)
  have bad: "\<exists>e. validate_schema dump arguments schema = Inr (Inl e)" if "\<not> conforms arguments schema" for schema
  proof -
    have "dump j \<noteq> Inl x" for j x using assms(1) [of j] by auto
    with validate_at_rejects [OF that, of dump "[]"] show ?thesis by (auto simp: validate_schema_def)
  qed
  show ?thesis
  proof (unfold call, intro conjI allI impI)
    fix t h assume "find_entry tool_key name (tr_tools (srv_tools s)) = Some (t, h)"
      and "conforms arguments (tool_input_schema t)"
    then show "call_tool dump name arguments (srv_tools s) = mapE Inr (tool_outcome (h arguments))"
      by (rule call_tool_outcome)
  next
    fix t h assume "find_entry tool_key name (tr_tools (srv_tools s)) = Some (t, h)"
      and "\<not> conforms arguments (tool_input_schema t)"
    with bad [of "tool_input_schema t"]
    show "\<exists>e. call_tool dump name arguments (srv_tools s) = Inr (Inl e) \<and> err_code e = -32602"
      by (auto simp: call_tool_def)
  qed (simp add: call_tool_def)
qed

lemma tool_call_end_to_end_witness:
  "bindE (fst (run_feature (\<lambda>j. Inr []) Tools_Call (Some (call_params ''echo'' (JObj []))) sample_server))
     call_tool_response = returns \<lparr>ctr_content = [text_content ''hi''], ctr_is_error = False\<rparr> \<and>
   bindE (fst (run_feature (\<lambda>j. Inr []) Tools_Call (Some (call_params ''none'' JNull)) sample_server))
     call_tool_response = fails InvalidParams (''unknown tool: '' @ ''none'')"
proof -
  let ?h = "\<lambda>arguments :: json. Inr \<lparr>ctr_content = [text_content ''hi''], ctr_is_error = False\<rparr> :: call_tool_result throws"
  have known: "find_entry tool_key ''echo'' (tr_tools (srv_tools sample_server)) = Some (sample_tool, ?h)"
    and unknown: "find_entry tool_key ''none'' (tr_tools (srv_tools sample_server)) = None"
    by (simp_all add: sample_server_def tool_key_def sample_tool_def tool_of_spec_def)
  have "conforms (JObj []) (tool_input_schema sample_tool)"
    by (simp add: sample_tool_def tool_of_spec_def any_object_schema_def conforms.simps [of "JObj []"]
      type_ok_def enum_ok_def required_ok_def closed_ok_def schema_properties_def matches_type_def)
  with tool_call_end_to_end [OF _ refl, of "\<lambda>j. Inr []" "''echo''" sample_server "JObj []"] known
    tool_call_end_to_end [OF _ refl, of "\<lambda>j. Inr []" "''none''" sample_server JNull] unknown
  show ?thesis by auto
qed

text \<open>
  The other results of the server survive the wire: the client decodes resource contents and prompts
  to the values the handlers returned, and completions to at most their first 100 values.
\<close>

theorem results_survive_wire:
  assumes "wire_complete_result c"
  shows "read_resource_response (Inr (read_resource_result_to_json r)) = returns r \<and>
    get_prompt_response (Inr (get_prompt_result_to_json g)) = returns g \<and>
    complete_response_typed (Inr (complete_result_to_json c)) = returns (c\<lparr>cr_values := take 100 (cr_values c)\<rparr>) \<and>
    create_message_result_from_json (create_message_result_to_json m) = returns m"
  using read_resource_wire get_prompt_wire complete_wire [OF assms] create_message_result_roundtrip by blast

lemma results_survive_wire_witness:
  "read_resource_response (Inr (read_resource_result_to_json \<lparr>rr_contents = []\<rparr>)) = returns \<lparr>rr_contents = []\<rparr>"
  using results_survive_wire [of empty_complete_result] by (simp add: wire_complete_result_def empty_complete_result_def)

text \<open>
  Reading a resource resolves its URI in the documented order: a URI without a scheme is refused with
  \<open>-32005\<close>; a registered URI is read by its own handler or the provider's; otherwise the provider's
  handler serves a URI that matches a template; any other URI is \<open>-32003\<close>.
\<close>

theorem read_resource_resolution:
  assumes "p = srv_resources s" and "out = fst (run_feature dump Resources_Read (Some (uri_params uri)) s)"
  shows "(\<not> looks_like_uri uri \<longrightarrow> out = fails InvalidUri (''invalid URI: '' @ uri)) \<and>
    (looks_like_uri uri \<longrightarrow>
      (\<forall>r f. find_entry resource_key uri (rp_resources p) = Some (r, Some f) \<longrightarrow>
        bindE out read_resource_response = catch_all Inl (\<lambda>w. Inl (mk_error InternalError w)) (f uri)) \<and>
      (\<forall>f. rp_fallback_read p = Some f \<longrightarrow>
        (\<exists>r. find_entry resource_key uri (rp_resources p) = Some (r, None)) \<or>
        find_entry resource_key uri (rp_resources p) = None \<and> template_matches uri p \<longrightarrow>
        bindE out read_resource_response = catch_all Inl (\<lambda>w. Inl (mk_error InternalError w)) (f uri)) \<and>
      (\<not> uri_known uri p \<longrightarrow> out = fails ResourceNotFound (''resource not found: '' @ uri)))"
proof -
  have out: "out = bind_result (read_resource uri p) (\<lambda>r. returns (read_resource_result_to_json r))"
    using assms by (simp add: resources_read_def uri_params_read)
  have parse: "bindE (bind_result m (\<lambda>r. returns (read_resource_result_to_json r))) read_resource_response = m" for m
    by (rule wrapper_outcome) (simp_all add: read_resource_wire)
  show ?thesis
    using read_resource_own [of uri p] read_resource_fallback [of uri p] read_resource_unknown [of uri p]
    by (auto simp: out parse) (auto simp: read_resource_def)
qed

lemma read_resource_resolution_witness:
  "fst (run_feature (\<lambda>j. Inr []) Resources_Read (Some (uri_params ''nowhere'')) sample_server) =
     fails InvalidUri (''invalid URI: '' @ ''nowhere'')"
proof -
  have "\<not> looks_like_uri ''nowhere''" by (simp add: looks_like_uri_def find_sub.simps)
  with read_resource_resolution [OF refl refl, of "''nowhere''" "\<lambda>j. Inr []" sample_server] show ?thesis by blast
qed

end
