(* ===== verification/Mcp_Framing.thy ===== *)
theory Mcp_Framing
  imports Mcp_Json
begin

text \<open>
  Framing of byte streams.  Three readers of the program append what a read returned to a buffer and
  then consume what is complete: the line loops of \<^verbatim>\<open>src/transport/stdio_transport.cpp\<close>, of
  \<^verbatim>\<open>SseParser::feed\<close> and the chunked decoder of \<^verbatim>\<open>src/transport/http/http_codec.cpp\<close>.  The locale
  \<open>incremental\<close> states what makes such a reader correct, namely that consuming two fragments one
  after the other is consuming their concatenation, and derives that the outcome does not depend on
  how the stream was cut into reads.
\<close>

subsection \<open>Incremental readers\<close>

fun feeds :: "(string \<Rightarrow> 's \<Rightarrow> 'e + 's) \<Rightarrow> string list \<Rightarrow> 's \<Rightarrow> 'e + 's" where
  "feeds feed [] s = Inr s"
| "feeds feed (c # cs) s = bindE (feed c s) (feeds feed cs)"

locale incremental =
  fixes feed :: "string \<Rightarrow> 's \<Rightarrow> 'e + 's"
    and settled :: "'s \<Rightarrow> bool"
  assumes feed_nothing: "settled s \<Longrightarrow> feed [] s = Inr s"
    and feed_settles: "feed c s = Inr s' \<Longrightarrow> settled s'"
    and feed_append: "feed (c @ d) s = bindE (feed c s) (feed d)"
begin

lemma feeds_concat: "settled s \<Longrightarrow> feeds feed cs s = feed (concat cs) s"
proof (induction cs arbitrary: s)
  case Nil
  then show ?case by (simp add: feed_nothing)
next
  case (Cons c cs)
  show ?case by (cases "feed c s") (simp_all add: feed_append Cons.IH feed_settles)
qed

lemma fragmentation_irrelevant:
  assumes "settled s" and "concat cs = concat ds"
  shows "feeds feed cs s = feeds feed ds s"
  using assms by (simp add: feeds_concat)

end

subsection \<open>Searching and reading numbers\<close>

abbreviation crlf :: string where
  "crlf \<equiv> [CR, LF]"

lemma find_sub_append_Some:
  assumes "find_sub pat b = Some n" and "pat \<noteq> []"
  shows "find_sub pat (b @ c) = Some n"
  using assms
proof (induction b arbitrary: n)
  case Nil
  then show ?case by (simp add: find_sub.simps)
next
  case (Cons x b)
  show ?case
  proof (cases "take (length pat) (x # b) = pat")
    case True
    then have "length pat \<le> length (x # b)" by (metis length_take min.cobounded1)
    then have "take (length pat) ((x # b) @ c) = take (length pat) (x # b)"
      using take_append [of "length pat" "x # b" c] by simp
    with True Cons.prems show ?thesis
      by (simp add: find_sub.simps [of pat "x # b"] find_sub.simps [of pat "x # b @ c"])
  next
    case False
    with Cons.prems obtain m where m: "find_sub pat b = Some m" "n = Suc m"
      by (auto simp: find_sub.simps [of pat "x # b"])
    have "take (length pat) (x # b @ c) \<noteq> pat"
    proof
      assume *: "take (length pat) (x # b @ c) = pat"
      from m(1) have "m + length pat \<le> length b" using find_sub_Some by blast
      then have "take (length pat) ((x # b) @ c) = take (length pat) (x # b)"
        using take_append [of "length pat" "x # b" c] by simp
      with * False show False by simp
    qed
    with m Cons.IH [OF m(1) Cons.prems(2)] show ?thesis by (simp add: find_sub.simps [of pat "x # b @ c"])
  qed
qed

lemma find_sub_skip:
  "c \<notin> set l \<Longrightarrow> find_sub (c # pat) (l @ rest) = map_option ((+) (length l)) (find_sub (c # pat) rest)"
proof (induction l)
  case Nil
  show ?case by (cases "find_sub (c # pat) rest") simp_all
next
  case (Cons a l)
  then have "find_sub (c # pat) ((a # l) @ rest) = map_option Suc (find_sub (c # pat) (l @ rest))"
    by (auto simp: find_sub.simps [of "c # pat" "a # l @ rest"])
  with Cons show ?case by (cases "find_sub (c # pat) rest") simp_all
qed

text \<open>What was read so far is shorter than a given prefix of the stream, or contains it.\<close>

lemma buffer_cases [consumes 1, case_names short long]:
  assumes "b @ c = x @ y"
  obtains q where "x = b @ q" and "q \<noteq> []" | r where "b = x @ r" and "r @ c = y"
  using assms by (auto simp: append_eq_append_conv2) (metis append_Nil2 append_self_conv2)

lemma find_sub_here: "find_sub pat (pat @ rest) = Some 0"
  by (simp add: find_sub.simps)

lemma find_crlf: "CR \<notin> set l \<Longrightarrow> find_sub crlf (l @ CR # LF # rest) = Some (length l)"
  using find_sub_here [of crlf rest] by (simp add: find_sub_skip)

text \<open>\<^verbatim>\<open>std::atoi\<close>: a value outside \<^verbatim>\<open>int\<close> is undefined behaviour.\<close>

definition atoi :: "string \<Rightarrow> int throws" where
  "atoi s =
     (let t = dropWhile is_space s;
          (neg, u) = (case t of [] \<Rightarrow> (False, []) | c # r \<Rightarrow>
             if c = CHR ''-'' then (True, r) else if c = CHR ''+'' then (False, r) else (False, t));
          n = int (digits_value (takeWhile is_digit u));
          v = (if neg then - n else n)
      in if v < - (2 ^ 31) \<or> v \<ge> 2 ^ 31 then Inl (Undefined ''atoi out of range'') else Inr v)"

lemma atoi_numeral:
  assumes "0 \<le> n" and "n < 2 ^ 31" and "rest = [] \<or> \<not> is_digit (hd rest)"
  shows "atoi (int_to_string n @ rest) = Inr n"
proof -
  obtain c r where cr: "nat_to_string (nat n) = c # r" by (cases "nat_to_string (nat n)") auto
  then have c: "is_digit c" and "\<forall>x \<in> set (c # r). is_digit x" using nat_to_string_digits [of "nat n"] by auto
  with assms(3) have tw: "takeWhile is_digit (c # r @ rest) = c # r"
    using takeWhile_append2 [of "c # r" is_digit rest] by (cases rest) auto
  have dv: "digits_value (c # r) = nat n" using cr digits_value_to_string [of "nat n"] by simp
  show ?thesis
    using assms is_digit_not_space [OF c] is_digit_not_sign [OF c] tw dv
    by (simp add: atoi_def int_to_string_def cr Let_def)
qed

lemmas atoi_to_string = atoi_numeral [where rest = "[]", simplified]

subsection \<open>Line splitting\<close>

text \<open>
  The loop \<^verbatim>\<open>while ((nl = buffer.find('\n')) != npos)\<close>: each complete line, without its line feed and
  without one carriage return before it, is handed to \<open>take_line\<close>, and the rest stays in the buffer.
\<close>

definition strip_cr :: "string \<Rightarrow> string" where
  "strip_cr line = (if line \<noteq> [] \<and> last line = CR then butlast line else line)"

function drain_lines :: "(string \<Rightarrow> 's \<Rightarrow> 'e + 's) \<Rightarrow> string \<Rightarrow> 's \<Rightarrow> 'e + string \<times> 's" where
  "drain_lines take_line buffer s =
     (case find_sub [LF] buffer of
        None \<Rightarrow> Inr (buffer, s)
      | Some nl \<Rightarrow>
          bindE (take_line (strip_cr (take nl buffer)) s) (drain_lines take_line (drop (Suc nl) buffer)))"
  by pat_completeness auto

termination
  by (relation "measure (\<lambda>(f, buffer, s). length buffer)") (auto dest!: find_char_Some)

declare drain_lines.simps [simp del]

lemma drain_lines_incomplete [simp]: "LF \<notin> set buffer \<Longrightarrow> drain_lines f buffer s = Inr (buffer, s)"
  by (simp add: drain_lines.simps find_char_None [THEN iffD2])

lemma drain_lines_line [simp]:
  "LF \<notin> set line \<Longrightarrow>
   drain_lines f (line @ LF # rest) s = bindE (f (strip_cr line) s) (drain_lines f rest)"
  by (simp add: drain_lines.simps [of f "line @ LF # rest"] find_char_append)

text \<open>A buffer either has no complete line or splits into its first line and the rest.\<close>

lemma line_cases [case_names incomplete line]:
  fixes buffer :: string
  obtains "LF \<notin> set buffer" | line rest where "buffer = line @ LF # rest" and "LF \<notin> set line"
  by (metis split_list_first)

lemma drain_lines_rest: "drain_lines f buffer s = Inr (rest, s') \<Longrightarrow> LF \<notin> set rest"
proof (induction f buffer s rule: drain_lines.induct)
  case (1 f buffer s)
  show ?case
  proof (cases buffer rule: line_cases)
    case incomplete
    with "1.prems" show ?thesis by simp
  next
    case (line l r)
    with "1.IH" [of "length l"] "1.prems" show ?thesis
      by (auto simp: find_char_append bindE_eq_Inr)
  qed
qed

lemma drain_lines_append:
  "drain_lines f (b @ c) s = bindE (drain_lines f b s) (\<lambda>(r, s'). drain_lines f (r @ c) s')"
proof (induction f b s rule: drain_lines.induct)
  case (1 f b s)
  show ?case
  proof (cases b rule: line_cases)
    case incomplete
    then show ?thesis by simp
  next
    case (line l r)
    with "1.IH" [of "length l"] show ?thesis
      by (cases "f (strip_cr l) s") (simp_all add: find_char_append)
  qed
qed

text \<open>
  A reader that keeps the incomplete line beside its state: a fragment is appended and the complete
  lines are consumed.
\<close>

definition feed_lines :: "(string \<Rightarrow> 's \<Rightarrow> 'e + 's) \<Rightarrow> string \<Rightarrow> string \<times> 's \<Rightarrow> 'e + string \<times> 's" where
  "feed_lines take_line chunk st = drain_lines take_line (fst st @ chunk) (snd st)"

interpretation line_reader: incremental "feed_lines f" "\<lambda>st. LF \<notin> set (fst st)" for f
proof
  show "feed_lines f (c @ d) st = bindE (feed_lines f c st) (feed_lines f d)" for c d st
    using drain_lines_append [of f "fst st @ c" d "snd st"]
    by (simp add: feed_lines_def [abs_def] case_prod_unfold)
qed (auto simp: feed_lines_def dest: drain_lines_rest)

end
