(* ===== verification/Mcp_Sse.thy ===== *)
theory Mcp_Sse
  imports Mcp_Framing
begin

text \<open>
  The event stream of \<^verbatim>\<open>src/transport/http/http_codec.cpp\<close>: \<^verbatim>\<open>format_sse_event\<close> and the incremental
  \<^verbatim>\<open>SseParser\<close>, an instance of the locale \<open>incremental\<close> through the line reader.  The lemmas show that a
  formatted event is parsed back.
\<close>

subsection \<open>Server-Sent Events\<close>

record sse_event =
  se_id :: "string option"
  se_event :: "string option"
  se_data :: string
  se_retry_ms :: "int option"

definition new_event :: sse_event where
  "new_event = \<lparr>se_id = None, se_event = None, se_data = [], se_retry_ms = None\<rparr>"

text \<open>The lines of a text separated (not terminated) by line feeds: the do-while loop of the formatter.\<close>

function data_lines :: "string \<Rightarrow> string list" where
  "data_lines s =
     (case find_sub [LF] s of None \<Rightarrow> [s] | Some nl \<Rightarrow> take nl s # data_lines (drop (nl + 1) s))"
  by pat_completeness auto

termination
  by (relation "measure length") (auto dest!: find_char_Some)

declare data_lines.simps [simp del]

definition format_sse_event :: "sse_event \<Rightarrow> string" where
  "format_sse_event e =
     (case se_retry_ms e of Some r \<Rightarrow> ''retry: '' @ int_to_string r @ [LF] | None \<Rightarrow> []) @
     (case se_event e of Some n \<Rightarrow> ''event: '' @ n @ [LF] | None \<Rightarrow> []) @
     (case se_id e of Some i \<Rightarrow> ''id: '' @ i @ [LF] | None \<Rightarrow> []) @
     concat (map (\<lambda>l. ''data: '' @ l @ [LF]) (data_lines (se_data e))) @ [LF]"

text \<open>
  The parser: \<open>sse_fields\<close> are its members \<^verbatim>\<open>current_\<close> and \<^verbatim>\<open>any_field_\<close>; a state of the line reader is
  the buffer, the fields, and the vector of complete events.
\<close>

record sse_fields =
  sf_current :: sse_event
  sf_any_field :: bool

type_synonym sse_parser = "string \<times> sse_fields \<times> sse_event list"

definition new_sse_parser :: sse_parser where
  "new_sse_parser = ([], \<lparr>sf_current = new_event, sf_any_field = False\<rparr>, [])"

definition split_field :: "string \<Rightarrow> string \<times> string" where
  "split_field line =
     (case find_sub '':'' line of
        None \<Rightarrow> (line, [])
      | Some colon \<Rightarrow>
          (take colon line,
           let value = drop (colon + 1) line
           in if value \<noteq> [] \<and> hd value = CHR '' '' then tl value else value))"

definition sse_take_line :: "string \<Rightarrow> sse_fields \<times> sse_event list \<Rightarrow> (sse_fields \<times> sse_event list) throws" where
  "sse_take_line line st =
     (let (p, out) = st; current = sf_current p; (field, value) = split_field line in
      if line = [] then
        Inr (\<lparr>sf_current = new_event, sf_any_field = False\<rparr>, if sf_any_field p then out @ [current] else out)
      else if hd line = CHR '':'' then Inr (p, out)
      else if field = ''data'' then
        Inr (\<lparr>sf_current = current\<lparr>se_data := se_data current @
                 (if sf_any_field p \<and> se_data current \<noteq> [] then [LF] else []) @ value\<rparr>,
              sf_any_field = True\<rparr>, out)
      else if field = ''id'' then
        Inr (\<lparr>sf_current = current\<lparr>se_id := Some value\<rparr>, sf_any_field = True\<rparr>, out)
      else if field = ''event'' then
        Inr (\<lparr>sf_current = current\<lparr>se_event := Some value\<rparr>, sf_any_field = True\<rparr>, out)
      else if field = ''retry'' then
        (if value \<noteq> [] \<and> list_all is_digit value
         then mapE (\<lambda>n. (\<lparr>sf_current = current\<lparr>se_retry_ms := Some n\<rparr>, sf_any_field = True\<rparr>, out)) (atoi value)
         else Inr (p, out))
      else Inr (p, out))"

definition sse_feed :: "string \<Rightarrow> sse_parser \<Rightarrow> sse_parser throws" where
  "sse_feed chunk p = feed_lines sse_take_line chunk p"

subsection \<open>The event stream is read back as it was written\<close>

interpretation sse: incremental sse_feed "\<lambda>p. LF \<notin> set (fst p)"
  unfolding sse_feed_def [abs_def] by (rule line_reader.incremental_axioms)

text \<open>Values that survive as the rest of a line: no line feed inside and no carriage return at the end.\<close>

definition line_safe :: "string \<Rightarrow> bool" where
  "line_safe v \<longleftrightarrow> LF \<notin> set v \<and> (v = [] \<or> last v \<noteq> CR)"

definition wire_event :: "sse_event \<Rightarrow> bool" where
  "wire_event e \<longleftrightarrow>
     pred_option line_safe (se_id e) \<and> pred_option line_safe (se_event e) \<and>
     list_all line_safe (data_lines (se_data e)) \<and> (se_data e \<noteq> [] \<longrightarrow> hd (se_data e) \<noteq> LF) \<and>
     pred_option (\<lambda>n. 0 \<le> n \<and> n < 2 ^ 31) (se_retry_ms e)"

lemma sse_feed_line:
  assumes "LF \<notin> set line"
  shows "feed_lines sse_take_line (line @ LF # rest) ([], st) =
    bindE (sse_take_line (strip_cr line) st) (\<lambda>st. feed_lines sse_take_line rest ([], st))"
  using assms by (cases "sse_take_line (strip_cr line) st") (simp_all add: feed_lines_def)

lemma strip_cr_safe [simp]: "line_safe v \<Longrightarrow> strip_cr v = v"
  by (auto simp: strip_cr_def line_safe_def)

lemma line_safe_prefixed: "line_safe v \<Longrightarrow> LF \<notin> set f \<Longrightarrow> line_safe (f @ '': '' @ v)"
  by (auto simp: line_safe_def)

lemma split_field_line: "CHR '':'' \<notin> set f \<Longrightarrow> split_field (f @ '': '' @ v) = (f, v)"
  using find_char_append [of "CHR '':''" f "CHR '' '' # v"] by (simp add: split_field_def)

lemma data_lines_simps [simp]:
  "LF \<notin> set s \<Longrightarrow> data_lines s = [s]"
  "LF \<notin> set l \<Longrightarrow> data_lines (l @ LF # r) = l # data_lines r"
  by (simp_all add: data_lines.simps [of s] data_lines.simps [of "l @ LF # r"] find_char_None [THEN iffD2]
      find_char_append)

text \<open>One written field is one step of the parser.\<close>

lemma feed_field:
  assumes "line_safe v" and "f \<in> {''data'', ''id'', ''event'', ''retry''}"
  shows "feed_lines sse_take_line (f @ CHR '':'' # CHR '' '' # v @ LF # rest) ([], st) =
    bindE (sse_take_line (f @ '': '' @ v) st) (\<lambda>st. feed_lines sse_take_line rest ([], st))"
proof -
  have safe: "line_safe (f @ '': '' @ v)" using assms by (intro line_safe_prefixed) auto
  then have "LF \<notin> set (f @ '': '' @ v)" by (simp add: line_safe_def)
  from sse_feed_line [OF this, of rest st] safe show ?thesis by simp
qed

lemma sse_take_field:
  "sse_take_line (''data: '' @ v) (p, out) =
     Inr (\<lparr>sf_current = (sf_current p)\<lparr>se_data := se_data (sf_current p) @
        (if sf_any_field p \<and> se_data (sf_current p) \<noteq> [] then [LF] else []) @ v\<rparr>, sf_any_field = True\<rparr>, out)"
  "sse_take_line (''id: '' @ v) (p, out) =
     Inr (\<lparr>sf_current = (sf_current p)\<lparr>se_id := Some v\<rparr>, sf_any_field = True\<rparr>, out)"
  "sse_take_line (''event: '' @ v) (p, out) =
     Inr (\<lparr>sf_current = (sf_current p)\<lparr>se_event := Some v\<rparr>, sf_any_field = True\<rparr>, out)"
  using split_field_line [of "''data''" v] split_field_line [of "''id''" v] split_field_line [of "''event''" v]
  by (simp_all add: sse_take_line_def Let_def)

lemma sse_take_retry:
  assumes "0 \<le> n" and "n < 2 ^ 31"
  shows "sse_take_line (''retry: '' @ int_to_string n) (p, out) =
     Inr (\<lparr>sf_current = (sf_current p)\<lparr>se_retry_ms := Some n\<rparr>, sf_any_field = True\<rparr>, out)"
  using split_field_line [of "''retry''" "int_to_string n"] assms nat_to_string_digits [of "nat n"]
  by (simp add: sse_take_line_def Let_def atoi_to_string) (simp add: int_to_string_def list_all_iff)

lemma feed_more_data:
  assumes "list_all line_safe (data_lines d)" and "acc \<noteq> []"
  shows "feed_lines sse_take_line (concat (map (\<lambda>l. ''data: '' @ l @ [LF]) (data_lines d)) @ rest)
      ([], \<lparr>sf_current = c\<lparr>se_data := acc\<rparr>, sf_any_field = True\<rparr>, out) =
    feed_lines sse_take_line rest
      ([], \<lparr>sf_current = c\<lparr>se_data := acc @ LF # d\<rparr>, sf_any_field = True\<rparr>, out)"
  using assms
proof (induction d arbitrary: acc rule: data_lines.induct)
  case (1 d)
  show ?case
  proof (cases d rule: line_cases)
    case incomplete
    with "1.prems" feed_field [of d "''data''" rest] sse_take_field(1) [of d] show ?thesis by simp
  next
    case (line l r)
    let ?more = "concat (map (\<lambda>l. ''data: '' @ l @ [LF]) (data_lines r)) @ rest"
    from line "1.prems" feed_field [of l "''data''" ?more] sse_take_field(1) [of l]
      "1.IH" [of "length l" "acc @ LF # l"]
    show ?thesis by (simp add: find_char_append)
  qed
qed

lemma feed_data:
  assumes "list_all line_safe (data_lines d)" and "d \<noteq> [] \<longrightarrow> hd d \<noteq> LF"
  shows "feed_lines sse_take_line (concat (map (\<lambda>l. ''data: '' @ l @ [LF]) (data_lines d)) @ rest)
      ([], \<lparr>sf_current = c\<lparr>se_data := []\<rparr>, sf_any_field = a\<rparr>, out) =
    feed_lines sse_take_line rest
      ([], \<lparr>sf_current = c\<lparr>se_data := d\<rparr>, sf_any_field = True\<rparr>, out)"
proof (cases d rule: line_cases)
  case incomplete
  with assms feed_field [of d "''data''" rest] sse_take_field(1) [of d] show ?thesis by simp
next
  case (line l r)
  let ?more = "concat (map (\<lambda>l. ''data: '' @ l @ [LF]) (data_lines r)) @ rest"
  have "l \<noteq> []" using line assms(2) by auto
  with line assms feed_field [of l "''data''" ?more] sse_take_field(1) [of l] feed_more_data [of r l rest c out]
  show ?thesis by simp
qed

lemma line_safe_numeral: "0 \<le> n \<Longrightarrow> line_safe (int_to_string n)"
proof -
  assume "0 \<le> n"
  then have digits: "is_digit x" if "x \<in> set (int_to_string n)" for x
    using that nat_to_string_digits [of "nat n"] by (simp add: int_to_string_def)
  have "\<not> is_digit LF" "\<not> is_digit CR" by (simp_all add: is_digit_def)
  with digits show ?thesis unfolding line_safe_def by (metis last_in_set)
qed

text \<open>The optional fields, each leaving the parser with the field set if it was there.\<close>

lemma feed_retry:
  assumes "pred_option (\<lambda>n. 0 \<le> n \<and> n < 2 ^ 31) r" and "se_retry_ms c = None"
  shows "\<exists>a'. feed_lines sse_take_line
      ((case r of Some n \<Rightarrow> ''retry: '' @ int_to_string n @ [LF] | None \<Rightarrow> []) @ rest)
      ([], \<lparr>sf_current = c, sf_any_field = a\<rparr>, out) =
    feed_lines sse_take_line rest ([], \<lparr>sf_current = c\<lparr>se_retry_ms := r\<rparr>, sf_any_field = a'\<rparr>, out)"
proof (cases r)
  case None
  with assms have "c\<lparr>se_retry_ms := r\<rparr> = c" by simp
  with None show ?thesis by auto
next
  case (Some n)
  have "line_safe (int_to_string n)" using Some assms by (simp add: line_safe_numeral)
  with Some assms feed_field [of "int_to_string n" "''retry''" rest] sse_take_retry [of n] show ?thesis by auto
qed

lemma feed_event_name:
  assumes "pred_option line_safe n" and "se_event c = None"
  shows "\<exists>a'. feed_lines sse_take_line ((case n of Some v \<Rightarrow> ''event: '' @ v @ [LF] | None \<Rightarrow> []) @ rest)
      ([], \<lparr>sf_current = c, sf_any_field = a\<rparr>, out) =
    feed_lines sse_take_line rest ([], \<lparr>sf_current = c\<lparr>se_event := n\<rparr>, sf_any_field = a'\<rparr>, out)"
proof (cases n)
  case None
  with assms have "c\<lparr>se_event := n\<rparr> = c" by simp
  with None show ?thesis by auto
next
  case (Some v)
  with assms feed_field [of v "''event''" rest] sse_take_field(3) [of v] show ?thesis by auto
qed

lemma feed_id:
  assumes "pred_option line_safe i" and "se_id c = None"
  shows "\<exists>a'. feed_lines sse_take_line ((case i of Some v \<Rightarrow> ''id: '' @ v @ [LF] | None \<Rightarrow> []) @ rest)
      ([], \<lparr>sf_current = c, sf_any_field = a\<rparr>, out) =
    feed_lines sse_take_line rest ([], \<lparr>sf_current = c\<lparr>se_id := i\<rparr>, sf_any_field = a'\<rparr>, out)"
proof (cases i)
  case None
  with assms have "c\<lparr>se_id := i\<rparr> = c" by simp
  with None show ?thesis by auto
next
  case (Some v)
  with assms feed_field [of v "''id''" rest] sse_take_field(2) [of v] show ?thesis by auto
qed

lemma feed_blank:
  "feed_lines sse_take_line (LF # rest) ([], p, out) =
   feed_lines sse_take_line rest ([], \<lparr>sf_current = new_event, sf_any_field = False\<rparr>,
     if sf_any_field p then out @ [sf_current p] else out)"
  using sse_feed_line [of "[]" rest "(p, out)"] by (simp add: strip_cr_def sse_take_line_def Let_def split_def)

lemma feed_event:
  assumes "wire_event e"
  shows "feed_lines sse_take_line (format_sse_event e @ rest)
      ([], \<lparr>sf_current = new_event, sf_any_field = False\<rparr>, out) =
    feed_lines sse_take_line rest ([], \<lparr>sf_current = new_event, sf_any_field = False\<rparr>, out @ [e])"
proof -
  let ?f = "feed_lines sse_take_line"
  let ?id = "case se_id e of Some i \<Rightarrow> ''id: '' @ i @ [LF] | None \<Rightarrow> []"
  let ?name = "case se_event e of Some n \<Rightarrow> ''event: '' @ n @ [LF] | None \<Rightarrow> []"
  let ?data = "concat (map (\<lambda>l. ''data: '' @ l @ [LF]) (data_lines (se_data e)))"
  let ?c1 = "new_event\<lparr>se_retry_ms := se_retry_ms e\<rparr>"
  let ?c2 = "?c1\<lparr>se_event := se_event e\<rparr>" let ?c3 = "?c2\<lparr>se_id := se_id e\<rparr>"
  obtain a1 where 1: "?f (format_sse_event e @ rest) ([], \<lparr>sf_current = new_event, sf_any_field = False\<rparr>, out) =
      ?f (?name @ ?id @ ?data @ LF # rest) ([], \<lparr>sf_current = ?c1, sf_any_field = a1\<rparr>, out)"
    using feed_retry [of "se_retry_ms e" new_event "?name @ ?id @ ?data @ LF # rest" False out] assms
    by (auto simp: format_sse_event_def wire_event_def new_event_def)
  obtain a2 where 2: "?f (?name @ ?id @ ?data @ LF # rest) ([], \<lparr>sf_current = ?c1, sf_any_field = a1\<rparr>, out) =
      ?f (?id @ ?data @ LF # rest) ([], \<lparr>sf_current = ?c2, sf_any_field = a2\<rparr>, out)"
    using feed_event_name [of "se_event e" ?c1 "?id @ ?data @ LF # rest" a1 out] assms
    by (auto simp: wire_event_def new_event_def)
  obtain a3 where 3: "?f (?id @ ?data @ LF # rest) ([], \<lparr>sf_current = ?c2, sf_any_field = a2\<rparr>, out) =
      ?f (?data @ LF # rest) ([], \<lparr>sf_current = ?c3\<lparr>se_data := []\<rparr>, sf_any_field = a3\<rparr>, out)"
    using feed_id [of "se_id e" ?c2 "?data @ LF # rest" a2 out] assms
    by (auto simp: wire_event_def new_event_def)
  have 4: "?c3\<lparr>se_data := se_data e\<rparr> = e" by (simp add: new_event_def)
  from 1 2 3 show ?thesis
    using feed_data [of "se_data e" "LF # rest" ?c3 a3 out] assms 4
    by (simp add: wire_event_def feed_blank)
qed

lemma feed_events:
  "list_all wire_event es \<Longrightarrow>
   feed_lines sse_take_line (concat (map format_sse_event es))
      ([], \<lparr>sf_current = new_event, sf_any_field = False\<rparr>, out) =
    Inr ([], \<lparr>sf_current = new_event, sf_any_field = False\<rparr>, out @ es)"
  by (induction es arbitrary: out) (simp_all add: feed_event line_reader.feed_nothing)

subsection \<open>Properties\<close>

text \<open>
  C31. Event streams: whatever events a server formats, provided ids and names are single lines, the data does
  not begin with a line feed nor have a line ending in a carriage return, and the retry time is a
  non-negative \<^verbatim>\<open>int\<close>, a parser that is fed the bytes in fragments of any size returns exactly those
  events and is ready for the next one.
\<close>

theorem sse_stream_roundtrip:
  assumes "list_all wire_event es" and "concat fragments = concat (map format_sse_event es)"
  shows "feeds sse_feed fragments new_sse_parser =
    Inr ([], \<lparr>sf_current = new_event, sf_any_field = False\<rparr>, es)"
  using feed_events [OF assms(1), of "[]"] assms(2)
  by (simp add: sse.feeds_concat new_sse_parser_def) (simp add: sse_feed_def)

lemma sse_stream_roundtrip_witness:
  "feeds sse_feed [''id: 1'', [LF] @ ''data: x'', [LF, LF]] new_sse_parser =
    Inr ([], \<lparr>sf_current = new_event, sf_any_field = False\<rparr>, [new_event\<lparr>se_id := Some ''1'', se_data := ''x''\<rparr>])"
  by (rule sse_stream_roundtrip) (simp_all add: wire_event_def new_event_def line_safe_def format_sse_event_def)

end
