(* ===== verification/Mcp_Http_Codec.thy ===== *)
theory Mcp_Http_Codec
  imports Mcp_Framing
begin

text \<open>
  Heads of HTTP/1.1 requests and responses, from \<^verbatim>\<open>src/transport/http/http_codec.cpp\<close>.  The three outcomes
  of \<^verbatim>\<open>parse_head\<close> (incomplete, malformed, a head with the number of bytes consumed) are the type
  \<open>head_outcome\<close>; the lemmas show that a serialized request or response is read back, whatever body
  follows it.
\<close>

subsection \<open>Strings\<close>

definition to_lower :: "string \<Rightarrow> string" where
  "to_lower s = map lower_char s"

definition trim :: "string \<Rightarrow> string" where
  "trim s =
     rev (dropWhile (\<lambda>c. c = CHR '' '' \<or> c = TAB \<or> c = CR)
       (rev (dropWhile (\<lambda>c. c = CHR '' '' \<or> c = TAB) s)))"

subsection \<open>Heads\<close>

record http_head =
  hh_method :: string
  hh_target :: string
  hh_status :: int
  hh_reason :: string
  hh_headers :: "string \<rightharpoonup> string"

definition new_head :: http_head where
  "new_head = \<lparr>hh_method = [], hh_target = [], hh_status = 0, hh_reason = [], hh_headers = (\<lambda>_. None)\<rparr>"

definition is_response :: "http_head \<Rightarrow> bool" where
  "is_response h \<longleftrightarrow> hh_status h \<noteq> 0"

definition header :: "string \<Rightarrow> http_head \<Rightarrow> string" where
  "header name h = (case hh_headers h name of None \<Rightarrow> [] | Some v \<Rightarrow> v)"

definition header_contains :: "string \<Rightarrow> string \<Rightarrow> http_head \<Rightarrow> bool" where
  "header_contains name token h \<longleftrightarrow> find_sub (to_lower token) (to_lower (header name h)) \<noteq> None"

datatype head_outcome = Incomplete | Malformed string | Parsed http_head nat

text \<open>The position after the blank line that ends the head.\<close>

definition head_end :: "string \<Rightarrow> nat option" where
  "head_end buffer =
     (case find_sub (crlf @ crlf) buffer of
        Some i \<Rightarrow> Some (i + 4)
      | None \<Rightarrow> map_option (\<lambda>i. i + 2) (find_sub [LF, LF] buffer))"

function head_lines :: "string \<Rightarrow> string list" where
  "head_lines b =
     (case find_sub [LF] b of
        None \<Rightarrow> []
      | Some nl \<Rightarrow> strip_cr (take nl b) # head_lines (drop (Suc nl) b))"
  by pat_completeness auto

termination
  by (relation "measure length") (auto dest!: find_char_Some)

declare head_lines.simps [simp del]

definition parse_request_line :: "string \<Rightarrow> string + http_head" where
  "parse_request_line start =
     (case find_sub '' '' start of
        None \<Rightarrow> Inl ''malformed request line''
      | Some sp1 \<Rightarrow>
          (case find_from '' '' start (sp1 + 1) of
             None \<Rightarrow> Inl ''malformed request line''
           | Some sp2 \<Rightarrow>
               if take 7 (drop (sp2 + 1) start) \<noteq> ''HTTP/1.'' then Inl ''malformed request line''
               else Inr (new_head\<lparr>hh_method := take sp1 start,
                      hh_target := take (sp2 - sp1 - 1) (drop (sp1 + 1) start)\<rparr>)))"

definition parse_status_line :: "string \<Rightarrow> (string + http_head) throws" where
  "parse_status_line start =
     (if take 7 start \<noteq> ''HTTP/1.'' then Inr (Inl ''malformed status line'')
      else case find_sub '' '' start of
        None \<Rightarrow> Inr (Inl ''malformed status line'')
      | Some sp1 \<Rightarrow>
          if sp1 + 4 > length start then Inr (Inl ''malformed status line'')
          else mapE (\<lambda>status.
                 if status < 100 \<or> status > 599 then Inl ''invalid status code''
                 else Inr (new_head\<lparr>hh_status := status,
                        hh_reason := (case find_from '' '' start (sp1 + 1) of
                           None \<Rightarrow> [] | Some sp2 \<Rightarrow> drop (sp2 + 1) start)\<rparr>))
               (atoi (drop (sp1 + 1) start)))"

fun parse_headers :: "string list \<Rightarrow> (string \<rightharpoonup> string) \<Rightarrow> string + (string \<rightharpoonup> string)" where
  "parse_headers [] h = Inr h"
| "parse_headers (line # lines) h =
     (if line = [] then Inr h
      else case find_sub '':'' line of
        None \<Rightarrow> Inl ''malformed header line''
      | Some colon \<Rightarrow>
          parse_headers lines (h(to_lower (trim (take colon line)) \<mapsto> trim (drop (colon + 1) line))))"

definition parse_head :: "string \<Rightarrow> bool \<Rightarrow> head_outcome throws" where
  "parse_head buffer request_mode =
     (case head_end buffer of
        None \<Rightarrow> Inr Incomplete
      | Some consumed \<Rightarrow>
          (case head_lines (take consumed buffer) of
             [] \<Rightarrow> Inr (Malformed ''empty start line'')
           | start # lines \<Rightarrow>
               if start = [] then Inr (Malformed ''empty start line'')
               else mapE (\<lambda>first.
                      case bindE first (\<lambda>head.
                             mapE (\<lambda>hs. head\<lparr>hh_headers := hs\<rparr>) (parse_headers lines (hh_headers head))) of
                        Inl e \<Rightarrow> Malformed e
                      | Inr head \<Rightarrow> Parsed head consumed)
                    (if request_mode then Inr (parse_request_line start) else parse_status_line start)))"

type_synonym header_list = "(string \<times> string) list"

definition header_line :: "string \<times> string \<Rightarrow> string" where
  "header_line nv = fst nv @ '': '' @ snd nv"

definition content_length :: "string \<Rightarrow> string \<times> string" where
  "content_length body = (''Content-Length'', nat_to_string (length body))"

text \<open>A head: lines that each end in CRLF, and an empty line.\<close>

definition write_lines :: "string list \<Rightarrow> string" where
  "write_lines ls = concat (map (\<lambda>l. l @ crlf) ls) @ crlf"

definition request_headers :: "string \<Rightarrow> header_list \<Rightarrow> string \<Rightarrow> header_list" where
  "request_headers m headers body =
     headers @
     (if \<not> list_ex (\<lambda>(n, _). to_lower n = ''content-length'') headers \<and> (body \<noteq> [] \<or> m = ''POST'')
      then [content_length body] else [])"

definition serialize_request :: "string \<Rightarrow> string \<Rightarrow> header_list \<Rightarrow> string \<Rightarrow> string" where
  "serialize_request m target headers body =
     write_lines ((m @ '' '' @ target @ '' HTTP/1.1'') # map header_line (request_headers m headers body)) @ body"

definition response_headers :: "header_list \<Rightarrow> string \<Rightarrow> bool \<Rightarrow> header_list" where
  "response_headers headers body streaming =
     headers @ (if \<not> streaming then [content_length body] else [])"

definition serialize_response :: "int \<Rightarrow> string \<Rightarrow> header_list \<Rightarrow> string \<Rightarrow> bool \<Rightarrow> string" where
  "serialize_response status reason headers body streaming =
     write_lines ((''HTTP/1.1 '' @ int_to_string status @ '' '' @ reason) #
       map header_line (response_headers headers body streaming)) @ body"

subsection \<open>Serialized heads are read back\<close>

text \<open>Tokens that stand alone in a head: no separators and nothing that ends a line.\<close>

definition token :: "string \<Rightarrow> bool" where
  "token t \<longleftrightarrow> t \<noteq> [] \<and> set t \<inter> {CHR '' '', TAB, CR, LF, CHR '':''} = {}"

definition no_eol :: "string \<Rightarrow> bool" where
  "no_eol v \<longleftrightarrow> CR \<notin> set v \<and> LF \<notin> set v"

definition header_map :: "header_list \<Rightarrow> string \<rightharpoonup> string" where
  "header_map hs = map_of (rev (map (\<lambda>(n, v). (to_lower n, trim v)) hs))"

definition wire_headers :: "header_list \<Rightarrow> bool" where
  "wire_headers hs \<longleftrightarrow> list_all (\<lambda>(n, v). token n \<and> no_eol v) hs"

lemma write_lines_Cons: "write_lines (l # ls) = l @ CR # LF # write_lines ls"
  by (simp add: write_lines_def)

lemma find_head_end:
  assumes "ls \<noteq> []" and "\<And>l. l \<in> set ls \<Longrightarrow> l \<noteq> [] \<and> no_eol l"
  shows "find_sub (crlf @ crlf) (write_lines ls @ body) = Some (length (write_lines ls) - 4)"
  using assms
proof (induction ls)
  case (Cons l ls)
  then have l: "CR \<notin> set l" by (simp add: no_eol_def)
  show ?case
  proof (cases ls)
    case Nil
    have "find_sub (crlf @ crlf) (l @ crlf @ crlf @ body) = Some (length l)"
      using find_sub_skip [OF l, of "[LF, CR, LF]" "crlf @ crlf @ body"] find_sub_here [of "crlf @ crlf" body]
      by simp
    with Nil show ?thesis by (simp add: write_lines_def)
  next
    case Next: (Cons k ks)
    then obtain c k' where k: "k = c # k'" "c \<noteq> CR" using Cons.prems(2) [of k] by (cases k) (auto simp: no_eol_def)
    let ?r = "write_lines ls @ body"
    have r: "?r = c # k' @ CR # LF # write_lines ks @ body" using Next k by (simp add: write_lines_Cons)
    have "find_sub (crlf @ crlf) (CR # LF # ?r) = map_option (\<lambda>i. i + 2) (find_sub (crlf @ crlf) ?r)"
      using k(2) by (simp add: r find_sub.simps [of "[CR, LF, CR, LF]" "CR # LF # _"]
          find_sub.simps [of "[CR, LF, CR, LF]" "LF # _"] option.map_comp comp_def)
    moreover have "find_sub (crlf @ crlf) ?r = Some (length (write_lines ls) - 4)"
      using Cons.IH Cons.prems(2) Next by simp
    moreover have "4 \<le> length (write_lines ls)" using Next by (simp add: write_lines_def)
    ultimately show ?thesis using find_sub_skip [OF l, of "[LF, CR, LF]" "CR # LF # ?r"]
      by (simp add: write_lines_Cons)
  qed
qed simp

lemma head_end_write_lines:
  assumes "ls \<noteq> []" and "\<And>l. l \<in> set ls \<Longrightarrow> l \<noteq> [] \<and> no_eol l"
  shows "head_end (write_lines ls @ body) = Some (length (write_lines ls))"
proof -
  have "4 \<le> length (write_lines ls)" using assms(1) by (cases ls) (simp_all add: write_lines_def)
  then show ?thesis using find_head_end [OF assms, of body] by (simp add: head_end_def)
qed

lemma head_lines_line: "no_eol l \<Longrightarrow> head_lines (l @ CR # LF # rest) = l # head_lines rest"
  using find_char_append [of LF "l @ [CR]" rest]
  by (simp add: head_lines.simps [of "l @ CR # LF # rest"] no_eol_def strip_cr_def)

lemma head_lines_write_lines: "(\<And>l. l \<in> set ls \<Longrightarrow> no_eol l) \<Longrightarrow> head_lines (write_lines ls) = ls @ [[]]"
proof (induction ls)
  case Nil
  show ?case using head_lines_line [of "[]" "[]"]
    by (simp add: write_lines_def no_eol_def head_lines.simps [of "[]"] find_char_None [THEN iffD2])
next
  case (Cons l ls)
  then show ?case by (simp add: write_lines_Cons head_lines_line)
qed

lemma trim_token [simp]: "token n \<Longrightarrow> trim n = n"
proof -
  assume n: "token n"
  then have "\<not> (hd n = CHR '' '' \<or> hd n = TAB)" "\<not> (last n = CHR '' '' \<or> last n = TAB \<or> last n = CR)"
    by (auto simp: token_def) (metis hd_in_set last_in_set)+
  then have "dropWhile (\<lambda>c. c = CHR '' '' \<or> c = TAB) n = n"
    and "dropWhile (\<lambda>c. c = CHR '' '' \<or> c = TAB \<or> c = CR) (rev n) = rev n"
    by (simp_all add: dropWhile_eq_self_iff hd_rev)
  then show ?thesis by (simp add: trim_def)
qed

lemma trim_blank [simp]: "trim (CHR '' '' # v) = trim v"
  by (simp add: trim_def)

lemma parse_header_lines:
  assumes "wire_headers hs"
  shows "parse_headers (map header_line hs @ [[]]) h = Inr (h ++ header_map hs)"
  using assms
proof (induction hs arbitrary: h)
  case Nil
  show ?case by (simp add: header_map_def)
next
  case (Cons nv hs)
  obtain n v where nv: "nv = (n, v)" by (cases nv)
  then have n: "token n" and tl: "wire_headers hs" using Cons.prems by (simp_all add: wire_headers_def)
  have "find_sub '':'' (header_line (n, v)) = Some (length n)"
    using find_char_append [of "CHR '':''" n "CHR '' '' # v"] n by (simp add: header_line_def token_def)
  then have "parse_headers (map header_line (nv # hs) @ [[]]) h =
      parse_headers (map header_line hs @ [[]]) (h(to_lower n \<mapsto> trim v))"
    using n by (simp add: nv) (simp add: header_line_def)
  then show ?case by (simp add: Cons.IH [OF tl]) (simp add: header_map_def nv map_add_def fun_eq_iff split: option.split)
qed

definition start_line_of :: "bool \<Rightarrow> string \<Rightarrow> (string + http_head) throws" where
  "start_line_of request_mode start =
     (if request_mode then Inr (parse_request_line start) else parse_status_line start)"

text \<open>A written head is read back, with everything after it left as the body.\<close>

lemma parse_written_head:
  assumes start: "start_line_of request_mode start = Inr (Inr head)"
    and "start \<noteq> []" "no_eol start" and "hh_headers head = Map.empty" and hs: "wire_headers hs"
  shows "parse_head (write_lines (start # map header_line hs) @ body) request_mode =
    Inr (Parsed (head\<lparr>hh_headers := header_map hs\<rparr>) (length (write_lines (start # map header_line hs))))"
proof -
  have "header_line nv \<noteq> [] \<and> no_eol (header_line nv)" if "nv \<in> set hs" for nv
    using hs that by (auto simp: wire_headers_def list_all_iff header_line_def no_eol_def token_def)
  then have lines: "l \<noteq> [] \<and> no_eol l" if "l \<in> set (start # map header_line hs)" for l
    using that assms(2,3) by auto
  have "head_end (write_lines (start # map header_line hs) @ body) =
      Some (length (write_lines (start # map header_line hs)))"
    using lines by (intro head_end_write_lines) auto
  moreover have "head_lines (write_lines (start # map header_line hs)) = start # map header_line hs @ [[]]"
    using head_lines_write_lines [of "start # map header_line hs"] lines by simp
  ultimately show ?thesis
    using assms(2,4) start parse_header_lines [OF hs, of Map.empty]
    by (simp add: parse_head_def start_line_of_def split: if_splits)
qed

lemma wire_headers_append [simp]: "wire_headers (hs @ hs') \<longleftrightarrow> wire_headers hs \<and> wire_headers hs'"
  by (simp add: wire_headers_def)

lemma no_eol_numeral: "no_eol (nat_to_string n)"
proof -
  have "\<not> is_digit LF" "\<not> is_digit CR" by (simp_all add: is_digit_def)
  then show ?thesis using nat_to_string_digits [of n] by (auto simp: no_eol_def)
qed

lemma wire_content_length [simp]: "wire_headers [content_length body]"
  by (simp add: wire_headers_def content_length_def token_def no_eol_numeral)

lemma parse_request_line_written:
  assumes "CHR '' '' \<notin> set m" and "CHR '' '' \<notin> set target"
  shows "parse_request_line (m @ '' '' @ target @ '' HTTP/1.1'') = Inr (new_head\<lparr>hh_method := m, hh_target := target\<rparr>)"
proof -
  let ?s = "m @ '' '' @ target @ '' HTTP/1.1''"
  have sp1: "find_sub '' '' ?s = Some (length m)"
    using find_char_append [OF assms(1), of "target @ '' HTTP/1.1''"] by simp
  have sp2: "find_from '' '' ?s (length m + 1) = Some (length m + 1 + length target)"
    using find_char_append [OF assms(2), of "''HTTP/1.1''"] by (simp add: find_from_def)
  show ?thesis using sp1 sp2 by (simp add: parse_request_line_def)
qed

lemma parse_status_line_written:
  assumes "100 \<le> status" and "status \<le> 599"
  shows "parse_status_line (''HTTP/1.1 '' @ int_to_string status @ '' '' @ reason) =
    Inr (Inr (new_head\<lparr>hh_status := status, hh_reason := reason\<rparr>))"
proof -
  let ?n = "int_to_string status" let ?s = "''HTTP/1.1 '' @ ?n @ '' '' @ reason"
  have n: "CHR '' '' \<notin> set ?n" using assms nat_to_string_digits [of "nat status"]
    by (auto simp: int_to_string_def is_digit_def)
  have sp1: "find_sub '' '' ?s = Some 8"
    using find_char_append [of "CHR '' ''" "''HTTP/1.1''" "?n @ '' '' @ reason"] by simp
  have sp2: "find_from '' '' ?s 9 = Some (9 + length ?n)"
    using find_char_append [OF n, of reason] by (simp add: find_from_def)
  have "atoi (?n @ '' '' @ reason) = Inr status"
    using assms by (intro atoi_numeral) (simp_all add: is_digit_def)
  moreover have "2 \<le> length ?n"
    using assms by (simp add: int_to_string_def nat_to_string.simps [of "nat status"]
        Suc_le_eq nat_to_string_nonempty)
  moreover have "drop (10 + length ?n) ?s = reason" by (simp add: numeral_eq_Suc)
  ultimately show ?thesis using sp1 sp2 assms by (simp add: parse_status_line_def)
qed

lemma wire_request_headers:
  "wire_headers hs \<Longrightarrow> wire_headers (request_headers m hs body)"
  "wire_headers hs \<Longrightarrow> wire_headers (response_headers hs body streaming)"
  by (simp_all add: request_headers_def response_headers_def) (simp_all add: wire_headers_def)

lemma request_read_back:
  assumes "wire_headers hs" and "token m" and "token target"
  shows "\<exists>n. parse_head (serialize_request m target hs body) True =
      Inr (Parsed (new_head\<lparr>hh_method := m, hh_target := target,
                    hh_headers := header_map (request_headers m hs body)\<rparr>) n) \<and>
    drop n (serialize_request m target hs body) = body"
proof -
  let ?start = "m @ '' '' @ target @ '' HTTP/1.1''"
  have "start_line_of True ?start = Inr (Inr (new_head\<lparr>hh_method := m, hh_target := target\<rparr>))"
    using assms parse_request_line_written [of m target] by (simp add: start_line_of_def token_def)
  moreover have "no_eol ?start" using assms by (auto simp: no_eol_def token_def)
  ultimately show ?thesis
    using parse_written_head [OF _ _ _ _ wire_request_headers(1) [OF assms(1)], of True ?start]
    unfolding serialize_request_def by (fastforce simp: new_head_def)
qed

lemma response_read_back:
  assumes "wire_headers hs" and "100 \<le> status" and "status \<le> 599" and "no_eol reason"
  shows "\<exists>n. parse_head (serialize_response status reason hs body streaming) False =
      Inr (Parsed (new_head\<lparr>hh_status := status, hh_reason := reason,
                    hh_headers := header_map (response_headers hs body streaming)\<rparr>) n) \<and>
    drop n (serialize_response status reason hs body streaming) = body"
proof -
  let ?start = "''HTTP/1.1 '' @ int_to_string status @ '' '' @ reason"
  have "start_line_of False ?start = Inr (Inr (new_head\<lparr>hh_status := status, hh_reason := reason\<rparr>))"
    using assms parse_status_line_written [of status reason] by (simp add: start_line_of_def)
  moreover have "no_eol ?start"
    using assms no_eol_numeral [of "nat status"] by (simp add: no_eol_def int_to_string_def)
  ultimately show ?thesis
    using parse_written_head [OF _ _ _ _ wire_request_headers(2) [OF assms(1)], of False ?start]
    unfolding serialize_response_def by (fastforce simp: new_head_def)
qed

subsection \<open>Fragments of a head\<close>

lemma no_double_LF:
  assumes "\<And>l. l \<in> set ls \<Longrightarrow> l \<noteq> [] \<and> no_eol l"
  shows "find_sub [LF, LF] (write_lines ls) = None"
  using assms
proof (induction ls)
  case Nil
  show ?case by (simp add: write_lines_def find_sub.simps)
next
  case (Cons l ls)
  have "LF \<notin> set (l @ [CR])" using Cons.prems [of l] by (simp add: no_eol_def)
  moreover obtain c r where r: "write_lines ls = c # r" "c \<noteq> LF"
  proof (cases ls)
    case Nil
    then show ?thesis using that by (simp add: write_lines_def)
  next
    case k: (Cons k ks)
    then obtain d k' where "k = d # k'" "d \<noteq> LF" using Cons.prems [of k] by (cases k) (auto simp: no_eol_def)
    with k show ?thesis using that by (simp add: write_lines_Cons)
  qed
  then have "find_sub [LF, LF] (LF # write_lines ls) = map_option Suc (find_sub [LF, LF] (write_lines ls))"
    by (simp add: find_sub.simps [of "[LF, LF]" "LF # _"])
  ultimately show ?case
    using find_sub_skip [of LF "l @ [CR]" "[LF]" "LF # write_lines ls"] Cons.IH Cons.prems
    by (simp add: write_lines_Cons)
qed

text \<open>No proper prefix of a written head is taken for a head.\<close>

lemma head_end_prefix:
  assumes "ls \<noteq> []" and "\<And>l. l \<in> set ls \<Longrightarrow> l \<noteq> [] \<and> no_eol l" and "write_lines ls = p @ q" and "q \<noteq> []"
  shows "head_end p = None"
proof -
  have no: "find_sub [LF, LF] p = None"
    using no_double_LF [of ls, OF assms(2)] find_sub_append_Some [of "[LF, LF]" p _ q] assms(3)
    by (cases "find_sub [LF, LF] p") auto
  have "find_sub (crlf @ crlf) p = None"
  proof (rule ccontr)
    assume "find_sub (crlf @ crlf) p \<noteq> None"
    then obtain i where i: "find_sub (crlf @ crlf) p = Some i" by blast
    then have "find_sub (crlf @ crlf) (p @ q) = Some i" by (rule find_sub_append_Some) simp
    with find_head_end [OF assms(1,2), of "[]"] assms(3) have "i = length (p @ q) - 4" by simp
    moreover have "i + 4 \<le> length p" using find_sub_Some [OF i] by simp
    ultimately show False using assms(4) by (cases q) auto
  qed
  with no show ?thesis by (simp add: head_end_def)
qed

lemma head_lines_wire:
  assumes "start \<noteq> []" and "no_eol start" and "wire_headers hs" and "l \<in> set (start # map header_line hs)"
  shows "l \<noteq> [] \<and> no_eol l"
  using assms by (auto simp: wire_headers_def list_all_iff header_line_def no_eol_def token_def)

subsection \<open>Properties\<close>

text \<open>
  HTTP heads: a request or response the program writes, with a method and target that are tokens, headers
  that are tokens with single-line values and a status between 100 and 599, is read back with its method
  and target (or status and reason) and with its header values by lower-cased name, the last one
  winning; the head ends exactly where the body starts.
\<close>

theorem http_heads_roundtrip:
  assumes "wire_headers hs" and "token m" and "token target"
    and "100 \<le> status" and "status \<le> 599" and "no_eol reason"
  shows "(\<exists>n. parse_head (serialize_request m target hs body) True =
      Inr (Parsed (new_head\<lparr>hh_method := m, hh_target := target,
                    hh_headers := header_map (request_headers m hs body)\<rparr>) n) \<and>
      drop n (serialize_request m target hs body) = body) \<and>
    (\<exists>n. parse_head (serialize_response status reason hs body streaming) False =
      Inr (Parsed (new_head\<lparr>hh_status := status, hh_reason := reason,
                    hh_headers := header_map (response_headers hs body streaming)\<rparr>) n) \<and>
      drop n (serialize_response status reason hs body streaming) = body)"
  using request_read_back [OF assms(1-3)] response_read_back [OF assms(1,4-6)] by blast

lemma http_heads_roundtrip_witness:
  "\<exists>n. parse_head (serialize_response 200 ''OK'' [(''Content-Type'', ''text/plain'')] ''hi'' False) False =
      Inr (Parsed (new_head\<lparr>hh_status := 200, hh_reason := ''OK'',
        hh_headers := header_map (response_headers [(''Content-Type'', ''text/plain'')] ''hi'' False)\<rparr>) n) \<and>
      drop n (serialize_response 200 ''OK'' [(''Content-Type'', ''text/plain'')] ''hi'' False) = ''hi''"
  by (rule http_heads_roundtrip [of _ "''GET''" "''/mcp''", THEN conjunct2])
    (simp_all add: wire_headers_def token_def no_eol_def)

end
