(* ===== verification/Mcp_Sse_Channel.thy ===== *)
theory Mcp_Sse_Channel
  imports Mcp_Sse Mcp_Http_Codec Mcp_Pagination Mcp_Message
begin

text \<open>
  The server-to-client channel of the HTTP transports (\<^verbatim>\<open>src/transport/http/sse_channel.cpp\<close>): numbered
  events kept in a bounded ring for replay, one active stream at a time, and the capture of the
  responses produced while a POST is dispatched.

  The blocking \<^verbatim>\<open>attach_stream\<close> is cut at its critical sections: \<open>attach_begin\<close> takes the stream's
  generation and start, \<open>stream_turn\<close> is one passage of the loop under the mutex, and the writes happen
  between them.  The state machine \<open>channel_step\<close> interleaves these sections with the operations of
  other threads, with the list of all payloads enqueued so far as a ghost.
\<close>

subsection \<open>The channel\<close>

record sse_channel =
  sc_replay_buffer_size :: nat
  sc_retry_ms :: int
  sc_running :: bool
  sc_ring :: "(nat \<times> string) list"
  sc_next_event_id :: nat
  sc_next_undelivered :: nat
  sc_stream_generation :: nat

definition new_channel :: "nat \<Rightarrow> int \<Rightarrow> sse_channel" where
  "new_channel replay_buffer_size retry_ms =
     \<lparr>sc_replay_buffer_size = replay_buffer_size, sc_retry_ms = retry_ms, sc_running = True, sc_ring = [],
      sc_next_event_id = 1, sc_next_undelivered = 1, sc_stream_generation = 0\<rparr>"

text \<open>\<^verbatim>\<open>while (ring_.size() > replay_buffer_size_) ring_.pop_front()\<close>\<close>

fun pop_excess :: "nat \<Rightarrow> 'a list \<Rightarrow> 'a list" where
  "pop_excess limit [] = []"
| "pop_excess limit (x # xs) = (if length (x # xs) > limit then pop_excess limit xs else x # xs)"

definition enqueue :: "string \<Rightarrow> sse_channel \<Rightarrow> sse_channel" where
  "enqueue payload c =
     (if \<not> sc_running c then c
      else c\<lparr>sc_ring := pop_excess (sc_replay_buffer_size c) (sc_ring c @ [(sc_next_event_id c, payload)]),
             sc_next_event_id := size_t (sc_next_event_id c + 1)\<rparr>)"

record stream =
  st_generation :: nat
  st_cursor :: nat
  st_last_assigned :: nat

definition attach_begin :: "string \<Rightarrow> sse_channel \<Rightarrow> (stream \<times> sse_channel) option" where
  "attach_begin last_event_id c =
     (if \<not> sc_running c then None
      else
        let generation = size_t (sc_stream_generation c + 1);
            cursor = (if last_event_id \<noteq> [] then size_t (strtoull last_event_id + 1) else sc_next_undelivered c)
        in Some (\<lparr>st_generation = generation, st_cursor = cursor,
                  st_last_assigned = size_t (sc_next_event_id c + 2 ^ 64 - 1)\<rparr>,
                 c\<lparr>sc_stream_generation := generation\<rparr>))"

definition stream_head :: "string \<Rightarrow> string" where
  "stream_head protocol_version =
     serialize_response 200 ''OK''
       [(''Content-Type'', ''text/event-stream''), (''Cache-Control'', ''no-cache''),
        (''Connection'', ''keep-alive''), (''MCP-Protocol-Version'', protocol_version)] [] True"

definition initial_event :: "sse_channel \<Rightarrow> stream \<Rightarrow> sse_event" where
  "initial_event c st =
     new_event\<lparr>se_id := Some (nat_to_string (st_last_assigned st)), se_retry_ms := Some (sc_retry_ms c)\<rparr>"

definition item_event :: "nat \<times> string \<Rightarrow> sse_event" where
  "item_event item = new_event\<lparr>se_id := Some (nat_to_string (fst item)), se_data := snd item\<rparr>"

datatype turn_outcome =
    Blocked
  | Detached
  | Pending "(nat \<times> string) list" stream sse_channel

definition stream_turn :: "stream \<Rightarrow> sse_channel \<Rightarrow> turn_outcome" where
  "stream_turn st c =
     (if \<not> sc_running c \<or> sc_stream_generation c \<noteq> st_generation st then Detached
      else if sc_ring c = [] \<or> fst (last (sc_ring c)) < st_cursor st then Blocked
      else
        let pending = filter (\<lambda>(i, _). st_cursor st \<le> i) (sc_ring c) in
        if pending = [] then Pending [] st c
        else
          let cursor = size_t (fst (last pending) + 1)
          in Pending pending (st\<lparr>st_cursor := cursor\<rparr>)
               (if cursor > sc_next_undelivered c then c\<lparr>sc_next_undelivered := cursor\<rparr> else c))"

text \<open>The bytes one turn writes, event by event.\<close>

definition turn_bytes :: "(nat \<times> string) list \<Rightarrow> string" where
  "turn_bytes items = concat (map (\<lambda>i. format_sse_event (item_event i)) items)"

definition shutdown_channel :: "sse_channel \<Rightarrow> sse_channel" where
  "shutdown_channel c = c\<lparr>sc_running := False\<rparr>"

subsection \<open>Captured responses\<close>

text \<open>The table is keyed by the thread that dispatches a POST.\<close>

type_synonym 't captures = "'t \<rightharpoonup> json list"

definition capture_begin :: "'t \<Rightarrow> 't captures \<Rightarrow> 't captures" where
  "capture_begin me table = table(me \<mapsto> [])"

definition capture_end :: "'t \<Rightarrow> 't captures \<Rightarrow> 't captures" where
  "capture_end me table = table(me := None)"

definition try_capture :: "'t \<Rightarrow> message \<Rightarrow> 't captures \<Rightarrow> bool \<times> 't captures" where
  "try_capture me m table =
     (case m of
        Response r \<Rightarrow>
          (case table me of
             None \<Rightarrow> (False, table)
           | Some js \<Rightarrow> (True, table(me \<mapsto> js @ [message_to_json m])))
      | _ \<Rightarrow> (False, table))"

definition add_error_response :: "'t \<Rightarrow> error \<Rightarrow> 't captures \<Rightarrow> 't captures" where
  "add_error_response me e table =
     (case table me of
        None \<Rightarrow> table
      | Some js \<Rightarrow> table(me \<mapsto> js @ [message_to_json (Response (error_response None e))]))"

definition capture_empty :: "'t \<Rightarrow> 't captures \<Rightarrow> bool" where
  "capture_empty me table = (case table me of None \<Rightarrow> True | Some js \<Rightarrow> js = [])"

definition capture_body :: "(json \<Rightarrow> string throws) \<Rightarrow> 't \<Rightarrow> bool \<Rightarrow> 't captures \<Rightarrow> string throws" where
  "capture_body dump me as_batch table =
     (case table me of
        None \<Rightarrow> Inl (Std_Exn ''map::at'')
      | Some js \<Rightarrow>
          if as_batch then dump (JArr js)
          else case js of [] \<Rightarrow> Inl (Undefined ''front of an empty vector'') | j # _ \<Rightarrow> dump j)"

subsection \<open>Interleaving of the critical sections\<close>

text \<open>
  The configuration holds the channel, the streams that are still in their loop, and as a ghost all
  payloads enqueued so far.
\<close>

record channel_conf =
  cc_channel :: sse_channel
  cc_streams :: "stream list"
  cc_log :: "string list"

inductive channel_step :: "channel_conf \<Rightarrow> channel_conf \<Rightarrow> bool" where
  step_enqueue: "sc_running (cc_channel k) \<Longrightarrow>
    channel_step k (k\<lparr>cc_channel := enqueue payload (cc_channel k), cc_log := cc_log k @ [payload]\<rparr>)"
| step_attach: "attach_begin last_event_id (cc_channel k) = Some (st, c) \<Longrightarrow>
    channel_step k (k\<lparr>cc_channel := c, cc_streams := cc_streams k @ [st]\<rparr>)"
| step_turn: "cc_streams k = ss @ st # ss' \<Longrightarrow> stream_turn st (cc_channel k) = Pending items st' c \<Longrightarrow>
    channel_step k (k\<lparr>cc_channel := c, cc_streams := ss @ st' # ss'\<rparr>)"
| step_leave: "cc_streams k = ss @ st # ss' \<Longrightarrow> channel_step k (k\<lparr>cc_streams := ss @ ss'\<rparr>)"
| step_shutdown: "channel_step k (k\<lparr>cc_channel := shutdown_channel (cc_channel k)\<rparr>)"

inductive_cases channel_stepE: "channel_step k k'"

definition start_conf :: "nat \<Rightarrow> int \<Rightarrow> channel_conf" where
  "start_conf limit retry = \<lparr>cc_channel = new_channel limit retry, cc_streams = [], cc_log = []\<rparr>"

inductive channel_reachable :: "nat \<Rightarrow> int \<Rightarrow> channel_conf \<Rightarrow> bool" for limit retry where
  channel_start: "channel_reachable limit retry (start_conf limit retry)"
| channel_next: "channel_reachable limit retry k \<Longrightarrow> channel_step k k' \<Longrightarrow> channel_reachable limit retry k'"

text \<open>The numbered history: event \<open>i\<close> is the \<open>i\<close>th payload.\<close>

definition numbered :: "string list \<Rightarrow> (nat \<times> string) list" where
  "numbered ps = enumerate 1 ps"

definition channel_ok :: "channel_conf \<Rightarrow> bool" where
  "channel_ok k \<longleftrightarrow>
     (let c = cc_channel k; n = length (cc_log k) in
      sc_next_event_id c = n + 1 \<and>
      sc_ring c = drop (n - sc_replay_buffer_size c) (numbered (cc_log k)) \<and>
      1 \<le> sc_next_undelivered c \<and> sc_next_undelivered c \<le> n + 1)"

lemma pop_excess_drop: "pop_excess limit xs = drop (length xs - limit) xs"
  by (induction xs) (auto simp: drop_Cons' Suc_diff_le)

lemma length_numbered [simp]: "length (numbered ps) = length ps"
  by (simp add: numbered_def)

lemma numbered_snoc: "numbered (ps @ [p]) = numbered ps @ [(length ps + 1, p)]"
  by (simp add: numbered_def enumerate_append_eq)

lemma filter_numbered_from: "filter (\<lambda>(j, _). a \<le> j) (enumerate n ps) = drop (a - n) (enumerate n ps)"
proof (induction ps arbitrary: n)
  case (Cons p ps)
  show ?case
  proof (cases "a \<le> n")
    case True
    then have "filter (\<lambda>(j, _). a \<le> j) (enumerate (Suc n) ps) = enumerate (Suc n) ps"
      using Cons.IH [of "Suc n"] by simp
    with True show ?thesis by simp
  next
    case False
    then have "a - n = Suc (a - Suc n)" by simp
    with False Cons.IH [of "Suc n"] show ?thesis by simp
  qed
qed simp

lemma drop_enumerate: "drop m (enumerate n ps) = enumerate (n + m) (drop m ps)"
  by (induction m arbitrary: n ps) (simp, case_tac ps, simp_all)

text \<open>The part of a ring from a cursor on is a part of the history.\<close>

lemma filter_ring:
  "filter (\<lambda>(j, _). a \<le> j) (drop m (numbered ps)) = drop (max m (a - 1)) (numbered ps)"
proof -
  have "a - Suc m + m = max m (a - 1)" by linarith
  then show ?thesis by (simp add: numbered_def drop_enumerate filter_numbered_from add.commute [of m])
qed

lemma last_numbered: "ps \<noteq> [] \<Longrightarrow> last (numbered ps) = (length ps, last ps)"
  by (cases ps rule: rev_cases) (simp_all add: numbered_snoc)

lemma enqueue_ok:
  assumes "channel_ok k" and "sc_running (cc_channel k)" and "length (cc_log k) + 2 < 2 ^ 64"
  shows "channel_ok (k\<lparr>cc_channel := enqueue p (cc_channel k), cc_log := cc_log k @ [p]\<rparr>)"
proof -
  let ?c = "cc_channel k" let ?L = "sc_replay_buffer_size ?c" let ?n = "length (cc_log k)"
  have "drop (length (drop (?n - ?L) (numbered (cc_log k)) @ [(?n + 1, p)]) - ?L)
      (drop (?n - ?L) (numbered (cc_log k)) @ [(?n + 1, p)]) =
    drop (?n + 1 - ?L) (numbered (cc_log k) @ [(?n + 1, p)])"
    by (cases "?n < ?L") (simp_all add: Suc_diff_le)
  with assms show ?thesis
    by (simp add: channel_ok_def enqueue_def Let_def pop_excess_drop numbered_snoc size_t_def)
qed

lemma turn_ok:
  assumes "channel_ok k" and "length (cc_log k) + 1 < 2 ^ 64" and "stream_turn st (cc_channel k) = Pending items st' c"
  shows "channel_ok (k\<lparr>cc_channel := c, cc_streams := ss\<rparr>)"
proof (cases "filter (\<lambda>(i, _). st_cursor st \<le> i) (sc_ring (cc_channel k)) = []")
  case True
  with assms show ?thesis by (auto simp: stream_turn_def channel_ok_def Let_def split: if_splits)
next
  case False
  let ?p = "filter (\<lambda>(i, _). st_cursor st \<le> i) (sc_ring (cc_channel k))"
  from False assms(1) have "fst (last ?p) = length (cc_log k)"
    by (cases "cc_log k") (auto simp: channel_ok_def Let_def filter_ring last_numbered)
  with False assms show ?thesis
    by (auto simp: stream_turn_def channel_ok_def Let_def size_t_def split: if_splits)
qed

lemma channel_step_limit: "channel_step k k' \<Longrightarrow> sc_replay_buffer_size (cc_channel k') = sc_replay_buffer_size (cc_channel k)"
  by (erule channel_stepE)
    (auto simp: enqueue_def attach_begin_def stream_turn_def shutdown_channel_def Let_def split: if_splits)

lemma channel_reachable_limit: "channel_reachable limit retry k \<Longrightarrow> sc_replay_buffer_size (cc_channel k) = limit"
  by (induction rule: channel_reachable.induct) (simp_all add: start_conf_def new_channel_def channel_step_limit)

lemma channel_step_ok:
  assumes "channel_step k k'" and "channel_ok k" and "length (cc_log k') + 1 < 2 ^ 64"
  shows "channel_ok k'"
  using assms(1)
proof cases
  case (step_enqueue payload)
  with assms show ?thesis by (simp add: enqueue_ok)
next
  case (step_attach lid st c)
  with assms(2) show ?thesis by (auto simp: attach_begin_def channel_ok_def Let_def split: if_splits)
next
  case (step_turn ss st ss' items st' c)
  with assms show ?thesis by (simp add: turn_ok)
next
  case (step_leave ss st ss')
  with assms(2) show ?thesis by (simp add: channel_ok_def)
next
  case step_shutdown
  with assms(2) show ?thesis by (simp add: channel_ok_def shutdown_channel_def Let_def)
qed

lemma channel_step_log: "channel_step k k' \<Longrightarrow> length (cc_log k) \<le> length (cc_log k')"
  by (erule channel_stepE) auto

lemma channel_reachable_ok:
  "channel_reachable limit retry k \<Longrightarrow> length (cc_log k) + 1 < 2 ^ 64 \<Longrightarrow> channel_ok k"
proof (induction rule: channel_reachable.induct)
  case channel_start
  show ?case by (simp add: channel_ok_def start_conf_def new_channel_def numbered_def)
next
  case (channel_next k k')
  with channel_step_log [OF channel_next.hyps(2)] channel_step_ok [OF channel_next.hyps(2)] show ?case by simp
qed

subsection \<open>Resuming a stream\<close>

lemma attach_cursor:
  assumes "attach_begin lid c = Some (st, c')" and "n + 1 < 2 ^ 64"
  shows "lid = nat_to_string n \<Longrightarrow> st_cursor st = n + 1"
    and "lid = [] \<Longrightarrow> st_cursor st = sc_next_undelivered c"
    and "c' = c\<lparr>sc_stream_generation := st_generation st\<rparr>" "sc_running c"
    and "st_last_assigned st = size_t (sc_next_event_id c + 2 ^ 64 - 1)"
  using assms by (auto simp: attach_begin_def Let_def strtoull_to_string size_t_def split: if_splits)

lemma turn_from_cursor:
  assumes ok: "channel_ok k" and "length (cc_log k) + 1 < 2 ^ 64" and "0 < sc_replay_buffer_size (cc_channel k)"
    and att: "attach_begin lid (cc_channel k) = Some (st, c)" and "st_cursor st = i + 1" and "i < length (cc_log k)"
  shows "\<exists>st' c'. stream_turn st c =
      Pending (drop (max (length (cc_log k) - sc_replay_buffer_size (cc_channel k)) i) (numbered (cc_log k))) st' c' \<and>
      st_cursor st' = length (cc_log k) + 1 \<and> stream_turn st' c' = Blocked"
proof -
  let ?n = "length (cc_log k)" let ?m = "?n - sc_replay_buffer_size (cc_channel k)"
  let ?ring = "drop ?m (numbered (cc_log k))"
  have n: "cc_log k \<noteq> []" "?m < ?n" "max ?m i < ?n" using assms(3,6) by auto
  have c: "sc_ring c = ?ring" "sc_running c" "sc_stream_generation c = st_generation st"
    using attach_cursor(3,4) [OF att, of 0] ok by (auto simp: channel_ok_def Let_def)
  have ring: "?ring \<noteq> []" "fst (last ?ring) = ?n" using n by (simp_all add: last_numbered)
  have pend: "filter (\<lambda>(j, _). st_cursor st \<le> j) ?ring = drop (max ?m i) (numbered (cc_log k))"
    using filter_ring [of "st_cursor st" ?m] assms(5) by simp
  have "drop (max ?m i) (numbered (cc_log k)) \<noteq> []"
    "fst (last (drop (max ?m i) (numbered (cc_log k)))) = ?n" using n by (auto simp: last_numbered not_le)
  with c ring pend assms(2,5,6) show ?thesis
    by (simp add: stream_turn_def Let_def size_t_def)
qed

subsection \<open>Properties\<close>

text \<open>
  C8. Resumed streams: whatever the interleaving of senders and streams so far (fewer than \<open>2 ^ 64 - 1\<close> events), a
  stream that resumes after event \<open>i\<close>, or a fresh one whose first undelivered event is \<open>i + 1\<close>, is sent
  in its first turn exactly the later events that the ring still holds, in order and once, which are
  all of them if at most \<^verbatim>\<open>replay_buffer_size\<close> were missed, and then waits for the next one.
\<close>

theorem stream_resumes:
  assumes "channel_reachable limit retry k" and "length (cc_log k) + 1 < 2 ^ 64" and "0 < limit"
    and "attach_begin last_event_id (cc_channel k) = Some (st, c)" and "i < length (cc_log k)"
    and "last_event_id = nat_to_string i \<or> last_event_id = [] \<and> sc_next_undelivered (cc_channel k) = i + 1"
  shows "\<exists>st' c'. stream_turn st c =
      Pending (drop (max (length (cc_log k) - limit) i) (numbered (cc_log k))) st' c' \<and>
      st_cursor st' = length (cc_log k) + 1 \<and> stream_turn st' c' = Blocked"
proof -
  have "st_cursor st = i + 1"
    using attach_cursor(1,2) [OF assms(4), of i] assms(2,5,6) by auto
  with turn_from_cursor [OF channel_reachable_ok [OF assms(1,2)] assms(2) _ assms(4) _ assms(5)]
    channel_reachable_limit [OF assms(1)] assms(3)
  show ?thesis by simp
qed

definition sample_conf :: channel_conf where
  "sample_conf = (start_conf 2 3000)\<lparr>cc_channel := enqueue ''b'' (enqueue ''a'' (new_channel 2 3000)), cc_log := [''a'', ''b'']\<rparr>"

lemma sample_conf_reachable: "channel_reachable 2 3000 sample_conf"
proof -
  let ?k = "start_conf 2 3000" let ?k' = "?k\<lparr>cc_channel := enqueue ''a'' (cc_channel ?k), cc_log := cc_log ?k @ [''a'']\<rparr>"
  have "channel_step ?k ?k'" by (rule step_enqueue) (simp add: start_conf_def new_channel_def)
  moreover have "channel_step ?k' (?k'\<lparr>cc_channel := enqueue ''b'' (cc_channel ?k'), cc_log := cc_log ?k' @ [''b'']\<rparr>)"
    by (rule step_enqueue) (simp add: start_conf_def new_channel_def enqueue_def)
  ultimately have "channel_reachable 2 3000 (?k'\<lparr>cc_channel := enqueue ''b'' (cc_channel ?k'), cc_log := cc_log ?k' @ [''b'']\<rparr>)"
    by (blast intro: channel_reachable.intros)
  then show ?thesis by (simp add: sample_conf_def start_conf_def)
qed

lemma stream_resumes_witness:
  "\<exists>st c st' c'. attach_begin (nat_to_string 1) (cc_channel sample_conf) = Some (st, c) \<and>
     stream_turn st c = Pending [(2, ''b'')] st' c'"
proof -
  obtain st c where att: "attach_begin (nat_to_string 1) (cc_channel sample_conf) = Some (st, c)"
    by (auto simp: attach_begin_def sample_conf_def enqueue_def new_channel_def Let_def)
  from stream_resumes [OF sample_conf_reachable _ _ att, of 1]
  have "\<exists>st' c'. stream_turn st c = Pending [(2, ''b'')] st' c'"
    by (auto simp: sample_conf_def numbered_def)
  with att show ?thesis by blast
qed

text \<open>
  Ids of the first event of a stream: the event that opens a stream carries the id of the last event assigned, not of
  the last one delivered.  A client that records it, as it records every id, and loses the connection
  before the backlog arrives, resumes behind the backlog: none of it is sent again.
\<close>

theorem opening_id_skips_backlog:
  assumes "channel_reachable limit retry k" and "length (cc_log k) + 1 < 2 ^ 64"
    and "attach_begin last_event_id (cc_channel k) = Some (st, c)"
    and "se_id (initial_event c st) = Some recorded"
    and "attach_begin recorded c = Some (st', c')"
  shows "stream_turn st' c' = Blocked"
proof -
  let ?n = "length (cc_log k)"
  have ok: "channel_ok k" by (rule channel_reachable_ok [OF assms(1,2)])
  have "st_last_assigned st = ?n"
    using attach_cursor(5) [OF assms(3), of 0] ok assms(2) by (simp add: channel_ok_def Let_def size_t_def)
  then have "st_cursor st' = ?n + 1"
    using attach_cursor(1) [OF assms(5), of ?n] assms(2,4) by (simp add: initial_event_def)
  moreover have "sc_ring c' = sc_ring (cc_channel k)" "sc_running c'" "sc_stream_generation c' = st_generation st'"
    using attach_cursor(3,4) [OF assms(3), of 0] attach_cursor(3,4) [OF assms(5), of 0] by auto
  moreover have "fst (last (sc_ring c')) \<le> ?n" if "sc_ring c' \<noteq> []"
    using that calculation(2) ok by (cases "cc_log k") (auto simp: channel_ok_def Let_def last_numbered)
  ultimately show ?thesis by (auto simp: stream_turn_def)
qed

lemma opening_id_skips_backlog_witness:
  "\<exists>st c st' c'. attach_begin (nat_to_string 0) (cc_channel sample_conf) = Some (st, c) \<and>
     attach_begin (nat_to_string 2) c = Some (st', c') \<and> stream_turn st' c' = Blocked"
proof -
  obtain st c where att: "attach_begin (nat_to_string 0) (cc_channel sample_conf) = Some (st, c)"
    by (auto simp: attach_begin_def sample_conf_def enqueue_def new_channel_def Let_def)
  then have id: "se_id (initial_event c st) = Some (nat_to_string 2)"
    by (auto simp: attach_begin_def sample_conf_def enqueue_def new_channel_def initial_event_def size_t_def Let_def)
  obtain st' c' where att': "attach_begin (nat_to_string 2) c = Some (st', c')"
    using att by (auto simp: attach_begin_def sample_conf_def enqueue_def new_channel_def Let_def)
  from opening_id_skips_backlog [OF sample_conf_reachable _ att id att'] have "stream_turn st' c' = Blocked"
    by (simp add: sample_conf_def)
  with att att' show ?thesis by blast
qed

end
