(* ===== verification/Mcp_Line.thy ===== *)
theory Mcp_Line
  imports Mcp_Framing Mcp_Message Mcp_Platform
begin

text \<open>
  The newline-delimited transports: \<^verbatim>\<open>LineTransportBase\<close>
  (\<^verbatim>\<open>src/transport/line_transport.cpp\<close>), the buffered line reader (\<^verbatim>\<open>src/transport/line_io.cpp\<close>), the server
  side over stdin and stdout (\<^verbatim>\<open>src/transport/stdio_transport.cpp\<close>) and the client side that spawns the
  server (\<^verbatim>\<open>src/transport/stdio_client_transport.cpp\<close>).

  The three handlers a session installs are functions on the session's state that may throw; an
  exception that leaves a handler on a reader thread ends the process, so no state remains then.
  What the operating system answers (a poll, a read, a wait for the child) is given as the list of
  outcomes in the order of the calls, together with the value of \<^verbatim>\<open>running_\<close> that the thread sees; a
  loop whose list is used up is still waiting.
\<close>

subsection \<open>Handlers\<close>

record 's handlers =
  on_message :: "(message \<Rightarrow> 's \<Rightarrow> 's throws) option"
  on_error :: "(error \<Rightarrow> 's \<Rightarrow> 's throws) option"
  on_close :: "('s \<Rightarrow> 's throws) option"

definition no_handlers :: "'s handlers" where
  "no_handlers = \<lparr>on_message = None, on_error = None, on_close = None\<rparr>"

definition set_message_handler :: "(message \<Rightarrow> 's \<Rightarrow> 's throws) option \<Rightarrow> 's handlers \<Rightarrow> 's handlers" where
  "set_message_handler h hs = hs\<lparr>on_message := h\<rparr>"

definition set_error_handler :: "(error \<Rightarrow> 's \<Rightarrow> 's throws) option \<Rightarrow> 's handlers \<Rightarrow> 's handlers" where
  "set_error_handler h hs = hs\<lparr>on_error := h\<rparr>"

definition set_close_handler :: "('s \<Rightarrow> 's throws) option \<Rightarrow> 's handlers \<Rightarrow> 's handlers" where
  "set_close_handler h hs = hs\<lparr>on_close := h\<rparr>"

definition emit_error :: "'s handlers \<Rightarrow> error \<Rightarrow> 's \<Rightarrow> 's throws" where
  "emit_error hs e s = (case on_error hs of None \<Rightarrow> Inr s | Some h \<Rightarrow> h e s)"

definition emit_close :: "'s handlers \<Rightarrow> 's \<Rightarrow> 's throws" where
  "emit_close hs s = (case on_close hs of None \<Rightarrow> Inr s | Some h \<Rightarrow> h s)"

text \<open>A loop over a vector whose body changes the state and may throw.\<close>

fun foldE :: "('a \<Rightarrow> 's \<Rightarrow> 'e + 's) \<Rightarrow> 'a list \<Rightarrow> 's \<Rightarrow> 'e + 's" where
  "foldE f [] s = Inr s"
| "foldE f (x # xs) s = bindE (f x s) (foldE f xs)"

text \<open>The parsed frame goes to the handlers: errors of items first, then the messages.\<close>

definition deliver_messages :: "'s handlers \<Rightarrow> message list \<Rightarrow> 's \<Rightarrow> 's throws" where
  "deliver_messages hs ms s = (case on_message hs of None \<Rightarrow> Inr s | Some h \<Rightarrow> foldE h ms s)"

definition process_line :: "(string \<Rightarrow> json option) \<Rightarrow> 's handlers \<Rightarrow> string \<Rightarrow> 's \<Rightarrow> 's throws" where
  "process_line parse hs line s =
     (if line = [] then Inr s
      else bindE (parse_frame parse line) (\<lambda>frame.
        case frame of
          Inl e \<Rightarrow> emit_error hs e s
        | Inr f \<Rightarrow> bindE (foldE (emit_error hs) (item_errors f) s) (deliver_messages hs (messages f))))"

subsection \<open>Sending\<close>

text \<open>
  \<open>write\<close> is the transport's \<^verbatim>\<open>write_line\<close>.  In \<^verbatim>\<open>stdio_write_line\<close> the platform's \<^verbatim>\<open>write_all\<close> is a
  function of the bytes and of the state of the descriptor.
\<close>

definition send_line :: "'s handlers \<Rightarrow> (string \<Rightarrow> 's \<Rightarrow> 's throws) \<Rightarrow> string \<Rightarrow> 's \<Rightarrow> 's throws" where
  "send_line hs write line s =
     (if find_sub [LF] line \<noteq> None
      then emit_error hs (mk_error InternalError ''refusing to send message containing raw newline'') s
      else write line s)"

definition line_send :: "(json \<Rightarrow> string throws) \<Rightarrow> 's handlers \<Rightarrow> (string \<Rightarrow> 's \<Rightarrow> 's throws) \<Rightarrow>
    message \<Rightarrow> 's \<Rightarrow> 's throws" where
  "line_send dump hs write m s = bindE (serialize_message dump m) (\<lambda>line. send_line hs write line s)"

definition line_send_batch :: "(json \<Rightarrow> string throws) \<Rightarrow> 's handlers \<Rightarrow> (string \<Rightarrow> 's \<Rightarrow> 's throws) \<Rightarrow>
    message list \<Rightarrow> 's \<Rightarrow> 's throws" where
  "line_send_batch dump hs write ms s = bindE (serialize_batch dump ms) (\<lambda>line. send_line hs write line s)"

definition stdio_write_line :: "int \<Rightarrow> 's handlers \<Rightarrow> (string \<Rightarrow> 's \<Rightarrow> bool \<times> 's) \<Rightarrow> string \<Rightarrow> 's \<Rightarrow> 's throws" where
  "stdio_write_line out_fd hs write line s =
     (if out_fd < 0 then Inr s
      else let (ok, s) = write (line @ [LF]) s
           in if ok then Inr s else emit_error hs (mk_error InternalError ''stdio write failed'') s)"

definition client_write_line :: "int \<Rightarrow> 's handlers \<Rightarrow> (string \<Rightarrow> 's \<Rightarrow> bool \<times> 's) \<Rightarrow> string \<Rightarrow> 's \<Rightarrow> 's throws" where
  "client_write_line stdin_fd hs write line s =
     (if stdin_fd < 0 then emit_error hs (mk_error InternalError ''transport is not connected'') s
      else let (ok, s) = write (line @ [LF]) s
           in if ok then Inr s
              else emit_error hs (mk_error InternalError ''write to server process failed'') s)"

subsection \<open>The reader of the server side\<close>

datatype read_outcome = Got string | End_Of_File | Read_Failed

text \<open>
  One turn of the loop of \<^verbatim>\<open>StdioTransport::read_loop\<close>: the value of \<^verbatim>\<open>running_\<close> at its head, then the outcome
  of the poll; where \<^verbatim>\<open>running_\<close> is read again its value is the argument of the outcome.
\<close>

datatype turn =
    Poll_Failed
  | Woken bool
  | Readable read_outcome bool

datatype 's loop_end =
    Waiting string 's
  | Returned 's
  | Closed_Loop 's
  | Terminated exn

definition close_loop :: "'s handlers \<Rightarrow> 's throws \<Rightarrow> 's loop_end" where
  "close_loop hs m = (case bindE m (emit_close hs) of Inl e \<Rightarrow> Terminated e | Inr s \<Rightarrow> Closed_Loop s)"

fun read_loop :: "(string \<Rightarrow> json option) \<Rightarrow> 's handlers \<Rightarrow> (bool \<times> turn) list \<Rightarrow> string \<Rightarrow> 's \<Rightarrow> 's loop_end" where
  "read_loop parse hs [] buffer s = Waiting buffer s"
| "read_loop parse hs ((running, t) # ts) buffer s =
     (if \<not> running then close_loop hs (Inr s)
      else case t of
        Poll_Failed \<Rightarrow> close_loop hs (emit_error hs (mk_error InternalError ''stdio poll failed'') s)
      | Woken still \<Rightarrow> if still then read_loop parse hs ts buffer s else Returned s
      | Readable Read_Failed still \<Rightarrow>
          close_loop hs (if still then emit_error hs (mk_error InternalError ''stdio read failed'') s else Inr s)
      | Readable End_Of_File _ \<Rightarrow> close_loop hs (Inr s)
      | Readable (Got chunk) _ \<Rightarrow>
          (case drain_lines (process_line parse hs) (buffer @ chunk) s of
             Inl e \<Rightarrow> Terminated e
           | Inr (buffer, s) \<Rightarrow> read_loop parse hs ts buffer s))"

subsection \<open>The line reader of the client side\<close>

record line_reader =
  lr_buffer :: string
  lr_eof :: bool

datatype line_status = Line string | Eof | IoError

text \<open>\<open>None\<close>: the reads are used up and the reader blocks.\<close>

fun next_line :: "line_reader \<Rightarrow> read_outcome list \<Rightarrow> (line_status \<times> line_reader \<times> read_outcome list) option" where
  "next_line r reads =
     (case find_sub [LF] (lr_buffer r) of
        Some pos \<Rightarrow>
          Some (Line (strip_cr (take pos (lr_buffer r))), r\<lparr>lr_buffer := drop (pos + 1) (lr_buffer r)\<rparr>, reads)
      | None \<Rightarrow>
          if lr_eof r then
            (if lr_buffer r \<noteq> [] then Some (Line (lr_buffer r), r\<lparr>lr_buffer := []\<rparr>, reads)
             else Some (Eof, r, reads))
          else case reads of
            [] \<Rightarrow> None
          | Got chunk # reads' \<Rightarrow> next_line (r\<lparr>lr_buffer := lr_buffer r @ chunk\<rparr>) reads'
          | End_Of_File # reads' \<Rightarrow> next_line (r\<lparr>lr_eof := True\<rparr>) reads'
          | Read_Failed # reads' \<Rightarrow> Some (IoError, r, reads'))"

declare next_line.simps [simp del]

text \<open>The bytes that are still to be turned into lines.\<close>

fun bytes_of :: "read_outcome list \<Rightarrow> string" where
  "bytes_of [] = []"
| "bytes_of (Got chunk # reads) = chunk @ bytes_of reads"
| "bytes_of (End_Of_File # reads) = bytes_of reads"
| "bytes_of (Read_Failed # reads) = bytes_of reads"

lemma next_line_consumes:
  "next_line r reads = Some (Line l, r', reads') \<Longrightarrow>
   length (lr_buffer r') + length (bytes_of reads') < length (lr_buffer r) + length (bytes_of reads)"
proof (induction r reads rule: next_line.induct)
  case (1 r reads)
  show ?case
  proof (cases "find_sub [LF] (lr_buffer r)")
    case (Some pos)
    with "1.prems" show ?thesis using find_char_Some [OF Some] by (auto simp: next_line.simps [of r])
  next
    case None
    with "1.prems" "1.IH" [OF None] show ?thesis
      by (fastforce simp: next_line.simps [of r] split: if_splits list.splits read_outcome.splits)
  qed
qed

function stdout_loop :: "(string \<Rightarrow> json option) \<Rightarrow> 's handlers \<Rightarrow> bool \<times> bool \<Rightarrow> line_reader \<Rightarrow> read_outcome list \<Rightarrow>
    's \<Rightarrow> 's loop_end" where
  "stdout_loop parse hs running r reads s =
     (case next_line r reads of
        None \<Rightarrow> Waiting (lr_buffer r) s
      | Some (Line line, r', reads') \<Rightarrow>
          (case process_line parse hs line s of
             Inl e \<Rightarrow> Terminated e
           | Inr s' \<Rightarrow> stdout_loop parse hs running r' reads' s')
      | Some (status, _, _) \<Rightarrow>
          let m = (if status = IoError \<and> fst running
                   then emit_error hs (mk_error InternalError ''read from server process failed'') s else Inr s)
          in if snd running then close_loop hs m
             else case m of Inl e \<Rightarrow> Terminated e | Inr s \<Rightarrow> Returned s)"
  by pat_completeness auto

termination
  by (relation "measure (\<lambda>(parse, hs, running, r, reads, s). length (lr_buffer r) + length (bytes_of reads))")
    (auto dest: next_line_consumes)

declare stdout_loop.simps [simp del]

function stderr_loop :: "(string \<Rightarrow> 's \<Rightarrow> 's throws) option \<Rightarrow> line_reader \<Rightarrow> read_outcome list \<Rightarrow> 's \<Rightarrow> 's loop_end" where
  "stderr_loop h r reads s =
     (case next_line r reads of
        None \<Rightarrow> Waiting (lr_buffer r) s
      | Some (Line line, r', reads') \<Rightarrow>
          (case (case h of None \<Rightarrow> Inr s | Some f \<Rightarrow> f line s) of
             Inl e \<Rightarrow> Terminated e
           | Inr s' \<Rightarrow> stderr_loop h r' reads' s')
      | Some _ \<Rightarrow> Returned s)"
  by pat_completeness auto

termination
  by (relation "measure (\<lambda>(h, r, reads, s). length (lr_buffer r) + length (bytes_of reads))")
    (auto dest: next_line_consumes)

declare stderr_loop.simps [simp del]

subsection \<open>Connecting and disconnecting\<close>

record stdio_transport =
  io_in_fd :: int
  io_out_fd :: int
  io_owns_fds :: bool
  io_running :: bool
  io_reader_started :: bool

definition new_stdio_transport :: "int \<Rightarrow> int \<Rightarrow> bool \<Rightarrow> stdio_transport" where
  "new_stdio_transport in_fd out_fd owns =
     \<lparr>io_in_fd = in_fd, io_out_fd = out_fd, io_owns_fds = owns, io_running = False, io_reader_started = False\<rparr>"

definition stdio_connect :: "bool \<Rightarrow> 's handlers \<Rightarrow> stdio_transport \<Rightarrow> 's \<Rightarrow> (stdio_transport \<times> 's) throws" where
  "stdio_connect wake_valid hs t s =
     (if io_running t then Inr (t, s)
      else if \<not> wake_valid
      then mapE (Pair t) (emit_error hs (mk_error InternalError ''failed to create wake event'') s)
      else Inr (t\<lparr>io_running := True, io_reader_started := True\<rparr>, s))"

definition stdio_disconnect :: "stdio_transport \<Rightarrow> int list \<times> stdio_transport" where
  "stdio_disconnect t =
     (let t = t\<lparr>io_running := False\<rparr> in
      if io_owns_fds t
      then let (closed_in, in_fd) = close_fd (io_in_fd t); (closed_out, out_fd) = close_fd (io_out_fd t)
           in (closed_in @ closed_out, t\<lparr>io_in_fd := in_fd, io_out_fd := out_fd\<rparr>)
      else ([], t))"

record stdio_client =
  ch_running :: bool
  ch_pid :: int
  ch_handle :: int
  ch_exit_status :: int
  ch_exited :: bool
  ch_stdin_fd :: int
  ch_stdout_fd :: int
  ch_stderr_fd :: int

definition new_stdio_client :: stdio_client where
  "new_stdio_client =
     \<lparr>ch_running = False, ch_pid = -1, ch_handle = 0, ch_exit_status = -1, ch_exited = False,
      ch_stdin_fd = -1, ch_stdout_fd = -1, ch_stderr_fd = -1\<rparr>"

definition exit_status :: "stdio_client \<Rightarrow> int option" where
  "exit_status t = (if ch_exited t then Some (ch_exit_status t) else None)"

text \<open>\<open>spawned\<close> is the outcome of \<^verbatim>\<open>pal::spawn\<close>.\<close>

definition client_connect :: "string + process \<Rightarrow> 's handlers \<Rightarrow> stdio_client \<Rightarrow> 's \<Rightarrow> (stdio_client \<times> 's) throws" where
  "client_connect spawned hs t s =
     (if ch_running t then Inr (t, s)
      else case spawned of
        Inl e \<Rightarrow> mapE (Pair t) (emit_error hs (mk_error InternalError (''spawn failed: '' @ e)) s)
      | Inr p \<Rightarrow>
          Inr (t\<lparr>ch_running := True, ch_pid := pr_pid p, ch_handle := pr_native_handle p,
                 ch_stdin_fd := pr_stdin_fd p, ch_stdout_fd := pr_stdout_fd p, ch_stderr_fd := pr_stderr_fd p\<rparr>, s))"

datatype child_action = Close_Descriptor int | Wait_Exit | Terminate_Child bool

text \<open>
  The escalation: \<open>wait n\<close> is the outcome of the \<open>n\<close>th wait, the status of the child or \<open>None\<close> when the
  grace period ran out.
\<close>

definition escalate :: "(nat \<Rightarrow> int option) \<Rightarrow> child_action list \<times> int option" where
  "escalate wait =
     (case wait 0 of
        Some st \<Rightarrow> ([Wait_Exit], Some st)
      | None \<Rightarrow>
          (case wait 1 of
             Some st \<Rightarrow> ([Wait_Exit, Terminate_Child False, Wait_Exit], Some st)
           | None \<Rightarrow>
               ([Wait_Exit, Terminate_Child False, Wait_Exit, Terminate_Child True, Wait_Exit], wait 2)))"

definition client_disconnect :: "(nat \<Rightarrow> int option) \<Rightarrow> stdio_client \<Rightarrow> child_action list \<times> stdio_client" where
  "client_disconnect wait t =
     (if \<not> ch_running t then ([], t)
      else
        let t = t\<lparr>ch_running := False\<rparr>;
            (closed_in, in_fd) = close_fd (ch_stdin_fd t);
            (acts, exited) = (if ch_pid t > 0 \<and> \<not> ch_exited t then escalate wait else ([], None));
            t = (case exited of Some st \<Rightarrow> t\<lparr>ch_exit_status := st, ch_exited := True\<rparr> | None \<Rightarrow> t);
            (closed_out, out_fd) = close_fd (ch_stdout_fd t);
            (closed_err, err_fd) = close_fd (ch_stderr_fd t)
        in (map Close_Descriptor closed_in @ acts @ map Close_Descriptor (closed_out @ closed_err),
            t\<lparr>ch_stdin_fd := in_fd, ch_stdout_fd := out_fd, ch_stderr_fd := err_fd\<rparr>))"

subsection \<open>Reading lines\<close>

lemma next_line_unterminated:
  "LF \<notin> set (b @ concat cs) \<Longrightarrow>
   next_line \<lparr>lr_buffer = b, lr_eof = False\<rparr> (map Got cs @ [End_Of_File]) =
     Some (if b @ concat cs = [] then Eof else Line (b @ concat cs), \<lparr>lr_buffer = [], lr_eof = True\<rparr>, [])"
proof (induction cs arbitrary: b)
  case Nil
  then show ?case
    by (simp add: next_line.simps [of "\<lparr>lr_buffer = b, lr_eof = False\<rparr>"]
        next_line.simps [of "\<lparr>lr_buffer = b, lr_eof = True\<rparr>"] find_char_None [THEN iffD2])
next
  case (Cons c cs)
  then show ?case
    by (simp add: next_line.simps [of "\<lparr>lr_buffer = b, lr_eof = False\<rparr>"] find_char_None [THEN iffD2])
qed

lemma next_line_terminated:
  assumes "b @ concat cs = l @ LF # rest" and "LF \<notin> set l"
  shows "\<exists>b' cs'. next_line \<lparr>lr_buffer = b, lr_eof = False\<rparr> (map Got cs @ [End_Of_File]) =
      Some (Line (strip_cr l), \<lparr>lr_buffer = b', lr_eof = False\<rparr>, map Got cs' @ [End_Of_File]) \<and>
      b' @ concat cs' = rest"
  using assms
proof (induction cs arbitrary: b)
  case Nil
  with find_char_append [OF Nil.prems(2), of rest]
  have "next_line \<lparr>lr_buffer = b, lr_eof = False\<rparr> (map Got [] @ [End_Of_File]) =
      Some (Line (strip_cr l), \<lparr>lr_buffer = rest, lr_eof = False\<rparr>, map Got [] @ [End_Of_File])"
    by (simp add: next_line.simps [of "\<lparr>lr_buffer = l @ LF # rest, lr_eof = False\<rparr>"])
  then show ?case by (metis append_Nil2 concat.simps(1))
next
  case (Cons c cs)
  show ?case
  proof (cases b rule: line_cases)
    case incomplete
    then have "next_line \<lparr>lr_buffer = b, lr_eof = False\<rparr> (map Got (c # cs) @ [End_Of_File]) =
        next_line \<lparr>lr_buffer = b @ c, lr_eof = False\<rparr> (map Got cs @ [End_Of_File])"
      by (simp add: next_line.simps [of "\<lparr>lr_buffer = b, lr_eof = False\<rparr>"] find_char_None [THEN iffD2])
    with Cons.IH [of "b @ c"] Cons.prems show ?thesis by simp
  next
    case (line l' r)
    with Cons.prems have "l' = l" and rest: "r @ concat (c # cs) = rest"
      by (auto simp: append_eq_append_conv2 append_eq_Cons_conv Cons_eq_append_conv)
    with line(1) find_char_append [OF Cons.prems(2), of r]
    have "next_line \<lparr>lr_buffer = b, lr_eof = False\<rparr> (map Got (c # cs) @ [End_Of_File]) =
        Some (Line (strip_cr l), \<lparr>lr_buffer = r, lr_eof = False\<rparr>, map Got (c # cs) @ [End_Of_File])"
      by (simp add: next_line.simps [of "\<lparr>lr_buffer = l @ LF # r, lr_eof = False\<rparr>"])
    with rest show ?thesis by blast
  qed
qed

text \<open>
  The client's pulling reader consumes a whole stream as the server's pushing one does; only a last line
  without line feed is treated differently: the client delivers it, the server drops it.
\<close>

definition finish_stream :: "(string \<Rightarrow> json option) \<Rightarrow> 's handlers \<Rightarrow> string \<times> 's \<Rightarrow> 's throws" where
  "finish_stream parse hs st = (if fst st = [] then Inr (snd st) else process_line parse hs (fst st) (snd st))"

lemma stdout_loop_stream:
  "stdout_loop parse hs (True, True) \<lparr>lr_buffer = b, lr_eof = False\<rparr> (map Got cs @ [End_Of_File]) s =
   close_loop hs (bindE (drain_lines (process_line parse hs) (b @ concat cs) s) (finish_stream parse hs))"
proof (induction "length (b @ concat cs)" arbitrary: b cs s rule: less_induct)
  case less
  let ?r = "\<lparr>lr_buffer = b, lr_eof = False\<rparr>" let ?eof = "\<lparr>lr_buffer = [], lr_eof = True\<rparr>"
  have eof: "stdout_loop parse hs (True, True) ?eof [] s = close_loop hs (Inr s)" for s
    by (simp add: stdout_loop.simps next_line.simps find_char_None [THEN iffD2])
  show ?case
  proof (cases "b @ concat cs" rule: line_cases)
    case incomplete
    then show ?thesis
      using next_line_unterminated [OF incomplete] eof
      by (simp add: stdout_loop.simps [of parse hs _ ?r] finish_stream_def close_loop_def split: sum.split)
  next
    case (line l rest)
    from next_line_terminated [OF line] obtain b' cs' where
      nl: "next_line ?r (map Got cs @ [End_Of_File]) =
        Some (Line (strip_cr l), \<lparr>lr_buffer = b', lr_eof = False\<rparr>, map Got cs' @ [End_Of_File])"
      and rest: "b' @ concat cs' = rest" by blast
    have "length (b' @ concat cs') < length (b @ concat cs)" using line(1) rest by simp
    from less [OF this] show ?thesis
      using nl line rest
      by (cases "process_line parse hs (strip_cr l) s")
        (simp_all add: stdout_loop.simps [of parse hs _ ?r] close_loop_def)
  qed
qed

lemma read_loop_stream:
  "read_loop parse hs (map (\<lambda>c. (True, Readable (Got c) True)) cs @ ts) b s =
     (case feeds (feed_lines (process_line parse hs)) cs (b, s) of
        Inl e \<Rightarrow> Terminated e | Inr (b', s') \<Rightarrow> read_loop parse hs ts b' s')"
  by (induction cs arbitrary: b s) (simp_all add: feed_lines_def split: sum.split)

subsection \<open>Delivery\<close>

text \<open>
  What the transports rely on in the JSON library: printed text is read back, is not empty and is a
  single line.
\<close>

definition line_codec :: "(json \<Rightarrow> string throws) \<Rightarrow> (string \<Rightarrow> json option) \<Rightarrow> bool" where
  "line_codec dump parse \<longleftrightarrow>
     (\<forall>j t. dump j = Inr t \<longrightarrow> parse t = Some j \<and> t \<noteq> [] \<and> LF \<notin> set t \<and> last t \<noteq> CR)"

lemma parse_single_frame:
  assumes "valid_message m" and "parse t = Some (message_to_json m)"
  shows "parse_frame parse t = returns \<lparr>messages = [m], item_errors = [], was_batch = False\<rparr>"
proof -
  have "\<not> is_array (message_to_json m)"
    by (cases m) (auto simp: request_to_json_def notification_to_json_def response_to_json_def json_obj_def Let_def
        split: option.splits)
  then show ?thesis
    using assms(2) parse_message_to_json [OF assms(1)] by (cases "message_to_json m") (simp_all add: parse_frame_def)
qed

lemma process_sent_line:
  assumes "line_codec dump parse" and "valid_message m" and "serialize_message dump m = Inr t"
  shows "process_line parse hs (strip_cr t) s = deliver_messages hs [m] s \<and> LF \<notin> set t"
proof -
  have t: "parse t = Some (message_to_json m)" "t \<noteq> []" "LF \<notin> set t" "last t \<noteq> CR"
    using assms by (auto simp: line_codec_def serialize_message_def)
  from parse_single_frame [of m parse t] assms(2) t(1)
  have "parse_frame parse t = returns \<lparr>messages = [m], item_errors = [], was_batch = False\<rparr>" by blast
  then show ?thesis using t by (simp add: process_line_def strip_cr_def)
qed

definition framed :: "string list \<Rightarrow> string" where
  "framed lines = concat (map (\<lambda>l. l @ [LF]) lines)"

lemma drain_sent_lines:
  assumes "line_codec dump parse" and "on_message hs = Some h"
    and "\<And>m. m \<in> set ms \<Longrightarrow> valid_message m" and "traverse (serialize_message dump) ms = Inr lines"
  shows "drain_lines (process_line parse hs) (framed lines) s = mapE (Pair []) (foldE h ms s)"
  using assms(3,4)
proof (induction ms arbitrary: lines s)
  case Nil
  then show ?case by (simp add: framed_def)
next
  case (Cons m ms)
  then obtain t ts where t: "serialize_message dump m = Inr t" "lines = t # ts"
      "traverse (serialize_message dump) ms = Inr ts"
    by (auto simp: err_simps)
  from process_sent_line [OF assms(1) _ t(1), of hs s] Cons.prems(1) have
    line: "process_line parse hs (strip_cr t) s = h m s" and "LF \<notin> set t"
    by (auto simp: deliver_messages_def assms(2) bindE_def split: sum.split)
  then have "drain_lines (process_line parse hs) (framed lines) s =
      bindE (h m s) (drain_lines (process_line parse hs) (framed ts))"
    by (simp add: t(2) framed_def)
  with Cons.IH [OF _ t(3)] Cons.prems(1) show ?case by (cases "h m s") simp_all
qed

text \<open>A stream of sent messages, cut anyhow, through either reader.\<close>

lemma read_loop_delivers:
  assumes "line_codec dump parse" and "on_message hs = Some h"
    and "\<And>m. m \<in> set ms \<Longrightarrow> valid_message m" and "traverse (serialize_message dump) ms = Inr lines"
    and "concat reads = framed lines"
  shows "read_loop parse hs
      (map (\<lambda>c. (True, Readable (Got c) True)) reads @ [(True, Readable End_Of_File True)]) [] s =
      close_loop hs (foldE h ms s)"
  using drain_sent_lines [OF assms(1-4), of s] assms(5)
  by (cases "foldE h ms s") (simp_all add: read_loop_stream line_reader.feeds_concat feed_lines_def close_loop_def)

lemma stdout_loop_delivers:
  assumes "line_codec dump parse" and "on_message hs = Some h"
    and "\<And>m. m \<in> set ms \<Longrightarrow> valid_message m" and "traverse (serialize_message dump) ms = Inr lines"
    and "concat reads = framed lines"
  shows "stdout_loop parse hs (True, True) \<lparr>lr_buffer = [], lr_eof = False\<rparr> (map Got reads @ [End_Of_File]) s =
      close_loop hs (foldE h ms s)"
  using drain_sent_lines [OF assms(1-4), of s] assms(5)
  by (cases "foldE h ms s") (simp_all add: stdout_loop_stream finish_stream_def)

subsection \<open>Properties\<close>

text \<open>
  C14. Line transports: the messages a peer sends, one line each, reach the message handler in order however the
  bytes are cut into reads, and the close handler is called at the end of the stream; this holds for the
  reader over stdin and for the reader of a spawned server's stdout.
\<close>

theorem line_transports_deliver:
  assumes "line_codec dump parse" and "on_message hs = Some h"
    and "\<forall>m \<in> set ms. valid_message m" and "traverse (serialize_message dump) ms = Inr lines"
    and "concat reads = framed lines"
  shows "read_loop parse hs
      (map (\<lambda>c. (True, Readable (Got c) True)) reads @ [(True, Readable End_Of_File True)]) [] s =
      close_loop hs (foldE h ms s) \<and>
    stdout_loop parse hs (True, True) \<lparr>lr_buffer = [], lr_eof = False\<rparr> (map Got reads @ [End_Of_File]) s =
      close_loop hs (foldE h ms s)"
  using assms(3)
  by (intro conjI read_loop_delivers [OF assms(1,2) _ assms(4,5)] stdout_loop_delivers [OF assms(1,2) _ assms(4,5)]) blast+

definition sample_note :: message where
  "sample_note = Notification \<lparr>note_method = ''a'', note_params = None\<rparr>"

definition collecting :: "message list handlers" where
  "collecting = no_handlers\<lparr>on_message := Some (\<lambda>m ms. Inr (ms @ [m]))\<rparr>"

lemma line_transports_deliver_witness:
  "stdout_loop (\<lambda>t. Some (message_to_json sample_note)) collecting (True, True)
    \<lparr>lr_buffer = [], lr_eof = False\<rparr> (map Got [''x'', [LF]] @ [End_Of_File]) [] = Closed_Loop [sample_note]"
proof -
  let ?dump = "\<lambda>j. if j = message_to_json sample_note then Inr ''x'' else Inl (Std_Exn ''y'')"
  have "line_codec ?dump (\<lambda>t. Some (message_to_json sample_note))"
    by (auto simp: line_codec_def split: if_splits)
  from line_transports_deliver [OF this, of collecting "\<lambda>m ms. Inr (ms @ [m])" "[sample_note]" "[''x'']"
      "[''x'', [LF]]" "[]"]
  show ?thesis
    by (simp add: sample_note_def serialize_message_def framed_def close_loop_def collecting_def no_handlers_def
        emit_close_def)
qed

lemma escalate_actions:
  "Terminate_Child False \<in> set (fst (escalate wait)) \<longleftrightarrow> wait 0 = None"
  "Terminate_Child True \<in> set (fst (escalate wait)) \<longleftrightarrow> wait 0 = None \<and> wait 1 = None"
  "snd (escalate wait) = (if wait 0 \<noteq> None then wait 0 else if wait 1 \<noteq> None then wait 1 else wait 2)"
  "Close_Descriptor d \<notin> set (fst (escalate wait))"
  by (auto simp: escalate_def split: option.split)

lemma client_disconnect_running:
  assumes "ch_running t" and "ch_pid t > 0" and "\<not> ch_exited t"
  shows "client_disconnect wait t =
    (map Close_Descriptor (fst (close_fd (ch_stdin_fd t))) @ fst (escalate wait) @
       map Close_Descriptor (fst (close_fd (ch_stdout_fd t)) @ fst (close_fd (ch_stderr_fd t))),
     (case snd (escalate wait) of Some st \<Rightarrow> t\<lparr>ch_exit_status := st, ch_exited := True\<rparr> | None \<Rightarrow> t)
       \<lparr>ch_running := False, ch_stdin_fd := snd (close_fd (ch_stdin_fd t)),
        ch_stdout_fd := snd (close_fd (ch_stdout_fd t)), ch_stderr_fd := snd (close_fd (ch_stderr_fd t))\<rparr>)"
  using assms by (cases "snd (escalate wait)") (simp_all add: client_disconnect_def Let_def case_prod_unfold)


definition sample_child :: stdio_client where
  "sample_child = new_stdio_client\<lparr>ch_running := True, ch_pid := 7, ch_stdin_fd := 3, ch_stdout_fd := 4, ch_stderr_fd := 5\<rparr>"


text \<open>
  After a disconnect the transport may be connected again, but the mark that the first child exited
  stays: the next disconnect neither waits for the second child nor stops it.
\<close>

lemma reconnected_child_not_stopped:
  assumes "exit_status t = Some st" and "\<not> ch_running t" and "client_connect (Inr p) hs t s = Inr (t', s')"
  shows "ch_running t' \<and> set (fst (client_disconnect wait t')) \<inter> {Wait_Exit, Terminate_Child False, Terminate_Child True} = {}"
  using assms
  by (auto simp: client_connect_def client_disconnect_def exit_status_def Let_def case_prod_unfold split: if_splits)

end
