(* ===== verification/Mcp_Chunked.thy ===== *)
theory Mcp_Chunked
  imports Mcp_Framing Mcp_Pagination
begin

text \<open>
  The incremental decoder of chunked bodies (\<^verbatim>\<open>ChunkedDecoder\<close> of \<^verbatim>\<open>src/transport/http/http_codec.cpp\<close>).
  Sizes are \<^verbatim>\<open>std::size_t\<close> and wrap.  The decoder is an instance of the locale \<open>incremental\<close>, and it
  decodes what a conforming sender encodes however the bytes are cut into reads.
\<close>

subsection \<open>Chunked transfer encoding\<close>

datatype chunk_state = Size | Data | DataCrlf | Trailers

datatype chunk_status = NeedMore | Done | Error_Status

record chunked_decoder =
  cd_state :: chunk_state
  cd_remaining :: nat

definition new_decoder :: chunked_decoder where
  "new_decoder = \<lparr>cd_state = Size, cd_remaining = 0\<rparr>"

definition hex_digit :: "char \<Rightarrow> nat option" where
  "hex_digit c =
     (if is_digit c then Some (code c - 48)
      else if 97 \<le> code c \<and> code c \<le> 102 then Some (code c - 97 + 10)
      else if 65 \<le> code c \<and> code c \<le> 70 then Some (code c - 65 + 10)
      else None)"

text \<open>The size of a chunk, \<open>None\<close> for the error of the decoder; the accumulated size is a \<^verbatim>\<open>std::size_t\<close>.\<close>

fun chunk_size :: "string \<Rightarrow> nat \<Rightarrow> bool \<Rightarrow> nat option" where
  "chunk_size [] n any = (if any then Some n else None)"
| "chunk_size (c # cs) n any =
     (if c = CHR '';'' then (if any then Some n else None)
      else case hex_digit c of
        None \<Rightarrow> None
      | Some digit \<Rightarrow> chunk_size cs (size_t (n * 16 + digit)) True)"

function chunked_feed :: "chunked_decoder \<Rightarrow> string \<Rightarrow> string \<Rightarrow>
    chunk_status \<times> chunked_decoder \<times> string \<times> string" where
  "chunked_feed d buffer out =
     (case cd_state d of
        Size \<Rightarrow>
          (case find_sub crlf buffer of
             None \<Rightarrow> (NeedMore, d, buffer, out)
           | Some nl \<Rightarrow>
               (case chunk_size (take nl buffer) 0 False of
                  None \<Rightarrow> (Error_Status, d, drop (nl + 2) buffer, out)
                | Some n \<Rightarrow>
                    if n = 0 then chunked_feed (d\<lparr>cd_state := Trailers\<rparr>) (drop (nl + 2) buffer) out
                    else chunked_feed \<lparr>cd_state = Data, cd_remaining = n\<rparr> (drop (nl + 2) buffer) out))
      | Data \<Rightarrow>
          let n = min (cd_remaining d) (length buffer);
              out = out @ take n buffer;
              buffer = drop n buffer;
              d = d\<lparr>cd_remaining := cd_remaining d - n\<rparr>
          in if cd_remaining d > 0 then (NeedMore, d, buffer, out)
             else chunked_feed (d\<lparr>cd_state := DataCrlf\<rparr>) buffer out
      | DataCrlf \<Rightarrow>
          if length buffer < 2 then (NeedMore, d, buffer, out)
          else if take 2 buffer \<noteq> crlf then (Error_Status, d, buffer, out)
          else chunked_feed (d\<lparr>cd_state := Size\<rparr>) (drop 2 buffer) out
      | Trailers \<Rightarrow>
          (case find_sub crlf buffer of
             None \<Rightarrow> (NeedMore, d, buffer, out)
           | Some nl \<Rightarrow>
               if nl = 0 then (Done, d, drop (nl + 2) buffer, out)
               else chunked_feed d (drop (nl + 2) buffer) out))"
  by pat_completeness auto

termination
  by (relation "measure (\<lambda>(d, buffer, out). 2 * length buffer + (if cd_state d = Data then 1 else 0))")
    (auto dest!: find_sub_Some)

declare chunked_feed.simps [simp del]

subsection \<open>The chunked decoder\<close>

definition resume :: "chunk_status \<times> chunked_decoder \<times> string \<times> string \<Rightarrow> string \<Rightarrow>
    chunk_status \<times> chunked_decoder \<times> string \<times> string" where
  "resume r c = (case r of (st, d, b, out) \<Rightarrow> if st = NeedMore then chunked_feed d (b @ c) out else (st, d, b @ c, out))"

lemma chunked_feed_append: "chunked_feed d (b @ c) out = resume (chunked_feed d b out) c"
proof (induction d b out rule: chunked_feed.induct)
  case (1 d b out)
  show ?case
  proof (cases "cd_state d")
    case Size
    show ?thesis
    proof (cases "find_sub crlf b")
      case None
      then show ?thesis using Size by (simp add: chunked_feed.simps [of d b] resume_def)
    next
      case (Some nl)
      then have le: "nl + 2 \<le> length b" using find_sub_Some [OF Some] by simp
      show ?thesis
        using 1(1) [OF Size Some] 1(2) [OF Size Some] Size Some le find_sub_append_Some [OF Some, of c]
        by (simp add: chunked_feed.simps [of d "b @ c"] chunked_feed.simps [of d b] resume_def
            split: option.split if_split)
    qed
  next
    case Data
    show ?thesis
    proof (cases "cd_remaining d \<le> length b")
      case True
      with 1(3) [OF Data refl refl refl refl] Data show ?thesis
        by (simp add: chunked_feed.simps [of d "b @ c"] chunked_feed.simps [of d b] Let_def min_def)
    next
      case False
      then have "cd_remaining d - length b \<le> length c \<longleftrightarrow> cd_remaining d \<le> length b + length c" by linarith
      with False Data show ?thesis
        by (simp add: chunked_feed.simps [of d "b @ c"] chunked_feed.simps [of d b] resume_def
            chunked_feed.simps [of "d\<lparr>cd_remaining := _\<rparr>"] Let_def min_def)
    qed
  next
    case DataCrlf
    then show ?thesis
      using 1(4) [OF DataCrlf]
      by (auto simp: chunked_feed.simps [of d "b @ c"] chunked_feed.simps [of d b] resume_def)
  next
    case Trailers
    show ?thesis
    proof (cases "find_sub crlf b")
      case None
      then show ?thesis using Trailers by (simp add: chunked_feed.simps [of d b] resume_def)
    next
      case (Some nl)
      then have le: "nl + 2 \<le> length b" using find_sub_Some [OF Some] by simp
      show ?thesis
        using 1(5) [OF Trailers Some] Trailers Some le find_sub_append_Some [OF Some, of c]
        by (simp add: chunked_feed.simps [of d "b @ c"] chunked_feed.simps [of d b] resume_def)
    qed
  qed
qed

text \<open>
  The decoder as the client drives it: what a read returned is appended to the buffer and the decoder is
  fed again, until it is done or fails.
\<close>

type_synonym chunk_reader = "chunked_decoder \<times> string \<times> string"

definition chunk_reader_feed :: "string \<Rightarrow> chunk_reader \<Rightarrow> (chunk_status \<times> string) + chunk_reader" where
  "chunk_reader_feed c r =
     (case r of (d, buffer, out) \<Rightarrow>
      case chunked_feed d (buffer @ c) out of (status, d, buffer, out) \<Rightarrow>
        if status = NeedMore then Inr (d, buffer, out) else Inl (status, out))"

lemma chunked_feed_settled:
  "chunked_feed d b out = (NeedMore, d', b', out') \<Longrightarrow> chunked_feed d' b' out' = (NeedMore, d', b', out')"
proof (induction d b out rule: chunked_feed.induct)
  case (1 d b out)
  show ?case
  proof (cases "cd_state d")
    case Size
    show ?thesis
    proof (cases "find_sub crlf b")
      case None
      with Size have "chunked_feed d b out = (NeedMore, d, b, out)" by (simp add: chunked_feed.simps [of d b])
      with "1.prems" show ?thesis by simp
    next
      case (Some nl)
      from 1(1) [OF Size Some] 1(2) [OF Size Some] "1.prems" show ?thesis
        by (simp add: chunked_feed.simps [of d b] Size Some split: option.splits if_splits)
    qed
  next
    case Data
    show ?thesis
    proof (cases "cd_remaining d \<le> length b")
      case True
      with 1(3) [OF Data refl refl refl refl] Data "1.prems" show ?thesis
        by (simp add: chunked_feed.simps [of d b] Let_def min_def)
    next
      case False
      with Data "1.prems" have "d' = d\<lparr>cd_remaining := cd_remaining d - length b\<rparr> \<and> b' = [] \<and> out' = out @ b"
        by (auto simp: chunked_feed.simps [of d b] Let_def min_def)
      with False Data show ?thesis by (simp add: chunked_feed.simps [of "d\<lparr>cd_remaining := cd_remaining d - length b\<rparr>"])
    qed
  next
    case DataCrlf
    show ?thesis
    proof (cases "length b < 2")
      case True
      with DataCrlf have "chunked_feed d b out = (NeedMore, d, b, out)" by (simp add: chunked_feed.simps [of d b])
      with "1.prems" show ?thesis by simp
    next
      case False
      with 1(4) [OF DataCrlf] "1.prems" DataCrlf show ?thesis
        by (simp add: chunked_feed.simps [of d b] split: if_splits)
    qed
  next
    case Trailers
    show ?thesis
    proof (cases "find_sub crlf b")
      case None
      with Trailers have "chunked_feed d b out = (NeedMore, d, b, out)" by (simp add: chunked_feed.simps [of d b])
      with "1.prems" show ?thesis by simp
    next
      case (Some nl)
      from 1(5) [OF Trailers Some] "1.prems" show ?thesis
        by (simp add: chunked_feed.simps [of d b] Trailers Some split: if_splits)
    qed
  qed
qed

interpretation chunked: incremental chunk_reader_feed
  "\<lambda>(d, buffer, out). chunked_feed d buffer out = (NeedMore, d, buffer, out)"
proof
  fix c e :: string and r :: chunk_reader
  obtain d b out where r: "r = (d, b, out)" by (cases r)
  show "chunk_reader_feed (c @ e) r = bindE (chunk_reader_feed c r) (chunk_reader_feed e)"
    using chunked_feed_append [of d "b @ c" e out]
    by (auto simp: r chunk_reader_feed_def resume_def split: prod.split)
qed (auto simp: chunk_reader_feed_def dest: chunked_feed_settled split: prod.splits if_splits)

text \<open>The encoding a conforming sender uses, without extensions and trailers.\<close>

definition encode_chunk :: "string \<Rightarrow> string" where
  "encode_chunk x = to_hex (length x) @ crlf @ x @ crlf"

definition encode_chunks :: "string list \<Rightarrow> string" where
  "encode_chunks xs = concat (map encode_chunk xs) @ ''0'' @ crlf @ crlf"

lemma hex_char_digit:
  assumes "d < 16"
  shows "hex_digit (hex_char d) = Some d \<and> hex_char d \<noteq> CHR '';'' \<and> hex_char d \<noteq> CR"
proof -
  have "list_all (\<lambda>d. hex_digit (hex_char d) = Some d \<and> hex_char d \<noteq> CHR '';'' \<and> hex_char d \<noteq> CR) [0..<16]"
    by code_simp
  with assms show ?thesis by (simp add: list_all_iff)
qed

lemma chunk_size_to_hex: "n < 2 ^ 64 \<Longrightarrow> chunk_size (to_hex n @ rest) 0 a = chunk_size rest n True"
proof (induction n arbitrary: rest rule: to_hex.induct)
  case (1 n)
  show ?case
  proof (cases "n < 16")
    case True
    then show ?thesis by (simp add: to_hex.simps hex_char_digit size_t_def)
  next
    case False
    with 1 show ?thesis by (simp add: to_hex.simps [of n] hex_char_digit size_t_def)
  qed
qed

lemma to_hex_no_CR: "CR \<notin> set (to_hex n)"
proof (induction n rule: to_hex.induct)
  case (1 n)
  then show ?case using hex_char_digit [of n] hex_char_digit [of "n mod 16"]
    by (subst to_hex.simps) auto
qed

lemma chunked_feed_chunk:
  assumes "x \<noteq> []" and "length x < 2 ^ 64" and "cd_state d = Size"
  shows "chunked_feed d (encode_chunk x @ rest) out =
    chunked_feed \<lparr>cd_state = Size, cd_remaining = 0\<rparr> rest (out @ x)"
proof -
  let ?r = "CR # LF # rest"
  have "find_sub crlf (encode_chunk x @ rest) = Some (length (to_hex (length x)))"
    using find_crlf [OF to_hex_no_CR, of "length x" "x @ CR # LF # rest"] by (simp add: encode_chunk_def)
  then have "chunked_feed d (encode_chunk x @ rest) out =
      chunked_feed \<lparr>cd_state = Data, cd_remaining = length x\<rparr> (x @ ?r) out"
    using assms chunk_size_to_hex [of "length x" "[]" False]
    by (subst chunked_feed.simps) (simp add: encode_chunk_def)
  also have "\<dots> = chunked_feed \<lparr>cd_state = DataCrlf, cd_remaining = 0\<rparr> ?r (out @ x)"
    by (subst chunked_feed.simps) simp
  also have "\<dots> = chunked_feed \<lparr>cd_state = Size, cd_remaining = 0\<rparr> rest (out @ x)"
    by (subst chunked_feed.simps) simp
  finally show ?thesis .
qed

lemma chunked_feed_end:
  assumes "cd_state d = Size"
  shows "chunked_feed d (''0'' @ crlf @ crlf @ rest) out = (Done, d\<lparr>cd_state := Trailers\<rparr>, rest, out)"
  using assms find_crlf [of "''0''" "crlf @ rest"] find_crlf [of "[]" rest]
  by (simp add: chunked_feed.simps [of d] chunked_feed.simps [of "d\<lparr>cd_state := Trailers\<rparr>"] hex_digit_def is_digit_def size_t_def)

lemma chunked_feed_chunks:
  assumes "\<And>x. x \<in> set xs \<Longrightarrow> x \<noteq> [] \<and> length x < 2 ^ 64" and "cd_state d = Size"
  shows "\<exists>d'. chunked_feed d (encode_chunks xs @ rest) out = (Done, d', rest, out @ concat xs)"
  using assms
proof (induction xs arbitrary: d out)
  case Nil
  then show ?case using chunked_feed_end [of d rest out] by (simp add: encode_chunks_def)
next
  case (Cons x xs)
  then show ?case
    using chunked_feed_chunk [of x d "encode_chunks xs @ rest" out] Cons.IH [of "\<lparr>cd_state = Size, cd_remaining = 0\<rparr>" "out @ x"]
    by (simp add: encode_chunks_def)
qed

subsection \<open>Properties\<close>

text \<open>
  C32. Chunked bodies: fed the encoding of a body in any fragments, followed by anything, the decoder finishes
  and has the body, whatever the sizes of the chunks (below \<open>2 ^ 64\<close>).
\<close>

theorem chunked_roundtrip:
  assumes "\<forall>x \<in> set xs. x \<noteq> [] \<and> length x < 2 ^ 64" and "concat fragments = encode_chunks xs @ rest"
  shows "feeds chunk_reader_feed fragments (new_decoder, [], []) = Inl (Done, concat xs)"
proof -
  have "chunked_feed new_decoder [] [] = (NeedMore, new_decoder, [], [])"
    by (simp add: chunked_feed.simps new_decoder_def find_sub.simps)
  moreover obtain d where "chunked_feed new_decoder (encode_chunks xs @ rest) [] = (Done, d, rest, concat xs)"
    using chunked_feed_chunks [of xs new_decoder rest "[]"] assms(1) by (auto simp: new_decoder_def)
  ultimately show ?thesis
    using chunked.feeds_concat [of "(new_decoder, [], [])" fragments]
    by (simp add: assms(2)) (simp add: chunk_reader_feed_def)
qed

lemma chunked_roundtrip_witness:
  "feeds chunk_reader_feed [''1'', crlf @ ''a'' @ crlf @ ''2'', crlf @ ''bc'' @ [CR], [LF] @ ''0'' @ crlf @ crlf]
     (new_decoder, [], []) = Inl (Done, ''abc'')"
  using chunked_roundtrip [of "[''a'', ''bc'']"
      "[''1'', crlf @ ''a'' @ crlf @ ''2'', crlf @ ''bc'' @ [CR], [LF] @ ''0'' @ crlf @ crlf]" "[]"]
  by (simp add: encode_chunks_def encode_chunk_def to_hex.simps hex_char_def)

end
