(* ===== verification/Mcp_Http_Server.thy ===== *)
theory Mcp_Http_Server
  imports Mcp_Sse_Channel Mcp_Line Mcp_Chunked Mcp_Types
begin

text \<open>
  The HTTP servers: the endpoint that reads a request and checks path, origin and authorization
  (\<^verbatim>\<open>src/transport/http/http_endpoint.cpp\<close>), the transport with one session for the whole endpoint
  (\<^verbatim>\<open>src/transport/http_server_transport.cpp\<close>) and the server with one session per
  \<^verbatim>\<open>Mcp-Session-Id\<close> (\<^verbatim>\<open>src/transport/http_session_server.cpp\<close>).

  What a session does with a message is a function that returns the messages it sends while it
  handles it; the transport either captures those for the POST in progress or puts them on the event
  channel.  The reads of a connection are a list of outcomes, \<open>Nothing\<close> standing for a closed or idle
  connection and for a shutdown.
\<close>

subsection \<open>The endpoint\<close>

record http_server_options =
  ho_host :: string
  ho_port :: nat
  ho_path :: string
  ho_allowed_origins :: "string list"
  ho_authorize :: "((string \<rightharpoonup> string) \<Rightarrow> bool) option"
  ho_sse_retry_ms :: int
  ho_replay_buffer_size :: nat

definition default_http_options :: http_server_options where
  "default_http_options =
     \<lparr>ho_host = ''127.0.0.1'', ho_port = 0, ho_path = ''/mcp'', ho_allowed_origins = [], ho_authorize = None,
      ho_sse_retry_ms = 3000, ho_replay_buffer_size = 256\<rparr>"

definition is_localhost_origin :: "string \<Rightarrow> bool" where
  "is_localhost_origin origin \<longleftrightarrow>
     starts_with origin ''http://localhost'' \<or> starts_with origin ''http://127.0.0.1'' \<or>
     starts_with origin ''https://localhost'' \<or> starts_with origin ''https://127.0.0.1''"

definition origin_allowed :: "http_server_options \<Rightarrow> http_head \<Rightarrow> bool" where
  "origin_allowed opts h =
     (let origin = header ''origin'' h in
      origin = [] \<or> is_localhost_origin origin \<or> list_ex (\<lambda>allowed. origin = allowed) (ho_allowed_origins opts))"

definition write_simple :: "int \<Rightarrow> string \<Rightarrow> string \<Rightarrow> string \<Rightarrow> header_list \<Rightarrow> string" where
  "write_simple status reason body content_type extra =
     serialize_response status reason
       ([(''Content-Type'', content_type), (''MCP-Protocol-Version'', kProtocolVersion),
         (''Connection'', ''close'')] @ extra) body False"

abbreviation plain :: "int \<Rightarrow> string \<Rightarrow> string \<Rightarrow> string" where
  "plain status reason body \<equiv> write_simple status reason body ''text/plain'' []"

datatype net_read = Received string | Nothing

datatype connection =
    Unfinished
  | Dropped
  | Refused string
  | Accepted http_head string
  | Broken exn

fun read_body :: "http_head \<Rightarrow> nat \<Rightarrow> string \<Rightarrow> net_read list \<Rightarrow> connection" where
  "read_body h n body reads =
     (if length body < n then
        case reads of
          [] \<Rightarrow> Unfinished
        | Nothing # _ \<Rightarrow> Dropped
        | Received chunk # reads' \<Rightarrow> read_body h n (body @ chunk) reads'
      else Accepted h body)"

declare read_body.simps [simp del]

definition check_request :: "http_server_options \<Rightarrow> http_head \<Rightarrow> string \<Rightarrow> net_read list \<Rightarrow> connection" where
  "check_request opts h rest reads =
     (if hh_target h \<noteq> ho_path opts then Refused (plain 404 ''Not Found'' ''unknown path'')
      else if \<not> origin_allowed opts h then Refused (plain 403 ''Forbidden'' ''origin not allowed'')
      else if (case ho_authorize opts of None \<Rightarrow> False | Some f \<Rightarrow> \<not> f (hh_headers h))
      then Refused (plain 401 ''Unauthorized'' ''authorization failed'')
      else read_body h (strtoull (header ''content-length'' h)) rest reads)"

fun handle_connection :: "http_server_options \<Rightarrow> string \<Rightarrow> net_read list \<Rightarrow> connection" where
  "handle_connection opts buffer reads =
     (case parse_head buffer True of
        Inl e \<Rightarrow> Broken e
      | Inr (Parsed h consumed) \<Rightarrow> check_request opts h (drop consumed buffer) reads
      | Inr (Malformed _) \<Rightarrow> Refused (plain 400 ''Bad Request'' ''malformed HTTP request'')
      | Inr Incomplete \<Rightarrow>
          (case reads of
             [] \<Rightarrow> Unfinished
           | Nothing # _ \<Rightarrow> Dropped
           | Received chunk # reads' \<Rightarrow> handle_connection opts (buffer @ chunk) reads'))"

declare handle_connection.simps [simp del]

subsection \<open>Dispatching a POST\<close>

text \<open>
  A session behind a transport: \<open>handle\<close> is its message handler, returning what it sends meanwhile.
  The capture table is shared by all connection threads; \<open>me\<close> is the thread of this request.
\<close>

type_synonym 's session_handler = "message \<Rightarrow> 's \<Rightarrow> (message list \<times> 's) throws"

definition transport_send :: "(json \<Rightarrow> string throws) \<Rightarrow> 't \<Rightarrow> message \<Rightarrow> 't captures \<times> sse_channel \<Rightarrow>
    ('t captures \<times> sse_channel) throws" where
  "transport_send dump me m io =
     (case io of (table, channel) \<Rightarrow>
      case try_capture me m table of (captured, table) \<Rightarrow>
        if captured then Inr (table, channel)
        else mapE (\<lambda>text. (table, enqueue text channel)) (serialize_message dump m))"

definition transport_send_batch :: "(json \<Rightarrow> string throws) \<Rightarrow> 't \<Rightarrow> message list \<Rightarrow> 't captures \<times> sse_channel \<Rightarrow>
    ('t captures \<times> sse_channel) throws" where
  "transport_send_batch dump me ms io = foldE (transport_send dump me) ms io"

definition deliver :: "(json \<Rightarrow> string throws) \<Rightarrow> 't \<Rightarrow> 's session_handler \<Rightarrow> message \<Rightarrow>
    ('t captures \<times> sse_channel) \<times> 's \<Rightarrow> (('t captures \<times> sse_channel) \<times> 's) throws" where
  "deliver dump me handle m st =
     (case st of (io, s) \<Rightarrow>
      bindE (handle m s) (\<lambda>(out, s). mapE (\<lambda>io. (io, s)) (transport_send_batch dump me out io)))"

text \<open>The part of both \<^verbatim>\<open>handle_request\<close> functions from the capture on; \<open>handle\<close> may be absent.\<close>

definition post_frame :: "(json \<Rightarrow> string throws) \<Rightarrow> 't \<Rightarrow> 's session_handler option \<Rightarrow> parsed_frame \<Rightarrow> header_list \<Rightarrow>
    't captures \<Rightarrow> sse_channel \<Rightarrow> 's \<Rightarrow> (string \<times> ('t captures \<times> sse_channel) \<times> 's) throws" where
  "post_frame dump me handle frame extra table channel s =
     (let table = fold (add_error_response me) (item_errors frame) (capture_begin me table) in
      bindE (case handle of
               None \<Rightarrow> Inr ((table, channel), s)
             | Some h \<Rightarrow> foldE (deliver dump me h) (messages frame) ((table, channel), s))
        (\<lambda>((table, channel), s).
          mapE (\<lambda>reply. (reply, (capture_end me table, channel), s))
            (if capture_empty me table then Inr (write_simple 202 ''Accepted'' [] ''text/plain'' extra)
             else mapE (\<lambda>body. write_simple 200 ''OK'' body ''application/json'' extra)
                    (capture_body dump me (was_batch frame) table))))"

definition error_body :: "(json \<Rightarrow> string throws) \<Rightarrow> error \<Rightarrow> string throws" where
  "error_body dump e = serialize_message dump (Response (error_response None e))"

definition write_jsonrpc_error :: "(json \<Rightarrow> string throws) \<Rightarrow> int \<Rightarrow> string \<Rightarrow> error \<Rightarrow> string throws" where
  "write_jsonrpc_error dump status reason e =
     mapE (\<lambda>body. write_simple status reason body ''application/json'' []) (error_body dump e)"

subsection \<open>One session for the whole endpoint\<close>

datatype reply = Answer string | Streaming string stream | No_Answer

definition open_stream :: "string \<Rightarrow> sse_channel \<Rightarrow> reply \<times> sse_channel" where
  "open_stream last_event_id c =
     (case attach_begin last_event_id c of
        None \<Rightarrow> (No_Answer, c)
      | Some (st, c') \<Rightarrow>
          (Streaming (stream_head kProtocolVersion @ format_sse_event (initial_event c' st)) st, c'))"

record http_transport =
  ht_options :: http_server_options
  ht_channel :: sse_channel
  ht_has_endpoint :: bool
  ht_bound_port :: nat
  ht_close_emitted :: bool

definition new_http_transport :: "http_server_options \<Rightarrow> http_transport" where
  "new_http_transport opts =
     \<lparr>ht_options = opts, ht_channel = new_channel (ho_replay_buffer_size opts) (ho_sse_retry_ms opts),
      ht_has_endpoint = False, ht_bound_port = 0, ht_close_emitted = False\<rparr>"

text \<open>\<open>started\<close> is the outcome of binding: an error text or the port.\<close>

definition http_connect :: "string + nat \<Rightarrow> 's handlers \<Rightarrow> http_transport \<Rightarrow> 's \<Rightarrow> (http_transport \<times> 's) throws" where
  "http_connect started hs t s =
     (if ht_has_endpoint t then Inr (t, s)
      else
        let opts = ht_options t;
            t = t\<lparr>ht_channel := new_channel (ho_replay_buffer_size opts) (ho_sse_retry_ms opts)\<rparr>
        in case started of
             Inl e \<Rightarrow> mapE (Pair t) (emit_error hs (mk_error InternalError (''http listen failed: '' @ e)) s)
           | Inr port \<Rightarrow> Inr (t\<lparr>ht_has_endpoint := True, ht_bound_port := port\<rparr>, s))"

definition http_disconnect :: "'s handlers \<Rightarrow> http_transport \<Rightarrow> 's \<Rightarrow> (http_transport \<times> 's) throws" where
  "http_disconnect hs t s =
     (if \<not> ht_has_endpoint t then Inr (t, s)
      else
        let t' = t\<lparr>ht_channel := shutdown_channel (ht_channel t), ht_close_emitted := True\<rparr>
        in if ht_close_emitted t then Inr (t', s) else mapE (Pair t') (emit_close hs s))"

definition http_handle_request :: "(json \<Rightarrow> string throws) \<Rightarrow> (string \<Rightarrow> json option) \<Rightarrow> 't \<Rightarrow> 's session_handler option \<Rightarrow>
    (error \<Rightarrow> 's \<Rightarrow> 's throws) option \<Rightarrow> http_head \<Rightarrow> string \<Rightarrow> 't captures \<Rightarrow> http_transport \<Rightarrow> 's \<Rightarrow>
    (reply \<times> 't captures \<times> http_transport \<times> 's) throws" where
  "http_handle_request dump parse me handle error_handler h body table t s =
     (if hh_method h = ''GET'' then
        if \<not> header_contains ''accept'' ''text/event-stream'' h
        then Inr (Answer (plain 406 ''Not Acceptable'' ''expected text/event-stream''), table, t, s)
        else let (r, c) = open_stream (header ''last-event-id'' h) (ht_channel t)
             in Inr (r, table, t\<lparr>ht_channel := c\<rparr>, s)
      else if hh_method h \<noteq> ''POST''
      then Inr (Answer (plain 405 ''Method Not Allowed'' ''use POST or GET''), table, t, s)
      else bindE (parse_frame parse body) (\<lambda>frame.
        case frame of
          Inl e \<Rightarrow>
            bindE (write_jsonrpc_error dump 400 ''Bad Request'' e) (\<lambda>text.
              mapE (\<lambda>s. (Answer text, table, t, s))
                (case error_handler of None \<Rightarrow> Inr s | Some f \<Rightarrow> f e s))
        | Inr f \<Rightarrow>
            mapE (\<lambda>(text, (table, c), s). (Answer text, table, t\<lparr>ht_channel := c\<rparr>, s))
              (post_frame dump me handle f [] table (ht_channel t) s)))"

subsection \<open>One session per session id\<close>

definition hex8 :: "nat \<Rightarrow> string" where
  "hex8 d = (let t = to_hex d in replicate (8 - length t) CHR ''0'' @ t)"

text \<open>\<open>draws\<close>: the four 32 bit values of the random device.\<close>

definition generate_session_id :: "nat list \<Rightarrow> string" where
  "generate_session_id draws = concat (map hex8 draws)"

record http_session_options =
  hso_http :: http_server_options
  hso_session_idle_timeout :: int
  hso_allow_client_termination :: bool

record 's entry =
  en_channel :: sse_channel
  en_closed :: bool
  en_session :: 's
  en_last_activity :: int

text \<open>
  What the application supplies: the factory and the close callback, on a state \<open>'w\<close> of its own, and the
  session's own message and close handlers.
\<close>

record ('s, 'w) session_host =
  sh_factory :: "'w \<Rightarrow> 's option \<times> 'w"
  sh_closed :: "('s \<Rightarrow> 'w \<Rightarrow> 'w) option"
  sh_handle :: "message \<Rightarrow> 's \<times> 'w \<Rightarrow> (message list \<times> 's \<times> 'w) throws"
  sh_close :: "'s \<Rightarrow> 's"

record ('s, 'w) session_server =
  sv_options :: http_session_options
  sv_registry :: "(string \<times> 's entry) list"
  sv_world :: 'w
  sv_listening :: bool

definition entry_disconnect :: "('s, 'w) session_host \<Rightarrow> 's entry \<Rightarrow> 's entry" where
  "entry_disconnect host e =
     (if en_closed e then e
      else e\<lparr>en_closed := True, en_channel := shutdown_channel (en_channel e), en_session := sh_close host (en_session e)\<rparr>)"

definition session_closed :: "('s, 'w) session_host \<Rightarrow> 's entry \<Rightarrow> 'w \<Rightarrow> 'w" where
  "session_closed host e w = (case sh_closed host of None \<Rightarrow> w | Some f \<Rightarrow> f (en_session e) w)"

text \<open>\<^verbatim>\<open>SessionRegistry\<close>: a \<^verbatim>\<open>std::map\<close>, in ascending order of the ids.\<close>

definition registry_create :: "string \<Rightarrow> 's entry \<Rightarrow> (string \<times> 's entry) list \<Rightarrow> (string \<times> 's entry) list" where
  "registry_create i e es = obj_put i e es"

definition registry_find :: "int \<Rightarrow> string \<Rightarrow> (string \<times> 's entry) list \<Rightarrow> 's entry option \<times> (string \<times> 's entry) list" where
  "registry_find now i es =
     (case map_of es i of
        None \<Rightarrow> (None, es)
      | Some e \<Rightarrow> let e = e\<lparr>en_last_activity := now\<rparr> in (Some e, obj_put i e es))"

definition registry_remove :: "string \<Rightarrow> (string \<times> 's entry) list \<Rightarrow> 's entry option \<times> (string \<times> 's entry) list" where
  "registry_remove i es = (map_of es i, filter (\<lambda>(j, _). j \<noteq> i) es)"

definition remove_idle :: "int \<Rightarrow> int \<Rightarrow> (string \<times> 's entry) list \<Rightarrow> 's entry list \<times> (string \<times> 's entry) list" where
  "remove_idle timeout now es =
     (if timeout \<le> 0 then ([], es)
      else let cutoff = now - timeout
           in (map snd (filter (\<lambda>(_, e). en_last_activity e < cutoff) es),
               filter (\<lambda>(_, e). \<not> en_last_activity e < cutoff) es))"

definition remove_all :: "(string \<times> 's entry) list \<Rightarrow> 's entry list \<times> (string \<times> 's entry) list" where
  "remove_all es = (map snd es, [])"

text \<open>Ending one session: its transport disconnects and the application is told.\<close>

definition end_session :: "('s, 'w) session_host \<Rightarrow> 's entry \<Rightarrow> 'w \<Rightarrow> 'w" where
  "end_session host e w = session_closed host (entry_disconnect host e) w"

definition sweep_idle :: "('s, 'w) session_host \<Rightarrow> int \<Rightarrow> ('s, 'w) session_server \<Rightarrow> ('s, 'w) session_server" where
  "sweep_idle host now sv =
     (let (evicted, es) = remove_idle (hso_session_idle_timeout (sv_options sv)) now (sv_registry sv)
      in sv\<lparr>sv_registry := es, sv_world := fold (end_session host) evicted (sv_world sv)\<rparr>)"

definition frame_contains_initialize :: "parsed_frame \<Rightarrow> bool" where
  "frame_contains_initialize f =
     list_ex (\<lambda>m. case m of Request q \<Rightarrow> req_method q = kInitialize | _ \<Rightarrow> False) (messages f)"

definition new_entry :: "http_session_options \<Rightarrow> int \<Rightarrow> 's \<Rightarrow> 's entry" where
  "new_entry opts now s =
     \<lparr>en_channel = new_channel (ho_replay_buffer_size (hso_http opts)) (ho_sse_retry_ms (hso_http opts)),
      en_closed = False, en_session = s, en_last_activity = now\<rparr>"

text \<open>A frame for a session of the table; the session is used through its message handler.\<close>

definition post_to_session :: "('s, 'w) session_host \<Rightarrow> (json \<Rightarrow> string throws) \<Rightarrow> 't \<Rightarrow> parsed_frame \<Rightarrow> header_list \<Rightarrow>
    string \<Rightarrow> 's entry \<Rightarrow> 't captures \<Rightarrow> ('s, 'w) session_server \<Rightarrow>
    (reply \<times> 't captures \<times> ('s, 'w) session_server) throws" where
  "post_to_session host dump me f extra i e table sv =
     mapE (\<lambda>(text, (table, c), (s, w)).
         (Answer text, table,
          sv\<lparr>sv_registry := obj_put i (e\<lparr>en_channel := c, en_session := s\<rparr>) (sv_registry sv), sv_world := w\<rparr>))
       (post_frame dump me (Some (sh_handle host)) f extra table (en_channel e) (en_session e, sv_world sv))"

definition handle_delete :: "('s, 'w) session_host \<Rightarrow> string \<Rightarrow> ('s, 'w) session_server \<Rightarrow> string \<times> ('s, 'w) session_server" where
  "handle_delete host session_id sv =
     (if session_id = [] then (plain 400 ''Bad Request'' ''Mcp-Session-Id required'', sv)
      else if \<not> hso_allow_client_termination (sv_options sv)
      then (plain 405 ''Method Not Allowed'' ''session termination disabled'', sv)
      else case registry_remove session_id (sv_registry sv) of
        (None, _) \<Rightarrow> (plain 404 ''Not Found'' ''unknown session'', sv)
      | (Some e, es) \<Rightarrow>
          (plain 200 ''OK'' [], sv\<lparr>sv_registry := es, sv_world := end_session host e (sv_world sv)\<rparr>))"

definition handle_get :: "int \<Rightarrow> http_head \<Rightarrow> string \<Rightarrow> ('s, 'w) session_server \<Rightarrow> reply \<times> ('s, 'w) session_server" where
  "handle_get now h session_id sv =
     (if \<not> header_contains ''accept'' ''text/event-stream'' h
      then (Answer (plain 406 ''Not Acceptable'' ''expected text/event-stream''), sv)
      else if session_id = [] then (Answer (plain 400 ''Bad Request'' ''Mcp-Session-Id required''), sv)
      else case registry_find now session_id (sv_registry sv) of
        (None, _) \<Rightarrow> (Answer (plain 404 ''Not Found'' ''unknown session''), sv)
      | (Some e, es) \<Rightarrow>
          let (r, c) = open_stream (header ''last-event-id'' h) (en_channel e)
          in (r, sv\<lparr>sv_registry := obj_put session_id (e\<lparr>en_channel := c\<rparr>) es\<rparr>))"

definition handle_post :: "('s, 'w) session_host \<Rightarrow> (json \<Rightarrow> string throws) \<Rightarrow> 't \<Rightarrow> int \<Rightarrow> nat list \<Rightarrow> string \<Rightarrow>
    parsed_frame \<Rightarrow> 't captures \<Rightarrow> ('s, 'w) session_server \<Rightarrow>
    (reply \<times> 't captures \<times> ('s, 'w) session_server) throws" where
  "handle_post host dump me now draws session_id f table sv =
     (if session_id = [] then
        if \<not> frame_contains_initialize f
        then mapE (\<lambda>text. (Answer text, table, sv))
               (write_jsonrpc_error dump 400 ''Bad Request''
                 (mk_error InvalidRequest ''Mcp-Session-Id header required (initialize first)''))
        else case sh_factory host (sv_world sv) of
          (None, w) \<Rightarrow>
            Inr (Answer (plain 500 ''Internal Server Error'' ''session factory failed''), table, sv\<lparr>sv_world := w\<rparr>)
        | (Some s, w) \<Rightarrow>
            let e = new_entry (sv_options sv) now s;
                i = generate_session_id draws;
                sv = sv\<lparr>sv_registry := registry_create i e (sv_registry sv), sv_world := w\<rparr>
            in post_to_session host dump me f [(''Mcp-Session-Id'', i)] i e table sv
      else case registry_find now session_id (sv_registry sv) of
        (None, _) \<Rightarrow> Inr (Answer (plain 404 ''Not Found'' ''unknown or expired session''), table, sv)
      | (Some e, es) \<Rightarrow> post_to_session host dump me f [] session_id e table (sv\<lparr>sv_registry := es\<rparr>))"

definition session_handle_request :: "('s, 'w) session_host \<Rightarrow> (json \<Rightarrow> string throws) \<Rightarrow> (string \<Rightarrow> json option) \<Rightarrow>
    't \<Rightarrow> int \<Rightarrow> nat list \<Rightarrow> http_head \<Rightarrow> string \<Rightarrow> 't captures \<Rightarrow> ('s, 'w) session_server \<Rightarrow>
    (reply \<times> 't captures \<times> ('s, 'w) session_server) throws" where
  "session_handle_request host dump parse me now draws h body table sv =
     (let sv = sweep_idle host now sv;
          session_id = header ''mcp-session-id'' h
      in if hh_method h = ''DELETE'' then
           let (text, sv) = handle_delete host session_id sv in Inr (Answer text, table, sv)
         else if hh_method h = ''GET'' then
           let (r, sv) = handle_get now h session_id sv in Inr (r, table, sv)
         else if hh_method h \<noteq> ''POST''
         then Inr (Answer (plain 405 ''Method Not Allowed'' ''use POST, GET, or DELETE''), table, sv)
         else bindE (parse_frame parse body) (\<lambda>frame.
           case frame of
             Inl e \<Rightarrow> mapE (\<lambda>text. (Answer text, table, sv)) (write_jsonrpc_error dump 400 ''Bad Request'' e)
           | Inr f \<Rightarrow> handle_post host dump me now draws session_id f table sv))"

definition server_stop :: "('s, 'w) session_host \<Rightarrow> ('s, 'w) session_server \<Rightarrow> ('s, 'w) session_server" where
  "server_stop host sv =
     (if \<not> sv_listening sv then sv
      else let (es, rest) = remove_all (sv_registry sv)
           in sv\<lparr>sv_registry := rest, sv_world := fold (end_session host) es (sv_world sv), sv_listening := False\<rparr>)"

definition server_start :: "bool \<Rightarrow> string + nat \<Rightarrow> ('s, 'w) session_server \<Rightarrow> (string + unit) \<times> ('s, 'w) session_server" where
  "server_start has_factory started sv =
     (if sv_listening sv then (Inr (), sv)
      else if \<not> has_factory then (Inl ''HttpSessionServer requires a session factory'', sv)
      else case started of Inl e \<Rightarrow> (Inl e, sv) | Inr _ \<Rightarrow> (Inr (), sv\<lparr>sv_listening := True\<rparr>))"

subsection \<open>Sending outside a POST\<close>

text \<open>\<^verbatim>\<open>SessionTransport::send\<close> and \<^verbatim>\<open>send_batch\<close> on the entry of a session.\<close>

definition session_send :: "(json \<Rightarrow> string throws) \<Rightarrow> 't \<Rightarrow> message \<Rightarrow> 't captures \<times> 's entry \<Rightarrow> ('t captures \<times> 's entry) throws" where
  "session_send dump me m st =
     (case st of (table, e) \<Rightarrow>
      mapE (\<lambda>(table, channel). (table, e\<lparr>en_channel := channel\<rparr>)) (transport_send dump me m (table, en_channel e)))"

definition session_send_batch :: "(json \<Rightarrow> string throws) \<Rightarrow> 't \<Rightarrow> message list \<Rightarrow> 't captures \<times> 's entry \<Rightarrow>
    ('t captures \<times> 's entry) throws" where
  "session_send_batch dump me ms st = foldE (session_send dump me) ms st"

definition session_count :: "('s, 'w) session_server \<Rightarrow> nat" where
  "session_count sv = length (sv_registry sv)"

text \<open>\<open>endpoint\<close>: the port of the endpoint, if there is one.\<close>

definition server_port :: "nat option \<Rightarrow> nat" where
  "server_port endpoint = (case endpoint of None \<Rightarrow> 0 | Some port \<Rightarrow> port)"

text \<open>What a thread sends that handles no POST goes to the session's event channel, in order, responses included.\<close>

lemma session_push:
  assumes "\<And>j. dump j = Inr (text_of j)" and "table me = None"
  shows "session_send_batch dump me ms (table, e) =
    Inr (table, e\<lparr>en_channel := fold enqueue (map (text_of \<circ> message_to_json) ms) (en_channel e)\<rparr>)"
proof (induction ms arbitrary: e)
  case Nil
  then show ?case by (simp add: session_send_batch_def)
next
  case (Cons m ms)
  have "session_send dump me m (table, e) =
      Inr (table, e\<lparr>en_channel := enqueue (text_of (message_to_json m)) (en_channel e)\<rparr>)"
    by (cases m) (simp_all add: session_send_def transport_send_def try_capture_def assms serialize_message_def)
  with Cons show ?case by (simp add: session_send_batch_def)
qed

subsection \<open>What a POST is answered\<close>

definition is_answer :: "message \<Rightarrow> bool" where
  "is_answer m = (case m of Response _ \<Rightarrow> True | _ \<Rightarrow> False)"

text \<open>The messages a session sends while it handles a list of messages.\<close>

fun sent_by :: "'s session_handler \<Rightarrow> message list \<Rightarrow> 's \<Rightarrow> (message list \<times> 's) throws" where
  "sent_by h [] s = Inr ([], s)"
| "sent_by h (m # ms) s =
     bindE (h m s) (\<lambda>(out, s). mapE (\<lambda>(outs, s). (out @ outs, s)) (sent_by h ms s))"

definition post_answers :: "parsed_frame \<Rightarrow> message list \<Rightarrow> json list" where
  "post_answers f outs =
     map (\<lambda>e. message_to_json (Response (error_response None e))) (item_errors f) @
     map message_to_json (filter is_answer outs)"

definition post_reply :: "(json \<Rightarrow> string) \<Rightarrow> bool \<Rightarrow> header_list \<Rightarrow> json list \<Rightarrow> string" where
  "post_reply text_of batch extra js =
     (if js = [] then write_simple 202 ''Accepted'' [] ''text/plain'' extra
      else write_simple 200 ''OK'' (text_of (if batch then JArr js else hd js)) ''application/json'' extra)"

definition event_texts :: "(json \<Rightarrow> string) \<Rightarrow> message list \<Rightarrow> string list" where
  "event_texts text_of outs = map (\<lambda>m. text_of (message_to_json m)) (filter (\<lambda>m. \<not> is_answer m) outs)"

lemma add_error_responses:
  "table me = Some js \<Longrightarrow> fold (add_error_response me) es table =
     table(me \<mapsto> js @ map (\<lambda>e. message_to_json (Response (error_response None e))) es)"
  by (induction es arbitrary: table js) (auto simp: add_error_response_def)

lemma transport_sends:
  assumes "\<And>j. dump j = Inr (text_of j)" and "table me = Some js"
  shows "transport_send_batch dump me outs (table, c) =
    Inr (table(me \<mapsto> js @ map message_to_json (filter is_answer outs)), fold enqueue (event_texts text_of outs) c)"
  using assms(2)
proof (induction outs arbitrary: table js c)
  case Nil
  then show ?case by (simp add: transport_send_batch_def event_texts_def fun_upd_idem)
next
  case (Cons m outs)
  then show ?case
    by (cases m) (auto simp: transport_send_batch_def transport_send_def try_capture_def is_answer_def
        event_texts_def serialize_message_def assms(1) fun_eq_iff)
qed

lemma delivers:
  assumes "\<And>j. dump j = Inr (text_of j)" and "table me = Some js" and "sent_by h ms s = Inr (outs, s')"
  shows "foldE (deliver dump me h) ms ((table, c), s) =
    Inr ((table(me \<mapsto> js @ map message_to_json (filter is_answer outs)), fold enqueue (event_texts text_of outs) c), s')"
  using assms(2,3)
proof (induction ms arbitrary: table js c s outs)
  case Nil
  then show ?case by (simp add: event_texts_def fun_upd_idem)
next
  case (Cons m ms)
  then obtain out s1 outs' where h: "h m s = Inr (out, s1)" and rest: "sent_by h ms s1 = Inr (outs', s')"
    and outs: "outs = out @ outs'" by (auto simp: err_simps split: prod.splits)
  have "deliver dump me h m ((table, c), s) =
      Inr ((table(me \<mapsto> js @ map message_to_json (filter is_answer out)), fold enqueue (event_texts text_of out) c), s1)"
    using transport_sends [where dump = dump and text_of = text_of and me = me and table = table, OF assms(1) Cons.prems(1)]
    by (simp add: deliver_def h)
  then show ?case
    using Cons.IH [OF _ rest] by (auto simp: outs event_texts_def fun_eq_iff)
qed

lemma post_frame_answers:
  assumes "\<And>j. dump j = Inr (text_of j)" and "sent_by h (messages f) s = Inr (outs, s')"
  shows "post_frame dump me (Some h) f extra table c s =
    Inr (post_reply text_of (was_batch f) extra (post_answers f outs),
         (capture_end me table, fold enqueue (event_texts text_of outs) c), s')"
proof -
  let ?es = "map (\<lambda>e. message_to_json (Response (error_response None e))) (item_errors f)"
  have start: "fold (add_error_response me) (item_errors f) (capture_begin me table) = table(me \<mapsto> ?es)"
    using add_error_responses [of "capture_begin me table" me "[]"] by (simp add: capture_begin_def)
  have run: "foldE (deliver dump me h) (messages f) ((table(me \<mapsto> ?es), c), s) =
      Inr (((table(me \<mapsto> ?es))(me \<mapsto> ?es @ map message_to_json (filter is_answer outs)),
        fold enqueue (event_texts text_of outs) c), s')"
    by (rule delivers [OF assms(1) _ assms(2)]) simp
  let ?t = "table(me \<mapsto> post_answers f outs)"
  have "post_frame dump me (Some h) f extra table c s =
      mapE (\<lambda>reply. (reply, (capture_end me ?t, fold enqueue (event_texts text_of outs) c), s'))
        (if capture_empty me ?t then Inr (write_simple 202 ''Accepted'' [] ''text/plain'' extra)
         else mapE (\<lambda>body. write_simple 200 ''OK'' body ''application/json'' extra)
                (capture_body dump me (was_batch f) ?t))"
    by (simp only: post_frame_def Let_def start run option.case bindE_simps prod.case fun_upd_upd post_answers_def)
  then show ?thesis
    by (cases "post_answers f outs")
      (simp_all add: post_reply_def capture_empty_def capture_body_def capture_end_def assms(1))
qed

subsection \<open>Reading a request from fragments\<close>

lemma read_body_fragments:
  "body @ concat cs = whole \<Longrightarrow> read_body h (length whole) body (map Received cs) = Accepted h whole"
proof (induction cs arbitrary: body)
  case Nil
  then show ?case by (simp add: read_body.simps)
next
  case (Cons c cs)
  show ?case
  proof (cases "length body < length whole")
    case True
    with Cons show ?thesis by (simp add: read_body.simps [of h _ body])
  next
    case False
    with Cons.prems have "whole = body" by auto
    then show ?thesis by (simp add: read_body.simps [of h _ body])
  qed
qed

text \<open>A request that passes the checks, as the client writes it, and the head the server reads.\<close>

definition request_head :: "string \<Rightarrow> string \<Rightarrow> header_list \<Rightarrow> string \<Rightarrow> http_head" where
  "request_head m target hs body =
     new_head\<lparr>hh_method := m, hh_target := target, hh_headers := header_map (request_headers m hs body)\<rparr>"

definition permitted :: "http_server_options \<Rightarrow> http_head \<Rightarrow> bool" where
  "permitted opts h \<longleftrightarrow>
     hh_target h = ho_path opts \<and> origin_allowed opts h \<and>
     (case ho_authorize opts of None \<Rightarrow> True | Some f \<Rightarrow> f (hh_headers h))"

lemma check_request_permitted:
  "permitted opts h \<Longrightarrow>
   check_request opts h rest reads = read_body h (strtoull (header ''content-length'' h)) rest reads"
  by (auto simp: check_request_def permitted_def split: option.splits)

lemma check_request_refuses:
  "\<not> permitted opts h \<Longrightarrow> \<exists>text. check_request opts h rest reads = Refused text"
  by (auto simp: check_request_def permitted_def split: option.splits)

lemma handle_connection_fragments:
  assumes lines: "ls \<noteq> []" "\<And>l. l \<in> set ls \<Longrightarrow> l \<noteq> [] \<and> no_eol l"
    and head: "\<And>rest. parse_head (write_lines ls @ rest) True = Inr (Parsed h (length (write_lines ls)))"
    and "permitted opts h" and "strtoull (header ''content-length'' h) = length body"
    and "buffer @ concat cs = write_lines ls @ body"
  shows "handle_connection opts buffer (map Received cs) = Accepted h body"
  using assms(6)
proof (induction cs arbitrary: buffer)
  case Nil
  then show ?case using assms(4,5) read_body_fragments [of body "[]" body h]
    by (simp add: handle_connection.simps [of opts "write_lines ls @ body"] head check_request_permitted)
next
  case (Cons c cs)
  from Cons.prems show ?case
  proof (cases rule: buffer_cases)
    case (short q)
    then have "head_end buffer = None" using head_end_prefix [OF lines] by blast
    with Cons show ?thesis by (simp add: handle_connection.simps [of opts buffer] parse_head_def)
  next
    case rest: (long rest)
    show ?thesis
      using assms(4,5) read_body_fragments [OF rest(2), of h]
      by (simp add: handle_connection.simps [of opts "write_lines ls @ rest"] rest(1) head check_request_permitted)
  qed
qed

lemma written_request_accepted:
  assumes "wire_headers hs" and "token m" and "token target" and h: "h = request_head m target hs body"
    and "permitted opts h" and "strtoull (header ''content-length'' h) = length body"
    and "concat cs = serialize_request m target hs body"
  shows "handle_connection opts [] (map Received cs) = Accepted h body"
proof -
  let ?start = "m @ '' '' @ target @ '' HTTP/1.1''" let ?hs = "request_headers m hs body"
  let ?ls = "?start # map header_line ?hs"
  have start: "no_eol ?start" "?start \<noteq> []" using assms(2,3) by (auto simp: no_eol_def token_def)
  have hs: "wire_headers ?hs" using wire_request_headers(1) [OF assms(1)] .
  have "start_line_of True ?start = Inr (Inr (new_head\<lparr>hh_method := m, hh_target := target\<rparr>))"
    using assms(2,3) parse_request_line_written [of m target] by (simp add: start_line_of_def token_def)
  from parse_written_head [OF this start(2,1) _ hs]
  have "parse_head (write_lines ?ls @ rest) True = Inr (Parsed h (length (write_lines ?ls)))" for rest
    by (simp add: h request_head_def new_head_def)
  then show ?thesis
    using assms(5-7) head_lines_wire [OF start(2,1) hs]
    by (intro handle_connection_fragments [where ls = ?ls]) (auto simp: serialize_request_def)
qed

lemma accepted_permitted:
  "read_body h n body reads = Accepted h' body' \<Longrightarrow> h' = h \<and> n \<le> length body'"
proof (induction h n body reads rule: read_body.induct)
  case (1 h n body reads)
  then show ?case
    by (cases "length body < n") (auto simp: read_body.simps [of h n body] split: list.splits net_read.splits)
qed

lemma connection_accepts:
  "handle_connection opts buffer reads = Accepted h body \<Longrightarrow>
   permitted opts h \<and> strtoull (header ''content-length'' h) \<le> length body"
proof (induction opts buffer reads rule: handle_connection.induct)
  case (1 opts buffer reads)
  show ?case
  proof (cases "parse_head buffer True")
    case (Inr out)
    then show ?thesis
    proof (cases out)
      case (Parsed h' n)
      with Inr "1.prems" have chk: "check_request opts h' (drop n buffer) reads = Accepted h body"
        by (simp add: handle_connection.simps [of opts buffer])
      then have "permitted opts h'" using check_request_refuses [of opts h' "drop n buffer" reads] by fastforce
      with chk show ?thesis by (auto simp: check_request_permitted dest!: accepted_permitted)
    qed (use "1.prems" "1.IH" [OF Inr] Inr in
          \<open>auto simp: handle_connection.simps [of opts buffer] split: list.splits net_read.splits\<close>)
  qed (use "1.prems" in \<open>simp add: handle_connection.simps [of opts buffer]\<close>)
qed

subsection \<open>The table of sessions\<close>

lemma sweep_keeps_unknown: "map_of (sv_registry sv) i = None \<Longrightarrow> map_of (sv_registry (sweep_idle host now sv)) i = None"
  by (force simp: sweep_idle_def remove_idle_def Let_def map_of_eq_None_iff split: if_splits)

lemma post_to_session_registry:
  assumes "post_to_session host dump me f extra i e table sv = Inr (r, table', sv')"
  shows "\<exists>e'. map_of (sv_registry sv') = (map_of (sv_registry sv))(i \<mapsto> e')"
  using assms by (auto simp: post_to_session_def err_simps)

lemma registry_find_others:
  "registry_find now i es = (res, es') \<Longrightarrow> j \<noteq> i \<Longrightarrow> map_of es' j = map_of es j"
  by (auto simp: registry_find_def Let_def split: option.splits)

lemma handle_post_others:
  assumes "handle_post host dump me now draws sid f table sv = Inr (r, table', sv')"
    and "j \<noteq> sid" and "sid = [] \<longrightarrow> j \<noteq> generate_session_id draws"
  shows "map_of (sv_registry sv') j = map_of (sv_registry sv) j"
proof (cases "sid = []")
  case True
  with assms(1,3) show ?thesis
    by (auto simp: handle_post_def registry_create_def err_simps Let_def dest!: post_to_session_registry
        split: if_splits prod.splits option.splits)
next
  case False
  obtain res es where find: "registry_find now sid (sv_registry sv) = (res, es)" by (cases "registry_find now sid (sv_registry sv)")
  with registry_find_others [OF find assms(2)] False assms(1,2) show ?thesis
    by (auto simp: handle_post_def dest!: post_to_session_registry split: option.splits)
qed

lemma handle_get_others:
  assumes "handle_get now h sid sv = (r, sv')" and "j \<noteq> sid"
  shows "map_of (sv_registry sv') j = map_of (sv_registry sv) j"
proof -
  obtain res es where find: "registry_find now sid (sv_registry sv) = (res, es)" by (cases "registry_find now sid (sv_registry sv)")
  with registry_find_others [OF find assms(2)] assms show ?thesis
    by (auto simp: handle_get_def Let_def split: if_splits option.splits prod.splits)
qed

lemma handle_delete_others:
  assumes "handle_delete host sid sv = (r, sv')" and "j \<noteq> sid"
  shows "map_of (sv_registry sv') j = map_of (sv_registry sv) j"
proof -
  have "map_of (filter (\<lambda>(i, _). i \<noteq> sid) es) j = map_of es j" for es :: "(string \<times> 'a entry) list"
    using assms(2) by (induction es) auto
  with assms show ?thesis by (auto simp: handle_delete_def registry_remove_def split: if_splits option.splits)
qed

subsection \<open>Properties\<close>



text \<open>
  C17. Isolation of sessions: apart from the sweep of idle sessions, a request changes no session but the one it
  names, or the one it creates.
\<close>

theorem sessions_isolated:
  assumes "session_handle_request host dump parse me now draws h body table sv = Inr (r, table', sv')"
    and "j \<noteq> header ''mcp-session-id'' h"
    and "header ''mcp-session-id'' h = [] \<longrightarrow> j \<noteq> generate_session_id draws"
  shows "map_of (sv_registry sv') j = map_of (sv_registry (sweep_idle host now sv)) j"
proof -
  let ?sid = "header ''mcp-session-id'' h" let ?sv = "sweep_idle host now sv"
  consider "hh_method h = ''DELETE''" | "hh_method h = ''GET''" | "hh_method h = ''POST''"
    | "hh_method h \<notin> {''DELETE'', ''GET'', ''POST''}" by blast
  then show ?thesis
  proof cases
    case 1
    with assms(1) handle_delete_others [of host ?sid ?sv _ _ j] assms(2) show ?thesis
      by (auto simp: session_handle_request_def Let_def split: prod.splits)
  next
    case 2
    with assms(1) handle_get_others [of now h ?sid ?sv _ _ j] assms(2) show ?thesis
      by (auto simp: session_handle_request_def Let_def split: prod.splits)
  next
    case 3
    with assms(1) obtain frame where frame: "parse_frame parse body = Inr frame"
      by (auto simp: session_handle_request_def Let_def bindE_eq_Inr)
    show ?thesis
    proof (cases frame)
      case (Inl e)
      with assms(1) 3 frame show ?thesis by (auto simp: session_handle_request_def Let_def mapE_eq_Inr)
    next
      case (Inr f)
      with assms 3 frame handle_post_others [of host dump me now draws ?sid f table ?sv r table' sv' j] show ?thesis
        by (simp add: session_handle_request_def Let_def)
    qed
  next
    case 4
    with assms(1) show ?thesis by (auto simp: session_handle_request_def Let_def)
  qed
qed

definition sample_host :: "(unit, unit) session_host" where
  "sample_host = \<lparr>sh_factory = (\<lambda>w. (Some (), w)), sh_closed = None, sh_handle = (\<lambda>m sw. Inr ([], sw)), sh_close = id\<rparr>"

definition sample_session_options :: http_session_options where
  "sample_session_options =
     \<lparr>hso_http = default_http_options, hso_session_idle_timeout = 0, hso_allow_client_termination = True\<rparr>"

definition sample_sessions :: "(unit, unit) session_server" where
  "sample_sessions =
     \<lparr>sv_options = sample_session_options,
      sv_registry = [(''a'', new_entry sample_session_options 5 ()), (''b'', new_entry sample_session_options 6 ())],
      sv_world = (), sv_listening = True\<rparr>"

definition sample_delete :: http_head where
  "sample_delete = new_head\<lparr>hh_method := ''DELETE'', hh_headers := [''mcp-session-id'' \<mapsto> ''b'']\<rparr>"

lemma sessions_isolated_witness:
  "\<exists>r table sv'. session_handle_request sample_host (\<lambda>j. Inr []) (\<lambda>t. None) (0::nat) 7 [] sample_delete [] (\<lambda>_. None)
      sample_sessions = Inr (r, table, sv') \<and>
    map_of (sv_registry sv') ''a'' = Some (new_entry sample_session_options 5 ())"
proof -
  obtain reply sv' where "handle_delete sample_host (header ''mcp-session-id'' sample_delete)
      (sweep_idle sample_host 7 sample_sessions) = (reply, sv')" by fastforce
  then have run: "session_handle_request sample_host (\<lambda>j. Inr []) (\<lambda>t. None) (0::nat) 7 [] sample_delete []
      (\<lambda>_. None) sample_sessions = Inr (Answer reply, (\<lambda>_. None), sv')"
    by (simp add: session_handle_request_def Let_def) (simp add: sample_delete_def)
  from sessions_isolated [OF run, of "''a''"]
  have "map_of (sv_registry sv') ''a'' = Some (new_entry sample_session_options 5 ())"
    by (simp add: sample_delete_def header_def sweep_idle_def remove_idle_def sample_sessions_def
        sample_session_options_def Let_def)
  with run show ?thesis by blast
qed

lemma unknown_session_refused:
  assumes "map_of (sv_registry sv) sid = None" and "sid \<noteq> []" and "header ''mcp-session-id'' h = sid"
  shows "hh_method h = ''DELETE'' \<and> hso_allow_client_termination (sv_options sv) \<or>
      hh_method h = ''GET'' \<and> header_contains ''accept'' ''text/event-stream'' h \<Longrightarrow>
      session_handle_request host dump parse me now draws h body table sv =
        Inr (Answer (plain 404 ''Not Found'' ''unknown session''), table, sweep_idle host now sv)"
    and "hh_method h = ''POST'' \<Longrightarrow> parse_frame parse body = returns f \<Longrightarrow>
      session_handle_request host dump parse me now draws h body table sv =
        Inr (Answer (plain 404 ''Not Found'' ''unknown or expired session''), table, sweep_idle host now sv)"
proof -
  have none: "map_of (sv_registry (sweep_idle host now sv)) sid = None"
    using assms(1) by (rule sweep_keeps_unknown)
  have opts: "sv_options (sweep_idle host now sv) = sv_options sv"
    by (simp add: sweep_idle_def split: prod.split)
  show "session_handle_request host dump parse me now draws h body table sv =
        Inr (Answer (plain 404 ''Not Found'' ''unknown session''), table, sweep_idle host now sv)"
    if "hh_method h = ''DELETE'' \<and> hso_allow_client_termination (sv_options sv) \<or>
      hh_method h = ''GET'' \<and> header_contains ''accept'' ''text/event-stream'' h"
    using that assms(2,3) none opts
    by (auto simp: session_handle_request_def Let_def handle_delete_def handle_get_def registry_remove_def registry_find_def)
  show "session_handle_request host dump parse me now draws h body table sv =
        Inr (Answer (plain 404 ''Not Found'' ''unknown or expired session''), table, sweep_idle host now sv)"
    if "hh_method h = ''POST''" and "parse_frame parse body = returns f"
    using that assms(2,3) none by (simp add: session_handle_request_def Let_def handle_post_def registry_find_def)
qed

text \<open>
  End of a session: a DELETE ends the session it names, answers 200 and tells the application; from then on every
  DELETE, stream request or POST with that id is answered 404 and changes nothing but for the sweep of
  idle sessions.
\<close>

theorem deleted_session_gone:
  assumes "hh_method d = ''DELETE''" and "header ''mcp-session-id'' d = sid" and "sid \<noteq> []"
    and "hso_allow_client_termination (sv_options sv)"
    and "map_of (sv_registry (sweep_idle host now sv)) sid = Some e"
    and "header ''mcp-session-id'' h = sid" and "parse_frame parse' body' = returns f"
    and "hh_method h = ''POST'' \<or> hh_method h = ''DELETE'' \<or>
      hh_method h = ''GET'' \<and> header_contains ''accept'' ''text/event-stream'' h"
  shows "\<exists>sv'. session_handle_request host dump parse me now draws d body table sv =
      Inr (Answer (plain 200 ''OK'' []), table, sv') \<and>
    sv_world sv' = end_session host e (sv_world (sweep_idle host now sv)) \<and>
    (\<exists>what. session_handle_request host dump' parse' me' now' draws' h body' table' sv' =
      Inr (Answer (plain 404 ''Not Found'' what), table', sweep_idle host now' sv'))"
proof -
  let ?sv = "sweep_idle host now sv"
  let ?sv' = "?sv\<lparr>sv_registry := filter (\<lambda>(j, _). j \<noteq> sid) (sv_registry ?sv), sv_world := end_session host e (sv_world ?sv)\<rparr>"
  have opts: "sv_options ?sv = sv_options sv" by (simp add: sweep_idle_def split: prod.split)
  then have "session_handle_request host dump parse me now draws d body table sv =
      Inr (Answer (plain 200 ''OK'' []), table, ?sv')"
    using assms(1-5) by (simp add: session_handle_request_def Let_def handle_delete_def registry_remove_def)
  moreover have gone: "map_of (sv_registry ?sv') sid = None" by (auto simp: map_of_eq_None_iff)
  have "\<exists>what. session_handle_request host dump' parse' me' now' draws' h body' table' ?sv' =
      Inr (Answer (plain 404 ''Not Found'' what), table', sweep_idle host now' ?sv')"
  proof (cases "hh_method h = ''POST''")
    case True
    show ?thesis by (intro exI) (rule unknown_session_refused(2) [OF gone assms(3,6) True assms(7)])
  next
    case False
    with assms(4,8) opts have "hh_method h = ''DELETE'' \<and> hso_allow_client_termination (sv_options ?sv') \<or>
        hh_method h = ''GET'' \<and> header_contains ''accept'' ''text/event-stream'' h" by auto
    then show ?thesis by (intro exI) (rule unknown_session_refused(1) [OF gone assms(3,6)])
  qed
  ultimately show ?thesis by (intro exI [of _ ?sv']) simp
qed

lemma deleted_session_gone_witness:
  "\<exists>sv'. session_handle_request sample_host (\<lambda>j. Inr []) (\<lambda>t. None) (0::nat) 7 [] sample_delete [] (\<lambda>_. None)
      sample_sessions = Inr (Answer (plain 200 ''OK'' []), (\<lambda>_. None), sv') \<and>
    (\<exists>what. session_handle_request sample_host (\<lambda>j. Inr []) (\<lambda>t. Some (JArr [JNull])) (0::nat) 8 [] sample_delete [] (\<lambda>_. None)
      sv' = Inr (Answer (plain 404 ''Not Found'' what), (\<lambda>_. None), sweep_idle sample_host 8 sv'))"
proof -
  have known: "map_of (sv_registry (sweep_idle sample_host 7 sample_sessions)) ''b'' =
      Some (new_entry sample_session_options 6 ())"
    by (simp add: sweep_idle_def remove_idle_def sample_sessions_def sample_session_options_def Let_def)
  have "parse_frame (\<lambda>t. Some (JArr [JNull])) [] =
      returns \<lparr>messages = [], item_errors = [mk_error InvalidRequest ''message is not a JSON object''], was_batch = True\<rparr>"
    by (simp add: parse_frame_def parse_message_def)
  from deleted_session_gone [OF _ _ _ _ known _ this, of sample_delete sample_delete]
  show ?thesis
    by (auto simp: sample_delete_def header_def sample_sessions_def sample_session_options_def)
qed

lemma session_post_answered:
  assumes "\<And>j. dump j = Inr (text_of j)" and "hh_method h = ''POST''" and "parse_frame parse body = returns f"
    and "header ''mcp-session-id'' h = sid" and "sid \<noteq> []"
    and "map_of (sv_registry (sweep_idle host now sv)) sid = Some e"
    and "sent_by (sh_handle host) (messages f) (en_session e, sv_world (sweep_idle host now sv)) = Inr (outs, s', w')"
  shows "\<exists>sv'. session_handle_request host dump parse me now draws h body table sv =
      Inr (Answer (post_reply text_of (was_batch f) [] (post_answers f outs)), capture_end me table, sv') \<and>
      map_of (sv_registry sv') sid = Some (e\<lparr>en_channel := fold enqueue (event_texts text_of outs) (en_channel e),
        en_session := s', en_last_activity := now\<rparr>) \<and> sv_world sv' = w'"
proof -
  let ?sv = "sweep_idle host now sv" let ?e = "e\<lparr>en_last_activity := now\<rparr>"
  let ?sv1 = "?sv\<lparr>sv_registry := obj_put sid ?e (sv_registry ?sv)\<rparr>"
  have "session_handle_request host dump parse me now draws h body table sv =
      post_to_session host dump me f [] sid ?e table ?sv1"
    using assms(2-6) by (simp add: session_handle_request_def Let_def handle_post_def registry_find_def)
  also have "\<dots> = Inr (Answer (post_reply text_of (was_batch f) [] (post_answers f outs)), capture_end me table,
      ?sv1\<lparr>sv_registry := obj_put sid (?e\<lparr>en_channel := fold enqueue (event_texts text_of outs) (en_channel e),
        en_session := s'\<rparr>) (sv_registry ?sv1), sv_world := w'\<rparr>)"
    using post_frame_answers [where dump = dump and text_of = text_of and me = me, OF assms(1,7)]
    by (simp add: post_to_session_def)
  finally show ?thesis by simp
qed


definition sample_post :: http_head where
  "sample_post = new_head\<lparr>hh_method := ''POST'', hh_headers := [''mcp-session-id'' \<mapsto> ''b'']\<rparr>"


text \<open>
  The check of local origins compares a prefix only: a host whose name merely begins like a local one passes.
\<close>

lemma foreign_origin_allowed:
  assumes "hh_headers h ''origin'' = Some ''http://localhost.example.org''"
  shows "origin_allowed opts h"
  using assms by (simp add: origin_allowed_def header_def is_localhost_origin_def starts_with_def)

end
