(* ===== verification/Mcp_Http_Client.thy ===== *)
theory Mcp_Http_Client
  imports Mcp_Http_Server
begin

text \<open>
  The HTTP client transport (\<^verbatim>\<open>src/transport/http_client_transport.cpp\<close>): one POST per sent message, whose
  answer may be plain, chunked or an event stream, and a background event stream that reconnects with
  the last event id.  Each connection is described by what the operating system answers: whether it
  was established, whether the request could be written, and the outcomes of its reads.
\<close>

subsection \<open>State\<close>

record http_client_options =
  co_host :: string
  co_port :: nat
  co_path :: string
  co_headers :: "(string \<times> string) list"
  co_origin :: "string option"
  co_connect_timeout_ms :: int
  co_reconnect_delay_ms :: int
  co_max_reconnect_attempts :: int
  co_open_sse_stream :: bool

record http_client =
  hc_options :: http_client_options
  hc_running :: bool
  hc_close_emitted :: bool
  hc_last_event_id :: string
  hc_session_id :: string
  hc_retry_ms :: int
  hc_stream_started :: bool

definition new_http_client :: "http_client_options \<Rightarrow> http_client" where
  "new_http_client opts =
     \<lparr>hc_options = opts, hc_running = False, hc_close_emitted = False, hc_last_event_id = [], hc_session_id = [],
      hc_retry_ms = co_reconnect_delay_ms opts, hc_stream_started = False\<rparr>"

definition client_emit_close :: "'s handlers \<Rightarrow> http_client \<Rightarrow> 's \<Rightarrow> (http_client \<times> 's) throws" where
  "client_emit_close hs c s =
     (if hc_close_emitted c then Inr (c, s) else mapE (Pair (c\<lparr>hc_close_emitted := True\<rparr>)) (emit_close hs s))"

definition host_header :: "http_client \<Rightarrow> string \<times> string" where
  "host_header c = (''Host'', co_host (hc_options c) @ '':'' @ nat_to_string (co_port (hc_options c)))"

definition origin_header :: "http_client \<Rightarrow> header_list" where
  "origin_header c = (case co_origin (hc_options c) of None \<Rightarrow> [] | Some origin \<Rightarrow> [(''Origin'', origin)])"

definition session_header :: "http_client \<Rightarrow> header_list" where
  "session_header c = (if hc_session_id c \<noteq> [] then [(''Mcp-Session-Id'', hc_session_id c)] else [])"

subsection \<open>Connecting and disconnecting\<close>

definition client_http_connect :: "bool \<Rightarrow> 's handlers \<Rightarrow> http_client \<Rightarrow> 's \<Rightarrow> (http_client \<times> 's) throws" where
  "client_http_connect wake_valid hs c s =
     (if hc_running c then Inr (c, s)
      else if \<not> wake_valid
      then mapE (Pair c) (emit_error hs (mk_error InternalError ''failed to create wake event'') s)
      else Inr (c\<lparr>hc_running := True, hc_stream_started := hc_stream_started c \<or> co_open_sse_stream (hc_options c)\<rparr>, s))"

text \<open>The request of \<^verbatim>\<open>send_session_delete\<close>, \<open>None\<close> when no session was assigned.\<close>

definition session_delete_request :: "http_client \<Rightarrow> string option" where
  "session_delete_request c =
     (if hc_session_id c = [] then None
      else Some (serialize_request ''DELETE'' (co_path (hc_options c))
             [host_header c, (''Mcp-Session-Id'', hc_session_id c), (''MCP-Protocol-Version'', kProtocolVersion),
              (''Connection'', ''close'')] []))"

definition client_http_disconnect :: "http_client \<Rightarrow> string option \<times> http_client" where
  "client_http_disconnect c =
     (if \<not> hc_running c then (None, c) else (session_delete_request c, c\<lparr>hc_running := False\<rparr>))"

text \<open>\<^verbatim>\<open>deliver_frame\<close> has the steps of \<^verbatim>\<open>LineTransportBase::process_line\<close>.\<close>

definition deliver_frame :: "(string \<Rightarrow> json option) \<Rightarrow> 's handlers \<Rightarrow> string \<Rightarrow> 's \<Rightarrow> 's throws" where
  "deliver_frame parse hs payload s =
     (if payload = [] then Inr s
      else bindE (parse_frame parse payload) (\<lambda>frame.
        case frame of
          Inl e \<Rightarrow> emit_error hs e s
        | Inr f \<Rightarrow> bindE (foldE (emit_error hs) (item_errors f) s) (deliver_messages hs (messages f))))"

subsection \<open>Reading a response\<close>

text \<open>
  \<open>Stopped\<close>: the poll failed, timed out or was woken, or the transport no longer runs; \<open>Stream_End\<close>: the
  read returned no bytes.
\<close>

datatype client_read = Bytes string | Stream_End | Stopped

datatype head_read =
    Head_Waiting
  | Head_Stopped
  | Head_Closed
  | Head_Malformed string
  | Head_Broken exn
  | Head_Read http_head string "client_read list"

fun read_response_head :: "string \<Rightarrow> client_read list \<Rightarrow> head_read" where
  "read_response_head buffer [] = Head_Waiting"
| "read_response_head buffer (Stopped # reads) = Head_Stopped"
| "read_response_head buffer (Stream_End # reads) = Head_Closed"
| "read_response_head buffer (Bytes chunk # reads) =
     (case parse_head (buffer @ chunk) False of
        Inl e \<Rightarrow> Head_Broken e
      | Inr (Parsed h n) \<Rightarrow> Head_Read h (drop n (buffer @ chunk)) reads
      | Inr (Malformed e) \<Rightarrow> Head_Malformed e
      | Inr Incomplete \<Rightarrow> read_response_head (buffer @ chunk) reads)"

datatype body_read = Body string | Body_Error string | Body_Stopped | Body_Waiting

text \<open>After a turn of the loop that did not complete the body: the next read.\<close>

fun read_response_body :: "bool \<Rightarrow> string \<Rightarrow> chunked_decoder \<Rightarrow> string \<Rightarrow> string \<Rightarrow> client_read list \<Rightarrow> body_read" where
  "read_response_body chunked len d buffer out reads =
     (let (status, d, buffer, out) = (if chunked then chunked_feed d buffer out else (NeedMore, d, buffer, out)) in
      if status = Done then Body out
      else if status = Error_Status then Body_Error ''malformed chunked encoding''
      else if \<not> chunked \<and> len \<noteq> [] \<and> strtoull len \<le> length buffer then Body (take (strtoull len) buffer)
      else case reads of
        [] \<Rightarrow> Body_Waiting
      | Stopped # _ \<Rightarrow> Body_Stopped
      | Stream_End # _ \<Rightarrow>
          if chunked \<or> len \<noteq> [] then Body_Error ''truncated HTTP response body'' else Body buffer
      | Bytes chunk # reads' \<Rightarrow> read_response_body chunked len d (buffer @ chunk) out reads')"

declare read_response_body.simps [simp del]

text \<open>
  An event stream: what was read is fed to the parser and each complete event handed to \<open>take\<close>, until the
  stream ends.
\<close>

datatype 's stream_end = Stream_Waiting 's | Stream_Finished 's | Stream_Broken exn

fun stream_loop :: "(sse_event \<Rightarrow> 's \<Rightarrow> 's throws) \<Rightarrow> string \<Rightarrow> string \<times> sse_fields \<Rightarrow> client_read list \<Rightarrow> 's \<Rightarrow> 's stream_end" where
  "stream_loop take_event chunk p reads s =
     (case sse_feed chunk (fst p, snd p, []) of
        Inl e \<Rightarrow> Stream_Broken e
      | Inr (b, fs, events) \<Rightarrow>
          (case foldE take_event events s of
             Inl e \<Rightarrow> Stream_Broken e
           | Inr s \<Rightarrow>
               (case reads of
                  [] \<Rightarrow> Stream_Waiting s
                | Bytes chunk' # reads' \<Rightarrow> stream_loop take_event chunk' (b, fs) reads' s
                | _ \<Rightarrow> Stream_Finished s)))"

declare stream_loop.simps [simp del]

abbreviation fresh_parser :: "string \<times> sse_fields" where
  "fresh_parser \<equiv> ([], \<lparr>sf_current = new_event, sf_any_field = False\<rparr>)"

subsection \<open>Sending\<close>

datatype 'x call_end = Returns 'x | Blocks 'x | Throws exn

definition call_of :: "'x throws \<Rightarrow> 'x call_end" where
  "call_of m = (case m of Inl e \<Rightarrow> Throws e | Inr x \<Rightarrow> Returns x)"

text \<open>One connection: established or not, request written or not, and its reads.\<close>

record attempt =
  at_connected :: "string + unit"
  at_written :: bool
  at_reads :: "client_read list"

definition post_request :: "http_client \<Rightarrow> string \<Rightarrow> string" where
  "post_request c body =
     serialize_request ''POST'' (co_path (hc_options c))
       ([host_header c, (''Content-Type'', ''application/json''), (''Accept'', ''application/json, text/event-stream''),
         (''MCP-Protocol-Version'', kProtocolVersion), (''Connection'', ''close'')] @
        origin_header c @ session_header c @ co_headers (hc_options c)) body"

definition capture_session_id :: "http_head \<Rightarrow> http_client \<Rightarrow> http_client" where
  "capture_session_id h c =
     (let sid = header ''mcp-session-id'' h in if sid \<noteq> [] then c\<lparr>hc_session_id := sid\<rparr> else c)"

definition refuse_status :: "'s handlers \<Rightarrow> http_head \<Rightarrow> http_client \<Rightarrow> 's \<Rightarrow> (http_client \<times> 's) throws" where
  "refuse_status hs h c s =
     (let expired = (hh_status h = 404 \<and> hc_session_id c \<noteq> []);
          c = (if expired then c\<lparr>hc_session_id := []\<rparr> else c)
      in mapE (Pair c) (emit_error hs (mk_error InternalError (''HTTP '' @ int_to_string (hh_status h) @ '' '' @
           hh_reason h @ (if expired then '' (session expired - reinitialize)'' else []))) s))"

definition read_answer :: "(string \<Rightarrow> json option) \<Rightarrow> 's handlers \<Rightarrow> http_head \<Rightarrow> string \<Rightarrow> client_read list \<Rightarrow>
    http_client \<Rightarrow> 's \<Rightarrow> (http_client \<times> 's) call_end" where
  "read_answer parse hs h buffer reads c s =
     (if header_contains ''content-type'' ''text/event-stream'' h then
        (case stream_loop (\<lambda>e. deliver_frame parse hs (se_data e)) buffer fresh_parser reads s of
           Stream_Broken e \<Rightarrow> Throws e
         | Stream_Waiting s \<Rightarrow> Blocks (c, s)
         | Stream_Finished s \<Rightarrow> Returns (c, s))
      else case read_response_body (header_contains ''transfer-encoding'' ''chunked'' h) (header ''content-length'' h)
                  new_decoder buffer [] reads of
        Body_Waiting \<Rightarrow> Blocks (c, s)
      | Body_Stopped \<Rightarrow> Returns (c, s)
      | Body_Error e \<Rightarrow> call_of (mapE (Pair c) (emit_error hs (mk_error InternalError e) s))
      | Body body \<Rightarrow> call_of (mapE (Pair c) (deliver_frame parse hs body s)))"

definition post_payload :: "(string \<Rightarrow> json option) \<Rightarrow> 's handlers \<Rightarrow> attempt \<Rightarrow> http_client \<Rightarrow> 's \<Rightarrow> (http_client \<times> 's) call_end" where
  "post_payload parse hs a c s =
     (let failed = (\<lambda>msg. call_of (mapE (Pair c) (emit_error hs (mk_error InternalError msg) s))) in
      case at_connected a of
        Inl e \<Rightarrow> failed (''http connect failed: '' @ e)
      | Inr _ \<Rightarrow>
          if \<not> at_written a then failed ''http write failed''
          else case read_response_head [] (at_reads a) of
            Head_Waiting \<Rightarrow> Blocks (c, s)
          | Head_Stopped \<Rightarrow> Returns (c, s)
          | Head_Closed \<Rightarrow> failed ''connection closed before HTTP response''
          | Head_Malformed e \<Rightarrow> failed (''malformed HTTP response: '' @ e)
          | Head_Broken e \<Rightarrow> Throws e
          | Head_Read h buffer reads \<Rightarrow>
              let c = capture_session_id h c in
              if hh_status h = 202 then Returns (c, s)
              else if hh_status h \<noteq> 200 then call_of (refuse_status hs h c s)
              else read_answer parse hs h buffer reads c s)"

text \<open>\<^verbatim>\<open>send\<close> and \<^verbatim>\<open>send_batch\<close>: the bytes written to the connection, or the exception of the serializer.\<close>

definition client_send :: "(json \<Rightarrow> string throws) \<Rightarrow> http_client \<Rightarrow> message \<Rightarrow> string throws" where
  "client_send dump c m = mapE (post_request c) (serialize_message dump m)"

definition client_send_batch :: "(json \<Rightarrow> string throws) \<Rightarrow> http_client \<Rightarrow> message list \<Rightarrow> string throws" where
  "client_send_batch dump c ms = mapE (post_request c) (serialize_batch dump ms)"

subsection \<open>The background stream\<close>

definition stream_request :: "http_client \<Rightarrow> string" where
  "stream_request c =
     serialize_request ''GET'' (co_path (hc_options c))
       ([host_header c, (''Accept'', ''text/event-stream''), (''MCP-Protocol-Version'', kProtocolVersion),
         (''Cache-Control'', ''no-cache'')] @
        origin_header c @
        (if hc_last_event_id c \<noteq> [] then [(''Last-Event-ID'', hc_last_event_id c)] else []) @
        session_header c @ co_headers (hc_options c)) []"

text \<open>One event: retry hint, id, data; the flag is the variable \<^verbatim>\<open>delivered\<close>.\<close>

definition take_stream_event :: "(string \<Rightarrow> json option) \<Rightarrow> 's handlers \<Rightarrow> sse_event \<Rightarrow> bool \<times> http_client \<times> 's \<Rightarrow>
    (bool \<times> http_client \<times> 's) throws" where
  "take_stream_event parse hs e st =
     (case st of (_, c, s) \<Rightarrow>
      let c = (case se_retry_ms e of Some n \<Rightarrow> c\<lparr>hc_retry_ms := n\<rparr> | None \<Rightarrow> c);
          c = (case se_id e of Some i \<Rightarrow> c\<lparr>hc_last_event_id := i\<rparr> | None \<Rightarrow> c)
      in mapE (\<lambda>s. (True, c, s)) (deliver_frame parse hs (se_data e) s))"

definition run_sse_once :: "(string \<Rightarrow> json option) \<Rightarrow> 's handlers \<Rightarrow> attempt \<Rightarrow> http_client \<Rightarrow> 's \<Rightarrow>
    (bool \<times> http_client \<times> 's) call_end" where
  "run_sse_once parse hs a c s =
     (case at_connected a of
        Inl e \<Rightarrow> Returns (False, c, s)
      | Inr _ \<Rightarrow>
          if \<not> at_written a then Returns (False, c, s)
          else case read_response_head [] (at_reads a) of
            Head_Waiting \<Rightarrow> Blocks (False, c, s)
          | Head_Broken e \<Rightarrow> Throws e
          | Head_Read h buffer reads \<Rightarrow>
              if hh_status h \<noteq> 200 \<or> \<not> header_contains ''content-type'' ''text/event-stream'' h
              then Returns (False, c, s)
              else (case stream_loop (take_stream_event parse hs) buffer fresh_parser reads (False, c, s) of
                      Stream_Broken e \<Rightarrow> Throws e
                    | Stream_Waiting st \<Rightarrow> Blocks st
                    | Stream_Finished st \<Rightarrow> Returns st)
          | _ \<Rightarrow> Returns (False, c, s))"

text \<open>
  One passage of \<^verbatim>\<open>sse_loop\<close>: \<^verbatim>\<open>running_\<close> at the head of the loop, the connection, and \<^verbatim>\<open>running_\<close> after it.
\<close>

fun sse_loop :: "(string \<Rightarrow> json option) \<Rightarrow> 's handlers \<Rightarrow> int \<Rightarrow> (bool \<times> attempt \<times> bool) list \<Rightarrow> http_client \<Rightarrow> 's \<Rightarrow>
    (http_client \<times> 's) call_end" where
  "sse_loop parse hs failures [] c s = Blocks (c, s)"
| "sse_loop parse hs failures ((running, a, still) # as) c s =
     (if \<not> running then Returns (c, s)
      else case run_sse_once parse hs a c s of
        Throws e \<Rightarrow> Throws e
      | Blocks (_, c, s) \<Rightarrow> Blocks (c, s)
      | Returns (delivered, c, s) \<Rightarrow>
          if delivered then
            (if still then sse_loop parse hs 0 as c s else Returns (c, s))
          else if hc_session_id c = [] then sse_loop parse hs failures as c s
          else
            let failures = failures + 1; limit = co_max_reconnect_attempts (hc_options c) in
            if limit > 0 \<and> limit \<le> failures then
              call_of (bindE (emit_error hs (mk_error InternalError
                  (''SSE stream: giving up after '' @ int_to_string failures @ '' failures'')) s)
                (client_emit_close hs c))
            else if still then sse_loop parse hs failures as c s else Returns (c, s))"

subsection \<open>Reading answers from fragments\<close>

lemma read_response_head_fragments:
  assumes lines: "ls \<noteq> []" "\<And>l. l \<in> set ls \<Longrightarrow> l \<noteq> [] \<and> no_eol l"
    and head: "\<And>rest. parse_head (write_lines ls @ rest) False = Inr (Parsed h (length (write_lines ls)))"
    and "buffer @ concat cs = write_lines ls @ body" and "write_lines ls = buffer @ q" and "q \<noteq> []"
  shows "\<exists>buffer' cs'. read_response_head buffer (map Bytes cs @ reads) = Head_Read h buffer' (map Bytes cs' @ reads) \<and>
    buffer' @ concat cs' = body"
  using assms(4-6)
proof (induction cs arbitrary: buffer q)
  case Nil
  then have "q @ body = []" by (metis append.assoc append.right_neutral concat.simps(1) same_append_eq)
  with Nil show ?case by simp
next
  case (Cons c cs)
  have "(buffer @ c) @ concat cs = write_lines ls @ body" using Cons.prems(1) by simp
  then show ?case
  proof (cases rule: buffer_cases)
    case (short q')
    then have "head_end (buffer @ c) = None" using head_end_prefix [OF lines] by blast
    with Cons.IH [OF \<open>(buffer @ c) @ concat cs = write_lines ls @ body\<close> short] show ?thesis
      by (simp add: parse_head_def)
  next
    case (long r)
    then have "read_response_head buffer (map Bytes (c # cs) @ reads) = Head_Read h r (map Bytes cs @ reads)"
      using head [of r] by simp
    with long(2) show ?thesis by blast
  qed
qed

lemma read_response_body_fragments:
  "len \<noteq> [] \<Longrightarrow> strtoull len = length body \<Longrightarrow> buffer @ concat cs = body \<Longrightarrow>
   read_response_body False len d buffer out (map Bytes cs @ reads) = Body body"
proof (induction cs arbitrary: buffer)
  case Nil
  then show ?case by (simp add: read_response_body.simps)
next
  case (Cons c cs)
  show ?case
  proof (cases "length body \<le> length buffer")
    case True
    with Cons.prems have "buffer = body" by auto
    with Cons.prems show ?thesis by (simp add: read_response_body.simps)
  next
    case False
    with Cons show ?thesis by (simp add: read_response_body.simps [of False len d buffer])
  qed
qed

lemma lowered_names:
  "to_lower ''Content-Length'' = ''content-length''" "to_lower ''Content-Type'' = ''content-type''"
  "to_lower ''MCP-Protocol-Version'' = ''mcp-protocol-version''" "to_lower ''Connection'' = ''connection''"
  "to_lower ''Mcp-Session-Id'' = ''mcp-session-id''" "to_lower ''Cache-Control'' = ''cache-control''"
  "to_lower ''Host'' = ''host''" "to_lower ''Accept'' = ''accept''" "to_lower ''Last-Event-ID'' = ''last-event-id''"
  "to_lower ''Origin'' = ''origin''"
  by code_simp+

lemma token_numeral: "token (nat_to_string n)"
proof -
  have "\<not> is_digit x" if "x \<in> {CHR '' '', TAB, CR, LF, CHR '':''}" for x using that by (auto simp: is_digit_def)
  then show ?thesis using nat_to_string_digits [of n] by (auto simp: token_def)
qed

lemma trim_numeral [simp]: "trim (nat_to_string n) = nat_to_string n"
  by (rule trim_token [OF token_numeral])

text \<open>The head of a plain answer of the servers as the client reads it.\<close>

definition reply_head :: "int \<Rightarrow> string \<Rightarrow> string \<Rightarrow> string \<Rightarrow> header_list \<Rightarrow> http_head" where
  "reply_head status reason body content_type extra =
     new_head\<lparr>hh_status := status, hh_reason := reason, hh_headers := header_map (response_headers
       ([(''Content-Type'', content_type), (''MCP-Protocol-Version'', kProtocolVersion), (''Connection'', ''close'')] @ extra)
       body False)\<rparr>"

lemma response_head_read:
  assumes "100 \<le> status" "status \<le> 599" "no_eol reason" "wire_headers hs"
    and "concat cs = serialize_response status reason hs body streaming @ after"
  shows "\<exists>buffer' cs'. read_response_head [] (map Bytes cs @ reads) =
      Head_Read (new_head\<lparr>hh_status := status, hh_reason := reason,
        hh_headers := header_map (response_headers hs body streaming)\<rparr>) buffer' (map Bytes cs' @ reads) \<and>
    buffer' @ concat cs' = body @ after"
proof -
  let ?hs = "response_headers hs body streaming"
  let ?start = "''HTTP/1.1 '' @ int_to_string status @ '' '' @ reason" let ?ls = "?start # map header_line ?hs"
  let ?h = "new_head\<lparr>hh_status := status, hh_reason := reason, hh_headers := header_map ?hs\<rparr>"
  have start: "no_eol ?start" "?start \<noteq> []"
    using assms(1,3) no_eol_numeral [of "nat status"] by (simp_all add: no_eol_def int_to_string_def)
  have hs: "wire_headers ?hs" by (rule wire_request_headers(2) [OF assms(4)])
  have "start_line_of False ?start = Inr (Inr (new_head\<lparr>hh_status := status, hh_reason := reason\<rparr>))"
    using parse_status_line_written [OF assms(1,2), of reason] by (simp add: start_line_of_def)
  from parse_written_head [OF this start(2,1) _ hs]
  have "parse_head (write_lines ?ls @ rest) False = Inr (Parsed ?h (length (write_lines ?ls)))" for rest
    by (simp add: new_head_def)
  then show ?thesis
    using assms(5) head_lines_wire [OF start(2,1) hs]
    by (intro read_response_head_fragments [where ls = ?ls and q = "write_lines ?ls"])
      (auto simp: serialize_response_def write_lines_def)
qed

lemma reply_head_read:
  assumes "100 \<le> status" "status \<le> 599" "no_eol reason" "no_eol content_type" "wire_headers extra"
    and "concat cs = write_simple status reason body content_type extra"
  shows "\<exists>buffer' cs'. read_response_head [] (map Bytes cs @ reads) =
      Head_Read (reply_head status reason body content_type extra) buffer' (map Bytes cs' @ reads) \<and>
    buffer' @ concat cs' = body"
proof -
  have "wire_headers ([(''Content-Type'', content_type), (''MCP-Protocol-Version'', kProtocolVersion),
      (''Connection'', ''close'')] @ extra)"
    using assms(4,5) by (simp add: wire_headers_def token_def no_eol_def kProtocolVersion_def)
  from response_head_read [OF assms(1-3) this, of cs body False "[]"] assms(6) show ?thesis
    by (simp add: write_simple_def reply_head_def)
qed

lemma reply_head_fields:
  assumes "extra = [] \<or> extra = [(''Mcp-Session-Id'', i)]"
  shows "header ''content-length'' (reply_head status reason body content_type extra) = nat_to_string (length body)"
    and "header ''content-type'' (reply_head status reason body content_type extra) = trim content_type"
    and "header_contains ''transfer-encoding'' t (reply_head status reason body content_type extra) \<longleftrightarrow> t = []"
    and "header ''mcp-session-id'' (reply_head status reason body content_type extra) = (if extra = [] then [] else trim i)"
  using assms
  by (auto simp: header_def header_contains_def reply_head_def header_map_def response_headers_def content_length_def
      lowered_names find_sub.simps to_lower_def [of "[]"]) (simp_all add: to_lower_def)

subsection \<open>Request and answer\<close>

lemma json_not_stream: "find_sub (to_lower ''text/event-stream'') (to_lower (trim ''application/json'')) = None"
  by code_simp

lemma post_payload_json:
  assumes "concat cs = write_simple 200 ''OK'' body ''application/json'' extra"
    and "extra = [] \<or> extra = [(''Mcp-Session-Id'', i)]" and "wire_headers extra" and "length body < 2 ^ 64"
    and "at_connected a = Inr ()" and "at_written a" and "at_reads a = map Bytes cs"
  shows "post_payload parse hs a c s =
    call_of (mapE (Pair (if extra = [] \<or> trim i = [] then c else c\<lparr>hc_session_id := trim i\<rparr>)) (deliver_frame parse hs body s))"
proof -
  let ?h = "reply_head 200 ''OK'' body ''application/json'' extra"
  have "no_eol ''OK''" "no_eol ''application/json''" by (simp_all add: no_eol_def)
  from reply_head_read [OF _ _ this assms(3,1), of "[]"]
  obtain buffer' cs' where read: "read_response_head [] (at_reads a) = Head_Read ?h buffer' (map Bytes cs')"
    and body: "buffer' @ concat cs' = body" using assms(7) by auto
  note f = reply_head_fields [OF assms(2)]
  have "capture_session_id ?h c = (if extra = [] \<or> trim i = [] then c else c\<lparr>hc_session_id := trim i\<rparr>)"
    by (simp add: capture_session_id_def f(4))
  moreover have "hh_status ?h = 200" by (simp add: reply_head_def)
  moreover have "\<not> header_contains ''content-type'' ''text/event-stream'' ?h"
    using json_not_stream by (simp add: header_contains_def f(2))
  moreover have "read_response_body (header_contains ''transfer-encoding'' ''chunked'' ?h) (header ''content-length'' ?h)
      new_decoder buffer' [] (map Bytes cs') = Body body"
    using read_response_body_fragments [of "nat_to_string (length body)" body buffer' cs' new_decoder "[]" "[]"] body assms(4)
    by (simp add: f(1,3) strtoull_to_string)
  ultimately show ?thesis using assms(5,6) read by (simp add: post_payload_def read_answer_def Let_def)
qed

lemma post_payload_accepted:
  assumes "concat cs = write_simple 202 ''Accepted'' [] ''text/plain'' []"
    and "at_connected a = Inr ()" and "at_written a" and "at_reads a = map Bytes cs"
  shows "post_payload parse hs a c s = Returns (c, s)"
proof -
  let ?h = "reply_head 202 ''Accepted'' [] ''text/plain'' []"
  have "no_eol ''Accepted''" "no_eol ''text/plain''" "wire_headers []" by (simp_all add: no_eol_def wire_headers_def)
  from reply_head_read [OF _ _ this assms(1), of "[]"]
  obtain buffer' cs' where "read_response_head [] (at_reads a) = Head_Read ?h buffer' (map Bytes cs')"
    using assms(4) by auto
  moreover have "capture_session_id ?h c = c"
    using reply_head_fields(4) [of "[]"] by (simp add: capture_session_id_def)
  moreover have "hh_status ?h = 202" by (simp add: reply_head_def)
  ultimately show ?thesis using assms(2,3) by (simp add: post_payload_def)
qed

text \<open>What the client needs of its configuration: a path and headers that can be written, and no length of its own.\<close>

definition usable_client :: "http_client \<Rightarrow> bool" where
  "usable_client c \<longleftrightarrow>
     token (co_path (hc_options c)) \<and> no_eol (co_host (hc_options c)) \<and> no_eol (hc_session_id c) \<and>
     pred_option no_eol (co_origin (hc_options c)) \<and> wire_headers (co_headers (hc_options c)) \<and>
     list_all (\<lambda>(n, _). to_lower n \<noteq> ''content-length'') (co_headers (hc_options c))"

definition post_headers :: "http_client \<Rightarrow> header_list" where
  "post_headers c =
     [host_header c, (''Content-Type'', ''application/json''), (''Accept'', ''application/json, text/event-stream''),
      (''MCP-Protocol-Version'', kProtocolVersion), (''Connection'', ''close'')] @
     origin_header c @ session_header c @ co_headers (hc_options c)"

lemma post_headers_wire: "usable_client c \<Longrightarrow> wire_headers (post_headers c)"
  using no_eol_numeral [of "co_port (hc_options c)"]
  by (auto simp: usable_client_def post_headers_def wire_headers_def host_header_def origin_header_def session_header_def
      token_def no_eol_def kProtocolVersion_def split: option.split)

definition post_head :: "http_client \<Rightarrow> string \<Rightarrow> http_head" where
  "post_head c body = request_head ''POST'' (co_path (hc_options c)) (post_headers c) body"

lemma post_head_length:
  assumes "usable_client c"
  shows "header ''content-length'' (post_head c body) = nat_to_string (length body)"
proof -
  have "\<not> list_ex (\<lambda>(n, _). to_lower n = ''content-length'') (post_headers c)"
    using assms by (auto simp: usable_client_def post_headers_def host_header_def origin_header_def session_header_def
        lowered_names list_ex_iff list_all_iff split: option.splits)
  then show ?thesis
    by (simp add: post_head_def request_head_def header_def header_map_def request_headers_def content_length_def lowered_names)
qed

lemma post_request_admitted:
  assumes "usable_client c" and "length body < 2 ^ 64" and "permitted opts (post_head c body)"
    and "concat cs = post_request c body"
  shows "handle_connection opts [] (map Received cs) = Accepted (post_head c body) body"
proof (rule written_request_accepted [OF post_headers_wire [OF assms(1)]])
  show "concat cs = serialize_request ''POST'' (co_path (hc_options c)) (post_headers c) body"
    using assms(4) by (simp add: post_request_def post_headers_def)
  show "strtoull (header ''content-length'' (post_head c body)) = length body"
    using post_head_length [OF assms(1)] assms(2) by (simp add: strtoull_to_string)
qed (use assms in \<open>simp_all add: usable_client_def post_head_def token_def\<close>)

lemma deliver_single:
  assumes "valid_message m" and "parse t = Some (message_to_json m)" and "t \<noteq> []" and "on_message hs = Some hm"
  shows "deliver_frame parse hs t u = hm m u"
  using parse_single_frame [of m parse t] assms
  by (cases "hm m u") (simp_all add: deliver_frame_def deliver_messages_def)

lemma answer_delivered:
  assumes "concat cs = write_simple 200 ''OK'' body ''application/json'' extra"
    and "extra = [] \<or> extra = [(''Mcp-Session-Id'', i)]" and "wire_headers extra" and "length body < 2 ^ 64"
    and "at_connected a = Inr ()" and "at_written a" and "at_reads a = map Bytes cs"
    and "valid_message m" and "parse body = Some (message_to_json m)" and "body \<noteq> []" and "on_message hs = Some hm"
  shows "post_payload parse hs a c u =
    call_of (mapE (Pair (if extra = [] \<or> trim i = [] then c else c\<lparr>hc_session_id := trim i\<rparr>)) (hm m u))"
  using post_payload_json [OF assms(1-7), of parse hs c u] deliver_single [of m parse body hs hm u] assms(8-11)
  by (simp del: message_to_json.simps)

subsection \<open>Receiving a stream\<close>

lemma foldE_append: "foldE f (xs @ ys) s = bindE (foldE f xs s) (foldE f ys)"
proof (induction xs arbitrary: s)
  case (Cons x xs)
  then show ?case by (cases "f x s") simp_all
qed simp

text \<open>Events already complete do not influence the parser.\<close>

lemma sse_take_line_frame:
  "sse_take_line l (p, out @ out') = mapE (\<lambda>(p, o'). (p, out @ o')) (sse_take_line l (p, out'))"
  by (cases "atoi (snd (split_field l))")
    (simp_all add: sse_take_line_def Let_def case_prod_unfold)

lemma drain_frame:
  "drain_lines sse_take_line b (p, out @ out') =
   mapE (\<lambda>(b, p, o'). (b, p, out @ o')) (drain_lines sse_take_line b (p, out'))"
proof (induction "length b" arbitrary: b p out' rule: less_induct)
  case less
  show ?case
  proof (cases b rule: line_cases)
    case incomplete
    then show ?thesis by simp
  next
    case (line l r)
    then have len: "length r < length b" by simp
    show ?thesis
    proof (cases "sse_take_line (strip_cr l) (p, out')")
      case (Inr st)
      then obtain p' o' where "st = (p', o')" by (cases st)
      with Inr less [OF len, of p' o'] line show ?thesis by (simp add: sse_take_line_frame)
    qed (use line in \<open>simp add: sse_take_line_frame\<close>)
  qed
qed

lemma sse_feed_frame:
  "sse_feed chunk (b, p, out) = mapE (\<lambda>(b, p, o'). (b, p, out @ o')) (sse_feed chunk (b, p, []))"
  using drain_frame [of "b @ chunk" p out "[]"] by (simp add: sse_feed_def feed_lines_def)

lemma feeds_frame:
  "feeds sse_feed cs (b, p, out) = mapE (\<lambda>(b, p, o'). (b, p, out @ o')) (feeds sse_feed cs (b, p, []))"
proof (induction cs arbitrary: b p out)
  case (Cons c cs)
  show ?case
  proof (cases "sse_feed c (b, p, [])")
    case (Inr st)
    obtain b' p' o' where st: "st = (b', p', o')" by (cases st)
    show ?thesis
      using Inr st sse_feed_frame [of c b p out] Cons.IH [of b' p' "out @ o'"] Cons.IH [of b' p' o']
      by (cases "feeds sse_feed cs (b', p', [])") (auto split: prod.split)
  qed (simp add: sse_feed_frame [of c b p out])
qed simp

lemma stream_loop_events:
  "feeds sse_feed (chunk # cs) (b, p, []) = Inr (b', p', es) \<Longrightarrow>
   stream_loop f chunk (b, p) (map Bytes cs @ [Stream_End]) s =
     (case foldE f es s of Inl e \<Rightarrow> Stream_Broken e | Inr s' \<Rightarrow> Stream_Finished s')"
proof (induction cs arbitrary: chunk b p es s)
  case Nil
  then show ?case by (auto simp: stream_loop.simps bindE_eq_Inr split: sum.split)
next
  case (Cons c cs)
  then obtain b1 p1 e1 where first: "sse_feed chunk (b, p, []) = Inr (b1, p1, e1)"
    by (auto simp: bindE_eq_Inr)
  with Cons.prems feeds_frame [of "c # cs" b1 p1 e1] obtain e2 where
    rest: "feeds sse_feed (c # cs) (b1, p1, []) = Inr (b', p', e2)" and es: "es = e1 @ e2"
    by (auto simp del: feeds.simps(2) simp: feeds.simps(2) [of sse_feed chunk] mapE_eq_Inr)
  show ?case
  proof (cases "foldE f e1 s")
    case (Inl e)
    then show ?thesis by (simp add: stream_loop.simps [of f chunk] first es foldE_append)
  next
    case (Inr s1)
    with Cons.IH [OF rest, of s1] show ?thesis by (simp add: stream_loop.simps [of f chunk] first es foldE_append)
  qed
qed

subsection \<open>Properties\<close>


definition opening_request :: jsonrpc_request where
  "opening_request = \<lparr>req_id = Id_Int 1, req_method = kInitialize, req_params = None\<rparr>"

definition opening_response :: jsonrpc_response where
  "opening_response = result_response (Some (Id_Int 1)) (JObj [])"

definition sample_http_client :: http_client where
  "sample_http_client = new_http_client \<lparr>co_host = ''127.0.0.1'', co_port = 3001, co_path = ''/mcp'', co_headers = [],
     co_origin = None, co_connect_timeout_ms = 5000, co_reconnect_delay_ms = 1000, co_max_reconnect_attempts = 5, co_open_sse_stream = True\<rparr>"

definition two_texts :: "json \<Rightarrow> string" where
  "two_texts j = (if j = message_to_json (Request opening_request) then ''q'' else ''r'')"

definition two_values :: "string \<Rightarrow> json option" where
  "two_values t = Some (if t = ''q'' then message_to_json (Request opening_request) else message_to_json (Response opening_response))"


lemma wire_item_event:
  assumes "line_safe p"
  shows "wire_event (item_event (i, p))"
proof -
  have "line_safe (nat_to_string i)" using line_safe_numeral [of "int i"] by (simp add: int_to_string_def)
  moreover have "data_lines p = [p]" using assms by (simp add: line_safe_def)
  moreover have "hd p \<noteq> LF" if "p \<noteq> []" using assms hd_in_set [OF that] by (auto simp: line_safe_def)
  ultimately show ?thesis using assms by (simp add: wire_event_def item_event_def new_event_def)
qed

lemma wire_initial_event:
  "0 \<le> sc_retry_ms ch \<Longrightarrow> sc_retry_ms ch < 2 ^ 31 \<Longrightarrow> wire_event (initial_event ch st)"
  using line_safe_numeral [of "int (st_last_assigned st)"]
  by (simp add: wire_event_def initial_event_def new_event_def int_to_string_def line_safe_def)

text \<open>The head of an event stream as the client reads it.\<close>

lemma stream_head_read:
  assumes "concat cs = stream_head kProtocolVersion @ events"
  shows "\<exists>h buffer' cs'. read_response_head [] (map Bytes cs @ reads) = Head_Read h buffer' (map Bytes cs' @ reads) \<and>
    buffer' @ concat cs' = events \<and> hh_status h = 200 \<and> header_contains ''content-type'' ''text/event-stream'' h"
proof -
  let ?hs = "[(''Content-Type'', ''text/event-stream''), (''Cache-Control'', ''no-cache''),
    (''Connection'', ''keep-alive''), (''MCP-Protocol-Version'', kProtocolVersion)]"
  let ?h = "new_head\<lparr>hh_status := 200, hh_reason := ''OK'', hh_headers := header_map (response_headers ?hs [] True)\<rparr>"
  have "wire_headers ?hs" by (simp add: wire_headers_def token_def no_eol_def kProtocolVersion_def)
  from response_head_read [OF _ _ _ this, of 200 "''OK''" cs "[]" True events reads] assms
  obtain buffer' cs' where "read_response_head [] (map Bytes cs @ reads) = Head_Read ?h buffer' (map Bytes cs' @ reads)"
    "buffer' @ concat cs' = events" by (auto simp: stream_head_def no_eol_def)
  moreover have "header_contains ''content-type'' ''text/event-stream'' ?h" by code_simp
  ultimately show ?thesis by (intro exI [of _ ?h]) auto
qed

lemma take_items:
  "foldE (take_stream_event parse hs) (map item_event items) (True, c, s) =
   mapE (\<lambda>s. (True, if items = [] then c else c\<lparr>hc_last_event_id := nat_to_string (fst (last items))\<rparr>, s))
     (foldE (deliver_frame parse hs) (map snd items) s)"
proof (induction items arbitrary: c s)
  case (Cons i items)
  then show ?case
    by (cases "deliver_frame parse hs (snd i) s")
      (simp_all add: take_stream_event_def item_event_def new_event_def)
qed simp

text \<open>
  C24. Event streams, end to end: a client that reads what a channel writes to a new stream, the opening event and then
  items, in any fragments until the connection ends, delivers the payloads of the items in order,
  adopts the retry time, and remembers the id of the last item; its next stream request asks to resume
  after exactly that id.
\<close>

theorem event_stream_received:
  assumes "concat cs = stream_head kProtocolVersion @ format_sse_event (initial_event ch st) @ turn_bytes items"
    and "\<forall>i \<in> set items. line_safe (snd i)" and "0 \<le> sc_retry_ms ch" and "sc_retry_ms ch < 2 ^ 31"
    and "at_connected a = Inr ()" and "at_written a" and "at_reads a = map Bytes cs @ [Stream_End]"
    and "foldE (deliver_frame parse hs) (map snd items) s = Inr s'" and "items \<noteq> []"
  shows "run_sse_once parse hs a c s =
      Returns (True, c\<lparr>hc_retry_ms := sc_retry_ms ch, hc_last_event_id := nat_to_string (fst (last items))\<rparr>, s') \<and>
    stream_request (c\<lparr>hc_retry_ms := sc_retry_ms ch, hc_last_event_id := nat_to_string (fst (last items))\<rparr>) =
      serialize_request ''GET'' (co_path (hc_options c))
       ([host_header c, (''Accept'', ''text/event-stream''), (''MCP-Protocol-Version'', kProtocolVersion),
         (''Cache-Control'', ''no-cache'')] @ origin_header c @
        [(''Last-Event-ID'', nat_to_string (fst (last items)))] @ session_header c @ co_headers (hc_options c)) []"
proof
  let ?es = "initial_event ch st # map item_event items"
  have "concat cs = stream_head kProtocolVersion @ concat (map format_sse_event ?es)"
    using assms(1) by (simp add: turn_bytes_def comp_def)
  from stream_head_read [OF this, of "[Stream_End]"] obtain h b cs' where
    head: "read_response_head [] (at_reads a) = Head_Read h b (map Bytes cs' @ [Stream_End])"
      "hh_status h = 200" "header_contains ''content-type'' ''text/event-stream'' h"
    and bytes: "concat (b # cs') = concat (map format_sse_event ?es)" using assms(7) by auto
  have "list_all wire_event ?es"
    using wire_initial_event [OF assms(3,4)] wire_item_event assms(2) by (auto simp: list_all_iff)
  from feed_events [OF this, of "[]"] bytes
  have "feeds sse_feed (b # cs') ([], snd fresh_parser, []) = Inr ([], snd fresh_parser, ?es)"
    using sse.feeds_concat [of "([], snd fresh_parser, [])" "b # cs'"] by (simp add: sse_feed_def)
  from stream_loop_events [OF this] have
    "stream_loop (take_stream_event parse hs) b fresh_parser (map Bytes cs' @ [Stream_End]) (False, c, s) =
      (case foldE (take_stream_event parse hs) ?es (False, c, s) of Inl e \<Rightarrow> Stream_Broken e | Inr x \<Rightarrow> Stream_Finished x)"
    by simp
  moreover have "take_stream_event parse hs (initial_event ch st) (False, c, s) =
      Inr (True, c\<lparr>hc_retry_ms := sc_retry_ms ch, hc_last_event_id := nat_to_string (st_last_assigned st)\<rparr>, s)"
    by (simp add: take_stream_event_def initial_event_def new_event_def deliver_frame_def)
  ultimately show "run_sse_once parse hs a c s =
      Returns (True, c\<lparr>hc_retry_ms := sc_retry_ms ch, hc_last_event_id := nat_to_string (fst (last items))\<rparr>, s')"
    using assms(5,6,8,9) head by (simp add: run_sse_once_def take_items)
  show "stream_request (c\<lparr>hc_retry_ms := sc_retry_ms ch, hc_last_event_id := nat_to_string (fst (last items))\<rparr>) =
      serialize_request ''GET'' (co_path (hc_options c))
       ([host_header c, (''Accept'', ''text/event-stream''), (''MCP-Protocol-Version'', kProtocolVersion),
         (''Cache-Control'', ''no-cache'')] @ origin_header c @
        [(''Last-Event-ID'', nat_to_string (fst (last items)))] @ session_header c @ co_headers (hc_options c)) []"
    by (simp add: stream_request_def host_header_def origin_header_def session_header_def)
qed

definition sample_attempt :: "string \<Rightarrow> attempt" where
  "sample_attempt answer = \<lparr>at_connected = Inr (), at_written = True, at_reads = map Bytes [answer] @ [Stream_End]\<rparr>"

definition sample_stream :: stream where
  "sample_stream = \<lparr>st_generation = 1, st_cursor = 1, st_last_assigned = 2\<rparr>"

lemma event_stream_received_witness:
  "run_sse_once two_values (no_handlers :: unit handlers)
     (sample_attempt (stream_head kProtocolVersion @ format_sse_event (initial_event (new_channel 2 500) sample_stream) @
       turn_bytes [(1, ''r'')])) sample_http_client () =
   Returns (True, sample_http_client\<lparr>hc_retry_ms := 500, hc_last_event_id := nat_to_string 1\<rparr>, ())"
proof -
  have "parse_frame two_values ''r'' = returns \<lparr>messages = [Response opening_response], item_errors = [], was_batch = False\<rparr>"
    by (rule parse_single_frame) (simp_all add: two_values_def opening_response_def result_response_def)
  then have "foldE (deliver_frame two_values no_handlers) (map snd [(1 :: nat, ''r'')]) () = Inr ()"
    by (simp add: deliver_frame_def deliver_messages_def no_handlers_def)
  moreover have "\<forall>i \<in> set [(1 :: nat, ''r'')]. line_safe (snd i)" by (simp add: line_safe_def)
  ultimately show ?thesis
    using event_stream_received [of "[stream_head kProtocolVersion @ format_sse_event
        (initial_event (new_channel 2 500) sample_stream) @ turn_bytes [(1, ''r'')]]" "new_channel 2 500" sample_stream
        "[(1, ''r'')]" "sample_attempt (stream_head kProtocolVersion @ format_sse_event
        (initial_event (new_channel 2 500) sample_stream) @ turn_bytes [(1, ''r'')])" two_values no_handlers "()" "()"
        sample_http_client]
    by (simp add: sample_attempt_def new_channel_def)
qed



lemma hex_char_plain: "d < 16 \<Longrightarrow> hex_char d \<notin> {CHR '' '', TAB, CR, LF, CHR '':''}"
proof -
  have "list_all (\<lambda>d. hex_char d \<notin> {CHR '' '', TAB, CR, LF, CHR '':''}) [0..<16]" by code_simp
  then show "d < 16 \<Longrightarrow> ?thesis" by (simp add: list_all_iff)
qed

lemma to_hex_plain: "set (to_hex n) \<inter> {CHR '' '', TAB, CR, LF, CHR '':''} = {} \<and> to_hex n \<noteq> []"
proof (induction n rule: to_hex.induct)
  case (1 n)
  have "hex_char (n mod 16) \<notin> {CHR '' '', TAB, CR, LF, CHR '':''}"
    and "n < 16 \<Longrightarrow> hex_char n \<notin> {CHR '' '', TAB, CR, LF, CHR '':''}" using hex_char_plain by auto
  with 1 show ?case by (subst (1 2) to_hex.simps) auto
qed

lemma session_id_token: "draws \<noteq> [] \<Longrightarrow> token (generate_session_id draws)"
  using to_hex_plain
  by (cases draws) (auto simp: generate_session_id_def token_def hex8_def Let_def disjoint_iff)

lemma post_head_session:
  assumes "list_all (\<lambda>(n, _). to_lower n \<noteq> ''mcp-session-id'') (co_headers (hc_options c))"
  shows "header ''mcp-session-id'' (post_head c body) = trim (hc_session_id c)"
proof -
  have "map_of (rev (map (\<lambda>(n, v). (to_lower n, trim v)) (co_headers (hc_options c)))) ''mcp-session-id'' = None"
    using assms by (force simp: map_of_eq_None_iff list_all_iff)
  then show ?thesis
    by (simp add: post_head_def request_head_def header_def header_map_def request_headers_def content_length_def
        post_headers_def session_header_def origin_header_def host_header_def lowered_names map_add_def trim_def [of "[]"]
        split: option.split)
qed

text \<open>
  Opening a session over HTTP: an initialize request without a session id creates a session, its response comes back
  with a new id, the client adopts the id and hands the response on, and the client's next POST names the
  session that was created.
\<close>

theorem http_session_opened:
  assumes "\<And>j. dump j = Inr (text_of j)" and "\<forall>j \<in> {message_to_json (Request q), message_to_json (Response r)}.
      parse (text_of j) = Some j \<and> text_of j \<noteq> [] \<and> length (text_of j) < 2 ^ 64"
    and "list_all (\<lambda>(n, _). to_lower n \<noteq> ''mcp-session-id'') (co_headers (hc_options c))" and "hc_session_id c = []"
    and "valid_message (Request q)" and "req_method q = kInitialize" and "draws \<noteq> []"
    and "sh_factory host (sv_world (sweep_idle host now sv)) = (Some s, w)"
    and "sh_handle host (Request q) (s, w) = Inr (outs, s', w')" and "filter is_answer outs = [Response r]"
    and "valid_message (Response r)" and "on_message hs = Some hm"
  shows "\<exists>reply sv'. session_handle_request host dump parse me now draws
        (post_head c (text_of (message_to_json (Request q)))) (text_of (message_to_json (Request q))) table sv =
        Inr (Answer reply, capture_end me table, sv') \<and>
      map_of (sv_registry sv') (generate_session_id draws) = Some ((new_entry (sv_options sv) now s)
        \<lparr>en_channel := fold enqueue (event_texts text_of outs) (en_channel (new_entry (sv_options sv) now s)), en_session := s'\<rparr>) \<and>
      (\<forall>a cs'. concat cs' = reply \<longrightarrow> at_connected a = Inr () \<longrightarrow> at_written a \<longrightarrow> at_reads a = map Bytes cs' \<longrightarrow>
        post_payload parse hs a c u =
          call_of (mapE (Pair (c\<lparr>hc_session_id := generate_session_id draws\<rparr>)) (hm (Response r) u))) \<and>
      header ''mcp-session-id'' (post_head (c\<lparr>hc_session_id := generate_session_id draws\<rparr>) body) = generate_session_id draws"
proof -
  let ?q = "text_of (message_to_json (Request q))" let ?r = "text_of (message_to_json (Response r))"
  let ?f = "\<lparr>messages = [Request q], item_errors = [], was_batch = False\<rparr>"
  let ?sv = "sweep_idle host now sv" let ?i = "generate_session_id draws" let ?x = "[(''Mcp-Session-Id'', ?i)]"
  let ?e = "new_entry (sv_options sv) now s"
  let ?e' = "?e\<lparr>en_channel := fold enqueue (event_texts text_of outs) (en_channel ?e), en_session := s'\<rparr>"
  let ?sv1 = "?sv\<lparr>sv_registry := obj_put ?i ?e (sv_registry ?sv), sv_world := w\<rparr>"
  have i: "trim ?i = ?i" "?i \<noteq> []" "wire_headers ?x"
    using session_id_token [OF assms(7)] by (auto simp: wire_headers_def token_def no_eol_def)
  have frame: "parse_frame parse ?q = returns ?f" using assms(2) by (intro parse_single_frame [OF assms(5)]) blast
  have "header ''mcp-session-id'' (post_head c ?q) = []" "hh_method (post_head c ?q) = ''POST''"
    using post_head_session [OF assms(3)] assms(4) by (simp_all add: trim_def post_head_def request_head_def)
  then have "session_handle_request host dump parse me now draws (post_head c ?q) ?q table sv =
      post_to_session host dump me ?f ?x ?i ?e table ?sv1"
    using frame assms(6,8) by (simp add: session_handle_request_def Let_def handle_post_def frame_contains_initialize_def
        registry_create_def sweep_idle_def case_prod_unfold del: message_to_json.simps)
  also have "\<dots> = Inr (Answer (write_simple 200 ''OK'' ?r ''application/json'' ?x), capture_end me table,
      ?sv1\<lparr>sv_registry := obj_put ?i ?e' (sv_registry ?sv1), sv_world := w'\<rparr>)"
  proof -
    have sent: "sent_by (sh_handle host) (messages ?f) (s, w) = Inr (outs, s', w')" using assms(9) by simp
    have "post_reply text_of False ?x (post_answers ?f outs) = write_simple 200 ''OK'' ?r ''application/json'' ?x"
      using assms(10) by (simp add: post_reply_def post_answers_def)
    then show ?thesis
      using post_frame_answers [where dump = dump and text_of = text_of and me = me, OF assms(1) sent]
      by (simp add: post_to_session_def new_entry_def)
  qed
  finally have served: "session_handle_request host dump parse me now draws (post_head c ?q) ?q table sv = \<dots>" .
  have "post_payload parse hs a c u = call_of (mapE (Pair (c\<lparr>hc_session_id := ?i\<rparr>)) (hm (Response r) u))"
    if "concat cs' = write_simple 200 ''OK'' ?r ''application/json'' ?x" "at_connected a = Inr ()" "at_written a"
      "at_reads a = map Bytes cs'" for a cs'
    using answer_delivered [OF that(1) _ i(3) _ that(2-4) assms(11) _ _ assms(12), of ?i parse c u] assms(2) i(1,2)
    by (simp del: message_to_json.simps)
  moreover have "header ''mcp-session-id'' (post_head (c\<lparr>hc_session_id := ?i\<rparr>) body) = ?i"
    using post_head_session [of "c\<lparr>hc_session_id := ?i\<rparr>" body] assms(3) i(1) by simp
  ultimately show ?thesis using served by (intro exI) auto
qed

definition opening_host :: "(unit, unit) session_host" where
  "opening_host = sample_host\<lparr>sh_handle := (\<lambda>m sw. Inr ([Response opening_response], sw))\<rparr>"

lemma http_session_opened_witness:
  "\<exists>reply sv'. session_handle_request opening_host (\<lambda>j. Inr (two_texts j)) two_values (0::nat) 9 [1, 2, 3, 4]
      (post_head sample_http_client ''q'') ''q'' (\<lambda>_. None) sample_sessions =
      Inr (Answer reply, capture_end 0 (\<lambda>_. None), sv') \<and>
    map_of (sv_registry sv') (generate_session_id [1, 2, 3, 4]) \<noteq> None"
proof -
  have q: "two_texts (message_to_json (Request opening_request)) = ''q''" by (simp add: two_texts_def)
  have ne: "message_to_json (Response opening_response) \<noteq> message_to_json (Request opening_request)" by code_simp
  have codec: "\<forall>j \<in> {message_to_json (Request opening_request), message_to_json (Response opening_response)}.
      two_values (two_texts j) = Some j \<and> two_texts j \<noteq> [] \<and> length (two_texts j) < 2 ^ 64"
    using ne by (simp add: two_values_def two_texts_def del: message_to_json.simps)
  have wf: "valid_message (Request opening_request)" "valid_message (Response opening_response)"
    "req_method opening_request = kInitialize" "filter is_answer [Response opening_response] = [Response opening_response]"
    by (simp_all add: opening_request_def opening_response_def result_response_def is_answer_def)
  have client: "hc_session_id sample_http_client = []" "co_headers (hc_options sample_http_client) = []"
    by (simp_all add: sample_http_client_def new_http_client_def)
  from http_session_opened [where text_of = two_texts and c = sample_http_client and host = opening_host and s = "()" and w = "()"
      and outs = "[Response opening_response]" and s' = "()" and w' = "()" and draws = "[1, 2, 3, 4]" and now = 9
      and sv = sample_sessions and me = "0::nat" and table = "\<lambda>_. None" and u = "()" and body = "[]"
      and hs = "no_handlers\<lparr>on_message := Some (\<lambda>m u. Inr u)\<rparr>" and hm = "\<lambda>m (u :: unit). Inr u",
      OF refl codec _ client(1) wf(1,3) _ _ _ wf(4,2)] q
  show ?thesis by (auto simp: client opening_host_def sample_host_def no_handlers_def)
qed

end
