(* ===== verification/Mcp_Deployment.thy ===== *)
theory Mcp_Deployment
  imports Mcp_Features Mcp_Http_Client
begin

text \<open>
  The server facade behind the HTTP session server, wired as the comment in
  \<^verbatim>\<open>include/mcp/transport/http_session_server.hpp\<close> and \<^verbatim>\<open>make_http\<close> in \<^verbatim>\<open>examples/echo_server_http.cpp\<close> show: the factory creates a session with the server's options
  and attaches it, the close callback detaches it, and a session's message handler is the one of
  \<^verbatim>\<open>ServerSession\<close> with the server's features.  The application's state is the server and the number of the
  next session.
\<close>

subsection \<open>Wiring\<close>

type_synonym facade_session = "nat \<times> (feature, unit) server_session"

text \<open>The messages a handler has sent are those new in the trace of its session.\<close>

definition sent_since :: "(feature, unit) server_session \<Rightarrow> (feature, unit) server_session \<Rightarrow> message list" where
  "sent_since s s' = List.map_filter (\<lambda>e. case e of Sent m \<Rightarrow> Some m | _ \<Rightarrow> None) (drop (length (s_trace s)) (s_trace s'))"

definition facade_factory :: "server \<times> nat \<Rightarrow> facade_session option \<times> server \<times> nat" where
  "facade_factory world =
     (case world of (srv, n) \<Rightarrow>
      let w = attach n \<lparr>w_server = srv, w_sessions = [(n, new_server_session (server_options_of srv))]\<rparr>
      in (map_option (Pair n) (map_of (w_sessions w) n), w_server w, n + 1))"

definition facade_closed :: "facade_session \<Rightarrow> server \<times> nat \<Rightarrow> server \<times> nat" where
  "facade_closed s world =
     (case world of (srv, n) \<Rightarrow> (w_server (detach (fst s) \<lparr>w_server = srv, w_sessions = []\<rparr>), n))"

definition facade_handle :: "(json \<Rightarrow> string throws) \<Rightarrow> int \<Rightarrow> message \<Rightarrow> facade_session \<times> server \<times> nat \<Rightarrow>
    (message list \<times> facade_session \<times> server \<times> nat) throws" where
  "facade_handle dump now m st =
     (case st of ((i, s), (srv, n)) \<Rightarrow>
      case server_handle_message (run_hosted dump) no_app_notifications now m
          (server_session.extend s (hosted_session.fields srv)) of
        (Inl e, _) \<Rightarrow> Inl e
      | (Inr _, s') \<Rightarrow>
          let t = server_session.truncate s' in Inr (sent_since s t, (i, t), (hs_server s', n)))"

definition facade_host :: "(json \<Rightarrow> string throws) \<Rightarrow> int \<Rightarrow> (facade_session, server \<times> nat) session_host" where
  "facade_host dump now =
     \<lparr>sh_factory = facade_factory, sh_closed = Some facade_closed, sh_handle = facade_handle dump now,
      sh_close = (\<lambda>(i, s). (i, handle_close s))\<rparr>"

subsection \<open>Requests to the facade\<close>

lemma sent_since_message: "s_trace t = s_trace s \<Longrightarrow> sent_since s (send_message m t) = [m]"
  by (simp add: sent_since_def send_message_def emit_def List.map_filter_def)

lemma facade_request:
  assumes "serves s" and "s_state s = Operating" and "(req_method q, f) \<in> set feature_methods"
    and "check_gates (server_gates (so_capabilities (ss_options s))) (req_method q) = None"
    and "answer q (fst (run_feature dump f (req_params q) srv)) = Inr resp"
  shows "facade_handle dump now (Request q) ((i, s), (srv, n)) =
    Inr ([Response resp], (i, send_message (Response resp) s), (snd (run_feature dump f (req_params q) srv), n))"
proof -
  have m: "req_method q \<noteq> kInitialize" "req_method q \<noteq> kPing"
    using assms(3) by (auto simp: feature_methods_def method_defs)
  have h: "find_request_handler (s_router s) (req_method q) = Some (Other_Request (App_Request f))"
    using assms(1,3) by (auto simp: serves_def)
  have "server_handle_message (run_hosted dump) no_app_notifications now (Request q)
      (server_session.extend s (hosted_session.fields srv)) =
      (Inr (), send_message (Response resp) (server_session.extend s (hosted_session.fields (snd (run_feature dump f (req_params q) srv)))))"
    using assms(2,4,5) m h
    by (simp add: server_handle_message_def server_check_incoming_request_def dispatch_request_def run_hosted_def
        split_beta answer_def)
  then show ?thesis by (simp add: facade_handle_def sent_since_message)
qed

text \<open>A new session is attached, serves the features and waits for the handshake.\<close>

lemma facade_session_created:
  "\<exists>s srv'. facade_factory (srv, n) = (Some (n, s), srv', n + 1) \<and> serves s \<and> s_state s = Uninitialized \<and>
     ss_options s = server_options_of srv \<and> n \<in> set (srv_sessions srv')"
  by (auto simp: facade_factory_def attach_def Let_def) (simp_all add: install_features_def)

text \<open>A closed session is detached and only that one.\<close>

lemma facade_session_closed:
  "facade_closed (i, s) (srv, n) = (srv', n') \<Longrightarrow>
     n' = n \<and> srv_sessions srv' = filter (\<lambda>j. j \<noteq> i) (srv_sessions srv) \<and> srv_tools srv' = srv_tools srv"
  by (auto simp: facade_closed_def detach_def)

definition tool_request :: "request_id \<Rightarrow> string \<Rightarrow> json \<Rightarrow> jsonrpc_request" where
  "tool_request i name arguments = \<lparr>req_id = i, req_method = kToolsCall, req_params = Some (call_params name arguments)\<rparr>"

lemma tool_answer:
  assumes "find_entry tool_key name (tr_tools (srv_tools srv)) = Some (t, h)" and "conforms arguments (tool_input_schema t)"
    and "tool_outcome (h arguments) = Inr r"
  shows "run_feature dump Tools_Call (req_params (tool_request i name arguments)) srv = (returns (call_tool_result_to_json r), srv)"
    and "answer (tool_request i name arguments) (returns (call_tool_result_to_json r)) =
      Inr (result_response (Some i) (call_tool_result_to_json r))"
  using call_tool_outcome [OF assms(1,2), of dump] assms(3)
  by (simp_all add: tool_request_def tools_call_def call_params_read answer_def)

lemma valid_tool_messages:
  assumes "valid_id i"
  shows "valid_message (Request (tool_request i name arguments))" "valid_message (Response (result_response (Some i) j))"
  using assms by (simp_all add: tool_request_def call_params_def json_obj_def valid_params_def result_response_def)

subsection \<open>Properties\<close>


definition echo_call :: message where
  "echo_call = Request (tool_request (Id_Int 7) ''echo'' (JObj []))"

definition echo_result :: call_tool_result where
  "echo_result = \<lparr>ctr_content = [text_content ''hi''], ctr_is_error = False\<rparr>"

definition echo_texts :: "json \<Rightarrow> string" where
  "echo_texts j = (if j = message_to_json echo_call then ''q'' else ''r'')"

definition echo_values :: "string \<Rightarrow> json option" where
  "echo_values t = Some (if t = ''q'' then message_to_json echo_call
     else message_to_json (Response (result_response (Some (Id_Int 7)) (call_tool_result_to_json echo_result))))"

definition echo_client :: http_client where
  "echo_client = sample_http_client\<lparr>hc_session_id := ''s''\<rparr>"

definition echo_sessions :: "(facade_session, server \<times> nat) session_server" where
  "echo_sessions =
     \<lparr>sv_options = sample_session_options, sv_registry = [(''s'', new_entry sample_session_options 5 (0, sample_session))],
      sv_world = (sample_server, 1), sv_listening = True\<rparr>"

lemma echo_distinct:
  "message_to_json (Response (result_response (Some (Id_Int 7)) (call_tool_result_to_json echo_result))) \<noteq> message_to_json echo_call"
  by code_simp

lemma echo_found:
  "find_entry tool_key ''echo'' (tr_tools (srv_tools sample_server)) = Some (sample_tool, \<lambda>arguments. Inr echo_result)"
  by (simp add: sample_server_def tool_key_def sample_tool_def tool_of_spec_def echo_result_def)


end
