(* ===== verification/Mcp_Stdio_Deployment.thy ===== *)
theory Mcp_Stdio_Deployment
  imports Mcp_Deployment Mcp_Client_Session Mcp_Line
begin

text \<open>
  The server facade on its standard streams: \<^verbatim>\<open>Server::run\<close> (\<^verbatim>\<open>src/server/server.cpp\<close>) with a
  \<^verbatim>\<open>StdioTransport\<close>, as the example servers start it, and the other end, the reader of a client that spawned it.
  The state of the server process is the session, the server and the number of the next session, with the bytes
  written to standard output so far; the writes are accepted.
\<close>

type_synonym stdio_server = "(facade_session \<times> server \<times> nat) \<times> string"

subsection \<open>The server process\<close>

definition write_out :: "string \<Rightarrow> 'a \<times> string \<Rightarrow> bool \<times> 'a \<times> string" where
  "write_out data st = (True, fst st, snd st @ data)"

text \<open>
  What the transport reports while it sends are errors with \<^verbatim>\<open>InternalError\<close>, to which the session answers nothing.
\<close>

definition sending_handlers :: "stdio_server handlers" where
  "sending_handlers = set_error_handler
     (Some (\<lambda>e (((i, s), world), out). Inr (((i, server_on_transport_error e s), world), out))) no_handlers"

definition send_all :: "(json \<Rightarrow> string throws) \<Rightarrow> message list \<Rightarrow> stdio_server \<Rightarrow> stdio_server throws" where
  "send_all dump = foldE (line_send dump sending_handlers (stdio_write_line 1 sending_handlers write_out))"

text \<open>The handlers the constructor of the session installs (\<^verbatim>\<open>Session::Session\<close>).\<close>

definition server_handlers :: "(json \<Rightarrow> string throws) \<Rightarrow> int \<Rightarrow> stdio_server handlers" where
  "server_handlers dump now =
     \<lparr>on_message = Some (\<lambda>m (st, out). bindE (facade_handle dump now m st) (\<lambda>(ms, st). send_all dump ms (st, out))),
      on_error = Some (\<lambda>e (((i, s), world), out).
        let t = server_on_transport_error e s in send_all dump (sent_since s t) (((i, t), world), out)),
      on_close = Some (\<lambda>(((i, s), world), out). Inr (((i, handle_close s), world), out))\<rparr>"

text \<open>
  \<^verbatim>\<open>Server::run\<close>: the value it returns with the server it leaves and the output; \<open>None\<close> while it waits for the close
  callback.  \<open>wake_valid\<close>: whether the transport could make its wake event.
\<close>

definition server_run :: "(json \<Rightarrow> string throws) \<Rightarrow> (string \<Rightarrow> json option) \<Rightarrow> int \<Rightarrow> bool \<Rightarrow> (bool \<times> turn) list \<Rightarrow>
    server \<Rightarrow> nat \<Rightarrow> (int \<times> server \<times> string) throws option" where
  "server_run dump parse now wake_valid turns srv n =
     (let w = open_session n \<lparr>w_server = srv, w_sessions = []\<rparr>; hs = server_handlers dump now in
      case map_of (w_sessions w) n of
        None \<Rightarrow> None
      | Some s \<Rightarrow>
          (case stdio_connect wake_valid hs (new_stdio_transport 0 1 False) (((n, s), (w_server w, n + 1)), []) of
             Inl e \<Rightarrow> Some (Inl e)
           | Inr (t, st) \<Rightarrow>
               if \<not> io_reader_started t then None
               else (case read_loop parse hs turns [] st of
                   Terminated e \<Rightarrow> Some (Inl e)
                 | Closed_Loop (((i, s), (srv, _)), out) \<Rightarrow>
                     if Closed \<in> set (s_trace s)
                     then Some (Inr (0, w_server (detach i \<lparr>w_server = srv, w_sessions = []\<rparr>), out)) else None
                 | _ \<Rightarrow> None)))"

text \<open>An error that is only reported: nothing is sent.\<close>

lemma sent_since_report:
  "err_code e \<noteq> code_of ParseError \<Longrightarrow> err_code e \<noteq> code_of InvalidRequest \<Longrightarrow>
     sent_since s (server_on_transport_error e s) = []"
  by (simp add: sent_since_def server_on_transport_error_def session_on_transport_error_def emit_def List.map_filter_def)

text \<open>When the wake event cannot be made no reader starts and nothing closes the session: the call never returns.\<close>

lemma run_waits_forever: "server_run dump parse now False turns srv n = None"
proof -
  let ?e = "mk_error InternalError ''failed to create wake event''"
  have "err_code ?e \<noteq> code_of ParseError" "err_code ?e \<noteq> code_of InvalidRequest" by (simp_all add: mk_error_def)
  then show ?thesis
    by (auto simp: server_run_def Let_def stdio_connect_def new_stdio_transport_def emit_error_def server_handlers_def
        sent_since_report send_all_def split: option.split)
qed

subsection \<open>Sending\<close>

lemma send_lines:
  assumes "line_codec dump parse" and "traverse (serialize_message dump) ms = Inr lines"
  shows "send_all dump ms (st, out) = Inr (st, out @ framed lines)"
  using assms(2)
proof (induction ms arbitrary: out lines)
  case Nil
  then show ?case by (simp add: send_all_def framed_def)
next
  case (Cons m ms)
  then obtain l ls where l: "serialize_message dump m = Inr l" "lines = l # ls" "traverse (serialize_message dump) ms = Inr ls"
    by (auto simp: err_simps)
  have "LF \<notin> set l" using assms(1) l(1) by (auto simp: line_codec_def serialize_message_def)
  then have "line_send dump sending_handlers (stdio_write_line 1 sending_handlers write_out) m (st, out) =
      Inr (st, out @ l @ [LF])"
    by (simp add: line_send_def l(1) send_line_def find_char_None [THEN iffD2] stdio_write_line_def write_out_def)
  then show ?case using Cons.IH [OF l(3), of "out @ l @ [LF]"] by (simp add: send_all_def l(2) framed_def)
qed

text \<open>What the session sends while it handles the lines it reads is on standard output in the order it was sent.\<close>

lemma session_output:
  assumes "line_codec dump parse" and "sent_by (facade_handle dump now) ms st = Inr (sent, st')"
    and "traverse (serialize_message dump) sent = Inr answers"
  shows "foldE (the (on_message (server_handlers dump now))) ms (st, out) = Inr (st', out @ framed answers)"
  using assms(2,3)
proof (induction ms arbitrary: st out sent answers)
  case Nil
  then show ?case by (simp add: framed_def)
next
  case (Cons m ms)
  then obtain ms1 st1 ms2 where m: "facade_handle dump now m st = Inr (ms1, st1)" and sent: "sent = ms1 @ ms2"
    and rest: "sent_by (facade_handle dump now) ms st1 = Inr (ms2, st')"
    by (auto simp: err_simps split: prod.splits)
  have "\<exists>ls1 ls2. traverse (serialize_message dump) ms1 = Inr ls1 \<and> traverse (serialize_message dump) ms2 = Inr ls2 \<and>
      answers = ls1 @ ls2"
    using Cons.prems(2) unfolding sent
    by (induction ms1 arbitrary: answers) (fastforce simp: err_simps)+
  then obtain ls1 ls2 where ls: "traverse (serialize_message dump) ms1 = Inr ls1"
      "traverse (serialize_message dump) ms2 = Inr ls2" "answers = ls1 @ ls2" by blast
  show ?case
    using send_lines [OF assms(1) ls(1), of st1 out] Cons.IH [OF rest ls(2), of "out @ framed ls1"]
    by (simp add: server_handlers_def m ls(3) framed_def)
qed

subsection \<open>The conversation\<close>

lemma facade_message:
  assumes "server_handle_message (run_hosted dump) no_app_notifications now m
      (server_session.extend s (hosted_session.fields srv)) = (Inr (), server_session.extend s' (hosted_session.fields srv))"
  shows "facade_handle dump now m ((i, s), (srv, n)) = Inr (sent_since s s', (i, s'), (srv, n))"
  using assms by (simp add: facade_handle_def)

lemma extend_update:
  "(server_session.extend s (hosted_session.fields srv))\<lparr>s_protected_request_id := p, ss_client_info := c, ss_client_capabilities := d\<rparr> =
     server_session.extend (s\<lparr>s_protected_request_id := p, ss_client_info := c, ss_client_capabilities := d\<rparr>) (hosted_session.fields srv)"
  "set_state st (server_session.extend s (hosted_session.fields srv)) = server_session.extend (set_state st s) (hosted_session.fields srv)"
  "send_message m (server_session.extend s (hosted_session.fields srv)) = server_session.extend (send_message m s) (hosted_session.fields srv)"
  by (simp_all add: server_session.defs hosted_session.defs set_state_def send_message_def emit_def)

definition after_initialize :: "request_id \<Rightarrow> initialize_params \<Rightarrow> (feature, unit) server_session \<Rightarrow> (feature, unit) server_session" where
  "after_initialize j ip s =
     send_message (Response (result_response (Some j) (initialize_result_to_json (initialize_answer (ss_options s) kProtocolVersion))))
       (set_state Initializing (s\<lparr>s_protected_request_id := Some j, ss_client_info := Some (ip_client_info ip),
          ss_client_capabilities := Some (ip_capabilities ip)\<rparr>))"

lemma facade_initialize:
  assumes "find_request_handler (s_router s) kInitialize = Some (Other_Request Initialize_Handler)"
    and "s_state s = Uninitialized" and "valid_client_capabilities (ip_capabilities ip)"
    and "so_supported_versions (ss_options s) = [kProtocolVersion]"
  shows "facade_handle dump now (Request \<lparr>req_id = j, req_method = kInitialize, req_params = Some (initialize_params_to_json ip)\<rparr>)
      ((i, s), (srv, n)) =
    Inr ([Response (result_response (Some j) (initialize_result_to_json (initialize_answer (ss_options s) kProtocolVersion)))],
      (i, after_initialize j ip s), (srv, n))"
proof -
  let ?s = "server_session.extend s (hosted_session.fields srv)"
  have "server_handle_message (run_hosted dump) no_app_notifications now
      (Request \<lparr>req_id = j, req_method = kInitialize, req_params = Some (initialize_params_to_json ip)\<rparr>) ?s =
      (Inr (), server_session.extend (after_initialize j ip s) (hosted_session.fields srv))"
    using server_initialize_answer [of ?s "initialize_params_to_json ip" ip "run_hosted dump" no_app_notifications now j]
      assms initialize_params_roundtrip [OF assms(3)]
    by (simp add: extend_update after_initialize_def)
  moreover have "sent_since s (after_initialize j ip s) =
      [Response (result_response (Some j) (initialize_result_to_json (initialize_answer (ss_options s) kProtocolVersion)))]"
    unfolding after_initialize_def by (rule sent_since_message) (simp add: set_state_def)
  ultimately show ?thesis by (simp add: facade_message)
qed

lemma facade_initialized:
  assumes "find_notification_handler (s_router s) kNotificationInitialized = Some (Other_Notification Initialized_Handler)"
    and "s_state s = Initializing"
  shows "facade_handle dump now (Notification \<lparr>note_method = kNotificationInitialized, note_params = params\<rparr>)
      ((i, s), (srv, n)) = Inr ([], (i, set_state Operating s), (srv, n))"
proof -
  have "server_handle_message (run_hosted dump) no_app_notifications now
      (Notification \<lparr>note_method = kNotificationInitialized, note_params = params\<rparr>)
      (server_session.extend s (hosted_session.fields srv)) =
      (Inr (), server_session.extend (set_state Operating s) (hosted_session.fields srv))"
    using server_initialized [of "server_session.extend s (hosted_session.fields srv)"] assms by (simp add: extend_update)
  then show ?thesis by (simp add: facade_message sent_since_def set_state_def List.map_filter_def)
qed

lemma facade_tool_call:
  assumes "serves s" and "s_state s = Operating" and "check_gates (server_gates (so_capabilities (ss_options s))) kToolsCall = None"
    and "find_entry tool_key name (tr_tools (srv_tools srv)) = Some (t, h)" and "conforms arguments (tool_input_schema t)"
    and "tool_outcome (h arguments) = Inr r"
  shows "facade_handle dump now (Request (tool_request i name arguments)) ((k, s), (srv, n)) =
    Inr ([Response (result_response (Some i) (call_tool_result_to_json r))],
      (k, send_message (Response (result_response (Some i) (call_tool_result_to_json r))) s), (srv, n))"
  using facade_request [where s = s and q = "tool_request i name arguments" and f = Tools_Call and dump = dump
      and srv = srv and resp = "result_response (Some i) (call_tool_result_to_json r)" and now = now and i = k and n = n]
    tool_answer(1) [OF assms(4-6), of dump i] tool_answer(2) [OF assms(4-6), of i] assms(1-3)
  by (simp add: tool_request_def feature_methods_def)

text \<open>A tool that is registered is offered.\<close>

lemma tools_gate:
  assumes "find_entry tool_key name (tr_tools (srv_tools srv)) = Some e"
  shows "check_gates (server_gates (so_capabilities (server_options_of srv))) kToolsCall = None"
proof -
  have "tr_tools (srv_tools srv) \<noteq> []" using assms by auto
  then show ?thesis
    by (simp add: check_gates_eq server_gates_def server_options_of_def capabilities_def tools_size_def starts_with_def
        method_defs Let_def)
qed

text \<open>The session of \<^verbatim>\<open>run\<close>: \<open>attached\<close> is what the server becomes.\<close>

definition attached :: "nat \<Rightarrow> server \<Rightarrow> server" where
  "attached n srv = w_server (open_session n \<lparr>w_server = srv, w_sessions = []\<rparr>)"

lemma attached_server:
  "srv_sessions (attached n srv) = (if n \<in> set (srv_sessions srv) then srv_sessions srv else srv_sessions srv @ [n])"
  "tr_tools (srv_tools (attached n srv)) = tr_tools (srv_tools srv)"
  by (simp_all add: attached_def open_session_def attach_def Let_def set_tools_changed_callback_def)

lemma find_notification_installed:
  "find_notification_handler (foldl (\<lambda>r (m, h). set_request_handler m h r) r hs) m = find_notification_handler r m"
  by (induction hs arbitrary: r) (auto simp: find_notification_handler_def set_request_handler_def)

lemma run_session:
  "\<exists>s. map_of (w_sessions (open_session n \<lparr>w_server = srv, w_sessions = []\<rparr>)) n = Some s \<and> serves s \<and>
     s_state s = Uninitialized \<and> ss_options s = server_options_of srv \<and> s_has_close_callback s \<and>
     find_request_handler (s_router s) kInitialize = Some (Other_Request Initialize_Handler) \<and>
     find_notification_handler (s_router s) kNotificationInitialized = Some (Other_Notification Initialized_Handler)"
  using open_session_serves [of n "\<lparr>w_server = srv, w_sessions = []\<rparr>"]
  by (auto simp: open_session_def attach_def Let_def install_features_def find_notification_installed)

text \<open>From a new session: handshake and call, as a list of messages with the answers to them.\<close>

definition tool_conversation :: "request_id \<Rightarrow> initialize_params \<Rightarrow> request_id \<Rightarrow> string \<Rightarrow> json \<Rightarrow> message list" where
  "tool_conversation j ip i name arguments =
     [Request \<lparr>req_id = j, req_method = kInitialize, req_params = Some (initialize_params_to_json ip)\<rparr>,
      Notification \<lparr>note_method = kNotificationInitialized, note_params = None\<rparr>,
      Request (tool_request i name arguments)]"

definition replies_to :: "request_id \<Rightarrow> initialize_result \<Rightarrow> request_id \<Rightarrow> call_tool_result \<Rightarrow> message list" where
  "replies_to j ir i r =
     [Response (result_response (Some j) (initialize_result_to_json ir)),
      Response (result_response (Some i) (call_tool_result_to_json r))]"

lemma conversation_answered:
  assumes "serves s" and "s_state s = Uninitialized" and "so_supported_versions (ss_options s) = [kProtocolVersion]"
    and "find_request_handler (s_router s) kInitialize = Some (Other_Request Initialize_Handler)"
    and "find_notification_handler (s_router s) kNotificationInitialized = Some (Other_Notification Initialized_Handler)"
    and "valid_client_capabilities (ip_capabilities ip)"
    and "check_gates (server_gates (so_capabilities (ss_options s))) kToolsCall = None"
    and "find_entry tool_key name (tr_tools (srv_tools srv)) = Some (t, h)" and "conforms arguments (tool_input_schema t)"
    and "tool_outcome (h arguments) = Inr r"
  obtains s' where "sent_by (facade_handle dump now) (tool_conversation j ip i name arguments) ((k, s), (srv, n)) =
      Inr (replies_to j (initialize_answer (ss_options s) kProtocolVersion) i r, (k, s'), (srv, n))"
    "s_has_close_callback s' = s_has_close_callback s"
proof -
  let ?s1 = "after_initialize j ip s"
  let ?s2 = "set_state Operating ?s1"
  let ?resp = "result_response (Some i) (call_tool_result_to_json r)"
  have after: "s_router ?s1 = s_router s" "s_state ?s1 = Initializing" "ss_options ?s1 = ss_options s"
    "s_has_close_callback ?s1 = s_has_close_callback s"
    by (simp_all add: after_initialize_def send_message_def emit_def set_state_def)
  have call: "facade_handle dump now (Request (tool_request i name arguments)) ((k, ?s2), (srv, n)) =
      Inr ([Response ?resp], (k, send_message (Response ?resp) ?s2), (srv, n))"
    using assms(1,7) after by (intro facade_tool_call [OF _ _ _ assms(8-10)]) (simp_all add: serves_def set_state_def)
  show thesis
    by (rule that [of "send_message (Response ?resp) ?s2"])
      (use facade_initialize [OF assms(4,2,6,3)] facade_initialized [of ?s1] after assms(5) call in
        \<open>simp_all add: tool_conversation_def replies_to_def send_message_def emit_def set_state_def\<close>)
qed

lemma conversation_valid:
  assumes "valid_id i" and "valid_id j"
  shows "m \<in> set (tool_conversation j ip i name arguments) \<Longrightarrow> valid_message m"
    "m \<in> set (replies_to j ir i r) \<Longrightarrow> valid_message m"
  using valid_tool_messages [OF assms(1)] assms initialize_params_valid [of ip]
  by (auto simp: tool_conversation_def replies_to_def result_response_def valid_params_def)

subsection \<open>Properties\<close>

text \<open>
  C4. A tool call over standard streams, from a server that starts to one that has ended: a client that spawned the
  server writes the lines of the handshake and of a call and closes the stream; however the bytes are cut into reads,
  \<^verbatim>\<open>Server::run\<close> returns 0 with its session detached and has written the answer to the handshake and the
  tool's result and nothing else; however those bytes are cut, the client's handler gets the two responses in order,
  then the end; and the second decodes to what the tool's handler returned.
\<close>

theorem tool_called_over_stdio:
  assumes "line_codec dump parse" and "valid_id i" and "valid_id j" and "valid_client_capabilities (ip_capabilities ip)"
    and "find_entry tool_key name (tr_tools (srv_tools srv)) = Some (t, h)" and "conforms arguments (tool_input_schema t)"
    and "tool_outcome (h arguments) = Inr r"
    and "replies = replies_to j (initialize_answer (server_options_of srv) kProtocolVersion) i r"
    and "traverse (serialize_message dump) (tool_conversation j ip i name arguments) = Inr lines"
    and "traverse (serialize_message dump) replies = Inr answers"
    and "concat cs = framed lines" and "concat cs' = framed answers" and "on_message hs = Some hm"
  shows "(\<exists>srv'. server_run dump parse now True
      (map (\<lambda>c. (True, Readable (Got c) True)) cs @ [(True, Readable End_Of_File True)]) srv n =
      Some (Inr (0, srv', framed answers)) \<and>
      srv_sessions srv' = filter (\<lambda>k. k \<noteq> n) (srv_sessions srv) \<and> tr_tools (srv_tools srv') = tr_tools (srv_tools srv)) \<and>
    stdout_loop parse hs (True, True) \<lparr>lr_buffer = [], lr_eof = False\<rparr> (map Got cs' @ [End_Of_File]) c =
      close_loop hs (foldE hm replies c) \<and>
    call_tool_response (Inr (call_tool_result_to_json r)) = returns r"
proof (intro conjI)
  let ?hs = "server_handlers dump now" and ?ms = "tool_conversation j ip i name arguments" and ?srv = "attached n srv"
  let ?w = "open_session n \<lparr>w_server = srv, w_sessions = []\<rparr>"
  obtain s where s: "map_of (w_sessions ?w) n = Some s" "serves s" "s_state s = Uninitialized"
    "ss_options s = server_options_of srv" "s_has_close_callback s"
    "find_request_handler (s_router s) kInitialize = Some (Other_Request Initialize_Handler)"
    "find_notification_handler (s_router s) kNotificationInitialized = Some (Other_Notification Initialized_Handler)"
    using run_session by blast
  have vers: "so_supported_versions (ss_options s) = [kProtocolVersion]" by (simp add: s(4) server_options_of_def)
  have gate: "check_gates (server_gates (so_capabilities (ss_options s))) kToolsCall = None"
    unfolding s(4) by (rule tools_gate [OF assms(5)])
  have found: "find_entry tool_key name (tr_tools (srv_tools ?srv)) = Some (t, h)" by (simp add: attached_server assms(5))
  obtain s' where sent: "sent_by (facade_handle dump now) ?ms ((n, s), (?srv, n + 1)) =
      Inr (replies, (n, s'), (?srv, n + 1))" and "s_has_close_callback s'"
    by (rule conversation_answered [OF s(2,3) vers s(6,7) assms(4) gate found assms(6,7), of dump now j i n "n + 1"])
      (simp add: s(4,5) assms(8))
  then have closed: "Closed \<in> set (s_trace (handle_close s'))" by (simp add: handle_close_effects)
  have "read_loop parse ?hs (map (\<lambda>c. (True, Readable (Got c) True)) cs @ [(True, Readable End_Of_File True)]) []
      (((n, s), (?srv, n + 1)), []) = close_loop ?hs (Inr (((n, s'), (?srv, n + 1)), framed answers))"
    using read_loop_delivers [OF assms(1) _ conversation_valid(1) [OF assms(2,3)] assms(9,11), of ?hs]
      session_output [OF assms(1) sent assms(10), of "[]"] by (simp add: server_handlers_def)
  then have "server_run dump parse now True (map (\<lambda>c. (True, Readable (Got c) True)) cs @ [(True, Readable End_Of_File True)]) srv n =
      Some (Inr (0, w_server (detach n \<lparr>w_server = ?srv, w_sessions = []\<rparr>), framed answers))"
    using s(1) closed
    by (simp add: server_run_def Let_def stdio_connect_def new_stdio_transport_def attached_def close_loop_def
        emit_close_def server_handlers_def)
  then show "\<exists>srv'. server_run dump parse now True
      (map (\<lambda>c. (True, Readable (Got c) True)) cs @ [(True, Readable End_Of_File True)]) srv n =
      Some (Inr (0, srv', framed answers)) \<and>
      srv_sessions srv' = filter (\<lambda>k. k \<noteq> n) (srv_sessions srv) \<and> tr_tools (srv_tools srv') = tr_tools (srv_tools srv)"
    by (auto simp: detach_def attached_server)
  show "stdout_loop parse hs (True, True) \<lparr>lr_buffer = [], lr_eof = False\<rparr> (map Got cs' @ [End_Of_File]) c =
      close_loop hs (foldE hm replies c)"
    using stdout_loop_delivers [OF assms(1,13) conversation_valid(2) [OF assms(2,3)] assms(10)[unfolded assms(8)] assms(12)]
    by (simp add: assms(8))
qed (rule call_tool_wire)

definition talk_params :: initialize_params where
  "talk_params = initialize_request_params sample_client_options kProtocolVersion"

definition talk_messages :: "message list" where
  "talk_messages = tool_conversation (Id_Int 1) talk_params (Id_Int 2) ''echo'' (JObj [])"

definition talk_replies :: "message list" where
  "talk_replies = replies_to (Id_Int 1) (initialize_answer (server_options_of sample_server) kProtocolVersion) (Id_Int 2) echo_result"

text \<open>The answer to a line that is no JSON.\<close>

definition parse_error_answer :: message where
  "parse_error_answer = Response (error_response None (mk_error ParseError ''invalid JSON''))"

definition talk_table :: "(json \<times> string) list" where
  "talk_table = zip (map message_to_json (talk_messages @ talk_replies @ [parse_error_answer])) [''a'', ''b'', ''c'', ''d'', ''e'', ''f'']"

definition talk_dump :: "json \<Rightarrow> string throws" where
  "talk_dump j = (case map_of talk_table j of None \<Rightarrow> Inl (Std_Exn ''no text'') | Some t \<Rightarrow> Inr t)"

definition talk_parse :: "string \<Rightarrow> json option" where
  "talk_parse = map_of (map (\<lambda>(j, t). (t, j)) talk_table)"

lemma talk_codec: "line_codec talk_dump talk_parse"
proof -
  have texts: "map snd talk_table = [''a'', ''b'', ''c'', ''d'', ''e'', ''f'']"
    by (simp add: talk_table_def talk_messages_def tool_conversation_def talk_replies_def replies_to_def)
  have "talk_parse t = Some j" "t \<in> set [''a'', ''b'', ''c'', ''d'', ''e'', ''f'']" if "map_of talk_table j = Some t" for j t
  proof -
    have "(j, t) \<in> set talk_table" using that by (rule map_of_SomeD)
    moreover have "distinct (map fst (map (\<lambda>(j, t). (t, j)) talk_table))" using texts by (simp add: comp_def split_beta)
    ultimately show "talk_parse t = Some j" unfolding talk_parse_def by (intro map_of_is_SomeI) force+
    have "snd (j, t) \<in> snd ` set talk_table" using \<open>(j, t) \<in> set talk_table\<close> by (rule imageI)
    then show "t \<in> set [''a'', ''b'', ''c'', ''d'', ''e'', ''f'']" unfolding set_map [symmetric] texts by simp
  qed
  then show ?thesis by (fastforce simp: line_codec_def talk_dump_def split: option.splits)
qed

lemma talk_lines:
  "traverse (serialize_message talk_dump) talk_messages = Inr [''a'', ''b'', ''c'']"
  "traverse (serialize_message talk_dump) talk_replies = Inr [''d'', ''e'']"
  by code_simp+

lemma echo_fits: "conforms (JObj []) (tool_input_schema sample_tool)"
  by (simp add: sample_tool_def tool_of_spec_def any_object_schema_def conforms.simps [of "JObj []"]
    type_ok_def enum_ok_def required_ok_def closed_ok_def schema_properties_def matches_type_def)

lemma talk_caps: "valid_client_capabilities (ip_capabilities talk_params)"
  by (simp add: talk_params_def initialize_request_params_def sample_client_options_def valid_client_capabilities_def
    no_client_capabilities_def)

lemma tool_called_over_stdio_witness:
  "\<exists>srv'. server_run talk_dump talk_parse 0 True
     [(True, Readable (Got [CHR ''a'', LF, CHR ''b'']) True), (True, Readable (Got [LF]) True),
      (True, Readable (Got [CHR ''c'', LF]) True), (True, Readable End_Of_File True)] sample_server 0 =
     Some (Inr (0, srv', [CHR ''d'', LF, CHR ''e'', LF]))"
proof -
  show ?thesis
    using tool_called_over_stdio [where i = "Id_Int 2" and j = "Id_Int 1" and cs = "[[CHR ''a'', LF, CHR ''b''], [LF], [CHR ''c'', LF]]"
        and cs' = "[framed [''d'', ''e'']]" and hs = "collecting" and hm = "\<lambda>m ms. Inr (ms @ [m])" and c = "[]" and n = 0,
        OF talk_codec _ _ talk_caps echo_found echo_fits _ talk_replies_def talk_lines(1)[unfolded talk_messages_def] talk_lines(2)]
    by (auto simp: framed_def collecting_def no_handlers_def)
qed

end
