(* ===== verification/Mcp_Stdio_Errors.thy ===== *)
theory Mcp_Stdio_Errors
  imports Mcp_Stdio_Deployment
begin

text \<open>
  Input that is no JSON on the server's standard input: \<^verbatim>\<open>LineTransportBase::process_line\<close> reports it,
  \<^verbatim>\<open>ServerSession::on_transport_error\<close> answers it, and the session is otherwise the same.
\<close>

subsection \<open>One line at a time\<close>

text \<open>A line of the input as the transport hands it on, for the whole input of complete lines.\<close>

lemma drain_framed:
  assumes "\<And>l. l \<in> set lines \<Longrightarrow> LF \<notin> set l"
  shows "drain_lines f (framed lines) s = mapE (Pair []) (foldE (\<lambda>l. f (strip_cr l)) lines s)"
  using assms
proof (induction lines arbitrary: s)
  case Nil
  then show ?case by (simp add: framed_def)
next
  case (Cons l ls)
  then show ?case by (cases "f (strip_cr l) s") (simp_all add: framed_def)
qed

lemma foldE_chain: "foldE f xs s = Inr s1 \<Longrightarrow> f x s1 = Inr s2 \<Longrightarrow> foldE f (xs @ x # ys) s = foldE f ys s2"
  by (induction xs arbitrary: s) (auto simp: bindE_def split: sum.splits)

definition server_line :: "(json \<Rightarrow> string throws) \<Rightarrow> (string \<Rightarrow> json option) \<Rightarrow> int \<Rightarrow> string \<Rightarrow> stdio_server \<Rightarrow>
    stdio_server throws" where
  "server_line dump parse now line = process_line parse (server_handlers dump now) (strip_cr line)"

text \<open>The server's run over an input of complete lines, cut anyhow, whose handling throws nothing.\<close>

lemma run_lines:
  assumes "\<And>l. l \<in> set lines \<Longrightarrow> LF \<notin> set l" and "concat cs = framed lines"
    and "map_of (w_sessions (open_session n \<lparr>w_server = srv, w_sessions = []\<rparr>)) n = Some s"
    and "foldE (server_line dump parse now) lines (((n, s), (attached n srv, n + 1)), []) = Inr (((n, s'), (srv', k)), out)"
    and "s_has_close_callback s'"
  shows "server_run dump parse now True
      (map (\<lambda>c. (True, Readable (Got c) True)) cs @ [(True, Readable End_Of_File True)]) srv n =
    Some (Inr (0, w_server (detach n \<lparr>w_server = srv', w_sessions = []\<rparr>), out))"
proof -
  let ?hs = "server_handlers dump now"
  have "drain_lines (process_line parse ?hs) (framed lines) (((n, s), (attached n srv, n + 1)), []) =
      Inr ([], (((n, s'), (srv', k)), out))"
    using drain_framed [of lines "process_line parse ?hs"] assms(1,4) unfolding server_line_def by simp
  then have "read_loop parse ?hs (map (\<lambda>c. (True, Readable (Got c) True)) cs @ [(True, Readable End_Of_File True)]) []
      (((n, s), (attached n srv, n + 1)), []) = close_loop ?hs (Inr (((n, s'), (srv', k)), out))"
    using assms(2) by (simp add: read_loop_stream line_reader.feeds_concat feed_lines_def)
  moreover have "Closed \<in> set (s_trace (handle_close s'))" using assms(5) by (simp add: handle_close_effects)
  ultimately show ?thesis
    using assms(3)
    by (simp add: server_run_def Let_def stdio_connect_def new_stdio_transport_def attached_def close_loop_def
        emit_close_def server_handlers_def)
qed

text \<open>A line that holds a message, and the answers to it.\<close>

lemma message_line:
  assumes "line_codec dump parse" and "valid_message m" and "serialize_message dump m = Inr l"
    and "facade_handle dump now m st = Inr (sent, st')" and "traverse (serialize_message dump) sent = Inr answers"
  shows "server_line dump parse now l (st, out) = Inr (st', out @ framed answers)" "LF \<notin> set l"
  using process_sent_line [OF assms(1-3), of "server_handlers dump now" "(st, out)"] send_lines [OF assms(1,5), of st' out] assms(4)
  by (auto simp: server_line_def deliver_messages_def server_handlers_def)

subsection \<open>Lines that are no JSON\<close>

definition garbled :: "(string \<Rightarrow> json option) \<Rightarrow> string \<Rightarrow> bool" where
  "garbled parse l \<longleftrightarrow> l \<noteq> [] \<and> LF \<notin> set l \<and> last l \<noteq> CR \<and> parse l = None"

text \<open>Each is answered, and nothing of the session changes but its trace.\<close>

lemma garbled_line:
  assumes "line_codec dump parse" and "garbled parse l" and "serialize_message dump parse_error_answer = Inr bad"
  shows "\<exists>tr. server_line dump parse now l (((i, s), w), out) = Inr (((i, s\<lparr>s_trace := tr\<rparr>), w), out @ framed [bad])"
proof -
  let ?e = "mk_error ParseError ''invalid JSON''" let ?t = "server_on_transport_error ?e s"
  have "sent_since s ?t = [parse_error_answer]"
    by (simp add: sent_since_def server_on_transport_error_def session_on_transport_error_def parse_error_answer_def
        send_message_def emit_def mk_error_def List.map_filter_def)
  moreover have "?t = s\<lparr>s_trace := s_trace ?t\<rparr>"
    by (simp add: server_on_transport_error_def session_on_transport_error_def send_message_def emit_def mk_error_def)
  moreover have "strip_cr l = l" using assms(2) by (simp add: garbled_def strip_cr_def)
  moreover have "send_all dump [parse_error_answer] (((i, ?t), w), out) = Inr (((i, ?t), w), out @ framed [bad])"
    using send_lines [OF assms(1), of "[parse_error_answer]" "[bad]"] assms(3) by simp
  ultimately have "server_line dump parse now l (((i, s), w), out) = Inr (((i, ?t), w), out @ framed [bad])"
    using assms(2) by (simp add: server_line_def process_line_def garbled_def parse_frame_def emit_error_def server_handlers_def)
  with \<open>?t = s\<lparr>s_trace := s_trace ?t\<rparr>\<close> show ?thesis by metis
qed

lemma garbled_lines:
  assumes "line_codec dump parse" and "\<And>l. l \<in> set gs \<Longrightarrow> garbled parse l"
    and "serialize_message dump parse_error_answer = Inr bad"
  shows "\<exists>tr. foldE (server_line dump parse now) gs (((i, s), w), out) =
    Inr (((i, s\<lparr>s_trace := tr\<rparr>), w), out @ framed (replicate (length gs) bad))"
  using assms(2)
proof (induction gs arbitrary: s out)
  case Nil
  then show ?case by (auto simp: framed_def intro: exI [of _ "s_trace s"])
next
  case (Cons l gs)
  obtain tr where "server_line dump parse now l (((i, s), w), out) = Inr (((i, s\<lparr>s_trace := tr\<rparr>), w), out @ framed [bad])"
    using garbled_line [OF assms(1) Cons.prems assms(3)] by (metis list.set_intros(1))
  with Cons.IH [of "s\<lparr>s_trace := tr\<rparr>" "out @ framed [bad]"] Cons.prems show ?case by (auto simp: framed_def)
qed

subsection \<open>A conversation with such lines in it\<close>

text \<open>What the handlers of the session rely on; the trace is not part of it.\<close>

definition ready :: "server \<Rightarrow> session_state \<Rightarrow> (feature, unit) server_session \<Rightarrow> bool" where
  "ready srv st s \<longleftrightarrow> s_state s = st \<and> serves s \<and> ss_options s = server_options_of srv \<and> s_has_close_callback s \<and>
     find_request_handler (s_router s) kInitialize = Some (Other_Request Initialize_Handler) \<and>
     find_notification_handler (s_router s) kNotificationInitialized = Some (Other_Notification Initialized_Handler)"

lemma ready_steps:
  "ready srv st s \<Longrightarrow> ready srv st (s\<lparr>s_trace := tr\<rparr>)"
  "ready srv st s \<Longrightarrow> ready srv Initializing (after_initialize j ip s)"
  "ready srv st s \<Longrightarrow> ready srv Operating (set_state Operating s)"
  "ready srv st s \<Longrightarrow> ready srv st (send_message m s)"
  by (simp_all add: ready_def serves_def after_initialize_def send_message_def emit_def set_state_def)

lemma ready_run: "\<exists>s. map_of (w_sessions (open_session n \<lparr>w_server = srv, w_sessions = []\<rparr>)) n = Some s \<and> ready srv Uninitialized s"
  using run_session [of n srv] by (auto simp: ready_def)

lemma garbled_stretch:
  assumes "line_codec dump parse" and "serialize_message dump parse_error_answer = Inr bad"
    and "\<And>l. l \<in> set gs \<Longrightarrow> garbled parse l" and "ready srv st s"
  shows "\<exists>s'. ready srv st s' \<and> foldE (server_line dump parse now) gs (((i, s), w), out) =
    Inr (((i, s'), w), out @ framed (replicate (length gs) bad))"
  using garbled_lines [OF assms(1,3,2), where now = now and i = i and s = s and w = w and out = out] ready_steps(1) [OF assms(4)] by blast

lemma garbled_conversation:
  assumes "line_codec dump parse" and "valid_id i" and "valid_id j" and "valid_client_capabilities (ip_capabilities ip)"
    and "find_entry tool_key name (tr_tools (srv_tools srv0)) = Some (t, h)" and "conforms arguments (tool_input_schema t)"
    and "tool_outcome (h arguments) = Inr r" and "tr_tools (srv_tools srv) = tr_tools (srv_tools srv0)"
    and "traverse (serialize_message dump) (tool_conversation j ip i name arguments) = Inr [x, y, z]"
    and "traverse (serialize_message dump) (replies_to j (initialize_answer (server_options_of srv0) kProtocolVersion) i r) = Inr [a, b]"
    and "serialize_message dump parse_error_answer = Inr bad"
    and "\<And>l. l \<in> set (gs0 @ gs1 @ gs2 @ gs3) \<Longrightarrow> garbled parse l" and "ready srv0 Uninitialized s"
  shows "\<exists>s'. ready srv0 Operating s' \<and>
    foldE (server_line dump parse now) (gs0 @ x # gs1 @ y # gs2 @ z # gs3) (((k, s), (srv, n)), out) =
      Inr (((k, s'), (srv, n)), out @ framed (replicate (length gs0) bad @ a # replicate (length gs1 + length gs2) bad @
        b # replicate (length gs3) bad))"
proof -
  let ?init = "Request \<lparr>req_id = j, req_method = kInitialize, req_params = Some (initialize_params_to_json ip)\<rparr>"
  let ?ready = "Notification \<lparr>note_method = kNotificationInitialized, note_params = None\<rparr>"
  let ?call = "Request (tool_request i name arguments)" and ?resp = "result_response (Some i) (call_tool_result_to_json r)"
  let ?ans = "Response (result_response (Some j) (initialize_result_to_json (initialize_answer (server_options_of srv0) kProtocolVersion)))"
  have lines: "serialize_message dump ?init = Inr x" "serialize_message dump ?ready = Inr y" "serialize_message dump ?call = Inr z"
    "serialize_message dump ?ans = Inr a" "serialize_message dump (Response ?resp) = Inr b"
    using assms(9,10) by (auto simp: tool_conversation_def replies_to_def err_simps)
  have "\<forall>m \<in> set (tool_conversation j ip i name arguments). valid_message m" using conversation_valid(1) [OF assms(2,3)] by blast
  then have valid: "valid_message ?init" "valid_message ?ready" "valid_message ?call"
    by (simp_all add: tool_conversation_def del: valid_message.simps)
  note stretch = garbled_stretch [OF assms(1,11)]
  let ?o = "out @ framed (replicate (length gs0) bad)"
  obtain s0 where s0: "ready srv0 Uninitialized s0"
    "foldE (server_line dump parse now) gs0 (((k, s), (srv, n)), out) = Inr (((k, s0), (srv, n)), ?o)"
    using stretch [where gs = gs0 and srv = srv0 and st = Uninitialized and s = s and now = now and i = k and w = "(srv, n)" and out = out] assms(12,13) by auto
  let ?s1 = "after_initialize j ip s0" let ?o1 = "?o @ framed [a]"
  let ?o2 = "?o1 @ framed (replicate (length gs1) bad)"
  have "facade_handle dump now ?init ((k, s0), (srv, n)) = Inr ([?ans], (k, ?s1), (srv, n))"
    using s0(1) facade_initialize [of s0 ip dump now j k srv n] assms(4) by (simp add: ready_def server_options_of_def)
  then have one: "server_line dump parse now x (((k, s0), (srv, n)), ?o) = Inr (((k, ?s1), (srv, n)), ?o1)"
    by (rule message_line(1) [OF assms(1) valid(1) lines(1)]) (simp add: lines(4))
  obtain s2 where s2: "ready srv0 Initializing s2"
    "foldE (server_line dump parse now) gs1 (((k, ?s1), (srv, n)), ?o1) = Inr (((k, s2), (srv, n)), ?o2)"
    using stretch [where gs = gs1 and srv = srv0 and st = Initializing and s = ?s1 and now = now and i = k and w = "(srv, n)" and out = ?o1] assms(12) ready_steps(2) [OF s0(1)] by auto
  let ?s3 = "set_state Operating s2" let ?o4 = "?o2 @ framed (replicate (length gs2) bad)"
  have "facade_handle dump now ?ready ((k, s2), (srv, n)) = Inr ([], (k, ?s3), (srv, n))"
    using s2(1) by (intro facade_initialized) (simp_all add: ready_def)
  then have two: "server_line dump parse now y (((k, s2), (srv, n)), ?o2) = Inr (((k, ?s3), (srv, n)), ?o2 @ framed [])"
    by (rule message_line(1) [OF assms(1) valid(2) lines(2)]) simp
  obtain s4 where s4: "ready srv0 Operating s4"
    "foldE (server_line dump parse now) gs2 (((k, ?s3), (srv, n)), ?o2) = Inr (((k, s4), (srv, n)), ?o4)"
    using stretch [where gs = gs2 and srv = srv0 and st = Operating and s = ?s3 and now = now and i = k and w = "(srv, n)" and out = ?o2] assms(12) ready_steps(3) [OF s2(1)] by auto
  have "facade_handle dump now ?call ((k, s4), (srv, n)) = Inr ([Response ?resp], (k, send_message (Response ?resp) s4), (srv, n))"
    using s4(1) assms(5-8) by (intro facade_tool_call) (simp_all add: ready_def tools_gate [OF assms(5)])
  then have three: "server_line dump parse now z (((k, s4), (srv, n)), ?o4) =
      Inr (((k, send_message (Response ?resp) s4), (srv, n)), ?o4 @ framed [b])"
    by (rule message_line(1) [OF assms(1) valid(3) lines(3)]) (simp add: lines(5))
  obtain s5 where s5: "ready srv0 Operating s5"
    "foldE (server_line dump parse now) gs3 (((k, send_message (Response ?resp) s4), (srv, n)), ?o4 @ framed [b]) =
      Inr (((k, s5), (srv, n)), (?o4 @ framed [b]) @ framed (replicate (length gs3) bad))"
    using stretch [where gs = gs3 and srv = srv0 and st = Operating and s = "send_message (Response ?resp) s4" and now = now and i = k and w = "(srv, n)"
        and out = "?o4 @ framed [b]"] assms(12)
      ready_steps(4) [OF s4(1)] by auto
  have "?o2 @ framed [] = ?o2" by (simp add: framed_def)
  note two = two [unfolded this]
  have "foldE (server_line dump parse now) (gs0 @ x # gs1 @ y # gs2 @ z # gs3) (((k, s), (srv, n)), out) =
      Inr (((k, s5), (srv, n)), (?o4 @ framed [b]) @ framed (replicate (length gs3) bad))"
    unfolding foldE_chain [OF s0(2) one] foldE_chain [OF s2(2) two] foldE_chain [OF s4(2) three] by (rule s5(2))
  also have "(?o4 @ framed [b]) @ framed (replicate (length gs3) bad) = out @ framed (replicate (length gs0) bad @ a #
      replicate (length gs1 + length gs2) bad @ b # replicate (length gs3) bad)"
    by (simp add: framed_def replicate_add)
  finally show ?thesis using s5(1) by blast
qed

subsection \<open>Properties\<close>

text \<open>
  C5. Garbage on standard input does not disturb a session: with lines that are no JSON before, between and after the
  messages of the handshake and a tool call, however the bytes are cut, \<^verbatim>\<open>Server::run\<close> answers each such line with a
  response without id and code \<open>-32700\<close>, in the place of the line, answers the messages as without them, and returns 0
  at the end of the input.
\<close>

theorem garbled_lines_answered:
  assumes "line_codec dump parse" and "valid_id i" and "valid_id j" and "valid_client_capabilities (ip_capabilities ip)"
    and "find_entry tool_key name (tr_tools (srv_tools srv)) = Some (t, h)" and "conforms arguments (tool_input_schema t)"
    and "tool_outcome (h arguments) = Inr r"
    and "traverse (serialize_message dump) (tool_conversation j ip i name arguments) = Inr [x, y, z]"
    and "traverse (serialize_message dump) (replies_to j (initialize_answer (server_options_of srv) kProtocolVersion) i r) = Inr [a, b]"
    and "serialize_message dump parse_error_answer = Inr bad"
    and "\<forall>l \<in> set (ga @ gb @ gc @ gd). garbled parse l"
    and "concat cs = framed (ga @ x # gb @ y # gc @ z # gd)"
  shows "\<exists>srv'. server_run dump parse now True
      (map (\<lambda>c. (True, Readable (Got c) True)) cs @ [(True, Readable End_Of_File True)]) srv n =
      Some (Inr (0, srv', framed (replicate (length ga) bad @ a # replicate (length gb + length gc) bad @
        b # replicate (length gd) bad))) \<and>
      srv_sessions srv' = filter (\<lambda>k. k \<noteq> n) (srv_sessions srv)"
proof -
  let ?lines = "ga @ x # gb @ y # gc @ z # gd" and ?srv = "attached n srv"
  obtain s where s: "map_of (w_sessions (open_session n \<lparr>w_server = srv, w_sessions = []\<rparr>)) n = Some s"
    "ready srv Uninitialized s" using ready_run by blast
  have "LF \<notin> set l" if "l \<in> set ?lines" for l
  proof (cases "l \<in> {x, y, z}")
    case True
    obtain m where "serialize_message dump m = Inr l"
      using assms(8) True by (auto simp: tool_conversation_def err_simps)
    then show ?thesis using assms(1) by (auto simp: line_codec_def serialize_message_def)
  qed (use that assms(11) in \<open>auto simp: garbled_def\<close>)
  moreover obtain s' where s': "ready srv Operating s'" "foldE (server_line dump parse now) ?lines (((n, s), (?srv, n + 1)), []) =
      Inr (((n, s'), (?srv, n + 1)), [] @ framed (replicate (length ga) bad @ a # replicate (length gb + length gc) bad @
        b # replicate (length gd) bad))"
    using garbled_conversation [OF assms(1-7) attached_server(2) assms(8-10) _ s(2), where n = "n + 1" and k = n and now = now
        and out = "[]"] assms(11) by blast
  ultimately have "server_run dump parse now True
      (map (\<lambda>c. (True, Readable (Got c) True)) cs @ [(True, Readable End_Of_File True)]) srv n =
      Some (Inr (0, w_server (detach n \<lparr>w_server = ?srv, w_sessions = []\<rparr>), framed (replicate (length ga) bad @ a #
        replicate (length gb + length gc) bad @ b # replicate (length gd) bad)))"
    using run_lines [OF _ assms(12) s(1), of dump parse now s' ?srv "n + 1"] by (simp add: ready_def)
  then show ?thesis by (auto simp: detach_def attached_server)
qed

lemma garbled_lines_answered_witness:
  "\<exists>srv'. server_run talk_dump talk_parse 0 True
     [(True, Readable (Got [CHR ''#'', LF, CHR ''a'', LF]) True), (True, Readable (Got [CHR ''b'', LF, CHR ''c'', LF, CHR ''!'', LF]) True),
      (True, Readable End_Of_File True)] sample_server 0 =
     Some (Inr (0, srv', [CHR ''f'', LF, CHR ''d'', LF, CHR ''e'', LF, CHR ''f'', LF]))"
proof -
  have bad: "serialize_message talk_dump parse_error_answer = Inr ''f''" by code_simp
  have "talk_parse ''#'' = None" "talk_parse ''!'' = None" by code_simp+
  then have gs: "\<forall>l \<in> set ([''#''] @ [] @ [] @ [''!'']). garbled talk_parse l" by (simp add: garbled_def)
  show ?thesis
    using garbled_lines_answered [where ga = "[''#'']" and gb = "[]" and gc = "[]" and gd = "[''!'']" and i = "Id_Int 2"
        and j = "Id_Int 1" and n = 0 and cs = "[[CHR ''#'', LF, CHR ''a'', LF], [CHR ''b'', LF, CHR ''c'', LF, CHR ''!'', LF]]",
        OF talk_codec _ _ talk_caps echo_found echo_fits _ talk_lines(1)[unfolded talk_messages_def]
          talk_lines(2)[unfolded talk_replies_def] bad gs]
    by (auto simp: framed_def)
qed

end
