(* ===== verification/Mcp_Http_Deployment.thy ===== *)
theory Mcp_Http_Deployment
  imports Mcp_Stdio_Deployment
begin

text \<open>
  The life of a session over HTTP: the server facade behind the session server (\<open>facade_host\<close>), a client transport
  that posts its messages one after the other and deletes its session when it disconnects.  Each request has a
  connection and a thread of its own; the background event stream of the client is not opened.
\<close>

type_synonym facade_sessions = "(facade_session, server \<times> nat) session_server"

subsection \<open>One connection\<close>

text \<open>
  What the server process does with the bytes of one connection, \<open>pieces\<close> telling how they are cut into reads: the
  answer and the sessions afterwards; \<open>None\<close> if nothing is answered.
\<close>

definition serve_connection :: "(json \<Rightarrow> string throws) \<Rightarrow> (string \<Rightarrow> json option) \<Rightarrow> (string \<Rightarrow> string list) \<Rightarrow> int \<Rightarrow> nat list \<Rightarrow>
    string \<Rightarrow> facade_sessions \<Rightarrow> (string \<times> facade_sessions) option" where
  "serve_connection dump parse pieces now draws request sv =
     (case handle_connection (hso_http (sv_options sv)) [] (map Received (pieces request)) of
        Refused reply \<Rightarrow> Some (reply, sv)
      | Accepted h body \<Rightarrow>
          (case session_handle_request (facade_host dump now) dump parse (0 :: nat) now draws h body (\<lambda>_. None) sv of
             Inr (Answer reply, _, sv) \<Rightarrow> Some (reply, sv)
           | _ \<Rightarrow> None)
      | _ \<Rightarrow> None)"

text \<open>A message sent by the client (\<^verbatim>\<open>HttpClientTransport::send\<close>), up to the end of its connection.\<close>

definition post_message :: "(json \<Rightarrow> string throws) \<Rightarrow> (string \<Rightarrow> json option) \<Rightarrow> 'u handlers \<Rightarrow> (string \<Rightarrow> string list) \<Rightarrow>
    int \<times> nat list \<times> message \<Rightarrow> (http_client \<times> 'u) \<times> facade_sessions \<Rightarrow> ((http_client \<times> 'u) \<times> facade_sessions) option" where
  "post_message dump parse hs pieces step st =
     (case (step, st) of ((now, draws, m), (c, u), sv) \<Rightarrow>
      case client_send dump c m of
        Inl _ \<Rightarrow> None
      | Inr request \<Rightarrow>
          (case serve_connection dump parse pieces now draws request sv of
             None \<Rightarrow> None
           | Some (reply, sv) \<Rightarrow>
               (case post_payload parse hs
                   \<lparr>at_connected = Inr (), at_written = True, at_reads = map Bytes (pieces reply)\<rparr> c u of
                  Returns cu \<Rightarrow> Some (cu, sv)
                | _ \<Rightarrow> None)))"

fun post_messages :: "(json \<Rightarrow> string throws) \<Rightarrow> (string \<Rightarrow> json option) \<Rightarrow> 'u handlers \<Rightarrow> (string \<Rightarrow> string list) \<Rightarrow>
    (int \<times> nat list \<times> message) list \<Rightarrow> (http_client \<times> 'u) \<times> facade_sessions \<Rightarrow> ((http_client \<times> 'u) \<times> facade_sessions) option" where
  "post_messages dump parse hs pieces [] st = Some st"
| "post_messages dump parse hs pieces (step # steps) st =
     Option.bind (post_message dump parse hs pieces step st) (post_messages dump parse hs pieces steps)"

text \<open>The client disconnects; the answer to its DELETE is not looked at.\<close>

definition leave :: "(json \<Rightarrow> string throws) \<Rightarrow> (string \<Rightarrow> json option) \<Rightarrow> (string \<Rightarrow> string list) \<Rightarrow> int \<Rightarrow>
    http_client \<times> facade_sessions \<Rightarrow> (http_client \<times> facade_sessions) option" where
  "leave dump parse pieces now st =
     (case st of (c, sv) \<Rightarrow>
      case client_http_disconnect c of
        (None, c) \<Rightarrow> Some (c, sv)
      | (Some request, c) \<Rightarrow>
          map_option (\<lambda>(_, sv). (c, sv)) (serve_connection dump parse pieces now [] request sv))"

subsection \<open>A server with one session\<close>

definition awake :: "http_session_options \<Rightarrow> int \<Rightarrow> int \<Rightarrow> bool" where
  "awake opts since now \<longleftrightarrow> hso_session_idle_timeout opts \<le> 0 \<or> now - since \<le> hso_session_idle_timeout opts"

lemma sweep_awake:
  assumes "sv_registry sv = [(i, e)]" and "awake (sv_options sv) (en_last_activity e) now"
  shows "sweep_idle host now sv = sv"
  using assms by (auto simp: sweep_idle_def remove_idle_def awake_def Let_def)

lemma sweep_none: "sv_registry sv = [] \<Longrightarrow> sweep_idle host now sv = sv"
  by (simp add: sweep_idle_def remove_idle_def Let_def)

lemma first_post:
  assumes "\<And>j. dump j = Inr (text_of j)" and "hh_method h = ''POST''" and "header ''mcp-session-id'' h = []"
    and "parse_frame parse body = returns \<lparr>messages = [Request q], item_errors = [], was_batch = False\<rparr>"
    and "req_method q = kInitialize" and "sv_registry sv = []"
    and "sh_factory host (sv_world sv) = (Some s, w)" and "sh_handle host (Request q) (s, w) = Inr ([Response r], s', w')"
  shows "session_handle_request host dump parse me now draws h body table sv =
    Inr (Answer (write_simple 200 ''OK'' (text_of (message_to_json (Response r))) ''application/json''
        [(''Mcp-Session-Id'', generate_session_id draws)]), capture_end me table,
      sv\<lparr>sv_registry := [(generate_session_id draws, (new_entry (sv_options sv) now s)\<lparr>en_session := s'\<rparr>)], sv_world := w'\<rparr>)"
proof -
  let ?f = "\<lparr>messages = [Request q], item_errors = [], was_batch = False\<rparr>"
  have "sent_by (sh_handle host) (messages ?f) (s, w) = Inr ([Response r], s', w')" using assms(8) by simp
  from post_frame_answers [where dump = dump and text_of = text_of and me = me, OF assms(1) this] assms(2-7)
  show ?thesis
    by (simp add: session_handle_request_def Let_def handle_post_def frame_contains_initialize_def registry_create_def
        sweep_none post_to_session_def post_reply_def post_answers_def event_texts_def is_answer_def new_entry_def
        del: message_to_json.simps)
qed

lemma next_post:
  assumes "\<And>j. dump j = Inr (text_of j)" and "hh_method h = ''POST''" and "header ''mcp-session-id'' h = i" and "i \<noteq> []"
    and "parse_frame parse body = returns \<lparr>messages = [m], item_errors = [], was_batch = False\<rparr>"
    and "sv_registry sv = [(i, e)]" and "awake (sv_options sv) (en_last_activity e) now"
    and "sh_handle host m (en_session e, sv_world sv) = Inr (outs, s', w')" and "list_all is_answer outs"
  shows "session_handle_request host dump parse me now draws h body table sv =
    Inr (Answer (post_reply text_of False [] (map message_to_json outs)), capture_end me table,
      sv\<lparr>sv_registry := [(i, e\<lparr>en_session := s', en_last_activity := now\<rparr>)], sv_world := w'\<rparr>)"
proof -
  let ?f = "\<lparr>messages = [m], item_errors = [], was_batch = False\<rparr>"
  have "sent_by (sh_handle host) (messages ?f) (en_session e, sv_world sv) = Inr (outs, s', w')" using assms(8) by simp
  note posted = post_frame_answers [where dump = dump and text_of = text_of and me = me, OF assms(1) this]
  have "filter is_answer outs = outs" "filter (\<lambda>m. \<not> is_answer m) outs = []"
    using assms(9) by (simp_all add: list_all_iff filter_empty_conv)
  with posted assms(2-7) show ?thesis
    by (simp add: session_handle_request_def Let_def handle_post_def sweep_awake registry_find_def post_to_session_def
        post_answers_def event_texts_def)
qed

lemma last_delete:
  assumes "hh_method h = ''DELETE''" and "header ''mcp-session-id'' h = i" and "i \<noteq> []"
    and "hso_allow_client_termination (sv_options sv)" and "sv_registry sv = [(i, e)]"
    and "awake (sv_options sv) (en_last_activity e) now"
  shows "session_handle_request host dump parse me now draws h body table sv =
    Inr (Answer (plain 200 ''OK'' []), table, sv\<lparr>sv_registry := [], sv_world := end_session host e (sv_world sv)\<rparr>)"
  using assms by (simp add: session_handle_request_def Let_def handle_delete_def sweep_awake registry_remove_def)

subsection \<open>The client's requests\<close>

definition delete_head :: "http_client \<Rightarrow> http_head" where
  "delete_head c =
     request_head ''DELETE'' (co_path (hc_options c))
       [host_header c, (''Mcp-Session-Id'', hc_session_id c), (''MCP-Protocol-Version'', kProtocolVersion),
        (''Connection'', ''close'')] []"

lemma delete_head_fields:
  "hh_method (delete_head c) = ''DELETE''" "header ''mcp-session-id'' (delete_head c) = trim (hc_session_id c)"
  "header ''content-length'' (delete_head c) = []"
  by (simp_all add: delete_head_def request_head_def header_def header_map_def request_headers_def host_header_def
      lowered_names trim_def)

lemma delete_request_admitted:
  assumes "usable_client c" and "session_delete_request c = Some request" and "permitted opts (delete_head c)"
    and "concat cs = request"
  shows "handle_connection opts [] (map Received cs) = Accepted (delete_head c) []"
proof (rule written_request_accepted [OF _ _ _ delete_head_def assms(3)])
  show "wire_headers [host_header c, (''Mcp-Session-Id'', hc_session_id c), (''MCP-Protocol-Version'', kProtocolVersion),
      (''Connection'', ''close'')]"
    using assms(1) no_eol_numeral [of "co_port (hc_options c)"]
    by (simp add: usable_client_def wire_headers_def host_header_def token_def no_eol_def kProtocolVersion_def)
  show "strtoull (header ''content-length'' (delete_head c)) = length ([] :: string)"
    by (simp add: delete_head_fields strtoull_def digits_value_def)
qed (use assms in \<open>auto simp: usable_client_def token_def session_delete_request_def split: if_splits\<close>)

lemma message_posted:
  assumes "\<And>j. dump j = Inr (text_of j)" and "t = text_of (message_to_json m)" and "length t < 2 ^ 64"
    and "usable_client c" and "permitted (hso_http (sv_options sv)) (post_head c t)" and "\<And>t. concat (pieces t) = t"
    and "session_handle_request (facade_host dump now) dump parse (0 :: nat) now draws (post_head c t) t (\<lambda>_. None) sv =
      Inr (Answer reply, table, sv')"
    and "post_payload parse hs \<lparr>at_connected = Inr (), at_written = True, at_reads = map Bytes (pieces reply)\<rparr> c u = Returns cu"
  shows "post_message dump parse hs pieces (now, draws, m) ((c, u), sv) = Some (cu, sv')"
proof -
  have "handle_connection (hso_http (sv_options sv)) [] (map Received (pieces (post_request c t))) = Accepted (post_head c t) t"
    by (rule post_request_admitted [OF assms(4,3,5)]) (rule assms(6))
  with assms(1,2,7,8) show ?thesis
    by (simp add: post_message_def client_send_def serialize_message_def serve_connection_def del: message_to_json.simps)
qed

lemma client_left:
  assumes "hc_running c" and "usable_client c" and "hc_session_id c = i" and "trim i = i" and "i \<noteq> []"
    and "permitted (hso_http (sv_options sv)) (delete_head c)" and "\<And>t. concat (pieces t) = t"
    and "hso_allow_client_termination (sv_options sv)" and "sv_registry sv = [(i, e)]"
    and "awake (sv_options sv) (en_last_activity e) now"
  shows "leave dump parse pieces now (c, sv) = Some (c\<lparr>hc_running := False\<rparr>,
    sv\<lparr>sv_registry := [], sv_world := end_session (facade_host dump now) e (sv_world sv)\<rparr>)"
proof -
  obtain request where request: "session_delete_request c = Some request" using assms(3,5) by (simp add: session_delete_request_def)
  have "handle_connection (hso_http (sv_options sv)) [] (map Received (pieces request)) = Accepted (delete_head c) []"
    by (rule delete_request_admitted [OF assms(2) request assms(6)]) (rule assms(7))
  moreover have "header ''mcp-session-id'' (delete_head c) = i" by (simp add: delete_head_fields assms(3,4))
  from last_delete [where dump = dump and parse = parse, OF delete_head_fields(1) this assms(5,8-10)]
  have "session_handle_request (facade_host dump now) dump parse (0 :: nat) now [] (delete_head c) [] (\<lambda>_. None) sv =
      Inr (Answer (plain 200 ''OK'' []), (\<lambda>_. None), sv\<lparr>sv_registry := [],
        sv_world := end_session (facade_host dump now) e (sv_world sv)\<rparr>)" .
  ultimately show ?thesis
    using assms(1) request by (simp add: leave_def client_http_disconnect_def serve_connection_def)
qed

lemma facade_created:
  "\<exists>s. facade_factory (srv, n) = (Some (n, s), attached n srv, n + 1) \<and> serves s \<and> s_state s = Uninitialized \<and>
     ss_options s = server_options_of srv \<and>
     find_request_handler (s_router s) kInitialize = Some (Other_Request Initialize_Handler) \<and>
     find_notification_handler (s_router s) kNotificationInitialized = Some (Other_Notification Initialized_Handler)"
proof -
  have "kInitialize \<notin> fst ` set feature_methods" by (simp add: feature_methods_def method_defs)
  then have init: "find_request_handler (s_router (install_features (new_server_session (server_options_of srv)))) kInitialize =
      Some (Other_Request Initialize_Handler)"
    by (simp add: install_features_other)
  show ?thesis
    using facade_session_created [of srv n] init
    by (auto simp: facade_factory_def attach_def attached_def open_session_def Let_def install_features_def
        find_notification_installed)
qed

subsection \<open>The conversation\<close>

text \<open>
  What the two ends have to agree on: a serializer that does not fail, reads that lose nothing, and an endpoint that
  permits the client's requests, whichever session they name.
\<close>

definition http_link :: "(json \<Rightarrow> string throws) \<Rightarrow> (json \<Rightarrow> string) \<Rightarrow> (string \<Rightarrow> string list) \<Rightarrow> http_server_options \<Rightarrow>
    http_client \<Rightarrow> bool" where
  "http_link dump text_of pieces opts c \<longleftrightarrow>
     (\<forall>j. dump j = Inr (text_of j)) \<and> (\<forall>t. concat (pieces t) = t) \<and> usable_client c \<and>
     list_all (\<lambda>(n, _). to_lower n \<noteq> ''mcp-session-id'') (co_headers (hc_options c)) \<and>
     (\<forall>sid. permitted opts (delete_head (c\<lparr>hc_session_id := sid\<rparr>)) \<and>
       (\<forall>body. permitted opts (post_head (c\<lparr>hc_session_id := sid\<rparr>) body)))"

definition carried :: "(string \<Rightarrow> json option) \<Rightarrow> (json \<Rightarrow> string) \<Rightarrow> message \<Rightarrow> bool" where
  "carried parse text_of m \<longleftrightarrow>
     (let t = text_of (message_to_json m) in parse t = Some (message_to_json m) \<and> t \<noteq> [] \<and> length t < 2 ^ 64)"

abbreviation with_session :: "string \<Rightarrow> http_client \<Rightarrow> http_client" where
  "with_session i c \<equiv> c\<lparr>hc_session_id := i\<rparr>"

lemma link_session:
  assumes "http_link dump text_of pieces opts c"
  shows "header ''mcp-session-id'' (post_head (with_session i c) t) = trim i"
    and "no_eol i \<Longrightarrow> usable_client (with_session i c)" and "concat (pieces t) = t" and "dump x = Inr (text_of x)"
  using assms post_head_session [of "with_session i c" t] by (simp_all add: http_link_def usable_client_def)

lemma link_posted:
  assumes "http_link dump text_of pieces (hso_http (sv_options sv)) c" and "carried parse text_of m" and "no_eol i"
    and "t = text_of (message_to_json m)"
    and "session_handle_request (facade_host dump now) dump parse (0 :: nat) now draws (post_head (with_session i c) t) t (\<lambda>_. None) sv =
      Inr (Answer reply, table, sv')"
    and "post_payload parse hs \<lparr>at_connected = Inr (), at_written = True, at_reads = map Bytes (pieces reply)\<rparr> (with_session i c) u =
      Returns cu"
  shows "post_message dump parse hs pieces (now, draws, m) ((with_session i c, u), sv) = Some (cu, sv')"
  using assms(2)
  by (intro message_posted [OF link_session(4) [OF assms(1)] assms(4) _ link_session(2) [OF assms(1,3)] _
        link_session(3) [OF assms(1)] assms(5,6)])
    (use assms(1,4) in \<open>simp_all add: http_link_def carried_def Let_def\<close>)

lemma carried_frame:
  "carried parse text_of m \<Longrightarrow> valid_message m \<Longrightarrow>
     parse_frame parse (text_of (message_to_json m)) = returns \<lparr>messages = [m], item_errors = [], was_batch = False\<rparr>"
  by (rule parse_single_frame) (simp_all add: carried_def Let_def)

lemma post_head_method: "hh_method (post_head c t) = ''POST''"
  by (simp add: post_head_def request_head_def)

text \<open>The post of the handshake: it opens the session, and the client adopts its id.\<close>

lemma session_posted:
  assumes "http_link dump text_of pieces (hso_http (sv_options sv)) c" and "carried parse text_of (Request q)"
    and "carried parse text_of (Response r)" and "valid_message (Request q)" and "valid_message (Response r)"
    and "req_method q = kInitialize" and "sv_registry sv = []" and "token i" and "i = generate_session_id draws"
    and "facade_factory (sv_world sv) = (Some s, w)" and "facade_handle dump now (Request q) (s, w) = Inr ([Response r], s', w')"
    and "on_message hs = Some hm" and "hm (Response r) u = Inr u'"
  shows "post_message dump parse hs pieces (now, draws, Request q) ((with_session [] c, u), sv) =
    Some ((with_session i c, u'), sv\<lparr>sv_registry := [(i, (new_entry (sv_options sv) now s)\<lparr>en_session := s'\<rparr>)], sv_world := w'\<rparr>)"
proof (rule link_posted [OF assms(1,2) _ refl])
  let ?t = "text_of (message_to_json (Request q))" let ?r = "text_of (message_to_json (Response r))"
  let ?x = "[(''Mcp-Session-Id'', i)]"
  have i: "trim i = i" "i \<noteq> []" "wire_headers ?x" using assms(8) by (auto simp: wire_headers_def token_def no_eol_def)
  have empty: "header ''mcp-session-id'' (post_head (with_session [] c) ?t) = []"
    by (simp add: link_session(1) [OF assms(1)] trim_def)
  have host: "sh_factory (facade_host dump now) (sv_world sv) = (Some s, w)"
    "sh_handle (facade_host dump now) (Request q) (s, w) = Inr ([Response r], s', w')"
    using assms(10,11) by (simp_all add: facade_host_def)
  show "session_handle_request (facade_host dump now) dump parse (0 :: nat) now draws (post_head (with_session [] c) ?t) ?t
      (\<lambda>_. None) sv = Inr (Answer (write_simple 200 ''OK'' ?r ''application/json'' ?x), capture_end 0 (\<lambda>_. None),
        sv\<lparr>sv_registry := [(i, (new_entry (sv_options sv) now s)\<lparr>en_session := s'\<rparr>)], sv_world := w'\<rparr>)"
    unfolding assms(9)
    by (rule first_post [where dump = dump and text_of = text_of, OF link_session(4) [OF assms(1)] post_head_method empty
          carried_frame [OF assms(2,4)] assms(6,7) host])
  show "post_payload parse hs \<lparr>at_connected = Inr (), at_written = True, at_reads = map Bytes (pieces
      (write_simple 200 ''OK'' ?r ''application/json'' ?x))\<rparr> (with_session [] c) u = Returns (with_session i c, u')"
    using answer_delivered [where body = ?r and i = i and parse = parse and c = "with_session [] c" and u = u,
        OF link_session(3) [OF assms(1)] _ i(3) _ _ _ _ assms(5) _ _ assms(12)]
      assms(3,13) i(1,2) by (simp add: carried_def Let_def call_of_def del: message_to_json.simps)
qed (simp add: no_eol_def)

text \<open>The posts after it: a request with its response, and a message that is not answered.\<close>

lemma posted_in_session:
  assumes "http_link dump text_of pieces (hso_http (sv_options sv)) c" and "carried parse text_of m" and "valid_message m"
    and "token i" and "sv_registry sv = [(i, e)]" and "awake (sv_options sv) (en_last_activity e) now"
    and "facade_handle dump now m (en_session e, sv_world sv) = Inr (outs, s', w')"
    and "outs = [] \<and> u' = u \<or>
      outs = [Response r] \<and> carried parse text_of (Response r) \<and> valid_message (Response r) \<and> hm (Response r) u = Inr u'"
    and "on_message hs = Some hm"
  shows "post_message dump parse hs pieces (now, draws, m) ((with_session i c, u), sv) =
    Some ((with_session i c, u'), sv\<lparr>sv_registry := [(i, e\<lparr>en_session := s', en_last_activity := now\<rparr>)], sv_world := w'\<rparr>)"
proof (rule link_posted [OF assms(1,2) _ refl])
  let ?t = "text_of (message_to_json m)" let ?reply = "post_reply text_of False [] (map message_to_json outs)"
  have i: "trim i = i" "i \<noteq> []" using assms(4) by (auto simp: token_def)
  show "no_eol i" using assms(4) by (auto simp: token_def no_eol_def)
  have named: "header ''mcp-session-id'' (post_head (with_session i c) ?t) = i"
    by (simp add: link_session(1) [OF assms(1)] i(1))
  have host: "sh_handle (facade_host dump now) m (en_session e, sv_world sv) = Inr (outs, s', w')"
    using assms(7) by (simp add: facade_host_def)
  show "session_handle_request (facade_host dump now) dump parse (0 :: nat) now draws (post_head (with_session i c) ?t) ?t
      (\<lambda>_. None) sv = Inr (Answer ?reply, capture_end 0 (\<lambda>_. None),
        sv\<lparr>sv_registry := [(i, e\<lparr>en_session := s', en_last_activity := now\<rparr>)], sv_world := w'\<rparr>)"
    using assms(8)
    by (intro next_post [where dump = dump and text_of = text_of, OF link_session(4) [OF assms(1)] post_head_method named i(2)
          carried_frame [OF assms(2,3)] assms(5,6) host]) (auto simp: is_answer_def)
  from assms(8) show "post_payload parse hs \<lparr>at_connected = Inr (), at_written = True, at_reads = map Bytes (pieces ?reply)\<rparr>
      (with_session i c) u = Returns (with_session i c, u')"
  proof
    assume "outs = [] \<and> u' = u"
    then show ?thesis
      using post_payload_accepted [OF link_session(3) [OF assms(1)], of _ parse hs "with_session i c" u] by (simp add: post_reply_def)
  next
    assume r: "outs = [Response r] \<and> carried parse text_of (Response r) \<and> valid_message (Response r) \<and> hm (Response r) u = Inr u'"
    then show ?thesis
      using answer_delivered [where body = "text_of (message_to_json (Response r))" and extra = "[]" and m = "Response r"
          and parse = parse and c = "with_session i c" and u = u, OF link_session(3) [OF assms(1)] _ _ _ _ _ _ _ _ _ assms(9)]
      by (simp add: post_reply_def carried_def Let_def call_of_def wire_headers_def del: message_to_json.simps)
  qed
qed

text \<open>What the handlers do, message by message.\<close>

lemma conversation_handled:
  assumes "valid_client_capabilities (ip_capabilities ip)"
    and "find_entry tool_key name (tr_tools (srv_tools srv)) = Some (t, h)" and "conforms arguments (tool_input_schema t)"
    and "tool_outcome (h arguments) = Inr r"
    and "w = (attached n srv, n + 1)" and "tool_conversation j ip i name arguments = [m1, m2, m3]"
    and "replies_to j (initialize_answer (server_options_of srv) kProtocolVersion) i r = [a1, a3]"
  obtains s s1 s2 s3 where "facade_factory (srv, n) = (Some (n, s), w)"
    "facade_handle dump t0 m1 ((n, s), w) = Inr ([a1], (n, s1), w)" "facade_handle dump t1 m2 ((n, s1), w) = Inr ([], (n, s2), w)"
    "facade_handle dump t2 m3 ((n, s2), w) = Inr ([a3], (n, s3), w)"
proof -
  obtain s where s: "facade_factory (srv, n) = (Some (n, s), attached n srv, n + 1)" "serves s" "s_state s = Uninitialized"
    "ss_options s = server_options_of srv" "find_request_handler (s_router s) kInitialize = Some (Other_Request Initialize_Handler)"
    "find_notification_handler (s_router s) kNotificationInitialized = Some (Other_Notification Initialized_Handler)"
    using facade_created by blast
  let ?s1 = "after_initialize j ip s" let ?s2 = "set_state Operating ?s1"
  have after: "s_router ?s1 = s_router s" "s_state ?s1 = Initializing" "ss_options ?s1 = ss_options s"
    by (simp_all add: after_initialize_def send_message_def emit_def set_state_def)
  have found: "find_entry tool_key name (tr_tools (srv_tools (attached n srv))) = Some (t, h)" by (simp add: attached_server assms(2))
  have "facade_handle dump t2 m3 ((n, ?s2), w) = Inr ([a3], (n, send_message a3 ?s2), w)"
    using facade_tool_call [OF _ _ _ found assms(3,4), of ?s2 dump t2 i n "n + 1"] s(2,4) tools_gate [OF assms(2)] after assms(5-7)
    by (simp add: tool_conversation_def replies_to_def serves_def set_state_def)
  moreover have "facade_handle dump t1 m2 ((n, ?s1), w) = Inr ([], (n, ?s2), w)"
    using facade_initialized [of ?s1 dump t1 None n "attached n srv" "n + 1"] after s(6) assms(5,6) by (simp add: tool_conversation_def)
  moreover have "facade_handle dump t0 m1 ((n, s), w) = Inr ([a1], (n, ?s1), w)"
    using facade_initialize [OF s(5,3) assms(1), of dump t0 j n "attached n srv" "n + 1"] s(4) assms(5-7)
    by (simp add: tool_conversation_def replies_to_def server_options_of_def)
  ultimately show thesis using s(1) assms(5) that by blast
qed

lemma conversation_posted:
  assumes "http_link dump text_of pieces (hso_http (sv_options sv)) c"
    and "\<forall>m \<in> set (tool_conversation j ip i name arguments) \<union> set replies. carried parse text_of m"
    and "valid_id i" and "valid_id j" and "valid_client_capabilities (ip_capabilities ip)"
    and "find_entry tool_key name (tr_tools (srv_tools srv)) = Some (t, h)" and "conforms arguments (tool_input_schema t)"
    and "tool_outcome (h arguments) = Inr r"
    and "replies = replies_to j (initialize_answer (server_options_of srv) kProtocolVersion) i r"
    and "sv_registry sv = []" and "sv_world sv = (srv, n)"
    and "awake (sv_options sv) t0 t1" and "awake (sv_options sv) t1 t2" and "draws \<noteq> []" and "hc_session_id c = []"
    and "on_message hs = Some hm" and "foldE hm replies u = Inr u'" and sid: "sid = generate_session_id draws"
  obtains e s where "post_messages dump parse hs pieces
      (map2 (\<lambda>now m. (now, draws, m)) [t0, t1, t2] (tool_conversation j ip i name arguments)) ((c, u), sv) =
    Some ((with_session sid c, u'),
      sv\<lparr>sv_registry := [(sid, e\<lparr>en_session := (n, s), en_last_activity := t2\<rparr>)], sv_world := (attached n srv, n + 1)\<rparr>)"
    and "\<not> en_closed e"
proof -
  obtain q1 m2 m3 where ms: "tool_conversation j ip i name arguments = [Request q1, m2, m3]" and q1: "req_method q1 = kInitialize"
    by (simp add: tool_conversation_def)
  obtain r1 r3 where rs: "replies = [Response r1, Response r3]" by (simp add: assms(9) replies_to_def)
  obtain s s1 s2 s3 where h: "facade_factory (srv, n) = (Some (n, s), (attached n srv, n + 1))"
    "facade_handle dump t0 (Request q1) ((n, s), (attached n srv, n + 1)) = Inr ([Response r1], (n, s1), (attached n srv, n + 1))"
    "facade_handle dump t1 m2 ((n, s1), (attached n srv, n + 1)) = Inr ([], (n, s2), (attached n srv, n + 1))"
    "facade_handle dump t2 m3 ((n, s2), (attached n srv, n + 1)) = Inr ([Response r3], (n, s3), (attached n srv, n + 1))"
    by (rule conversation_handled [OF assms(5-8) refl ms rs[unfolded assms(9)]])
  let ?e = "new_entry (sv_options sv) t0 (n, s)"
  let ?sv = "\<lambda>s now. sv\<lparr>sv_registry := [(sid, ?e\<lparr>en_session := (n, s), en_last_activity := now\<rparr>)], sv_world := (attached n srv, n + 1)\<rparr>"
  have carry: "carried parse text_of (Request q1)" "carried parse text_of m2" "carried parse text_of m3"
    "carried parse text_of (Response r1)" "carried parse text_of (Response r3)" using assms(2) by (simp_all add: ms rs)
  have valid: "valid_message (Request q1)" "valid_message m2" "valid_message m3" "valid_message (Response r1)" "valid_message (Response r3)"
    using conversation_valid(1) [OF assms(3,4), of _ ip name arguments]
      conversation_valid(2) [OF assms(3,4), of _ "initialize_answer (server_options_of srv) kProtocolVersion" r] rs
    by (simp_all add: ms assms(9) del: valid_message.simps)
  obtain u1 where u: "hm (Response r1) u = Inr u1" "hm (Response r3) u1 = Inr u'"
    using assms(17) by (auto simp: rs bindE_eq_Inr)
  have tok: "token sid" unfolding sid by (rule session_id_token [OF assms(14)])
  have "with_session [] c = c" by (simp add: assms(15) [symmetric])
  then have p1: "post_message dump parse hs pieces (t0, draws, Request q1) ((c, u), sv) = Some ((with_session sid c, u1), ?sv s1 t0)"
    using session_posted [where parse = parse and q = q1 and r = r1 and now = t0 and hs = hs and hm = hm and u = u and u' = u1,
        OF assms(1) carry(1,4) valid(1,4) q1 assms(10) tok sid _ h(2) assms(16) u(1)] h(1) assms(11) by (simp add: new_entry_def)
  note posted = posted_in_session [where parse = parse and hs = hs and hm = hm and c = c and i = sid]
  have p2: "post_message dump parse hs pieces (t1, draws, m2) ((with_session sid c, u1), ?sv s1 t0) = Some ((with_session sid c, u1), ?sv s2 t1)"
    using posted [where now = t1 and u = u1 and u' = u1 and sv = "?sv s1 t0" and outs = "[]", OF _ carry(2) valid(2) tok _ _ _ _ assms(16)]
      assms(1,12) h(3) by simp
  have p3: "post_message dump parse hs pieces (t2, draws, m3) ((with_session sid c, u1), ?sv s2 t1) = Some ((with_session sid c, u'), ?sv s3 t2)"
    using posted [where now = t2 and u = u1 and u' = u' and sv = "?sv s2 t1" and outs = "[Response r3]",
        OF _ carry(3) valid(3) tok _ _ _ _ assms(16)] assms(1,13) h(4) carry(5) valid(5) u(2) by simp
  have "\<not> en_closed ?e" by (simp add: new_entry_def)
  with p1 p2 p3 show thesis by (intro that [of s3 ?e]) (simp_all add: ms)
qed

subsection \<open>Properties\<close>


definition talk_text :: "json \<Rightarrow> string" where
  "talk_text j = (case map_of talk_table j of None \<Rightarrow> [] | Some t \<Rightarrow> t)"

definition talk_client :: http_client where
  "talk_client = sample_http_client\<lparr>hc_running := True\<rparr>"

definition talk_sessions :: facade_sessions where
  "talk_sessions =
     \<lparr>sv_options = sample_session_options, sv_registry = [], sv_world = (sample_server, 0), sv_listening = True\<rparr>"

lemma talk_link: "http_link (\<lambda>j. Inr (talk_text j)) talk_text (map (\<lambda>x. [x])) (hso_http (sv_options talk_sessions)) talk_client"
proof -
  have "usable_client talk_client"
    by (simp add: usable_client_def talk_client_def sample_http_client_def new_http_client_def token_def no_eol_def wire_headers_def)
  moreover have "permitted default_http_options (delete_head (with_session sid talk_client))"
    "permitted default_http_options (post_head (with_session sid talk_client) body)" for sid body
    by (simp_all add: permitted_def default_http_options_def origin_allowed_def delete_head_def post_head_def request_head_def
        header_def header_map_def request_headers_def post_headers_def host_header_def origin_header_def session_header_def
        content_length_def lowered_names talk_client_def sample_http_client_def new_http_client_def Let_def)
  ultimately show ?thesis
    by (simp add: http_link_def talk_sessions_def sample_session_options_def talk_client_def sample_http_client_def
        new_http_client_def)
qed

lemma talk_carried:
  assumes "traverse (serialize_message talk_dump) ms = Inr ts" and "list_all (\<lambda>t. t \<noteq> [] \<and> length t = 1) ts" and "m \<in> set ms"
  shows "carried talk_parse talk_text m"
  using assms
proof (induction ms arbitrary: ts)
  case (Cons m' ms)
  then obtain t ts' where t: "serialize_message talk_dump m' = Inr t" "ts = t # ts'"
    and rest: "traverse (serialize_message talk_dump) ms = Inr ts'" by (auto simp: err_simps)
  have "talk_dump (message_to_json m') = Inr t" using t(1) by (simp add: serialize_message_def)
  then have "carried talk_parse talk_text m'"
    using t(2) talk_codec Cons.prems(2)
    by (auto simp: carried_def Let_def line_codec_def talk_text_def talk_dump_def split: option.splits simp del: message_to_json.simps)
  with Cons.IH [OF rest] Cons.prems(2,3) t(2) show ?case by auto
qed simp


end
