(* ===== verification/Mcp_Double.thy ===== *)
theory Mcp_Double
  imports Mcp_Json
begin

text \<open>
  The numbers of type \<^verbatim>\<open>double\<close> where a program computes with them: IEEE 754 binary64 values with
  signed zeros, infinities and one NaN, arithmetic that rounds the exact result to the nearest
  value with ties to even, and the conversions \<^verbatim>\<open>std::stod\<close> and \<^verbatim>\<open>std::to_string\<close>.
\<close>

text \<open>A nonzero finite value is the rational it stands for; the flag of the others is the sign.\<close>

datatype double = NaN | Infinite bool | Zero bool | Finite rat

subsection \<open>Rounding\<close>

definition pow2 :: "int \<Rightarrow> rat" where
  "pow2 k = (if 0 \<le> k then 2 ^ nat k else 1 / 2 ^ nat (- k))"

text \<open>The largest \<open>k\<close> with \<open>2 ^ k \<le> r\<close>, for a positive \<open>r\<close>.\<close>

definition floor_log2 :: "rat \<Rightarrow> int" where
  "floor_log2 r =
     (case quotient_of r of (p, q) \<Rightarrow>
        let k = int (bit_length (nat p)) - int (bit_length (nat q))
        in if pow2 k \<le> r then k else k - 1)"

text \<open>To the nearest integer, ties to even.\<close>

definition round_even :: "rat \<Rightarrow> int" where
  "round_even x =
     (let f = \<lfloor>x\<rfloor>; d = x - of_int f
      in if d < 1 / 2 then f else if 1 / 2 < d then f + 1 else if even f then f else f + 1)"

definition round_double :: "rat \<Rightarrow> double" where
  "round_double r =
     (if r = 0 then Zero False
      else let e = max (floor_log2 \<bar>r\<bar> - 52) (- 1074);
               n = round_even (\<bar>r\<bar> / pow2 e);
               v = of_int n * pow2 e
           in if n = 0 then Zero (r < 0)
              else if pow2 1024 \<le> v then Infinite (r < 0)
              else Finite (if r < 0 then - v else v))"

lemma pow2_positive [simp]: "0 < pow2 k"
  by (simp add: pow2_def)

lemma pow2_nat: "0 \<le> k \<Longrightarrow> pow2 k = 2 ^ nat k"
  by (simp add: pow2_def)

lemma pow2_Suc: "pow2 (k + 1) = 2 * pow2 k"
proof (cases "0 \<le> k")
  case True
  then show ?thesis by (simp add: pow2_def nat_add_distrib)
next
  case False
  then have "nat (- k) = Suc (nat (- (k + 1)))" by simp
  with False show ?thesis by (auto simp: pow2_def)
qed

lemma pow2_add_nat: "pow2 (k + int n) = pow2 k * 2 ^ n"
proof (induction n)
  case (Suc n)
  have "pow2 (k + int (Suc n)) = pow2 (k + int n + 1)" by (simp add: ac_simps)
  with Suc show ?case by (simp add: pow2_Suc)
qed simp

lemma pow2_add: "pow2 (j + k) = pow2 j * pow2 k"
proof (cases "0 \<le> k")
  case True
  then show ?thesis using pow2_add_nat [of j "nat k"] by (simp add: pow2_nat)
next
  case False
  then show ?thesis using pow2_add_nat [of "j + k" "nat (- k)"] by (simp add: pow2_def [of k] field_simps)
qed

lemma pow2_mono: "j \<le> k \<Longrightarrow> pow2 j \<le> pow2 k"
  using pow2_add_nat [of j "nat (k - j)"] mult_left_mono [of 1 "2 ^ nat (k - j)" "pow2 j"]
  by (simp add: less_imp_le)

lemma pow2_less: "pow2 j < pow2 k \<longleftrightarrow> j < k"
proof
  show "j < k" if "pow2 j < pow2 k" using that pow2_mono [of k j] by fastforce
  assume "j < k"
  then have "pow2 (j + 1) \<le> pow2 k" by (intro pow2_mono) simp
  then show "pow2 j < pow2 k" using pow2_positive [of j] pow2_Suc [of j] by linarith
qed

lemma bit_length_bounds: "0 < n \<Longrightarrow> 2 ^ (bit_length n - 1) \<le> n \<and> n < 2 ^ bit_length n"
proof (induction n rule: bit_length.induct)
  case (1 n)
  show ?case
  proof (cases "n div 2 = 0")
    case True
    with 1 have "n = 1" by simp
    then show ?thesis by (simp add: bit_length.simps)
  next
    case False
    then obtain b where b: "bit_length (n div 2) = Suc b" by (cases "bit_length (n div 2)") (simp_all add: bit_length.simps)
    with 1 False show ?thesis by (auto simp: bit_length.simps [of n])
  qed
qed

lemma floor_log2_bounds:
  assumes "0 < r"
  shows "pow2 (floor_log2 r) \<le> r \<and> r < pow2 (floor_log2 r + 1)"
proof -
  obtain p q where pq: "quotient_of r = (p, q)" by fastforce
  then have q: "0 < q" and r: "r = of_int p / of_int q"
    using quotient_of_denom_pos [OF pq] quotient_of_div [OF pq] by auto
  with assms have p: "0 < p" by (simp add: zero_less_divide_iff)
  define i j where "i = bit_length (nat p)" and "j = bit_length (nat q)"
  have bounds: "(2::rat) ^ (bit_length (nat n) - 1) \<le> of_int n \<and> of_int n < (2::rat) ^ bit_length (nat n)" if "0 < n" for n :: int
  proof -
    have "rat_of_nat (2 ^ (bit_length (nat n) - 1)) \<le> rat_of_nat (nat n)" "rat_of_nat (nat n) < rat_of_nat (2 ^ bit_length (nat n))"
      using bit_length_bounds [of "nat n"] that by (simp_all only: of_nat_le_iff of_nat_less_iff)
    with that show ?thesis by simp
  qed
  have pos: "0 < bit_length (nat n)" if "0 < n" for n using that by (simp add: bit_length.simps)
  have up: "r < pow2 (int i - int j + 1)"
  proof -
    have "pow2 (int i - int j + 1) = 2 ^ i / 2 ^ (j - 1)"
      using pow2_add_nat [of "int i - int j + 1" "j - 1"] pos [OF q] pow2_nat [of "int i"] by (simp add: j_def field_simps of_nat_diff)
    moreover have "of_int p / of_int q < (2::rat) ^ i / 2 ^ (j - 1)"
      using bounds [OF p] bounds [OF q] p q by (intro frac_less) (auto simp: i_def j_def)
    ultimately show ?thesis using r by simp
  qed
  have down: "pow2 (int i - int j - 1) < r"
  proof -
    have "pow2 (int i - int j - 1) = 2 ^ (i - 1) / 2 ^ j"
      using pow2_add_nat [of "int i - int j - 1" j] pos [OF p] pow2_nat [of "int i - 1"] by (simp add: i_def field_simps of_nat_diff nat_diff_distrib')
    moreover have "(2::rat) ^ (i - 1) / 2 ^ j < of_int p / of_int q"
      using bounds [OF p] bounds [OF q] p q by (intro frac_less2) (auto simp: i_def j_def)
    ultimately show ?thesis using r by simp
  qed
  show ?thesis using up down by (auto simp: floor_log2_def pq Let_def i_def j_def)
qed

lemma floor_log2_below: "0 < r \<Longrightarrow> r < pow2 k \<Longrightarrow> floor_log2 r < k"
  using floor_log2_bounds [of r] pow2_less [of "floor_log2 r" k] by fastforce

lemma round_even_of_int [simp]: "round_even (of_int n) = n"
  by (simp add: round_even_def)

text \<open>The finite values of the format, and that rounding keeps them.\<close>

definition representable :: "rat \<Rightarrow> bool" where
  "representable r \<longleftrightarrow>
     (\<exists>m e. \<bar>r\<bar> = of_int m * pow2 e \<and> m < 2 ^ 53 \<and> - 1074 \<le> e \<and> \<bar>r\<bar> < pow2 1024)"

lemma round_representable:
  assumes "representable r" and "r \<noteq> 0"
  shows "round_double r = Finite r"
proof -
  obtain m k where m: "\<bar>r\<bar> = of_int m * pow2 k" "m < 2 ^ 53" "- 1074 \<le> k" "\<bar>r\<bar> < pow2 1024"
    using assms(1) by (auto simp: representable_def)
  have "\<bar>r\<bar> < 2 ^ 53 * pow2 k" using m(1,2) by (simp add: of_int_less_numeral_power_cancel_iff)
  also have "\<dots> = pow2 (k + 53)" using pow2_add_nat [of k 53] by simp
  finally have "floor_log2 \<bar>r\<bar> < k + 53" using assms(2) by (intro floor_log2_below) auto
  moreover define e where "e = max (floor_log2 \<bar>r\<bar> - 52) (- 1074)"
  ultimately have e: "e \<le> k" using m(3) by simp
  define n where "n = m * 2 ^ nat (k - e)"
  have "pow2 k = pow2 e * 2 ^ nat (k - e)" using pow2_add_nat [of e "nat (k - e)"] e by simp
  then have n: "\<bar>r\<bar> = of_int n * pow2 e" using m(1) by (simp add: n_def)
  moreover have "pow2 e \<noteq> 0" using pow2_positive [of e] by linarith
  ultimately have "\<bar>r\<bar> / pow2 e = of_int n" by simp
  then have "round_even (\<bar>r\<bar> / pow2 e) = n" by simp
  moreover have "n \<noteq> 0" using n assms(2) by auto
  moreover have "(if r < 0 then - \<bar>r\<bar> else \<bar>r\<bar>) = r" by simp
  moreover have "\<not> pow2 1024 \<le> \<bar>r\<bar>" using m(4) by simp
  ultimately show ?thesis
    unfolding round_double_def Let_def e_def [symmetric] using assms(2) n by (simp only: if_False)
qed

lemma representable_of_int: "\<bar>n\<bar> < 2 ^ 53 \<Longrightarrow> representable (of_int n)"
proof -
  assume n: "\<bar>n\<bar> < 2 ^ 53"
  then have "rat_of_int \<bar>n\<bar> < of_int (2 ^ 53)" by (simp only: of_int_less_iff)
  also have "\<dots> \<le> pow2 1024" using pow2_mono [of 53 1024] by (simp add: pow2_nat)
  finally show ?thesis
    unfolding representable_def using n by (intro exI [of _ "\<bar>n\<bar>"] exI [of _ 0]) (simp add: pow2_def)
qed

lemma round_of_int: "n \<noteq> 0 \<Longrightarrow> \<bar>n\<bar> < 2 ^ 53 \<Longrightarrow> round_double (of_int n) = Finite (of_int n)"
  by (intro round_representable representable_of_int) simp_all

lemma round_of_nat:
  assumes "0 < n" and "n < 2 ^ 53"
  shows "round_double (of_nat n) = Finite (of_nat n)"
proof -
  have "int n < int (2 ^ 53)" using assms(2) by (simp only: of_nat_less_iff)
  then show ?thesis using round_of_int [of "int n"] assms(1) by simp
qed

lemma round_even_error: "\<bar>of_int (round_even x) - x\<bar> \<le> 1 / 2"
proof -
  have "of_int \<lfloor>x\<rfloor> \<le> x" "x < of_int \<lfloor>x\<rfloor> + 1" by (rule of_int_floor_le, rule floor_correct [THEN conjunct2, simplified])
  then show ?thesis by (auto simp: round_even_def Let_def abs_le_iff)
qed

text \<open>The value of a finite double, and the error of rounding a fraction.\<close>

fun double_rat :: "double \<Rightarrow> rat" where
  "double_rat (Finite r) = r"
| "double_rat _ = 0"

lemma round_fraction_error:
  assumes "0 \<le> r" and "r \<le> 1"
  shows "\<bar>double_rat (round_double r) - r\<bar> \<le> pow2 (- 53)"
proof (cases "r = 0")
  case True
  then show ?thesis by (simp add: round_double_def less_imp_le)
next
  case False
  then have pos: "0 < r" using assms(1) by simp
  define e where "e = max (floor_log2 r - 52) (- 1074)"
  define n where "n = round_even (r / pow2 e)"
  have "r < pow2 1" using assms(2) by (simp add: pow2_nat)
  then have "e \<le> - 52" using floor_log2_below [OF pos, of 1] by (simp add: e_def)
  then have "pow2 e \<le> pow2 (- 53 + 1)" by (intro pow2_mono) simp
  then have half: "pow2 e / 2 \<le> pow2 (- 53)" unfolding pow2_Suc by simp
  have "\<bar>of_int n * pow2 e - r\<bar> = \<bar>of_int n - r / pow2 e\<bar> * pow2 e"
    using pow2_positive [of e] less_imp_neq [OF pow2_positive [of e]]
    by (simp add: abs_mult_pos less_imp_le left_diff_distrib)
  also have "\<dots> \<le> 1 / 2 * pow2 e"
    unfolding n_def by (intro mult_right_mono round_even_error) (simp add: less_imp_le)
  also have "\<dots> \<le> pow2 (- 53)" using half by simp
  finally have err: "\<bar>of_int n * pow2 e - r\<bar> \<le> pow2 (- 53)" .
  moreover have "pow2 (- 53) < 1" "2 \<le> pow2 1024" using pow2_less [of "- 53" 0] pow2_mono [of 1 1024] by (simp_all add: pow2_nat)
  ultimately have "\<not> pow2 1024 \<le> of_int n * pow2 e" using assms(2) by linarith
  moreover have "\<bar>r\<bar> = r" using pos by simp
  ultimately have "double_rat (round_double r) = of_int n * pow2 e"
    using False pos by (simp add: round_double_def Let_def flip: e_def n_def)
  with err show ?thesis by simp
qed

text \<open>Fractions with denominators below \<open>2 ^ 26\<close> keep their order when they are rounded.\<close>

lemma fraction_order:
  fixes a b c d :: nat
  assumes "a \<le> b" and "c \<le> d" and "0 < b" and "0 < d" and "b < 2 ^ 26" and "d < 2 ^ 26"
    and "double_rat (round_double (of_nat a / of_nat b)) \<le> double_rat (round_double (of_nat c / of_nat d))"
  shows "a * d \<le> c * b"
proof (rule ccontr)
  assume "\<not> a * d \<le> c * b"
  then have "c * b + 1 \<le> a * d" by simp
  then have "rat_of_nat (c * b + 1) \<le> of_nat (a * d)" by (simp only: of_nat_le_iff)
  then have "rat_of_nat (c * b + 1) / of_nat (b * d) \<le> of_nat (a * d) / of_nat (b * d)"
    by (rule divide_right_mono) simp
  then have "rat_of_nat c / of_nat d + 1 / (of_nat b * of_nat d) \<le> of_nat a / of_nat b"
    using assms(3,4) by (simp add: add_divide_distrib)
  moreover have "b * d < 2 ^ 26 * 2 ^ 26" using assms(3-6) by (intro mult_strict_mono) auto
  then have "rat_of_nat (b * d) < of_nat (2 ^ 26 * 2 ^ 26)" by (simp only: of_nat_less_iff)
  then have "pow2 (- 52) < 1 / (of_nat b * of_nat d)"
    using assms(3,4) by (simp add: pow2_def field_simps)
  moreover have "pow2 (- 52) = 2 * pow2 (- 53)" using pow2_Suc [of "- 53"] by simp
  moreover have "\<bar>double_rat (round_double (of_nat m / of_nat n)) - of_nat m / of_nat n\<bar> \<le> pow2 (- 53)"
    if "m \<le> n" for m n :: nat using that by (intro round_fraction_error) (auto simp: divide_le_eq_1)
  from this [OF assms(1)] this [OF assms(2)] have "\<bar>double_rat (round_double (of_nat a / of_nat b)) - of_nat a / of_nat b\<bar> \<le> pow2 (- 53)"
    "\<bar>double_rat (round_double (of_nat c / of_nat d)) - of_nat c / of_nat d\<bar> \<le> pow2 (- 53)" .
  ultimately show False using assms(7) by linarith
qed

subsection \<open>Arithmetic\<close>

fun double_negative :: "double \<Rightarrow> bool" where
  "double_negative NaN = False"
| "double_negative (Infinite s) = s"
| "double_negative (Zero s) = s"
| "double_negative (Finite r) = (r < 0)"

fun double_neg :: "double \<Rightarrow> double" where
  "double_neg NaN = NaN"
| "double_neg (Infinite s) = Infinite (\<not> s)"
| "double_neg (Zero s) = Zero (\<not> s)"
| "double_neg (Finite r) = Finite (- r)"

fun double_add :: "double \<Rightarrow> double \<Rightarrow> double" where
  "double_add NaN y = NaN"
| "double_add x NaN = NaN"
| "double_add (Infinite s) (Infinite t) = (if s = t then Infinite s else NaN)"
| "double_add (Infinite s) y = Infinite s"
| "double_add x (Infinite t) = Infinite t"
| "double_add (Zero s) (Zero t) = Zero (s \<and> t)"
| "double_add (Zero s) y = y"
| "double_add x (Zero t) = x"
| "double_add (Finite a) (Finite b) = round_double (a + b)"

definition double_sub :: "double \<Rightarrow> double \<Rightarrow> double" where
  "double_sub x y = double_add x (double_neg y)"

fun double_mul :: "double \<Rightarrow> double \<Rightarrow> double" where
  "double_mul NaN y = NaN"
| "double_mul x NaN = NaN"
| "double_mul (Infinite s) (Zero t) = NaN"
| "double_mul (Zero s) (Infinite t) = NaN"
| "double_mul (Infinite s) y = Infinite (s \<noteq> double_negative y)"
| "double_mul x (Infinite t) = Infinite (double_negative x \<noteq> t)"
| "double_mul (Zero s) y = Zero (s \<noteq> double_negative y)"
| "double_mul x (Zero t) = Zero (double_negative x \<noteq> t)"
| "double_mul (Finite a) (Finite b) = round_double (a * b)"

fun double_div :: "double \<Rightarrow> double \<Rightarrow> double" where
  "double_div NaN y = NaN"
| "double_div x NaN = NaN"
| "double_div (Infinite s) (Infinite t) = NaN"
| "double_div (Zero s) (Zero t) = NaN"
| "double_div (Infinite s) y = Infinite (s \<noteq> double_negative y)"
| "double_div x (Infinite t) = Zero (double_negative x \<noteq> t)"
| "double_div (Zero s) y = Zero (s \<noteq> double_negative y)"
| "double_div x (Zero t) = Infinite (double_negative x \<noteq> t)"
| "double_div (Finite a) (Finite b) = round_double (a / b)"

text \<open>\<^verbatim>\<open>d == 0.0\<close>.\<close>

fun double_is_zero :: "double \<Rightarrow> bool" where
  "double_is_zero (Zero s) = True"
| "double_is_zero d = False"

subsection \<open>Conversions\<close>

text \<open>
  \<^verbatim>\<open>std::stod\<close> on text without a sign or an exponent: the longest prefix of the form digits, point,
  digits with at least one digit counts, and the rest is ignored.  Without such a prefix it throws
  \<^verbatim>\<open>std::invalid_argument\<close>; a value that overflows, or that is below the normal numbers and not
  exact, throws \<^verbatim>\<open>std::out_of_range\<close>.  Both say \<open>stod\<close>.
\<close>

definition stod_prefix :: "string \<Rightarrow> string \<times> string" where
  "stod_prefix s =
     (let a = takeWhile is_digit s; r = dropWhile is_digit s
      in case r of
           [] \<Rightarrow> (a, [])
         | c # r' \<Rightarrow> if c = CHR ''.'' then (a, takeWhile is_digit r') else (a, []))"

definition decimal_value :: "string \<Rightarrow> string \<Rightarrow> rat" where
  "decimal_value a b = of_nat (digits_value (a @ b)) / 10 ^ length b"

definition stod :: "string \<Rightarrow> double throws" where
  "stod s =
     (case stod_prefix s of (a, b) \<Rightarrow>
        if a = [] \<and> b = [] then Inl (Std_Exn ''stod'')
        else let r = decimal_value a b; d = round_double r
             in case d of
                  Infinite _ \<Rightarrow> Inl (Std_Exn ''stod'')
                | _ \<Rightarrow> if r \<noteq> 0 \<and> r < pow2 (- 1022) \<and> d \<noteq> Finite r then Inl (Std_Exn ''stod'')
                       else Inr d)"

text \<open>
  \<^verbatim>\<open>std::to_string\<close>, which prints six decimals.  The text of a NaN, whose sign the standard leaves
  open, is an argument.
\<close>

definition six_digits :: "nat \<Rightarrow> string" where
  "six_digits n = map (\<lambda>i. digit_char (n div 10 ^ (5 - i) mod 10)) [0..<6]"

definition fixed_six :: "rat \<Rightarrow> string" where
  "fixed_six r =
     (let n = nat (round_even (r * 10 ^ 6))
      in nat_to_string (n div 10 ^ 6) @ ''.'' @ six_digits (n mod 10 ^ 6))"

definition double_to_string :: "string \<Rightarrow> double \<Rightarrow> string" where
  "double_to_string nan_text d =
     (let sign = (\<lambda>s. if s then ''-'' else [])
      in case d of
           NaN \<Rightarrow> nan_text
         | Infinite s \<Rightarrow> sign s @ ''inf''
         | Zero s \<Rightarrow> sign s @ ''0.000000''
         | Finite r \<Rightarrow> sign (r < 0) @ fixed_six \<bar>r\<bar>)"

end
