(* ===== verification/Mcp_Calculator.thy ===== *)
theory Mcp_Calculator
  imports Mcp_Double Mcp_Tools Mcp_Server
begin

text \<open>
  The calculator example (\<^verbatim>\<open>examples/calculator_server.cpp\<close>): its recursive-descent evaluator, member
  function by member function over the text and the position, and the tool that runs it.

  The evaluator computes as it reads.  What it is meant to compute is stated separately: the
  expressions a text spells according to the usual grammar, and the value of an expression.
\<close>

subsection \<open>The evaluator\<close>

definition skip_spaces :: "string \<Rightarrow> nat \<Rightarrow> nat" where
  "skip_spaces s p = p + length (takeWhile (\<lambda>c. c = CHR '' '') (drop p s))"

text \<open>\<^verbatim>\<open>consume\<close>; the caller advances the position.\<close>

definition consumes :: "char \<Rightarrow> string \<Rightarrow> nat \<Rightarrow> bool" where
  "consumes c s p \<longleftrightarrow> p < length s \<and> s ! p = c"

definition numeral_char :: "char \<Rightarrow> bool" where
  "numeral_char c \<longleftrightarrow> is_digit c \<or> c = CHR ''.''"

definition number :: "string \<Rightarrow> nat \<Rightarrow> (double \<times> nat) throws" where
  "number s p =
     (let start = skip_spaces s p;
          digits = takeWhile numeral_char (drop start s)
      in if digits = [] then Inl (Std_Exn (''expected a number at position '' @ nat_to_string start))
         else mapE (\<lambda>v. (v, start + length digits)) (stod digits))"

lemma skip_spaces_le: "p \<le> skip_spaces s p"
  by (simp add: skip_spaces_def)

lemma skip_spaces_bound: "p \<le> length s \<Longrightarrow> skip_spaces s p \<le> length s"
  using length_takeWhile_le [of "\<lambda>c. c = CHR '' ''" "drop p s"] by (simp add: skip_spaces_def)

lemma number_advances:
  assumes "number s p = Inr (v, p')"
  shows "p < p' \<and> p' \<le> length s"
proof -
  let ?ds = "takeWhile numeral_char (drop (skip_spaces s p) s)"
  from assms have ne: "?ds \<noteq> []" and p': "p' = skip_spaces s p + length ?ds"
    by (auto simp: number_def Let_def err_simps split: if_splits)
  have "length ?ds \<le> length s - skip_spaces s p"
    using length_takeWhile_le [of numeral_char "drop (skip_spaces s p) s"] by simp
  with ne p' show ?thesis
    using skip_spaces_le [of p s] by (cases ?ds) auto
qed

text \<open>
  The loops of \<^verbatim>\<open>expression\<close> and \<^verbatim>\<open>term\<close> carry the value computed so far.  Every call either
  consumes a character or descends to the next level of the grammar.
\<close>

function expression :: "string \<Rightarrow> nat \<Rightarrow> (double \<times> nat) throws"
  and sum_loop :: "string \<Rightarrow> nat \<Rightarrow> double \<Rightarrow> (double \<times> nat) throws"
  and term_value :: "string \<Rightarrow> nat \<Rightarrow> (double \<times> nat) throws"
  and product_loop :: "string \<Rightarrow> nat \<Rightarrow> double \<Rightarrow> (double \<times> nat) throws"
  and factor :: "string \<Rightarrow> nat \<Rightarrow> (double \<times> nat) throws"
where
  "expression s p = bindE (term_value s p) (\<lambda>(v, q). sum_loop s q v)"
| "sum_loop s p v =
     (let p = skip_spaces s p in
      if consumes (CHR ''+'') s p
      then bindE (term_value s (Suc p)) (\<lambda>(w, q). sum_loop s q (double_add v w))
      else if consumes (CHR ''-'') s p
      then bindE (term_value s (Suc p)) (\<lambda>(w, q). sum_loop s q (double_sub v w))
      else Inr (v, p))"
| "term_value s p = bindE (factor s p) (\<lambda>(v, q). product_loop s q v)"
| "product_loop s p v =
     (let p = skip_spaces s p in
      if consumes (CHR ''*'') s p
      then bindE (factor s (Suc p)) (\<lambda>(w, q). product_loop s q (double_mul v w))
      else if consumes (CHR ''/'') s p
      then bindE (factor s (Suc p)) (\<lambda>(w, q).
             if double_is_zero w then Inl (Std_Exn ''division by zero'')
             else product_loop s q (double_div v w))
      else Inr (v, p))"
| "factor s p =
     (let p = skip_spaces s p in
      if consumes (CHR ''('') s p
      then bindE (expression s (Suc p)) (\<lambda>(v, q).
             let q = skip_spaces s q in
             if consumes (CHR '')'') s q then Inr (v, Suc q)
             else Inl (Std_Exn ''missing closing parenthesis''))
      else if consumes (CHR ''-'') s p
      then mapE (\<lambda>(v, q). (double_neg v, q)) (factor s (Suc p))
      else number s p)"
  by pat_completeness auto

lemma consumes_skip: "consumes c s (skip_spaces s p) \<Longrightarrow> p < length s \<and> p \<le> skip_spaces s p \<and> skip_spaces s p < length s"
  using skip_spaces_le [of p s] by (auto simp: consumes_def)

text \<open>What a call that ends returns lies behind where it started.\<close>

lemma evaluator_advances:
  "expression_sum_loop_term_value_product_loop_factor_dom (Inl (Inl (s, p))) \<Longrightarrow>
     expression s p = Inr (v, q) \<Longrightarrow> p < q"
  "expression_sum_loop_term_value_product_loop_factor_dom (Inl (Inr (s, p, u))) \<Longrightarrow>
     sum_loop s p u = Inr (v, q) \<Longrightarrow> p \<le> q"
  "expression_sum_loop_term_value_product_loop_factor_dom (Inr (Inl (s, p))) \<Longrightarrow>
     term_value s p = Inr (v, q) \<Longrightarrow> p < q"
  "expression_sum_loop_term_value_product_loop_factor_dom (Inr (Inr (Inl (s, p, u)))) \<Longrightarrow>
     product_loop s p u = Inr (v, q) \<Longrightarrow> p \<le> q"
  "expression_sum_loop_term_value_product_loop_factor_dom (Inr (Inr (Inr (s, p)))) \<Longrightarrow>
     factor s p = Inr (v, q) \<Longrightarrow> p < q"
proof (induction arbitrary: v q and v q and v q and v q and v q
    rule: expression_sum_loop_term_value_product_loop_factor.pinduct)
  case (1 s p)
  from "1.prems" "1.hyps" obtain w r where "term_value s p = Inr (w, r)" "sum_loop s r w = Inr (v, q)"
    by (auto simp: expression.psimps err_simps)
  with "1.IH" show ?case by fastforce
next
  case (2 s p u)
  from "2.prems" "2.hyps" consider
      (stop) "q = skip_spaces s p"
    | (add) w r where "consumes (CHR ''+'') s (skip_spaces s p)"
        "term_value s (Suc (skip_spaces s p)) = Inr (w, r)" "sum_loop s r (double_add u w) = Inr (v, q)"
    | (sub) w r where "\<not> consumes (CHR ''+'') s (skip_spaces s p)" "consumes (CHR ''-'') s (skip_spaces s p)"
        "term_value s (Suc (skip_spaces s p)) = Inr (w, r)" "sum_loop s r (double_sub u w) = Inr (v, q)"
    by (auto simp: sum_loop.psimps Let_def err_simps split: if_splits)
  then show ?case
  proof cases
    case stop
    then show ?thesis using skip_spaces_le [of p s] by simp
  next
    case (add w r)
    with "2.IH"(1) [OF refl add(1,2)] "2.IH"(2) [OF refl add(1,2) refl add(3)] skip_spaces_le [of p s]
    show ?thesis by simp
  next
    case (sub w r)
    with "2.IH"(3) [OF refl sub(1,2,3)] "2.IH"(4) [OF refl sub(1,2,3) refl sub(4)] skip_spaces_le [of p s]
    show ?thesis by simp
  qed
next
  case (3 s p)
  from "3.prems" "3.hyps" obtain w r where "factor s p = Inr (w, r)" "product_loop s r w = Inr (v, q)"
    by (auto simp: term_value.psimps err_simps)
  with "3.IH" show ?case by fastforce
next
  case (4 s p u)
  from "4.prems" "4.hyps" consider
      (stop) "q = skip_spaces s p"
    | (times) w r where "consumes (CHR ''*'') s (skip_spaces s p)"
        "factor s (Suc (skip_spaces s p)) = Inr (w, r)" "product_loop s r (double_mul u w) = Inr (v, q)"
    | (over) w r where "\<not> consumes (CHR ''*'') s (skip_spaces s p)" "consumes (CHR ''/'') s (skip_spaces s p)"
        "factor s (Suc (skip_spaces s p)) = Inr (w, r)" "\<not> double_is_zero w"
        "product_loop s r (double_div u w) = Inr (v, q)"
    by (auto simp: product_loop.psimps Let_def err_simps split: if_splits)
  then show ?case
  proof cases
    case stop
    then show ?thesis using skip_spaces_le [of p s] by simp
  next
    case (times w r)
    with "4.IH"(1) [OF refl times(1,2)] "4.IH"(2) [OF refl times(1,2) refl times(3)] skip_spaces_le [of p s]
    show ?thesis by simp
  next
    case (over w r)
    with "4.IH"(3) [OF refl over(1,2,3)] "4.IH"(4) [OF refl over(1,2,3) refl over(4,5)] skip_spaces_le [of p s]
    show ?thesis by simp
  qed
next
  case (5 s p)
  from "5.prems" "5.hyps" consider
      (paren) w r where "consumes (CHR ''('') s (skip_spaces s p)"
        "expression s (Suc (skip_spaces s p)) = Inr (w, r)" "q = Suc (skip_spaces s r)"
    | (minus) w where "\<not> consumes (CHR ''('') s (skip_spaces s p)" "consumes (CHR ''-'') s (skip_spaces s p)"
        "factor s (Suc (skip_spaces s p)) = Inr (w, q)"
    | (numeral) "number s (skip_spaces s p) = Inr (v, q)"
    by (auto simp: factor.psimps Let_def err_simps split: if_splits)
  then show ?case
  proof cases
    case (paren w r)
    with "5.IH"(1) [OF refl paren(1,2)] skip_spaces_le [of p s] skip_spaces_le [of r s]
    show ?thesis by simp
  next
    case (minus w)
    with "5.IH"(2) [OF refl minus(1,2,3)] skip_spaces_le [of p s] show ?thesis by simp
  next
    case numeral
    with number_advances [of s "skip_spaces s p"] skip_spaces_le [of p s] show ?thesis by fastforce
  qed
qed

text \<open>
  The evaluator returns: either less text is left, or the call is one level down in the grammar.
\<close>

fun evaluator_measure :: "(string \<times> nat + string \<times> nat \<times> double) + string \<times> nat +
    string \<times> nat \<times> double + string \<times> nat \<Rightarrow> nat" where
  "evaluator_measure (Inl (Inl (s, p))) = 4 * (length s - p) + 3"
| "evaluator_measure (Inl (Inr (s, p, v))) = 4 * (length s - p) + 1"
| "evaluator_measure (Inr (Inl (s, p))) = 4 * (length s - p) + 2"
| "evaluator_measure (Inr (Inr (Inl (s, p, v)))) = 4 * (length s - p)"
| "evaluator_measure (Inr (Inr (Inr (s, p)))) = 4 * (length s - p) + 1"

termination expression
proof (relation "measure evaluator_measure", goal_cases)
  case 1
  show ?case by simp
qed (auto dest!: consumes_skip evaluator_advances)

declare expression.simps [simp del] sum_loop.simps [simp del] term_value.simps [simp del]
  product_loop.simps [simp del] factor.simps [simp del]

definition evaluate :: "string \<Rightarrow> double throws" where
  "evaluate s =
     bindE (expression s 0) (\<lambda>(v, p).
       let p = skip_spaces s p
       in if p \<noteq> length s then Inl (Std_Exn (''unexpected character at position '' @ nat_to_string p))
          else Inr v)"

text \<open>The handler of the tool \<^verbatim>\<open>calculate\<close>.\<close>

definition calculate :: "string \<Rightarrow> tool_handler" where
  "calculate nan_text args =
     (let failed = (\<lambda>w. \<lparr>ctr_content = [text_content (''Evaluation failed: '' @ w)], ctr_is_error = True\<rparr>)
      in catch_all (\<lambda>e. failed (err_message e)) failed
           (mapE (\<lambda>v. \<lparr>ctr_content = [text_content (double_to_string nan_text v)], ctr_is_error = False\<rparr>)
             (bindE (bindE (json_at ''expression'' args) get_string) evaluate)))"

subsection \<open>Expressions\<close>

datatype operator = Plus | Minus | Times | Over

datatype expr = Num string | Neg expr | Bin operator expr expr

fun apply_operator :: "operator \<Rightarrow> double \<Rightarrow> double \<Rightarrow> double throws" where
  "apply_operator Plus x y = Inr (double_add x y)"
| "apply_operator Minus x y = Inr (double_sub x y)"
| "apply_operator Times x y = Inr (double_mul x y)"
| "apply_operator Over x y =
     (if double_is_zero y then Inl (Std_Exn ''division by zero'') else Inr (double_div x y))"

fun expr_value :: "expr \<Rightarrow> double throws" where
  "expr_value (Num d) = stod d"
| "expr_value (Neg e) = mapE double_neg (expr_value e)"
| "expr_value (Bin c a b) = bindE (expr_value a) (\<lambda>x. bindE (expr_value b) (apply_operator c x))"

text \<open>
  The texts of an expression: the binary operators associate to the left, the multiplicative ones
  bind tighter, a sign binds tightest, and spaces may stand in front of every token.
\<close>

abbreviation blanks :: "nat \<Rightarrow> string" where
  "blanks k \<equiv> replicate k (CHR '' '')"

inductive spells_expr :: "expr \<Rightarrow> string \<Rightarrow> bool"
  and spells_term :: "expr \<Rightarrow> string \<Rightarrow> bool"
  and spells_factor :: "expr \<Rightarrow> string \<Rightarrow> bool"
where
  expr_term: "spells_term e s \<Longrightarrow> spells_expr e s"
| expr_plus: "spells_expr a s \<Longrightarrow> spells_term b t \<Longrightarrow> spells_expr (Bin Plus a b) (s @ blanks k @ CHR ''+'' # t)"
| expr_minus: "spells_expr a s \<Longrightarrow> spells_term b t \<Longrightarrow> spells_expr (Bin Minus a b) (s @ blanks k @ CHR ''-'' # t)"
| term_factor: "spells_factor e s \<Longrightarrow> spells_term e s"
| term_times: "spells_term a s \<Longrightarrow> spells_factor b t \<Longrightarrow> spells_term (Bin Times a b) (s @ blanks k @ CHR ''*'' # t)"
| term_over: "spells_term a s \<Longrightarrow> spells_factor b t \<Longrightarrow> spells_term (Bin Over a b) (s @ blanks k @ CHR ''/'' # t)"
| factor_paren: "spells_expr e s \<Longrightarrow> spells_factor e (blanks k @ CHR ''('' # s @ blanks m @ '')'')"
| factor_neg: "spells_factor e s \<Longrightarrow> spells_factor (Neg e) (blanks k @ CHR ''-'' # s)"
| factor_num: "d \<noteq> [] \<Longrightarrow> list_all numeral_char d \<Longrightarrow> spells_factor (Num d) (blanks k @ d)"

text \<open>A whole text may also end in spaces.\<close>

inductive spells :: "expr \<Rightarrow> string \<Rightarrow> bool" where
  "spells_expr e s \<Longrightarrow> spells e (s @ blanks k)"

subsection \<open>Every expression is evaluated to its value\<close>

abbreviation not_blank :: "string \<Rightarrow> bool" where
  "not_blank r \<equiv> r = [] \<or> hd r \<noteq> CHR '' ''"

lemma take_blanks: "not_blank r \<Longrightarrow> takeWhile (\<lambda>c. c = CHR '' '') (blanks k @ r) = blanks k"
  by (induction k) (cases r; auto)+

lemma skip_blanks:
  "not_blank r \<Longrightarrow> skip_spaces (pre @ blanks k @ r) (length pre) = length pre + k"
  by (simp add: skip_spaces_def take_blanks)

lemma skip_blanks_at:
  "s = pre @ blanks k @ r \<Longrightarrow> p = length pre \<Longrightarrow> not_blank r \<Longrightarrow> skip_spaces s p = length pre + k"
  by (simp add: skip_blanks)

lemma consumes_at:
  "s = pre @ blanks k @ r \<Longrightarrow> p = length pre + k \<Longrightarrow> consumes c s p \<longleftrightarrow> r \<noteq> [] \<and> hd r = c"
  by (cases r) (auto simp: consumes_def nth_append)

lemma blanks_split:
  obtains k r where "s = blanks k @ r" and "not_blank r"
proof
  show "s = blanks (length (takeWhile (\<lambda>c. c = CHR '' '') s)) @ dropWhile (\<lambda>c. c = CHR '' '') s"
    by (induction s) auto
  show "not_blank (dropWhile (\<lambda>c. c = CHR '' '') s)"
    using hd_dropWhile [of "\<lambda>c. c = CHR '' ''" s] by blast
qed

lemma skip_spaces_idem [simp]: "skip_spaces s (skip_spaces s p) = skip_spaces s p"
proof -
  obtain k r where r: "drop p s = blanks k @ r" "not_blank r" by (rule blanks_split)
  then have "takeWhile (\<lambda>c. c = CHR '' '') (drop (p + k) s) = []"
    by (cases r) (simp_all flip: drop_drop add: add.commute [of p])
  moreover have "skip_spaces s p = p + k" by (simp add: skip_spaces_def r take_blanks)
  ultimately show ?thesis by (simp add: skip_spaces_def)
qed

lemma loops_skip: "sum_loop s (skip_spaces s p) v = sum_loop s p v"
  "product_loop s (skip_spaces s p) v = product_loop s p v"
  by (subst (1 2) sum_loop.simps, simp) (subst (1 2) product_loop.simps, simp)

definition after_numeral :: "string \<Rightarrow> bool" where
  "after_numeral r \<longleftrightarrow> r = [] \<or> \<not> numeral_char (hd r)"

definition after_term :: "string \<Rightarrow> bool" where
  "after_term r \<longleftrightarrow>
     after_numeral r \<and>
     (let r = dropWhile (\<lambda>c. c = CHR '' '') r in r = [] \<or> hd r \<noteq> CHR ''*'' \<and> hd r \<noteq> CHR ''/'')"

lemma drop_blanks: "not_blank r \<Longrightarrow> dropWhile (\<lambda>c. c = CHR '' '') (blanks k @ r) = r"
  by (induction k) (cases r; auto)+

lemma after_blanks:
  "c \<noteq> CHR '' '' \<Longrightarrow> \<not> numeral_char c \<Longrightarrow> after_numeral (blanks k @ c # r)"
  "c \<noteq> CHR '' '' \<Longrightarrow> \<not> numeral_char c \<Longrightarrow> c \<noteq> CHR ''*'' \<Longrightarrow> c \<noteq> CHR ''/'' \<Longrightarrow> after_term (blanks k @ c # r)"
  "after_term (blanks k)"
  using drop_blanks [of "c # r" k] drop_blanks [of "[]" k]
  by (cases k; simp add: after_numeral_def after_term_def numeral_char_def is_digit_def)+

lemma product_loop_stops:
  assumes "after_term r" and "s = pre @ r" and "p = length pre"
  shows "product_loop s p v = Inr (v, skip_spaces s p)"
proof -
  obtain k t where t: "r = blanks k @ t" "not_blank t" by (rule blanks_split)
  with assms have "skip_spaces s p = length pre + k" by (simp add: skip_blanks)
  moreover have "consumes c s (length pre + k) \<longleftrightarrow> t \<noteq> [] \<and> hd t = c" for c
    using assms t by (intro consumes_at) auto
  ultimately show ?thesis
    using assms(1) t by (subst product_loop.simps) (auto simp: after_term_def drop_blanks Let_def)
qed

lemma number_read:
  assumes "s = pre @ blanks k @ d @ r" and "p = length pre" and "d \<noteq> []" and "list_all numeral_char d"
    and "after_numeral r"
  shows "number s p = mapE (\<lambda>v. (v, length pre + k + length d)) (stod d)"
proof -
  have "hd d \<noteq> CHR '' ''" using assms(3,4) by (cases d) (auto simp: numeral_char_def is_digit_def)
  then have sk: "skip_spaces s p = length pre + k" using assms(1-3) by (simp add: skip_blanks)
  have "takeWhile numeral_char (d @ r) = d"
    using assms(4,5) by (cases r) (auto simp: after_numeral_def takeWhile_append2 list_all_iff)
  with sk assms(1,3) show ?thesis by (simp add: number_def)
qed

text \<open>One turn of the loops, and the three kinds of factors, at a known place of the text.\<close>

lemma sum_loop_turn:
  assumes "s = pre @ blanks k @ c # t" and "p = length pre" and "c = CHR ''+'' \<or> c = CHR ''-''"
  shows "sum_loop s p v =
     bindE (term_value s (length pre + k + 1)) (\<lambda>(w, q). sum_loop s q
       (if c = CHR ''+'' then double_add v w else double_sub v w))"
proof -
  have "skip_spaces s p = length pre + k" using assms by (intro skip_blanks_at) auto
  moreover have "consumes d s (length pre + k) \<longleftrightarrow> c = d" for d
    using consumes_at [of s pre k "c # t" "length pre + k" d] assms(1) by simp
  ultimately show ?thesis using assms(3) by (elim disjE) (simp_all add: sum_loop.simps [of s p] Let_def)
qed

lemma product_loop_turn:
  assumes "s = pre @ blanks k @ c # t" and "p = length pre" and "c = CHR ''*'' \<or> c = CHR ''/''"
  shows "product_loop s p v =
     bindE (factor s (length pre + k + 1)) (\<lambda>(w, q).
       if c = CHR ''*'' then product_loop s q (double_mul v w)
       else if double_is_zero w then Inl (Std_Exn ''division by zero'')
       else product_loop s q (double_div v w))"
proof -
  have "skip_spaces s p = length pre + k" using assms by (intro skip_blanks_at) auto
  moreover have "consumes d s (length pre + k) \<longleftrightarrow> c = d" for d
    using consumes_at [of s pre k "c # t" "length pre + k" d] assms(1) by simp
  ultimately show ?thesis using assms(3) by (elim disjE) (simp_all add: product_loop.simps [of s p] Let_def)
qed

lemma factor_at:
  assumes "s = pre @ blanks k @ c # t" and "p = length pre" and "c \<noteq> CHR '' ''"
  shows "factor s p =
     (if c = CHR ''('' then bindE (expression s (length pre + k + 1)) (\<lambda>(v, q).
        let q = skip_spaces s q in
        if consumes (CHR '')'') s q then Inr (v, Suc q)
        else Inl (Std_Exn ''missing closing parenthesis''))
      else if c = CHR ''-'' then mapE (\<lambda>(v, q). (double_neg v, q)) (factor s (length pre + k + 1))
      else number s (length pre + k))"
proof -
  have "skip_spaces s p = length pre + k" using assms by (intro skip_blanks_at) auto
  moreover have "consumes d s (length pre + k) \<longleftrightarrow> c = d" for d
    using consumes_at [of s pre k "c # t" "length pre + k" d] assms(1) by simp
  ultimately show ?thesis by (simp add: factor.simps [of s p] Let_def)
qed

lemma bindE_assoc: "bindE (bindE m f) g = bindE m (\<lambda>x. bindE (f x) g)"
  by (cases m) simp_all

lemma mapE_bindE: "mapE f m = bindE m (\<lambda>x. Inr (f x))"
  by (cases m) simp_all

lemma evaluator_complete:
  "spells_expr e x \<Longrightarrow> after_term r \<Longrightarrow> s = pre @ x @ r \<Longrightarrow> p = length pre \<Longrightarrow>
     expression s p = bindE (expr_value e) (\<lambda>v. sum_loop s (p + length x) v)"
  "spells_term e x \<Longrightarrow> after_numeral r \<Longrightarrow> s = pre @ x @ r \<Longrightarrow> p = length pre \<Longrightarrow>
     term_value s p = bindE (expr_value e) (\<lambda>v. product_loop s (p + length x) v)"
  "spells_factor e x \<Longrightarrow> after_numeral r \<Longrightarrow> s = pre @ x @ r \<Longrightarrow> p = length pre \<Longrightarrow>
     factor s p = bindE (expr_value e) (\<lambda>v. Inr (v, p + length x))"
proof (induction arbitrary: pre r p and pre r p and pre r p
    rule: spells_expr_spells_term_spells_factor.inducts)
  case (expr_term e x)
  have "product_loop s (p + length x) v = Inr (v, skip_spaces s (p + length x))" for v
    using product_loop_stops [of r s "pre @ x" "p + length x" v] expr_term.prems by simp
  moreover have "after_numeral r" using expr_term.prems(1) by (simp add: after_term_def)
  ultimately have "term_value s p = bindE (expr_value e) (\<lambda>v. Inr (v, skip_spaces s (p + length x)))"
    using expr_term.IH [of r pre p] expr_term.prems(2,3) by simp
  then show ?case by (simp add: expression.simps [of s p] bindE_assoc loops_skip)
next
  case (expr_plus a x b t k)
  let ?r = "blanks k @ CHR ''+'' # t @ r" and ?q = "p + length x + k + 1"
  have turn: "sum_loop s (p + length x) v =
      bindE (term_value s ?q) (\<lambda>(w, q). sum_loop s q (double_add v w))" for v
    using sum_loop_turn [of s "pre @ x" k "CHR ''+''" "t @ r" "p + length x" v] expr_plus.prems by simp
  have "product_loop s (?q + length t) v = Inr (v, skip_spaces s (?q + length t))" for v
    using product_loop_stops [of r s "pre @ x @ blanks k @ CHR ''+'' # t" "?q + length t" v] expr_plus.prems by simp
  moreover have "expression s p = bindE (expr_value a) (\<lambda>v. sum_loop s (p + length x) v)"
    using expr_plus.IH(1) [of ?r pre p] expr_plus.prems
    by (simp add: after_blanks numeral_char_def is_digit_def)
  moreover have "term_value s ?q = bindE (expr_value b) (\<lambda>v. product_loop s (?q + length t) v)"
    using expr_plus.IH(2) [of r "pre @ x @ blanks k @ ''+''" ?q] expr_plus.prems by (simp add: after_term_def)
  ultimately show ?case by (simp add: turn bindE_assoc loops_skip add_ac comp_def)
next
  case (expr_minus a x b t k)
  let ?r = "blanks k @ CHR ''-'' # t @ r" and ?q = "p + length x + k + 1"
  have turn: "sum_loop s (p + length x) v =
      bindE (term_value s ?q) (\<lambda>(w, q). sum_loop s q (double_sub v w))" for v
    using sum_loop_turn [of s "pre @ x" k "CHR ''-''" "t @ r" "p + length x" v] expr_minus.prems by simp
  have "product_loop s (?q + length t) v = Inr (v, skip_spaces s (?q + length t))" for v
    using product_loop_stops [of r s "pre @ x @ blanks k @ CHR ''-'' # t" "?q + length t" v] expr_minus.prems by simp
  moreover have "expression s p = bindE (expr_value a) (\<lambda>v. sum_loop s (p + length x) v)"
    using expr_minus.IH(1) [of ?r pre p] expr_minus.prems
    by (simp add: after_blanks numeral_char_def is_digit_def)
  moreover have "term_value s ?q = bindE (expr_value b) (\<lambda>v. product_loop s (?q + length t) v)"
    using expr_minus.IH(2) [of r "pre @ x @ blanks k @ ''-''" ?q] expr_minus.prems by (simp add: after_term_def)
  ultimately show ?case by (simp add: turn bindE_assoc loops_skip add_ac comp_def)
next
  case (term_factor e x)
  then have "factor s p = bindE (expr_value e) (\<lambda>v. Inr (v, p + length x))" by blast
  then show ?case by (simp add: term_value.simps [of s p] bindE_assoc)
next
  case (term_times a x b t k)
  let ?r = "blanks k @ CHR ''*'' # t @ r" and ?q = "p + length x + k + 1"
  have turn: "product_loop s (p + length x) v =
      bindE (factor s ?q) (\<lambda>(w, q). product_loop s q (double_mul v w))" for v
    using product_loop_turn [of s "pre @ x" k "CHR ''*''" "t @ r" "p + length x" v] term_times.prems by simp
  moreover have "term_value s p = bindE (expr_value a) (\<lambda>v. product_loop s (p + length x) v)"
    using term_times.IH(1) [of ?r pre p] term_times.prems
    by (simp add: after_blanks numeral_char_def is_digit_def)
  moreover have "factor s ?q = bindE (expr_value b) (\<lambda>v. Inr (v, ?q + length t))"
    using term_times.IH(2) [of r "pre @ x @ blanks k @ ''*''" ?q] term_times.prems by simp
  ultimately show ?case by (simp add: bindE_assoc add_ac comp_def)
next
  case (term_over a x b t k)
  let ?r = "blanks k @ CHR ''/'' # t @ r" and ?q = "p + length x + k + 1"
  have turn: "product_loop s (p + length x) v =
      bindE (factor s ?q) (\<lambda>(w, q). if double_is_zero w then Inl (Std_Exn ''division by zero'')
         else product_loop s q (double_div v w))" for v
    using product_loop_turn [of s "pre @ x" k "CHR ''/''" "t @ r" "p + length x" v] term_over.prems by simp
  moreover have "term_value s p = bindE (expr_value a) (\<lambda>v. product_loop s (p + length x) v)"
    using term_over.IH(1) [of ?r pre p] term_over.prems
    by (simp add: after_blanks numeral_char_def is_digit_def)
  moreover have "factor s ?q = bindE (expr_value b) (\<lambda>v. Inr (v, ?q + length t))"
    using term_over.IH(2) [of r "pre @ x @ blanks k @ ''/''" ?q] term_over.prems by simp
  ultimately show ?case by (simp add: bindE_assoc add_ac comp_def if_distrib [of "\<lambda>m. bindE m _"] cong: if_cong)
next
  case (factor_paren e x k m)
  let ?r = "blanks m @ CHR '')'' # r" and ?q = "p + k + 1"
  have "expression s ?q = bindE (expr_value e) (\<lambda>v. sum_loop s (?q + length x) v)"
    using factor_paren.IH [of ?r "pre @ blanks k @ ''(''" ?q] factor_paren.prems
    by (simp add: after_blanks numeral_char_def is_digit_def)
  moreover have "skip_spaces s (?q + length x) = ?q + length x + m"
    using skip_blanks_at [of s "pre @ blanks k @ CHR ''('' # x" m "CHR '')'' # r"] factor_paren.prems
    by (simp add: ac_simps)
  moreover have "consumes c s (?q + length x + m) \<longleftrightarrow> c = CHR '')''" for c
    using consumes_at [of s "pre @ blanks k @ CHR ''('' # x" m "CHR '')'' # r" _ c] factor_paren.prems
    by (auto simp: ac_simps)
  moreover from calculation have "sum_loop s (?q + length x) = (\<lambda>v. Inr (v, ?q + length x + m))"
    by (intro ext, subst sum_loop.simps) (simp add: Let_def)
  moreover have "skip_spaces s (?q + length x + m) = ?q + length x + m"
    using calculation(2) skip_spaces_idem [of s "?q + length x"] by simp
  ultimately have "expression s ?q = bindE (expr_value e) (\<lambda>v. Inr (v, ?q + length x + m))"
    "consumes (CHR '')'') s (?q + length x + m)"
    "skip_spaces s (?q + length x + m) = ?q + length x + m"
    by simp_all
  then show ?case
    using factor_at [of s pre k "CHR ''(''" "x @ ?r" p] factor_paren.prems
    by (simp add: bindE_assoc add_ac)
next
  case (factor_neg e x k)
  have "factor s (p + k + 1) = bindE (expr_value e) (\<lambda>v. Inr (v, p + k + 1 + length x))"
    using factor_neg.IH [of r "pre @ blanks k @ ''-''" "p + k + 1"] factor_neg.prems by simp
  then show ?case
    using factor_at [of s pre k "CHR ''-''" "x @ r" p] factor_neg.prems
    by (simp add: mapE_bindE bindE_assoc add_ac)
next
  case (factor_num d k)
  then obtain c d' where d: "d = c # d'" by (cases d) auto
  with factor_num.hyps have "c \<noteq> CHR '' ''" "c \<noteq> CHR ''(''" "c \<noteq> CHR ''-''"
    by (auto simp: numeral_char_def is_digit_def)
  then show ?case
    using factor_at [of s pre k c "d' @ r" p] number_read [of s "pre @ blanks k" 0 d r "p + k"] factor_num d
    by (simp add: mapE_bindE ac_simps)
qed

lemma evaluate_spelled:
  assumes "spells e s"
  shows "evaluate s = expr_value e"
proof -
  from assms obtain x k where x: "s = x @ blanks k" "spells_expr e x" by (auto elim: spells.cases)
  have "expression s 0 = bindE (expr_value e) (\<lambda>v. sum_loop s (length x) v)"
    using evaluator_complete(1) [OF x(2) after_blanks(3) [of k], of s "[]" 0] x(1) by simp
  moreover have sk: "skip_spaces s (length x) = length s"
    using skip_blanks_at [of s x k "[]"] x(1) by simp
  moreover have "\<not> consumes c s (length s)" for c by (simp add: consumes_def)
  ultimately have "expression s 0 = bindE (expr_value e) (\<lambda>v. Inr (v, length s))"
    by (simp add: sum_loop.simps [of s "length x"])
  moreover have "skip_spaces s (length s) = length s" using skip_spaces_idem [of s "length x"] sk by simp
  ultimately show ?thesis by (cases "expr_value e") (simp_all add: evaluate_def)
qed

subsection \<open>Every value is that of an expression\<close>

lemma drop_skip: "drop p s = blanks (skip_spaces s p - p) @ drop (skip_spaces s p) s"
proof -
  obtain k r where r: "drop p s = blanks k @ r" "not_blank r" by (rule blanks_split)
  then have "skip_spaces s p = p + k" by (simp add: skip_spaces_def take_blanks)
  moreover have "drop (p + k) s = r" using r by (simp flip: drop_drop add: add.commute [of p])
  ultimately show ?thesis using r by simp
qed

lemma drop_consumed: "consumes c s p \<Longrightarrow> drop p s = c # drop (Suc p) s"
  by (auto simp: consumes_def Cons_nth_drop_Suc)

lemma consumed_after_skip:
  "consumes c s (skip_spaces s p) \<Longrightarrow> \<exists>k. drop p s = blanks k @ c # drop (Suc (skip_spaces s p)) s"
  using drop_skip [of p s] drop_consumed by metis

lemma number_sound:
  assumes "number s p = Inr (v, q)"
  shows "\<exists>d k. d \<noteq> [] \<and> list_all numeral_char d \<and> stod d = Inr v \<and> drop p s = blanks k @ d @ drop q s"
proof -
  let ?d = "takeWhile numeral_char (drop (skip_spaces s p) s)"
  from assms have d: "?d \<noteq> []" "stod ?d = Inr v" "q = skip_spaces s p + length ?d"
    by (auto simp: number_def Let_def err_simps split: if_splits)
  then have "drop q s = dropWhile numeral_char (drop (skip_spaces s p) s)"
    by (simp add: dropWhile_eq_drop add.commute)
  then have "drop p s = blanks (skip_spaces s p - p) @ ?d @ drop q s"
    using drop_skip [of p s] by simp
  with d(1,2) show ?thesis by (auto simp: list_all_iff dest: set_takeWhileD)
qed

text \<open>
  The loops extend the text read so far, \<open>x\<close>, which spells an expression with the value so far.
\<close>

lemma evaluator_sound:
  "expression s p = Inr (v, q) \<Longrightarrow>
     \<exists>e x k. spells_expr e x \<and> expr_value e = Inr v \<and> drop p s = x @ blanks k @ drop q s"
  "sum_loop s p u = Inr (v, q) \<Longrightarrow> spells_expr e x \<Longrightarrow> expr_value e = Inr u \<Longrightarrow>
     \<exists>e' x' k'. spells_expr e' x' \<and> expr_value e' = Inr v \<and>
       x @ blanks k @ drop p s = x' @ blanks k' @ drop q s"
  "term_value s p = Inr (v, q) \<Longrightarrow>
     \<exists>e x k. spells_term e x \<and> expr_value e = Inr v \<and> drop p s = x @ blanks k @ drop q s"
  "product_loop s p u = Inr (v, q) \<Longrightarrow> spells_term e x \<Longrightarrow> expr_value e = Inr u \<Longrightarrow>
     \<exists>e' x' k'. spells_term e' x' \<and> expr_value e' = Inr v \<and>
       x @ drop p s = x' @ blanks k' @ drop q s"
  "factor s p = Inr (v, q) \<Longrightarrow>
     \<exists>e x. spells_factor e x \<and> expr_value e = Inr v \<and> drop p s = x @ drop q s"
proof (induction s p and s p u and s p and s p u and s p
    arbitrary: v q and v q e x k and v q and v q e x and v q
    rule: expression_sum_loop_term_value_product_loop_factor.induct)
  case (1 s p)
  from "1.prems" obtain w r where w: "term_value s p = Inr (w, r)" "sum_loop s r w = Inr (v, q)"
    by (auto simp: expression.simps [of s p] err_simps)
  from "1.IH"(1) [OF w(1)] obtain e x k where e: "spells_term e x" "expr_value e = Inr w" "drop p s = x @ blanks k @ drop r s"
    by blast
  from "1.IH"(2) [OF w(1) refl w(2) expr_term [OF e(1)] e(2), of k] e(3) show ?case by simp
next
  case (2 s p u)
  let ?p = "skip_spaces s p"
  consider (add) w r where "consumes (CHR ''+'') s ?p" "term_value s (Suc ?p) = Inr (w, r)"
        "sum_loop s r (double_add u w) = Inr (v, q)"
    | (sub) w r where "\<not> consumes (CHR ''+'') s ?p" "consumes (CHR ''-'') s ?p"
        "term_value s (Suc ?p) = Inr (w, r)" "sum_loop s r (double_sub u w) = Inr (v, q)"
    | (stop) "v = u" "q = ?p"
    using "2.prems"(1) by (auto simp: sum_loop.simps [of s p] Let_def err_simps split: if_splits)
  then show ?case
  proof cases
    case (add w r)
    from "2.IH"(1) [OF refl add(1,2)] obtain b t m where
      b: "spells_term b t" "expr_value b = Inr w" "drop (Suc ?p) s = t @ blanks m @ drop r s" by blast
    obtain j where j: "drop p s = blanks j @ CHR ''+'' # drop (Suc ?p) s" using consumed_after_skip [OF add(1)] by blast
    have "x @ blanks k @ drop p s = (x @ blanks (k + j) @ CHR ''+'' # t) @ blanks m @ drop r s"
      using j b(3) by (simp add: replicate_add)
    then show ?thesis
      using "2.IH"(2) [OF refl add(1,2) refl add(3) expr_plus [OF "2.prems"(2) b(1), of "k + j"], of m] b(2) "2.prems"(3)
      by simp
  next
    case (sub w r)
    from "2.IH"(3) [OF refl sub(1,2,3)] obtain b t m where
      b: "spells_term b t" "expr_value b = Inr w" "drop (Suc ?p) s = t @ blanks m @ drop r s" by blast
    obtain j where j: "drop p s = blanks j @ CHR ''-'' # drop (Suc ?p) s" using consumed_after_skip [OF sub(2)] by blast
    have "x @ blanks k @ drop p s = (x @ blanks (k + j) @ CHR ''-'' # t) @ blanks m @ drop r s"
      using j b(3) by (simp add: replicate_add)
    then show ?thesis
      using "2.IH"(4) [OF refl sub(1,2,3) refl sub(4) expr_minus [OF "2.prems"(2) b(1), of "k + j"], of m] b(2) "2.prems"(3)
      by simp
  next
    case stop
    have "x @ blanks k @ drop p s = x @ blanks (k + (?p - p)) @ drop ?p s"
      using drop_skip [of p s] by (metis append.assoc replicate_add)
    with stop "2.prems" show ?thesis by blast
  qed
next
  case (3 s p)
  from "3.prems" obtain w r where w: "factor s p = Inr (w, r)" "product_loop s r w = Inr (v, q)"
    by (auto simp: term_value.simps [of s p] err_simps)
  from "3.IH"(1) [OF w(1)] obtain e x where e: "spells_factor e x" "expr_value e = Inr w" "drop p s = x @ drop r s"
    by blast
  from "3.IH"(2) [OF w(1) refl w(2) term_factor [OF e(1)] e(2)] e(3) show ?case by simp
next
  case (4 s p u)
  let ?p = "skip_spaces s p"
  consider (times) w r where "consumes (CHR ''*'') s ?p" "factor s (Suc ?p) = Inr (w, r)"
        "product_loop s r (double_mul u w) = Inr (v, q)"
    | (over) w r where "\<not> consumes (CHR ''*'') s ?p" "consumes (CHR ''/'') s ?p"
        "factor s (Suc ?p) = Inr (w, r)" "\<not> double_is_zero w" "product_loop s r (double_div u w) = Inr (v, q)"
    | (stop) "v = u" "q = ?p"
    using "4.prems"(1) by (auto simp: product_loop.simps [of s p] Let_def err_simps split: if_splits)
  then show ?case
  proof cases
    case (times w r)
    from "4.IH"(1) [OF refl times(1,2)] obtain b t where
      b: "spells_factor b t" "expr_value b = Inr w" "drop (Suc ?p) s = t @ drop r s" by blast
    obtain j where j: "drop p s = blanks j @ CHR ''*'' # drop (Suc ?p) s" using consumed_after_skip [OF times(1)] by blast
    from "4.IH"(2) [OF refl times(1,2) refl times(3) term_times [OF "4.prems"(2) b(1), of j]] b "4.prems"(3) j
    show ?thesis by simp
  next
    case (over w r)
    from "4.IH"(3) [OF refl over(1,2,3)] obtain b t where
      b: "spells_factor b t" "expr_value b = Inr w" "drop (Suc ?p) s = t @ drop r s" by blast
    obtain j where j: "drop p s = blanks j @ CHR ''/'' # drop (Suc ?p) s" using consumed_after_skip [OF over(2)] by blast
    from "4.IH"(4) [OF refl over(1,2,3) refl over(4,5) term_over [OF "4.prems"(2) b(1), of j]] b "4.prems"(3) j over(4)
    show ?thesis by simp
  next
    case stop
    with "4.prems" drop_skip [of p s] show ?thesis by metis
  qed
next
  case (5 s p)
  let ?p = "skip_spaces s p"
  consider (paren) r where "consumes (CHR ''('') s ?p" "expression s (Suc ?p) = Inr (v, r)"
        "consumes (CHR '')'') s (skip_spaces s r)" "q = Suc (skip_spaces s r)"
    | (minus) w where "\<not> consumes (CHR ''('') s ?p" "consumes (CHR ''-'') s ?p"
        "factor s (Suc ?p) = Inr (w, q)" "v = double_neg w"
    | (numeral) "number s ?p = Inr (v, q)"
    using "5.prems" by (auto simp: factor.simps [of s p] Let_def err_simps split: if_splits)
  then show ?case
  proof cases
    case (paren r)
    from "5.IH"(1) [OF refl paren(1,2)] obtain e x m where
      e: "spells_expr e x" "expr_value e = Inr v" "drop (Suc ?p) s = x @ blanks m @ drop r s" by blast
    obtain j where j: "drop p s = blanks j @ CHR ''('' # drop (Suc ?p) s" using consumed_after_skip [OF paren(1)] by blast
    obtain i where i: "drop r s = blanks i @ CHR '')'' # drop q s" using consumed_after_skip [OF paren(3)] paren(4) by blast
    have "blanks m @ blanks i = blanks (m + i)" by (simp add: replicate_add)
    with factor_paren [OF e(1), of j "m + i"] e i j show ?thesis by fastforce
  next
    case (minus w)
    from "5.IH"(2) [OF refl minus(1,2,3)] obtain e x where
      e: "spells_factor e x" "expr_value e = Inr w" "drop (Suc ?p) s = x @ drop q s" by blast
    obtain j where j: "drop p s = blanks j @ CHR ''-'' # drop (Suc ?p) s" using consumed_after_skip [OF minus(2)] by blast
    with factor_neg [OF e(1), of j] e minus(4) show ?thesis by fastforce
  next
    case numeral
    from number_sound [OF this] obtain d k where
      d: "d \<noteq> []" "list_all numeral_char d" "stod d = Inr v" "drop ?p s = blanks k @ d @ drop q s" by blast
    then have "drop p s = blanks (?p - p + k) @ d @ drop q s"
      using drop_skip [of p s] by (simp add: replicate_add)
    with factor_num [OF d(1,2), of "?p - p + k"] d(3) show ?thesis by fastforce
  qed
qed

subsection \<open>The tool\<close>

lemma stod_throws: "stod d = Inl x \<Longrightarrow> \<exists>w. x = Std_Exn w"
  by (auto simp: stod_def Let_def split: prod.splits double.splits if_splits)

lemma evaluator_throws:
  "expression s p = Inl x \<Longrightarrow> \<exists>w. x = Std_Exn w"
  "sum_loop s p u = Inl x \<Longrightarrow> \<exists>w. x = Std_Exn w"
  "term_value s p = Inl x \<Longrightarrow> \<exists>w. x = Std_Exn w"
  "product_loop s p u = Inl x \<Longrightarrow> \<exists>w. x = Std_Exn w"
  "factor s p = Inl x \<Longrightarrow> \<exists>w. x = Std_Exn w"
proof (induction s p and s p u and s p and s p u and s p
    rule: expression_sum_loop_term_value_product_loop_factor.induct)
  case (1 s p)
  then show ?case by (fastforce simp: expression.simps [of s p] err_simps)
next
  case (2 s p u)
  then show ?case by (fastforce simp: sum_loop.simps [of s p] Let_def err_simps split: if_splits)
next
  case (3 s p)
  then show ?case by (fastforce simp: term_value.simps [of s p] err_simps)
next
  case (4 s p u)
  then show ?case by (fastforce simp: product_loop.simps [of s p] Let_def err_simps split: if_splits)
next
  case (5 s p)
  then show ?case
    by (fastforce simp: factor.simps [of s p] number_def Let_def err_simps split: if_splits dest: stod_throws)
qed

lemma evaluate_throws: "evaluate s = Inl x \<Longrightarrow> \<exists>w. x = Std_Exn w"
  by (auto simp: evaluate_def Let_def err_simps split: if_splits dest: evaluator_throws)

lemma stod_integer:
  assumes "d \<noteq> []" and "list_all is_digit d" and "0 < digits_value d" and "digits_value d < 2 ^ 53"
  shows "stod d = Inr (Finite (of_nat (digits_value d)))"
proof -
  have "takeWhile is_digit d = d" "dropWhile is_digit d = []"
    using assms(2) by (simp_all add: list_all_iff)
  then have "stod_prefix d = (d, [])" by (simp only: stod_prefix_def Let_def list.case)
  moreover have "round_double (of_nat (digits_value d)) = Finite (of_nat (digits_value d))"
    using assms(3,4) by (rule round_of_nat)
  moreover have "pow2 (- 1022) \<le> of_nat (digits_value d)"
    using pow2_mono [of "- 1022" 0] assms(3) by (simp add: pow2_nat)
  ultimately show ?thesis using assms(1) by (simp add: stod_def decimal_value_def Let_def)
qed

lemma evaluate_expression:
  "evaluate s = Inr v \<Longrightarrow> \<exists>e. spells e s \<and> expr_value e = Inr v"
proof -
  assume "evaluate s = Inr v"
  then obtain p where p: "expression s 0 = Inr (v, p)" "skip_spaces s p = length s"
    by (auto simp: evaluate_def Let_def err_simps split: if_splits)
  from evaluator_sound(1) [OF p(1)] obtain e x k where
    e: "spells_expr e x" "expr_value e = Inr v" "s = x @ blanks k @ drop p s" by auto
  moreover have "drop p s = blanks (length s - p)" using drop_skip [of p s] p(2) by simp
  ultimately have "spells e s" using spells.intros [OF e(1), of "k + (length s - p)"] by (simp add: replicate_add)
  with e(2) show ?thesis by blast
qed

text \<open>
  C22. The calculator computes expressions as written: every text that spells an expression of the usual grammar
  evaluates to the expression's value in double arithmetic, or fails as it does (a division by zero, a
  number out of range); a text evaluates to a value only if it spells an expression with
  that value; and the tool answers with the value's six decimals or with an error result that says why.
\<close>

theorem calculator_correct:
  assumes "json_find ''expression'' arguments = Some (JStr s)"
  shows "(spells e s \<longrightarrow> evaluate s = expr_value e) \<and>
    (evaluate s = Inr v \<longleftrightarrow> (\<exists>e. spells e s \<and> expr_value e = Inr v)) \<and>
    calculate nan_text arguments = Inr (case evaluate s of
        Inr v \<Rightarrow> \<lparr>ctr_content = [text_content (double_to_string nan_text v)], ctr_is_error = False\<rparr>
      | Inl x \<Rightarrow> \<lparr>ctr_content = [text_content (''Evaluation failed: '' @ what x)], ctr_is_error = True\<rparr>)"
proof (intro conjI impI)
  show "evaluate s = Inr v \<longleftrightarrow> (\<exists>e. spells e s \<and> expr_value e = Inr v)"
    using evaluate_expression evaluate_spelled by metis
  show "calculate nan_text arguments = Inr (case evaluate s of
        Inr v \<Rightarrow> \<lparr>ctr_content = [text_content (double_to_string nan_text v)], ctr_is_error = False\<rparr>
      | Inl x \<Rightarrow> \<lparr>ctr_content = [text_content (''Evaluation failed: '' @ what x)], ctr_is_error = True\<rparr>)"
    using assms evaluate_throws [of s] by (cases "evaluate s") (auto simp: calculate_def get_string_def)
qed (rule evaluate_spelled)

abbreviation sample_expr :: expr where
  "sample_expr \<equiv> Bin Plus (Num ''1'') (Bin Times (Num ''2'') (Num ''3''))"

lemma sample_expr_spelled: "spells sample_expr ''1 + 2*3''"
proof -
  have num: "spells_factor (Num [c]) (blanks k @ [c])" if "is_digit c" for c k
    using that by (intro factor_num) (simp_all add: numeral_char_def)
  have "spells_term (Bin Times (Num ''2'') (Num ''3'')) ((blanks 1 @ ''2'') @ blanks 0 @ CHR ''*'' # blanks 0 @ ''3'')"
    by (intro term_times term_factor num) (simp_all add: is_digit_def)
  moreover have "spells_expr (Num ''1'') (blanks 0 @ ''1'')"
    by (intro expr_term term_factor num) (simp add: is_digit_def)
  ultimately have "spells_expr sample_expr ''1 + 2*3''"
    using expr_plus [of "Num ''1''" "''1''" _ "'' 2*3''" 1] by simp
  then show ?thesis using spells.intros [of sample_expr "''1 + 2*3''" 0] by simp
qed

lemma sample_expr_value: "expr_value sample_expr = Inr (Finite 7)"
  using round_of_int [of 6] round_of_int [of 7]
  by (simp add: stod_integer is_digit_def digits_value_def digit_value_def)

lemma calculator_correct_witness:
  "evaluate ''1 + 2*3'' = Inr (Finite 7) \<and>
   calculate ''-nan'' (JObj [(''expression'', JStr ''1 + 2*3'')]) =
     Inr \<lparr>ctr_content = [text_content (double_to_string ''-nan'' (Finite 7))], ctr_is_error = False\<rparr>"
  using calculator_correct [of "JObj [(''expression'', JStr ''1 + 2*3'')]" "''1 + 2*3''" sample_expr "Finite 7" "''-nan''"]
    sample_expr_spelled sample_expr_value by simp

text \<open>
  A number may hold several points: the evaluator collects digits and points, and \<^verbatim>\<open>std::stod\<close> stops at
  the second point without complaint.
\<close>

lemma points_ignored: "evaluate ''1.2.3'' = evaluate ''1.2''"
proof -
  have num: "spells (Num d) d" if "d \<noteq> []" "list_all numeral_char d" for d
    using spells.intros [OF expr_term [OF term_factor [OF factor_num [OF that, of 0]]], of 0] by simp
  have "evaluate ''1.2.3'' = stod ''1.2.3''" "evaluate ''1.2'' = stod ''1.2''"
    using evaluate_spelled [OF num] by (simp_all add: numeral_char_def is_digit_def)
  moreover have "stod_prefix ''1.2.3'' = stod_prefix ''1.2''" by (simp add: stod_prefix_def is_digit_def)
  ultimately show ?thesis by (simp add: stod_def)
qed

end
