(* ===== verification/Mcp_Monitor.thy ===== *)
theory Mcp_Monitor
  imports Mcp_Double Mcp_Tools Mcp_Server "HOL-Library.Word" "HOL-Library.Multiset"
begin

text \<open>
  The system monitor example: the interface to the kernel data
  (\<^verbatim>\<open>examples/vxworks_monitor/monitor_backend.hpp\<close>) and the tools that present them
  (\<^verbatim>\<open>examples/vxworks_monitor/vxworks_monitor_server.cpp\<close>).

  Unsigned 64 bit fields are words.  A backend is what its calls return while a request is handled, on the left the
  error text.  \<open>dump\<close> is the JSON printer with indentation.  Lists that the sources sort with
  \<^verbatim>\<open>std::sort\<close> are sorted stably here; the order of equal elements is not specified there.
\<close>

type_synonym u64 = "64 word"

subsection \<open>Snapshots\<close>

record task_snapshot =
  tk_name :: string
  tk_id :: u64
  tk_priority :: int
  tk_status :: string
  tk_cpu_index :: int
  tk_error_status :: int
  tk_delay_ticks :: int
  tk_entry :: u64
  tk_stack_size :: u64
  tk_stack_current :: u64
  tk_stack_high :: u64
  tk_stack_margin :: int
  tk_exc_stack_size :: u64
  tk_exc_stack_current :: u64
  tk_exc_stack_high :: u64
  tk_exc_stack_margin :: int

record kernel_heap_stats =
  kh_bytes_alloc :: u64
  kh_blocks_alloc :: u64
  kh_bytes_free :: u64
  kh_blocks_free :: u64
  kh_peak_bytes_alloc :: u64
  kh_max_free_block :: u64

record module_snapshot =
  md_name :: string
  md_id :: u64
  md_group :: int
  md_text_addr :: u64
  md_text_size :: u64
  md_data_addr :: u64
  md_data_size :: u64
  md_bss_addr :: u64
  md_bss_size :: u64

record cpu_task_usage =
  cu_name :: string
  cu_id :: u64
  cu_ticks :: u64
  cu_percent :: rat

record cpu_usage_report =
  cr_window_seconds :: nat
  cr_total_ticks :: u64
  cr_unattributed_ticks :: u64
  cr_tasks :: "cpu_task_usage list"

record sem_snapshot =
  sm_id :: u64
  sm_type_raw :: int
  sm_type :: string
  sm_options :: int
  sm_blocked_tasks :: nat
  sm_count :: "nat option"
  sm_full :: "bool option"
  sm_owner :: "u64 option"

record msgq_snapshot =
  mq_id :: u64
  mq_num_msgs :: int
  mq_num_tasks :: int
  mq_send_timeouts :: int
  mq_recv_timeouts :: int
  mq_options :: int
  mq_max_msgs :: int
  mq_max_msg_length :: u64

record system_snapshot =
  sy_ticks :: u64
  sy_tick_rate_hz :: u64
  sy_uptime_seconds :: rat
  sy_task_count :: int
  sy_module_count :: int
  sy_heap :: kernel_heap_stats

record monitor_backend =
  mb_name :: string
  mb_list_tasks :: "string + task_snapshot list"
  mb_task_info :: "string \<Rightarrow> string + task_snapshot"
  mb_kernel_heap :: "string + kernel_heap_stats"
  mb_system_info :: "string + system_snapshot"
  mb_list_modules :: "string + module_snapshot list"
  mb_cpu_usage :: "nat \<Rightarrow> string + cpu_usage_report"
  mb_sem_info :: "u64 \<Rightarrow> string + sem_snapshot"
  mb_msgq_info :: "u64 \<Rightarrow> string + msgq_snapshot"

subsection \<open>Numbers in hexadecimal, and in any base\<close>

text \<open>\<^verbatim>\<open>snprintf\<close> with the format \<^verbatim>\<open>0x%llx\<close>.\<close>

definition hex :: "u64 \<Rightarrow> string" where
  "hex w = ''0x'' @ to_hex (unat w)"

text \<open>
  \<^verbatim>\<open>strtoull(s, &end, base)\<close>, with the value and the text from \<open>end\<close> on.  Base 0 reads the prefixes
  \<open>0x\<close> and \<open>0\<close>; a prefix without a digit behind it is the number zero.
\<close>

definition base_digit :: "nat \<Rightarrow> char \<Rightarrow> nat option" where
  "base_digit b c =
     (let d = (if is_digit c then code c - 48 else if is_lower c then code c - 87
               else if is_upper c then code c - 55 else b)
      in if d < b then Some d else None)"

definition base_value :: "nat \<Rightarrow> string \<Rightarrow> nat" where
  "base_value b ds = foldl (\<lambda>n c. n * b + the (base_digit b c)) 0 ds"

definition is_hex_prefixed :: "string \<Rightarrow> bool" where
  "is_hex_prefixed s \<longleftrightarrow>
     3 \<le> length s \<and> s ! 0 = CHR ''0'' \<and> (s ! 1 = CHR ''x'' \<or> s ! 1 = CHR ''X'') \<and> base_digit 16 (s ! 2) \<noteq> None"

definition strtoull_base :: "nat \<Rightarrow> string \<Rightarrow> nat \<times> string" where
  "strtoull_base base s =
     (let t = dropWhile is_space s;
          neg = (t \<noteq> [] \<and> hd t = CHR ''-'');
          u = (if t \<noteq> [] \<and> (hd t = CHR ''-'' \<or> hd t = CHR ''+'') then tl t else t);
          b = (if (base = 0 \<or> base = 16) \<and> is_hex_prefixed u then 16
               else if base = 0 then (if u \<noteq> [] \<and> hd u = CHR ''0'' then 8 else 10) else base);
          v = (if (base = 0 \<or> base = 16) \<and> is_hex_prefixed u then drop 2 u else u);
          ds = takeWhile (\<lambda>c. base_digit b c \<noteq> None) v;
          n = base_value b ds
      in if ds = [] then (0, s)
         else (if 2 ^ 64 \<le> n then 2 ^ 64 - 1 else if neg then (2 ^ 64 - n) mod 2 ^ 64 else n, drop (length ds) v))"

text \<open>A string as C sees it ends at its first NUL.\<close>

definition c_str :: "string \<Rightarrow> string" where
  "c_str s = takeWhile (\<lambda>c. c \<noteq> CHR 0x00) s"

definition parse_object_id :: "json \<Rightarrow> (string + u64) throws" where
  "parse_object_id args =
     (case json_find ''id'' args of
        Some (JStr s) \<Rightarrow>
          (let (n, rest) = strtoull_base 0 (c_str s)
           in Inr (if rest = c_str s \<or> rest \<noteq> [] then Inl (''not a valid object ID: '' @ s) else Inr (of_nat n)))
      | _ \<Rightarrow> Inr (Inl ''missing required string argument: id''))"

lemma base_digit_hex: "d < 16 \<Longrightarrow> base_digit 16 (hex_char d) = Some d"
proof -
  have "list_all (\<lambda>d. base_digit 16 (hex_char d) = Some d) [0..<16]" by code_simp
  then show "d < 16 \<Longrightarrow> ?thesis" by (simp add: list_all_iff)
qed

lemma to_to_hex: "list_all (\<lambda>c. base_digit 16 c \<noteq> None) (to_hex n)"
  by (induction n rule: to_hex.induct) (subst to_hex.simps, simp add: base_digit_hex)

lemma to_hex_nonempty [simp]: "to_hex n \<noteq> []"
  by (subst to_hex.simps) simp

lemma base_value_snoc: "base_value b (ds @ [c]) = base_value b ds * b + the (base_digit b c)"
  by (simp add: base_value_def)

lemma base_value_hex: "base_value 16 (to_hex n) = n"
proof (induction n rule: to_hex.induct)
  case (1 n)
  show ?case
  proof (cases "n < 16")
    case True
    then show ?thesis by (simp add: to_hex.simps base_value_def base_digit_hex)
  next
    case False
    with 1 show ?thesis by (simp add: to_hex.simps [of n] base_value_snoc base_digit_hex)
  qed
qed

lemma is_hex_prefixed_hex: "is_hex_prefixed (''0x'' @ to_hex n)"
  using to_to_hex [of n] by (cases "to_hex n") (auto simp: is_hex_prefixed_def)

text \<open>Reading what was printed, with or without base.\<close>

lemma strtoull_hex:
  assumes "n < 2 ^ 64" and "base = 0 \<or> base = 16"
  shows "strtoull_base base (''0x'' @ to_hex n) = (n, [])"
proof -
  let ?s = "''0x'' @ to_hex n"
  have ds: "takeWhile (\<lambda>c. base_digit 16 c \<noteq> None) (to_hex n) = to_hex n"
    using to_to_hex [of n] by (simp add: list_all_iff)
  have t: "dropWhile is_space ?s = ?s" by (simp add: is_space_def)
  have p: "is_hex_prefixed ?s" by (rule is_hex_prefixed_hex)
  show ?thesis
    unfolding strtoull_base_def Let_def t using assms p ds base_value_hex [of n]
    by (simp del: takeWhile_eq_all_conv)
qed

lemma to_hex_no_nul: "c_str (hex w) = hex w"
proof -
  have "c \<noteq> CHR 0x00" if "c \<in> set (to_hex n)" for c n
    using to_to_hex [of n] that by (auto simp: list_all_iff base_digit_def is_digit_def is_lower_def is_upper_def)
  then show ?thesis by (auto simp: c_str_def hex_def takeWhile_eq_all_conv)
qed

lemma parse_hex_id:
  assumes "json_find ''id'' args = Some (JStr (hex w))"
  shows "parse_object_id args = Inr (Inr w)"
proof -
  have "unat w < 2 ^ 64" using unsigned_less [of w] by simp
  then have "strtoull_base 0 (hex w) = (unat w, [])"
    unfolding hex_def by (rule strtoull_hex) simp
  with assms show ?thesis by (simp add: parse_object_id_def to_hex_no_nul) (simp add: hex_def)
qed

subsection \<open>Presentation\<close>

abbreviation JWord :: "u64 \<Rightarrow> json" where
  "JWord w \<equiv> JInt (uint w)"

definition ok_result :: "(json \<Rightarrow> string throws) \<Rightarrow> string \<Rightarrow> json \<Rightarrow> call_tool_result throws" where
  "ok_result dump name data =
     bindE (json_put ''backend'' (JStr name) data) (\<lambda>data.
     mapE (\<lambda>t. \<lparr>ctr_content = [text_content t], ctr_is_error = False\<rparr>) (dump data))"

definition fail_result :: "string \<Rightarrow> call_tool_result throws" where
  "fail_result message = Inr \<lparr>ctr_content = [text_content message], ctr_is_error = True\<rparr>"

definition stack_json :: "task_snapshot \<Rightarrow> json" where
  "stack_json t = json_obj [(''size'', JWord (tk_stack_size t)), (''used'', JWord (tk_stack_current t)),
     (''peakUsed'', JWord (tk_stack_high t)), (''margin'', JInt (tk_stack_margin t))]"

definition task_json :: "task_snapshot \<Rightarrow> json" where
  "task_json t = json_obj [(''name'', JStr (tk_name t)), (''id'', JStr (hex (tk_id t))),
     (''priority'', JInt (tk_priority t)), (''status'', JStr (tk_status t)), (''cpuIndex'', JInt (tk_cpu_index t)),
     (''errorStatus'', JInt (tk_error_status t)), (''delayTicks'', JInt (tk_delay_ticks t)),
     (''entry'', JStr (hex (tk_entry t))), (''stack'', stack_json t),
     (''excStack'', json_obj [(''size'', JWord (tk_exc_stack_size t)), (''used'', JWord (tk_exc_stack_current t)),
        (''peakUsed'', JWord (tk_exc_stack_high t)), (''margin'', JInt (tk_exc_stack_margin t))])]"

definition heap_json :: "kernel_heap_stats \<Rightarrow> json" where
  "heap_json h = json_obj [(''allocatedBytes'', JWord (kh_bytes_alloc h)), (''allocatedBlocks'', JWord (kh_blocks_alloc h)),
     (''freeBytes'', JWord (kh_bytes_free h)), (''freeBlocks'', JWord (kh_blocks_free h)),
     (''peakAllocatedBytes'', JWord (kh_peak_bytes_alloc h)), (''largestFreeBlockBytes'', JWord (kh_max_free_block h)),
     (''totalBytes'', JWord (kh_bytes_alloc h + kh_bytes_free h))]"

text \<open>A call that fails ends the handler with its error text.\<close>

definition or_fail :: "string + 'a \<Rightarrow> ('a \<Rightarrow> call_tool_result throws) \<Rightarrow> call_tool_result throws" where
  "or_fail r k = (case r of Inl message \<Rightarrow> fail_result message | Inr x \<Rightarrow> k x)"

subsection \<open>The tools\<close>

definition contains_text :: "string \<Rightarrow> string \<Rightarrow> bool" where
  "contains_text s pat \<longleftrightarrow> find_sub pat s \<noteq> None"

definition list_tasks_tool :: "(json \<Rightarrow> string throws) \<Rightarrow> monitor_backend \<Rightarrow> tool_handler" where
  "list_tasks_tool dump b args =
     or_fail (mb_list_tasks b) (\<lambda>tasks.
       bindE (json_value get_string ''statusFilter'' [] args) (\<lambda>flt.
         let rows = map task_json (filter (\<lambda>t. flt = [] \<or> contains_text (tk_status t) flt) tasks)
         in ok_result dump (mb_name b) (json_obj [(''taskCount'', JInt (int (length rows))), (''tasks'', JArr rows)])))"

definition task_info_tool :: "(json \<Rightarrow> string throws) \<Rightarrow> monitor_backend \<Rightarrow> tool_handler" where
  "task_info_tool dump b args =
     (case json_find ''task'' args of
        Some (JStr name) \<Rightarrow>
          or_fail (mb_task_info b name) (\<lambda>t. ok_result dump (mb_name b) (json_obj [(''task'', task_json t)]))
      | _ \<Rightarrow> fail_result ''missing required string argument: task'')"

text \<open>The fraction of the stack ever used, as the comparison of \<^verbatim>\<open>std::sort\<close> computes it in doubles.\<close>

definition double_of_u64 :: "u64 \<Rightarrow> double" where
  "double_of_u64 w = round_double (of_nat (unat w))"

definition stack_fraction :: "task_snapshot \<Rightarrow> rat" where
  "stack_fraction t =
     (if tk_stack_size t = 0 then 0
      else double_rat (double_div (double_of_u64 (tk_stack_high t)) (double_of_u64 (tk_stack_size t))))"

text \<open>The percentage that is shown: 64 bit arithmetic, then a cast to 32 bits.\<close>

definition stack_percent :: "task_snapshot \<Rightarrow> 32 word" where
  "stack_percent t = (if tk_stack_size t = 0 then 0 else ucast (tk_stack_high t * 100 div tk_stack_size t))"

definition stack_warning :: "task_snapshot \<Rightarrow> string option" where
  "stack_warning t =
     (if 85 < stack_percent t then Some ''HIGH_USAGE''
      else if tk_stack_margin t < 512 then Some ''LOW_MARGIN'' else None)"

definition stack_row :: "task_snapshot \<Rightarrow> json" where
  "stack_row t =
     (let row = [(''name'', JStr (tk_name t)), (''id'', JStr (hex (tk_id t))), (''size'', JWord (tk_stack_size t)),
          (''used'', JWord (tk_stack_current t)), (''peakUsed'', JWord (tk_stack_high t)),
          (''margin'', JInt (tk_stack_margin t)), (''peakUsePercent'', JInt (uint (stack_percent t)))]
      in JObj (set_optional JStr ''warning'' (stack_warning t) (mk_members row)))"

definition stack_summary_tool :: "(json \<Rightarrow> string throws) \<Rightarrow> monitor_backend \<Rightarrow> tool_handler" where
  "stack_summary_tool dump b args =
     or_fail (mb_list_tasks b) (\<lambda>tasks.
       let tasks = sort_key (\<lambda>t. - stack_fraction t) tasks;
           warnings = length (filter (\<lambda>t. stack_warning t \<noteq> None) tasks);
           rows = map stack_row tasks
       in ok_result dump (mb_name b) (json_obj [(''taskCount'', JInt (int (length rows))),
            (''warningCount'', JInt (int warnings)), (''tasks'', JArr rows)]))"

definition memory_info_tool :: "(json \<Rightarrow> string throws) \<Rightarrow> monitor_backend \<Rightarrow> tool_handler" where
  "memory_info_tool dump b args =
     or_fail (mb_kernel_heap b) (\<lambda>heap. ok_result dump (mb_name b) (json_obj [(''kernelHeap'', heap_json heap)]))"

definition cpu_row :: "cpu_task_usage \<Rightarrow> json" where
  "cpu_row t = json_obj [(''name'', JStr (cu_name t)), (''id'', JStr (hex (cu_id t))), (''ticks'', JWord (cu_ticks t)),
     (''percent'', JFloat (cu_percent t))]"

definition cpu_usage_tool :: "(json \<Rightarrow> string throws) \<Rightarrow> monitor_backend \<Rightarrow> tool_handler" where
  "cpu_usage_tool dump b args =
     bindE (json_value get_int32 ''seconds'' 3 args) (\<lambda>seconds.
     bindE (json_value get_int32 ''topN'' 10 args) (\<lambda>top_n.
       let seconds = min 10 (max 1 seconds); top_n = max 1 top_n
       in or_fail (mb_cpu_usage b (nat seconds)) (\<lambda>r.
            ok_result dump (mb_name b) (json_obj
              [(''windowSeconds'', JInt (int (cr_window_seconds r))), (''totalTicks'', JWord (cr_total_ticks r)),
               (''unattributedTicks'', JWord (cr_unattributed_ticks r)),
               (''tasks'', JArr (map cpu_row (take (nat top_n) (cr_tasks r))))]))))"

definition system_info_tool :: "(json \<Rightarrow> string throws) \<Rightarrow> monitor_backend \<Rightarrow> tool_handler" where
  "system_info_tool dump b args =
     or_fail (mb_system_info b) (\<lambda>sys.
       ok_result dump (mb_name b) (json_obj [(''uptimeSeconds'', JFloat (sy_uptime_seconds sys)),
         (''uptimeTicks'', JWord (sy_ticks sys)), (''tickRateHz'', JWord (sy_tick_rate_hz sys)),
         (''taskCount'', JInt (sy_task_count sys)), (''moduleCount'', JInt (sy_module_count sys)),
         (''kernelHeap'', heap_json (sy_heap sys))]))"

definition segment_json :: "u64 \<Rightarrow> u64 \<Rightarrow> json" where
  "segment_json addr n = json_obj [(''address'', JStr (hex addr)), (''size'', JWord n)]"

definition module_json :: "module_snapshot \<Rightarrow> json" where
  "module_json m = json_obj [(''name'', JStr (md_name m)), (''id'', JStr (hex (md_id m))), (''group'', JInt (md_group m)),
     (''segments'', json_obj [(''text'', segment_json (md_text_addr m) (md_text_size m)),
        (''data'', segment_json (md_data_addr m) (md_data_size m)),
        (''bss'', segment_json (md_bss_addr m) (md_bss_size m))])]"

definition list_modules_tool :: "(json \<Rightarrow> string throws) \<Rightarrow> monitor_backend \<Rightarrow> tool_handler" where
  "list_modules_tool dump b args =
     or_fail (mb_list_modules b) (\<lambda>modules.
       ok_result dump (mb_name b) (json_obj [(''moduleCount'', JInt (int (length modules))),
         (''modules'', JArr (map module_json modules))]))"

definition sem_json :: "sem_snapshot \<Rightarrow> json" where
  "sem_json s = JObj (set_optional (\<lambda>w. JStr (hex w)) ''owner'' (sm_owner s)
     (set_optional JBool ''full'' (sm_full s)
     (set_optional (\<lambda>n. JInt (int n)) ''count'' (sm_count s)
       (mk_members [(''id'', JStr (hex (sm_id s))), (''type'', JStr (sm_type s)), (''typeRaw'', JInt (sm_type_raw s)),
          (''options'', JInt (sm_options s)), (''blockedTasks'', JInt (int (sm_blocked_tasks s)))]))))"

definition semaphore_info_tool :: "(json \<Rightarrow> string throws) \<Rightarrow> monitor_backend \<Rightarrow> tool_handler" where
  "semaphore_info_tool dump b args =
     bindE (parse_object_id args) (\<lambda>r. or_fail r (\<lambda>i.
       or_fail (mb_sem_info b i) (\<lambda>s. ok_result dump (mb_name b) (sem_json s))))"

definition msgq_info_tool :: "(json \<Rightarrow> string throws) \<Rightarrow> monitor_backend \<Rightarrow> tool_handler" where
  "msgq_info_tool dump b args =
     bindE (parse_object_id args) (\<lambda>r. or_fail r (\<lambda>i.
       or_fail (mb_msgq_info b i) (\<lambda>q.
         ok_result dump (mb_name b) (json_obj [(''id'', JStr (hex (mq_id q))), (''messagesQueued'', JInt (mq_num_msgs q)),
           (''tasksBlocked'', JInt (mq_num_tasks q)), (''sendTimeouts'', JInt (mq_send_timeouts q)),
           (''receiveTimeouts'', JInt (mq_recv_timeouts q)), (''options'', JInt (mq_options q)),
           (''maxMessages'', JInt (mq_max_msgs q)), (''maxMessageLength'', JWord (mq_max_msg_length q))]))))"

subsection \<open>What the tools show\<close>

lemma double_of_u64_exact: "w \<noteq> 0 \<Longrightarrow> unat w < 2 ^ 53 \<Longrightarrow> double_of_u64 w = Finite (of_nat (unat w))"
  unfolding double_of_u64_def by (rule round_of_nat) (simp_all add: unat_gt_0)

lemma stack_fraction_ratio:
  assumes "unat (tk_stack_high t) \<le> unat (tk_stack_size t)" and "unat (tk_stack_size t) < 2 ^ 26"
  shows "stack_fraction t =
    (if tk_stack_size t = 0 then 0
     else double_rat (round_double (of_nat (unat (tk_stack_high t)) / of_nat (unat (tk_stack_size t)))))"
proof (cases "tk_stack_size t = 0 \<or> tk_stack_high t = 0")
  case True
  have "double_is_zero (double_of_u64 0)" by (simp add: double_of_u64_def round_double_def)
  moreover have "double_of_u64 0 = Zero False" by (simp add: double_of_u64_def round_double_def)
  moreover have "double_rat (double_div (Zero False) d) = 0" for d by (cases d) simp_all
  ultimately show ?thesis using True by (auto simp: stack_fraction_def round_double_def)
next
  case False
  then have "double_of_u64 w = Finite (of_nat (unat w))" if "w \<in> {tk_stack_high t, tk_stack_size t}" for w
    using that assms False by (intro double_of_u64_exact) auto
  with False show ?thesis by (simp add: stack_fraction_def)
qed

lemma stack_percent_exact:
  assumes "unat (tk_stack_high t) \<le> unat (tk_stack_size t)" and "unat (tk_stack_size t) < 2 ^ 26"
  shows "unat (stack_percent t) = unat (tk_stack_high t) * 100 div unat (tk_stack_size t)"
    and "unat (stack_percent t) \<le> 100"
proof -
  have small: "unat (tk_stack_high t) * 100 < 2 ^ 64" using assms by simp
  then have "unat (tk_stack_high t * 100) = unat (tk_stack_high t) * 100"
    by (simp add: unat_word_ariths(2))
  moreover have le: "unat (tk_stack_high t) * 100 div unat (tk_stack_size t) \<le> 100"
  proof (cases "unat (tk_stack_size t) = 0")
    case False
    have "unat (tk_stack_high t) * 100 div unat (tk_stack_size t) \<le> unat (tk_stack_size t) * 100 div unat (tk_stack_size t)"
      using assms(1) by (intro div_le_mono mult_le_mono1)
    with False show ?thesis by simp
  qed simp
  ultimately show "unat (stack_percent t) = unat (tk_stack_high t) * 100 div unat (tk_stack_size t)"
    by (auto simp: stack_percent_def unsigned_ucast_eq unat_div take_bit_nat_eq_self)
  with le show "unat (stack_percent t) \<le> 100" by simp
qed

text \<open>
  The stack summary ranks the tasks of the backend: each task has one row, the rows are in the order of peak
  use, and for stacks below 64 MB that is the order of the exact ratios although doubles are
  compared; the shown percentages are then the exact quotients, at most 100; and the warning counter is
  the number of rows that carry a warning, those above 85 percent or with less than 512 bytes of margin.
\<close>

theorem stack_summary_ranks:
  assumes "mb_list_tasks b = Inr tasks"
  shows "\<exists>ranked. mset ranked = mset tasks \<and>
    stack_summary_tool dump b args = ok_result dump (mb_name b) (json_obj
      [(''taskCount'', JInt (int (length tasks))),
       (''warningCount'', JInt (int (length (filter (\<lambda>t. json_contains ''warning'' (stack_row t)) ranked)))),
       (''tasks'', JArr (map stack_row ranked))]) \<and>
    ((\<forall>t \<in> set tasks. unat (tk_stack_high t) \<le> unat (tk_stack_size t) \<and> 0 < tk_stack_size t \<and> unat (tk_stack_size t) < 2 ^ 26) \<longrightarrow>
      sorted_wrt (\<lambda>s t. unat (tk_stack_high t) * unat (tk_stack_size s) \<le> unat (tk_stack_high s) * unat (tk_stack_size t)) ranked \<and>
      (\<forall>t \<in> set ranked. unat (stack_percent t) = unat (tk_stack_high t) * 100 div unat (tk_stack_size t) \<and>
         unat (stack_percent t) \<le> 100 \<and>
         (json_contains ''warning'' (stack_row t) \<longleftrightarrow>
            85 < unat (tk_stack_high t) * 100 div unat (tk_stack_size t) \<or> tk_stack_margin t < 512)))"
proof (intro exI [of _ "sort_key (\<lambda>t. - stack_fraction t) tasks"] conjI impI)
  let ?ranked = "sort_key (\<lambda>t. - stack_fraction t) tasks"
  have row: "json_contains ''warning'' (stack_row t) \<longleftrightarrow> stack_warning t \<noteq> None" for t
    by (cases "stack_warning t") (simp_all add: stack_row_def Let_def set_optional_def json_contains_def mk_members_def obj_emplace_def)
  show "mset ?ranked = mset tasks" by simp
  show "stack_summary_tool dump b args = ok_result dump (mb_name b) (json_obj
      [(''taskCount'', JInt (int (length tasks))),
       (''warningCount'', JInt (int (length (filter (\<lambda>t. json_contains ''warning'' (stack_row t)) ?ranked)))),
       (''tasks'', JArr (map stack_row ?ranked))])"
    by (simp add: stack_summary_tool_def assms or_fail_def Let_def row)
  assume sane: "\<forall>t \<in> set tasks. unat (tk_stack_high t) \<le> unat (tk_stack_size t) \<and> 0 < tk_stack_size t \<and> unat (tk_stack_size t) < 2 ^ 26"
  have "sorted_wrt (\<lambda>s t. stack_fraction t \<le> stack_fraction s) ?ranked"
    using sorted_sort_key [of "\<lambda>t. - stack_fraction t" tasks] by (simp add: sorted_map)
  then show "sorted_wrt (\<lambda>s t. unat (tk_stack_high t) * unat (tk_stack_size s) \<le> unat (tk_stack_high s) * unat (tk_stack_size t)) ?ranked"
  proof (rule sorted_wrt_mono_rel [rotated])
    fix s t assume "s \<in> set ?ranked" "t \<in> set ?ranked" and le: "stack_fraction t \<le> stack_fraction s"
    then have st: "s \<in> set tasks" "t \<in> set tasks" by simp_all
    with sane have "tk_stack_size s \<noteq> 0" "tk_stack_size t \<noteq> 0" by auto
    with le st sane show "unat (tk_stack_high t) * unat (tk_stack_size s) \<le> unat (tk_stack_high s) * unat (tk_stack_size t)"
      by (intro fraction_order) (auto simp: stack_fraction_ratio unat_gt_0)
  qed
  show "\<forall>t \<in> set ?ranked. unat (stack_percent t) = unat (tk_stack_high t) * 100 div unat (tk_stack_size t) \<and>
         unat (stack_percent t) \<le> 100 \<and>
         (json_contains ''warning'' (stack_row t) \<longleftrightarrow>
            85 < unat (tk_stack_high t) * 100 div unat (tk_stack_size t) \<or> tk_stack_margin t < 512)"
  proof (intro ballI conjI)
    fix t assume "t \<in> set ?ranked"
    with sane have t: "unat (tk_stack_high t) \<le> unat (tk_stack_size t)" "unat (tk_stack_size t) < 2 ^ 26" by auto
    from stack_percent_exact [OF t]
    show p: "unat (stack_percent t) = unat (tk_stack_high t) * 100 div unat (tk_stack_size t)"
      "unat (stack_percent t) \<le> 100" .
    have "85 < stack_percent t \<longleftrightarrow> 85 < unat (stack_percent t)" by (simp add: word_less_nat_alt)
    then show "json_contains ''warning'' (stack_row t) \<longleftrightarrow>
            85 < unat (tk_stack_high t) * 100 div unat (tk_stack_size t) \<or> tk_stack_margin t < 512"
      by (simp add: row stack_warning_def p(1))
  qed
qed

subsection \<open>Reports of CPU usage\<close>

text \<open>
  What \<^verbatim>\<open>cpu_usage\<close> promises of a report: it is for the window asked for, the tasks are listed by
  falling ticks, and what no task used is reported as unattributed.
\<close>

locale cpu_reporter =
  fixes usage :: "nat \<Rightarrow> string + cpu_usage_report"
  assumes window: "usage n = Inr r \<Longrightarrow> cr_window_seconds r = n"
    and ranked: "usage n = Inr r \<Longrightarrow> sorted_wrt (\<lambda>t u. cu_ticks u \<le> cu_ticks t) (cr_tasks r)"
    and accounted: "usage n = Inr r \<Longrightarrow> cr_unattributed_ticks r =
      (let a = sum_list (map cu_ticks (cr_tasks r)) in if a < cr_total_ticks r then cr_total_ticks r - a else 0)"
begin

text \<open>The tool shows the heaviest tasks, and never waits longer than ten seconds.\<close>

lemma usage_tool:
  assumes "mb_cpu_usage b = usage" and "json_value get_int32 ''seconds'' 3 args = Inr n"
    and "json_value get_int32 ''topN'' 10 args = Inr k" and "usage (nat (min 10 (max 1 n))) = Inr r"
  shows "\<exists>shown rest. cr_tasks r = shown @ rest \<and> length shown = min (nat (max 1 k)) (length (cr_tasks r)) \<and>
    (\<forall>t \<in> set shown. \<forall>u \<in> set rest. cu_ticks u \<le> cu_ticks t) \<and>
    cpu_usage_tool dump b args = ok_result dump (mb_name b) (json_obj
      [(''windowSeconds'', JInt (min 10 (max 1 n))), (''totalTicks'', JWord (cr_total_ticks r)),
       (''unattributedTicks'', JWord (cr_unattributed_ticks r)), (''tasks'', JArr (map cpu_row shown))])"
proof (intro exI conjI)
  let ?shown = "take (nat (max 1 k)) (cr_tasks r)" and ?rest = "drop (nat (max 1 k)) (cr_tasks r)"
  show "cr_tasks r = ?shown @ ?rest" by simp
  show "length ?shown = min (nat (max 1 k)) (length (cr_tasks r))" by simp
  show "\<forall>t \<in> set ?shown. \<forall>u \<in> set ?rest. cu_ticks u \<le> cu_ticks t"
    using ranked [OF assms(4)] by (metis append_take_drop_id sorted_wrt_append)
  show "cpu_usage_tool dump b args = ok_result dump (mb_name b) (json_obj
      [(''windowSeconds'', JInt (min 10 (max 1 n))), (''totalTicks'', JWord (cr_total_ticks r)),
       (''unattributedTicks'', JWord (cr_unattributed_ticks r)), (''tasks'', JArr (map cpu_row ?shown))])"
  proof -
    have "int (cr_window_seconds r) = min 10 (max 1 n)" using window [OF assms(4)] by simp
    with assms show ?thesis
      by (simp only: cpu_usage_tool_def or_fail_def Let_def bindE_simps sum.case)
  qed
qed

end

text \<open>An id in the form the tools print it is looked up as that id.\<close>

lemma object_tools_lookup:
  assumes "json_find ''id'' args = Some (JStr (hex w))"
  shows "semaphore_info_tool dump b args = or_fail (mb_sem_info b w) (\<lambda>s. ok_result dump (mb_name b) (sem_json s))"
    and "mb_msgq_info b w = Inl message \<Longrightarrow> msgq_info_tool dump b args = fail_result message"
  using parse_hex_id [OF assms] by (simp_all add: semaphore_info_tool_def msgq_info_tool_def or_fail_def)

text \<open>
  Text that is no number is refused, but numbers beyond 64 bits, negative ones and digits in front of a NUL are
  taken for some id.
\<close>

lemma lenient_ids:
  "parse_object_id (JObj [(''id'', JStr ''q'')]) = Inr (Inl ''not a valid object ID: q'')"
  "parse_object_id (JObj [(''id'', JStr ''0x10000000000000000'')]) = Inr (Inr (- 1))"
  "parse_object_id (JObj [(''id'', JStr ''-1'')]) = Inr (Inr (- 1))"
  "parse_object_id (JObj [(''id'', JStr (''7'' @ [CHR 0x00] @ ''x''))]) = Inr (Inr 7)"
  by (simp_all add: parse_object_id_def strtoull_base_def c_str_def Let_def is_space_def is_hex_prefixed_def
      base_digit_def base_value_def is_digit_def is_lower_def is_upper_def)

end
