(* ===== verification/Mcp_Monitor_Sim.thy ===== *)
theory Mcp_Monitor_Sim
  imports Mcp_Monitor
begin

text \<open>
  The simulated backend of the system monitor (\<^verbatim>\<open>examples/vxworks_monitor/monitor_backend_sim.cpp\<close>).
  \<open>now\<close> is what the steady clock says, in milliseconds.
\<close>

record sim_task =
  st_name :: string
  st_id :: u64
  st_priority :: int
  st_status :: string
  st_stack_size :: u64
  st_stack_high :: u64
  st_cpu_ticks :: u64

definition sim_task :: "string \<Rightarrow> u64 \<Rightarrow> int \<Rightarrow> string \<Rightarrow> u64 \<Rightarrow> u64 \<Rightarrow> u64 \<Rightarrow> sim_task" where
  "sim_task n i p s sz h c = \<lparr>st_name = n, st_id = i, st_priority = p, st_status = s, st_stack_size = sz,
     st_stack_high = h, st_cpu_ticks = c\<rparr>"

definition kTasks :: "sim_task list" where
  "kTasks =
    [sim_task ''tShell0'' 0x60351ba8 1 ''READY'' 65536 22816 4,
     sim_task ''tWdbTask'' 0x60355c30 3 ''PEND'' 16384 3120 0,
     sim_task ''tSpyTask'' 0x60359f10 5 ''DELAY'' 8192 2048 1,
     sim_task ''tNetTask'' 0x6035e2c0 50 ''PEND'' 32768 9800 12,
     sim_task ''tAioIoTask0'' 0x60362a80 50 ''PEND'' 16384 2560 0,
     sim_task ''tMcpHttp0'' 0x60367140 100 ''PEND'' 32768 11264 6,
     sim_task ''tWorker0'' 0x6036b900 120 ''READY'' 8192 7420 148,
     sim_task ''tLogTask'' 0x6036fd20 0 ''PEND'' 16384 1980 0]"

definition sim_ticks :: "int \<Rightarrow> u64" where
  "sim_ticks now = word_of_int now * 60 div 1000"

definition make_snapshot :: "sim_task \<Rightarrow> task_snapshot" where
  "make_snapshot t =
     \<lparr>tk_name = st_name t, tk_id = st_id t, tk_priority = st_priority t, tk_status = st_status t, tk_cpu_index = 0,
      tk_error_status = 0, tk_delay_ticks = 0, tk_entry = st_id t - 0x1000, tk_stack_size = st_stack_size t,
      tk_stack_current = st_stack_high t div 2, tk_stack_high = st_stack_high t,
      tk_stack_margin = sint (st_stack_size t - st_stack_high t), tk_exc_stack_size = 4096,
      tk_exc_stack_current = 256, tk_exc_stack_high = 512, tk_exc_stack_margin = 4096 - 512\<rparr>"

definition sim_heap :: kernel_heap_stats where
  "sim_heap = \<lparr>kh_bytes_alloc = 18 * 1024 * 1024, kh_blocks_alloc = 4210, kh_bytes_free = 46 * 1024 * 1024,
     kh_blocks_free = 87, kh_peak_bytes_alloc = 21 * 1024 * 1024, kh_max_free_block = 40 * 1024 * 1024\<rparr>"

definition sim_list_tasks :: "string + task_snapshot list" where
  "sim_list_tasks = Inr (map make_snapshot kTasks)"

definition sim_task_info :: "string \<Rightarrow> string + task_snapshot" where
  "sim_task_info name_or_id =
     (case find (\<lambda>t. name_or_id = st_name t \<or> name_or_id = hex (st_id t) \<or>
         name_or_id = nat_to_string (unat (st_id t))) kTasks of
        Some t \<Rightarrow> Inr (make_snapshot t)
      | None \<Rightarrow> Inl (''task not found: '' @ name_or_id))"

definition sim_system_info :: "int \<Rightarrow> string + system_snapshot" where
  "sim_system_info now =
     Inr \<lparr>sy_ticks = sim_ticks now, sy_tick_rate_hz = 60,
       sy_uptime_seconds = double_rat (double_div (double_of_u64 (sim_ticks now)) (Finite 60)),
       sy_task_count = int (length kTasks), sy_module_count = 2, sy_heap = sim_heap\<rparr>"

definition sim_list_modules :: "string + module_snapshot list" where
  "sim_list_modules = Inr
     [\<lparr>md_name = ''vxworks_monitor_server.out'', md_id = 0x60800000, md_group = 2, md_text_addr = 0x60810000,
       md_text_size = 812 * 1024, md_data_addr = 0x608e0000, md_data_size = 96 * 1024, md_bss_addr = 0x608f8000,
       md_bss_size = 24 * 1024\<rparr>,
      \<lparr>md_name = ''myApp.out'', md_id = 0x60900000, md_group = 3, md_text_addr = 0x60910000,
       md_text_size = 210 * 1024, md_data_addr = 0x60948000, md_data_size = 32 * 1024, md_bss_addr = 0x60950000,
       md_bss_size = 8 * 1024\<rparr>]"

text \<open>\<^verbatim>\<open>100.0 * (double)ticks / (double)total\<close>.\<close>

definition tick_percent :: "u64 \<Rightarrow> u64 \<Rightarrow> rat" where
  "tick_percent ticks whole =
     (if whole = 0 then 0
      else double_rat (double_div (double_mul (Finite 100) (double_of_u64 ticks)) (double_of_u64 whole)))"

definition unattributed :: "u64 \<Rightarrow> u64 \<Rightarrow> u64" where
  "unattributed whole attributed = (if attributed < whole then whole - attributed else 0)"

definition sim_usage :: "u64 \<Rightarrow> nat \<Rightarrow> sim_task \<Rightarrow> cpu_task_usage" where
  "sim_usage whole seconds t =
     (let ticks = st_cpu_ticks t * of_nat seconds div 3
      in \<lparr>cu_name = st_name t, cu_id = st_id t, cu_ticks = ticks, cu_percent = tick_percent ticks whole\<rparr>)"

definition sim_cpu_usage :: "nat \<Rightarrow> string + cpu_usage_report" where
  "sim_cpu_usage seconds =
     (let whole = of_nat seconds * 60;
          tasks = map (sim_usage whole seconds) (filter (\<lambda>t. st_cpu_ticks t \<noteq> 0) kTasks)
      in Inr \<lparr>cr_window_seconds = seconds, cr_total_ticks = whole,
           cr_unattributed_ticks = unattributed whole (sum_list (map cu_ticks tasks)),
           cr_tasks = sort_key (\<lambda>t. - uint (cu_ticks t)) tasks\<rparr>)"

definition sim_sem_info :: "u64 \<Rightarrow> string + sem_snapshot" where
  "sim_sem_info i =
     (if i \<noteq> 0x60377000
      then Inl (''semInfoGet failed (invalid semaphore ID?) '' @ [CHR 0xE2, CHR 0x80, CHR 0x94] @
             '' the simulated backend only knows 0x60377000'')
      else Inr \<lparr>sm_id = i, sm_type_raw = 1, sm_type = ''mutex'', sm_options = 0x0d, sm_blocked_tasks = 2,
             sm_count = None, sm_full = None, sm_owner = Some (st_id (kTasks ! 6))\<rparr>)"

definition sim_msgq_info :: "u64 \<Rightarrow> string + msgq_snapshot" where
  "sim_msgq_info i =
     (if i \<noteq> 0x60378000
      then Inl (''msgQInfoGet failed (invalid message queue ID?) '' @ [CHR 0xE2, CHR 0x80, CHR 0x94] @
             '' the simulated backend only knows 0x60378000'')
      else Inr \<lparr>mq_id = i, mq_num_msgs = 3, mq_num_tasks = 0, mq_send_timeouts = 0, mq_recv_timeouts = 7,
             mq_options = 0x01, mq_max_msgs = 64, mq_max_msg_length = 512\<rparr>)"

definition sim_backend :: "int \<Rightarrow> monitor_backend" where
  "sim_backend now =
     \<lparr>mb_name = ''simulated'', mb_list_tasks = sim_list_tasks, mb_task_info = sim_task_info,
      mb_kernel_heap = Inr sim_heap, mb_system_info = sim_system_info now, mb_list_modules = sim_list_modules,
      mb_cpu_usage = sim_cpu_usage, mb_sem_info = sim_sem_info, mb_msgq_info = sim_msgq_info\<rparr>"

subsection \<open>Contracts\<close>

lemma ticks_sorted:
  "sorted_wrt (\<lambda>t u. cu_ticks u \<le> cu_ticks t) (sort_key (\<lambda>t. - uint (cu_ticks t)) tasks)"
  using sorted_sort_key [of "\<lambda>t. - uint (cu_ticks t)" tasks] by (simp add: sorted_map word_le_def)

lemma sum_list_ticks: "sum_list (map cu_ticks (sort_key f tasks)) = sum_list (map cu_ticks tasks)"
  by (metis mset_map mset_sort sum_mset_sum_list)

interpretation sim: cpu_reporter sim_cpu_usage
  by unfold_locales (auto simp: sim_cpu_usage_def Let_def ticks_sorted sum_list_ticks unattributed_def)

definition task_keys :: "sim_task \<Rightarrow> string list" where
  "task_keys t = [st_name t, hex (st_id t), nat_to_string (unat (st_id t))]"

lemma sim_keys: "map task_keys kTasks =
     [[''tShell0'', ''0x60351ba8'', ''1614093224''],
      [''tWdbTask'', ''0x60355c30'', ''1614109744''],
      [''tSpyTask'', ''0x60359f10'', ''1614126864''],
      [''tNetTask'', ''0x6035e2c0'', ''1614144192''],
      [''tAioIoTask0'', ''0x60362a80'', ''1614162560''],
      [''tMcpHttp0'', ''0x60367140'', ''1614180672''],
      [''tWorker0'', ''0x6036b900'', ''1614199040''],
      [''tLogTask'', ''0x6036fd20'', ''1614216480'']]"
proof -
  have digits: "nat_to_string n = (if n < 10 then [digit_char n] else nat_to_string (n div 10) @ [digit_char (n mod 10)])"
    "to_hex n = (if n < 16 then [hex_char n] else to_hex (n div 16) @ [hex_char (n mod 16)])" for n
    by (subst nat_to_string.simps, rule refl) (subst to_hex.simps, rule refl)
  show ?thesis
    by (simp only: kTasks_def list.map task_keys_def sim_task_def sim_task.simps hex_def)
      (simp add: digits [of "numeral k" for k] digits(1) [of "Suc 0"] digit_char_def hex_char_def)
qed

lemma find_by_key:
  "distinct (concat (map keys xs)) \<Longrightarrow> x \<in> set xs \<Longrightarrow> k \<in> set (keys x) \<Longrightarrow> find (\<lambda>x. k \<in> set (keys x)) xs = Some x"
  by (induction xs) (auto simp: disjoint_iff)

text \<open>Every listed task is found by its name, by its id in hexadecimal and by its id in decimal.\<close>

lemma sim_task_found:
  assumes "t \<in> set kTasks" and "s \<in> set (task_keys t)"
  shows "sim_task_info s = Inr (make_snapshot t)"
proof -
  have "distinct (concat (map task_keys kTasks))" unfolding sim_keys by simp
  from find_by_key [OF this assms] show ?thesis by (simp add: sim_task_info_def task_keys_def)
qed

text \<open>The simulated stacks are in the range where the ranking is exact.\<close>

lemma sim_stacks_sane:
  "\<forall>t \<in> set (map make_snapshot kTasks). unat (tk_stack_high t) \<le> unat (tk_stack_size t) \<and>
     0 < tk_stack_size t \<and> unat (tk_stack_size t) < 2 ^ 26"
  by (simp add: kTasks_def sim_task_def make_snapshot_def)

lemma stack_summary_ranks_witness:
  "\<exists>ranked. mset ranked = mset (map make_snapshot kTasks) \<and>
     sorted_wrt (\<lambda>s t. unat (tk_stack_high t) * unat (tk_stack_size s) \<le> unat (tk_stack_high s) * unat (tk_stack_size t)) ranked \<and>
     stack_summary_tool (\<lambda>j. Inr []) (sim_backend 0) (JObj []) = ok_result (\<lambda>j. Inr []) ''simulated'' (json_obj
       [(''taskCount'', JInt 8),
        (''warningCount'', JInt (int (length (filter (\<lambda>t. json_contains ''warning'' (stack_row t)) ranked)))),
        (''tasks'', JArr (map stack_row ranked))])"
proof -
  have "mb_list_tasks (sim_backend 0) = Inr (map make_snapshot kTasks)" "mb_name (sim_backend 0) = ''simulated''"
    by (simp_all add: sim_backend_def sim_list_tasks_def)
  moreover have "int (length (map make_snapshot kTasks)) = 8" by (simp add: kTasks_def)
  note facts = this calculation
  show ?thesis
    by (rule exE [OF stack_summary_ranks [OF facts(2), of "\<lambda>j. Inr []" "JObj []"]], elim conjE, drule mp [OF _ sim_stacks_sane],
        elim conjE, intro exI conjI; (assumption | simp only: facts))
qed

end
