(* ===== verification/Mcp_Monitor_Vx.thy ===== *)
theory Mcp_Monitor_Vx
  imports Mcp_Monitor_Sim
begin

text \<open>
  The VxWorks backend of the system monitor (\<^verbatim>\<open>examples/vxworks_monitor/monitor_backend_vxworks.cpp\<close>).
  The kernel is an argument: a record of what its information routines return, \<open>None\<close> or a negative count for
  an error.  Task and object ids are 64 bit words, \<open>ERROR\<close> is \<open>-1\<close>.

  CPU sampling is a state machine: a window is opened, the switch hook runs at task switches, and the
  window is closed.  The hook's calls are the events of a window.
\<close>

subsection \<open>The kernel\<close>

record task_desc =
  td_name :: "string option"
  td_priority :: int
  td_cpu_index :: int
  td_error_status :: int
  td_delay :: int
  td_entry :: u64
  td_stack_size :: int
  td_stack_current :: int
  td_stack_high :: int
  td_stack_margin :: int
  td_exc_stack_size :: int
  td_exc_stack_current :: int
  td_exc_stack_high :: int
  td_exc_stack_margin :: int

record mem_part_stats =
  mp_num_bytes_alloc :: int
  mp_num_blocks_alloc :: int
  mp_num_bytes_free :: int
  mp_num_blocks_free :: int
  mp_max_bytes_alloc :: int
  mp_max_block_size_free :: int

record module_info =
  mi_name :: string
  mi_group :: int
  mi_text_addr :: u64
  mi_text_size :: int
  mi_data_addr :: u64
  mi_data_size :: int
  mi_bss_addr :: u64
  mi_bss_size :: int

text \<open>The three readings of the union \<^verbatim>\<open>state\<close> are three fields.\<close>

record sem_info =
  si_num_tasks :: int
  si_type :: int
  si_options :: int
  si_full :: int
  si_owner :: u64
  si_count :: int

record msgq_info =
  qi_num_msgs :: int
  qi_num_tasks :: int
  qi_send_timeouts :: int
  qi_recv_timeouts :: int
  qi_options :: int
  qi_max_msgs :: int
  qi_max_msg_length :: int

record vx_kernel =
  vk_task_id_list :: "nat \<Rightarrow> u64 list option"
  vk_task_count :: int
  vk_task_info :: "u64 \<Rightarrow> task_desc option"
  vk_task_status :: "u64 \<Rightarrow> string"
  vk_task_verify :: "u64 \<Rightarrow> bool"
  vk_task_name_to_id :: "string \<Rightarrow> u64"
  vk_mem_part_info :: "mem_part_stats option"
  vk_tick :: u64
  vk_clk_rate :: int
  vk_module_id_list :: "nat \<Rightarrow> u64 list option"
  vk_module_info :: "u64 \<Rightarrow> module_info option"
  vk_sem_info :: "u64 \<Rightarrow> sem_info option"
  vk_sem_binary :: int
  vk_sem_mutex :: int
  vk_sem_counting :: int
  vk_msgq_info :: "u64 \<Rightarrow> msgq_info option"

subsection \<open>Tasks, memory and modules\<close>

definition kMaxTasks :: nat where "kMaxTasks = 256"
definition kMaxModules :: nat where "kMaxModules = 64"

definition task_lookup :: "vx_kernel \<Rightarrow> string \<Rightarrow> u64 option" where
  "task_lookup k name_or_id =
     (let s = c_str name_or_id;
          hex_id = of_nat (fst (strtoull_base 16 (drop 2 s)));
          dec_id = of_nat (fst (strtoull_base 10 s));
          named = vk_task_name_to_id k s
      in if 2 \<le> length s \<and> s ! 0 = CHR ''0'' \<and> (s ! 1 = CHR ''x'' \<or> s ! 1 = CHR ''X'') \<and> vk_task_verify k hex_id
         then Some hex_id
         else if s \<noteq> [] \<and> is_digit (hd s) \<and> vk_task_verify k dec_id then Some dec_id
         else if named \<noteq> - 1 \<and> named \<noteq> 0 then Some named
         else None)"

definition fill_task :: "vx_kernel \<Rightarrow> u64 \<Rightarrow> task_snapshot option" where
  "fill_task k tid =
     map_option (\<lambda>d.
       \<lparr>tk_name = (case td_name d of Some n \<Rightarrow> n | None \<Rightarrow> []), tk_id = tid, tk_priority = td_priority d,
        tk_status = vk_task_status k tid, tk_cpu_index = td_cpu_index d, tk_error_status = td_error_status d,
        tk_delay_ticks = td_delay d, tk_entry = td_entry d, tk_stack_size = word_of_int (td_stack_size d),
        tk_stack_current = word_of_int (td_stack_current d), tk_stack_high = word_of_int (td_stack_high d),
        tk_stack_margin = td_stack_margin d, tk_exc_stack_size = word_of_int (td_exc_stack_size d),
        tk_exc_stack_current = word_of_int (td_exc_stack_current d),
        tk_exc_stack_high = word_of_int (td_exc_stack_high d), tk_exc_stack_margin = td_exc_stack_margin d\<rparr>)
     (vk_task_info k tid)"

definition vx_fill_heap :: "vx_kernel \<Rightarrow> string + kernel_heap_stats" where
  "vx_fill_heap k =
     (case vk_mem_part_info k of
        None \<Rightarrow> Inl ''memPartInfoGet failed for the system partition''
      | Some s \<Rightarrow> Inr \<lparr>kh_bytes_alloc = word_of_int (mp_num_bytes_alloc s),
          kh_blocks_alloc = word_of_int (mp_num_blocks_alloc s), kh_bytes_free = word_of_int (mp_num_bytes_free s),
          kh_blocks_free = word_of_int (mp_num_blocks_free s), kh_peak_bytes_alloc = word_of_int (mp_max_bytes_alloc s),
          kh_max_free_block = word_of_int (mp_max_block_size_free s)\<rparr>)"

definition vx_list_tasks :: "vx_kernel \<Rightarrow> string + task_snapshot list" where
  "vx_list_tasks k =
     (case vk_task_id_list k kMaxTasks of
        None \<Rightarrow> Inl ''taskIdListGet failed''
      | Some ids \<Rightarrow> Inr (List.map_filter (fill_task k) ids))"

definition vx_task_info :: "vx_kernel \<Rightarrow> string \<Rightarrow> string + task_snapshot" where
  "vx_task_info k name_or_id =
     (case task_lookup k name_or_id of
        None \<Rightarrow> Inl (''task not found: '' @ name_or_id)
      | Some tid \<Rightarrow>
          (case fill_task k tid of
             None \<Rightarrow> Inl (''taskInfoGet failed for: '' @ name_or_id)
           | Some t \<Rightarrow> Inr t))"

definition vx_system_info :: "vx_kernel \<Rightarrow> string + system_snapshot" where
  "vx_system_info k =
     (let rate = word_of_int (vk_clk_rate k)
      in mapE (\<lambda>h. \<lparr>sy_ticks = vk_tick k, sy_tick_rate_hz = rate,
             sy_uptime_seconds = (if rate = 0 then 0
                else double_rat (double_div (double_of_u64 (vk_tick k)) (double_of_u64 rate))),
             sy_task_count = vk_task_count k,
             sy_module_count = (case vk_module_id_list k kMaxModules of Some ids \<Rightarrow> int (length ids) | None \<Rightarrow> 0),
             sy_heap = h\<rparr>) (vx_fill_heap k))"

definition module_snapshot_of :: "u64 \<Rightarrow> module_info \<Rightarrow> module_snapshot" where
  "module_snapshot_of i m =
     \<lparr>md_name = mi_name m, md_id = i, md_group = mi_group m, md_text_addr = mi_text_addr m,
      md_text_size = word_of_int (mi_text_size m), md_data_addr = mi_data_addr m,
      md_data_size = word_of_int (mi_data_size m), md_bss_addr = mi_bss_addr m,
      md_bss_size = word_of_int (mi_bss_size m)\<rparr>"

definition vx_list_modules :: "vx_kernel \<Rightarrow> string + module_snapshot list" where
  "vx_list_modules k =
     (case vk_module_id_list k kMaxModules of
        None \<Rightarrow> Inl ''moduleIdListGet failed''
      | Some ids \<Rightarrow> Inr (List.map_filter (\<lambda>i. map_option (module_snapshot_of i) (vk_module_info k i)) ids))"

subsection \<open>Semaphores and message queues\<close>

definition vx_sem_info :: "vx_kernel \<Rightarrow> u64 \<Rightarrow> string + sem_snapshot" where
  "vx_sem_info k i =
     (case vk_sem_info k i of
        None \<Rightarrow> Inl ''semInfoGet failed (invalid semaphore ID?)''
      | Some s \<Rightarrow>
          let base = \<lparr>sm_id = i, sm_type_raw = si_type s, sm_type = ''type-'' @ int_to_string (si_type s),
                sm_options = si_options s, sm_blocked_tasks = nat (si_num_tasks s mod 2 ^ 32), sm_count = None,
                sm_full = None, sm_owner = None\<rparr>
          in Inr (if si_type s = vk_sem_binary k then base\<lparr>sm_type := ''binary'', sm_full := Some (si_full s \<noteq> 0)\<rparr>
                  else if si_type s = vk_sem_mutex k then base\<lparr>sm_type := ''mutex'', sm_owner := Some (si_owner s)\<rparr>
                  else if si_type s = vk_sem_counting k
                  then base\<lparr>sm_type := ''counting'', sm_count := Some (nat (si_count s mod 2 ^ 32))\<rparr>
                  else base))"

definition vx_msgq_info :: "vx_kernel \<Rightarrow> u64 \<Rightarrow> string + msgq_snapshot" where
  "vx_msgq_info k i =
     (case vk_msgq_info k i of
        None \<Rightarrow> Inl ''msgQInfoGet failed (invalid message queue ID?)''
      | Some q \<Rightarrow> Inr \<lparr>mq_id = i, mq_num_msgs = qi_num_msgs q, mq_num_tasks = qi_num_tasks q,
          mq_send_timeouts = qi_send_timeouts q, mq_recv_timeouts = qi_recv_timeouts q, mq_options = qi_options q,
          mq_max_msgs = qi_max_msgs q, mq_max_msg_length = word_of_int (qi_max_msg_length q)\<rparr>)"

subsection \<open>Sampling the CPU\<close>

record sampler =
  sp_slots :: "(u64 \<times> u64) list"
  sp_last_switch :: u64
  sp_sampling :: bool

definition new_sampler :: sampler where
  "new_sampler = \<lparr>sp_slots = [], sp_last_switch = 0, sp_sampling = False\<rparr>"

text \<open>The hook: the ticks since the last switch go to the task that is switched out.\<close>

definition add_ticks :: "u64 \<Rightarrow> u64 \<Rightarrow> (u64 \<times> u64) list \<Rightarrow> (u64 \<times> u64) list" where
  "add_ticks tid delta slots =
     (case map_of slots tid of
        Some t \<Rightarrow> AList.update tid (t + delta) slots
      | None \<Rightarrow> if length slots < kMaxTasks then slots @ [(tid, delta)] else slots)"

definition switch_hook :: "u64 \<times> u64 \<Rightarrow> sampler \<Rightarrow> sampler" where
  "switch_hook e s =
     (case e of (now, tid) \<Rightarrow>
        let delta = now - sp_last_switch s; s = s\<lparr>sp_last_switch := now\<rparr>
        in if delta = 0 then s else s\<lparr>sp_slots := add_ticks tid delta (sp_slots s)\<rparr>)"

text \<open>\<open>hook_added\<close> is the outcome of \<^verbatim>\<open>taskSwitchHookAdd\<close>.\<close>

definition open_window :: "u64 \<Rightarrow> bool \<Rightarrow> sampler \<Rightarrow> string option \<times> sampler" where
  "open_window now hook_added s =
     (if sp_sampling s then (Some ''a CPU sampling window is already running'', s)
      else let s = s\<lparr>sp_sampling := True, sp_slots := [], sp_last_switch := now\<rparr>
           in if hook_added then (None, s)
              else (Some ''taskSwitchHookAdd failed (hook table full?)'', s\<lparr>sp_sampling := False\<rparr>))"

text \<open>How long the caller sleeps, in ticks, as a signed 32 bit number.\<close>

definition window_delay :: "vx_kernel \<Rightarrow> nat \<Rightarrow> int" where
  "window_delay k seconds = wrap32 (int seconds * vk_clk_rate k)"

definition slot_usage :: "vx_kernel \<Rightarrow> u64 \<Rightarrow> u64 \<times> u64 \<Rightarrow> cpu_task_usage" where
  "slot_usage k whole slot =
     (case slot of (tid, ticks) \<Rightarrow>
       \<lparr>cu_name = (case (if vk_task_verify k tid then vk_task_info k tid else None) of
            Some d \<Rightarrow> (case td_name d of Some n \<Rightarrow> n | None \<Rightarrow> []) | None \<Rightarrow> ''(exited)''),
        cu_id = tid, cu_ticks = ticks, cu_percent = tick_percent ticks whole\<rparr>)"

definition close_window :: "vx_kernel \<Rightarrow> nat \<Rightarrow> u64 \<Rightarrow> u64 \<Rightarrow> sampler \<Rightarrow> cpu_usage_report \<times> sampler" where
  "close_window k seconds start now s =
     (let whole = now - start; tasks = map (slot_usage k whole) (sp_slots s)
      in (\<lparr>cr_window_seconds = seconds, cr_total_ticks = whole,
           cr_unattributed_ticks = unattributed whole (sum_list (map cu_ticks tasks)),
           cr_tasks = sort_key (\<lambda>t. - uint (cu_ticks t)) tasks\<rparr>, s\<lparr>sp_sampling := False\<rparr>))"

text \<open>A whole call, with the calls of the hook while it sleeps.\<close>

definition vx_cpu_usage :: "vx_kernel \<Rightarrow> u64 \<Rightarrow> bool \<Rightarrow> (u64 \<times> u64) list \<Rightarrow> u64 \<Rightarrow> sampler \<Rightarrow> nat \<Rightarrow>
    (string + cpu_usage_report) \<times> sampler" where
  "vx_cpu_usage k start hook_added events finish s seconds =
     (case open_window start hook_added s of
        (Some e, s) \<Rightarrow> (Inl e, s)
      | (None, s) \<Rightarrow>
          let (r, s) = close_window k seconds start finish (fold switch_hook events s) in (Inr r, s))"

definition vx_backend :: "vx_kernel \<Rightarrow> (nat \<Rightarrow> string + cpu_usage_report) \<Rightarrow> monitor_backend" where
  "vx_backend k usage =
     \<lparr>mb_name = ''vxworks'', mb_list_tasks = vx_list_tasks k, mb_task_info = vx_task_info k,
      mb_kernel_heap = vx_fill_heap k, mb_system_info = vx_system_info k, mb_list_modules = vx_list_modules k,
      mb_cpu_usage = usage, mb_sem_info = vx_sem_info k, mb_msgq_info = vx_msgq_info k\<rparr>"

interpretation vx: cpu_reporter "\<lambda>seconds. fst (vx_cpu_usage k start hook_added events finish s seconds)"
  for k start hook_added events finish s
  by unfold_locales
    (auto simp: vx_cpu_usage_def close_window_def Let_def ticks_sorted sum_list_ticks unattributed_def
      split: prod.splits option.splits)

subsection \<open>Where the ticks go\<close>

text \<open>The time between two calls of the hook, with the task it belongs to, and all the time of a task.\<close>

fun slices :: "u64 \<Rightarrow> (u64 \<times> u64) list \<Rightarrow> (u64 \<times> nat) list" where
  "slices last_tick [] = []"
| "slices last_tick ((now, tid) # es) = (tid, unat now - unat last_tick) # slices now es"

definition time_of :: "u64 \<Rightarrow> (u64 \<times> u64) list \<Rightarrow> u64 \<Rightarrow> nat" where
  "time_of start es tid = sum_list (map snd (filter (\<lambda>p. fst p = tid) (slices start es)))"

definition last_tick :: "u64 \<Rightarrow> (u64 \<times> u64) list \<Rightarrow> u64" where
  "last_tick start es = last (start # map fst es)"

lemma slices_snoc: "slices start (es @ [(now, tid)]) = slices start es @ [(tid, unat now - unat (last_tick start es))]"
  by (induction start es rule: slices.induct) (simp_all add: last_tick_def)

lemma time_of_snoc: "time_of start (es @ [(now, tid)]) t =
    time_of start es t + (if t = tid then unat now - unat (last_tick start es) else 0)"
  by (simp add: time_of_def slices_snoc)

lemma slices_sum:
  "sorted (start # map fst es) \<Longrightarrow> sum_list (map snd (slices start es)) = unat (last_tick start es) - unat start"
proof (induction start es rule: slices.induct)
  case (2 s now tid es)
  then have "s \<le> now" "sorted (now # map fst es)" by simp_all
  moreover from this(2) have "now \<le> last_tick now es"
    by (cases es rule: rev_cases) (auto simp: last_tick_def sorted_append)
  ultimately have "unat s \<le> unat now" "unat now \<le> unat (last_tick now es)" by (simp_all add: word_le_nat_alt)
  with 2 show ?case by (simp add: last_tick_def)
qed (simp add: last_tick_def)

lemma sum_list_hits: "distinct ts \<Longrightarrow> sum_list (map (\<lambda>t. if a = t then c else (0::nat)) ts) = (if a \<in> set ts then c else 0)"
  by (induction ts) auto

lemma grouped_sum_le:
  "distinct ts \<Longrightarrow> sum_list (map (\<lambda>t. sum_list (map snd (filter (\<lambda>p. fst p = t) xs))) ts) \<le> sum_list (map (snd :: _ \<Rightarrow> nat) xs)"
proof (induction xs)
  case (Cons x xs)
  have "sum_list (map (\<lambda>t. sum_list (map snd (filter (\<lambda>p. fst p = t) (x # xs)))) ts) =
      sum_list (map (\<lambda>t. (if fst x = t then snd x else 0) + sum_list (map snd (filter (\<lambda>p. fst p = t) xs))) ts)"
    by (intro arg_cong [of _ _ sum_list] map_cong) auto
  also have "\<dots> \<le> sum_list (map snd (x # xs))"
    using Cons by (simp add: sum_list_addf sum_list_hits)
  finally show ?case .
qed simp

lemma time_of_sum_le:
  assumes "sorted (start # map fst es)" and "distinct ts"
  shows "sum_list (map (time_of start es) ts) \<le> unat (last_tick start es) - unat start"
  using grouped_sum_le [OF assms(2), of "slices start es"] slices_sum [OF assms(1)] by (simp add: time_of_def [abs_def])

lemma time_of_le: "sorted (start # map fst es) \<Longrightarrow> time_of start es t \<le> unat (last_tick start es) - unat start"
  using time_of_sum_le [of start es "[t]"] by simp

text \<open>The table keeps the exact time of every task it holds, and misses none while it has room.\<close>

definition slots_ok :: "u64 \<Rightarrow> (u64 \<times> u64) list \<Rightarrow> (u64 \<times> u64) list \<Rightarrow> bool" where
  "slots_ok start es slots \<longleftrightarrow>
     distinct (map fst slots) \<and> length slots \<le> kMaxTasks \<and>
     (\<forall>(t, v) \<in> set slots. unat v = time_of start es t) \<and>
     (length slots < kMaxTasks \<longrightarrow> (\<forall>t. 0 < time_of start es t \<longrightarrow> t \<in> fst ` set slots))"

lemma slots_ok_unchanged:
  assumes "slots_ok start es slots" and "\<forall>t. time_of start es' t = time_of start es t"
  shows "slots_ok start es' slots"
  using assms by (simp add: slots_ok_def)

lemma add_ticks_ok:
  assumes ok: "slots_ok start es slots" and srt: "sorted (start # map fst (es @ [(now, tid)]))"
    and moved: "now \<noteq> last_tick start es"
  shows "slots_ok start (es @ [(now, tid)]) (add_ticks tid (now - last_tick start es) slots)"
proof -
  let ?l = "last_tick start es"
  have "?l \<le> now" using srt by (cases es rule: rev_cases) (auto simp: last_tick_def sorted_append)
  then have d: "unat (now - ?l) = unat now - unat ?l" "unat ?l \<le> unat now"
    by (simp_all add: unat_sub word_le_nat_alt)
  with moved have pos: "0 < unat now - unat ?l" by (simp add: word_unat_eq_iff)
  have dist: "distinct (map fst slots)" and len: "length slots \<le> kMaxTasks" using ok by (simp_all add: slots_ok_def)
  show ?thesis
  proof (cases "map_of slots tid")
    case None
    then have new: "tid \<notin> fst ` set slots" by (simp add: map_of_eq_None_iff)
    show ?thesis
    proof (cases "length slots < kMaxTasks")
      case True
      have none: "time_of start es tid = 0" using ok True new by (auto simp: slots_ok_def)
      have same: "t \<noteq> tid" if "(t, v) \<in> set slots" for t v using new that by force
      have "\<forall>(t, v) \<in> set slots. unat v = time_of start (es @ [(now, tid)]) t"
        using ok same by (auto simp: slots_ok_def time_of_snoc)
      moreover have "\<forall>t. 0 < time_of start (es @ [(now, tid)]) t \<longrightarrow> t = tid \<or> t \<in> fst ` set slots"
        using ok True by (auto simp: slots_ok_def time_of_snoc)
      ultimately show ?thesis
        using None True dist new d none by (simp add: slots_ok_def add_ticks_def time_of_snoc)
    next
      case False
      have same: "t \<noteq> tid" if "(t, v) \<in> set slots" for t v using new that by force
      with ok False None show ?thesis by (auto simp: slots_ok_def add_ticks_def time_of_snoc)
    qed
  next
    case (Some v)
    then have v: "(tid, v) \<in> set slots" by (rule map_of_SomeD)
    then have rv: "unat v = time_of start es tid" using ok by (auto simp: slots_ok_def)
    have "time_of start (es @ [(now, tid)]) tid \<le> unat now - unat start"
      using time_of_le [OF srt, of tid] by (simp add: last_tick_def)
    then have "unat v + unat (now - ?l) < 2 ^ LENGTH(64)"
      using rv d time_of_snoc [of start es now tid tid] unsigned_less [of now, where 'a = nat] by simp
    then have sum: "unat (v + (now - ?l)) = time_of start (es @ [(now, tid)]) tid"
      using rv d by (simp add: unat_plus_if' time_of_snoc)
    have keys: "map fst (AList.update tid w slots) = map fst slots" for w
      using v by (simp add: update_keys) force
    have entry: "unat x = time_of start (es @ [(now, tid)]) t" if "(t, x) \<in> set (AList.update tid (v + (now - ?l)) slots)" for t x
    proof -
      have "distinct (map fst (AList.update tid (v + (now - ?l)) slots))" using dist by (simp add: keys)
      with that have "map_of (AList.update tid (v + (now - ?l)) slots) t = Some x" by simp
      then have "(t = tid \<and> x = v + (now - ?l)) \<or> (t \<noteq> tid \<and> map_of slots t = Some x)"
        by (auto simp: update_conv' split: if_splits)
      with sum ok show ?thesis by (auto simp: slots_ok_def time_of_snoc dest: map_of_SomeD)
    qed
    let ?new = "AList.update tid (v + (now - ?l)) slots"
    have "length ?new = length slots" "fst ` set ?new = fst ` set slots"
      using keys by (metis length_map, metis list.set_map)
    moreover have "tid \<in> fst ` set slots" using v by force
    ultimately have "length ?new < kMaxTasks \<longrightarrow> (\<forall>t. 0 < time_of start (es @ [(now, tid)]) t \<longrightarrow> t \<in> fst ` set ?new)"
      using ok by (auto simp: slots_ok_def time_of_snoc split: if_splits)
    moreover have "distinct (map fst ?new)" "length ?new \<le> kMaxTasks"
      using dist len keys \<open>length ?new = length slots\<close> by simp_all
    moreover have "\<forall>(t, x) \<in> set ?new. unat x = time_of start (es @ [(now, tid)]) t" using entry by blast
    moreover have "add_ticks tid (now - ?l) slots = ?new" by (simp add: add_ticks_def Some)
    ultimately show ?thesis by (simp only: slots_ok_def simp_thms)
  qed
qed

lemma hook_run:
  assumes "sorted (start # map fst es)" and "sp_last_switch s = start" and "sp_slots s = []"
  shows "sp_last_switch (fold switch_hook es s) = last_tick start es \<and> slots_ok start es (sp_slots (fold switch_hook es s)) \<and>
    sp_sampling (fold switch_hook es s) = sp_sampling s"
  using assms(1)
proof (induction es rule: rev_induct)
  case Nil
  with assms(2,3) show ?case by (simp add: last_tick_def slots_ok_def time_of_def)
next
  case (snoc e es)
  obtain now tid where e: "e = (now, tid)" by fastforce
  have "sorted (start # map fst es)" using snoc.prems by (simp add: sorted_append)
  note ih = snoc.IH [OF this]
  show ?case
  proof (cases "now = last_tick start es")
    case True
    with ih e slots_ok_unchanged [of start es _ "es @ [e]"] show ?thesis
      by (simp add: switch_hook_def Let_def last_tick_def time_of_snoc)
  next
    case False
    with ih e add_ticks_ok [of start es _ now tid] snoc.prems show ?thesis
      by (simp add: switch_hook_def Let_def last_tick_def)
  qed
qed

lemma unat_sum_list:
  fixes ws :: "u64 list"
  shows "sum_list (map unat ws) < 2 ^ 64 \<Longrightarrow> unat (sum_list ws) = sum_list (map unat ws)"
proof (induction ws)
  case (Cons w ws)
  then have "unat (sum_list ws) = sum_list (map unat ws)" by simp
  with Cons.prems show ?case by (simp add: unat_plus_if')
qed simp

text \<open>What the report of a window adds up to, whatever its slots are.\<close>

lemma window_total:
  assumes "sorted (start # map fst events @ [finish])" and "slots_ok start events slots"
    and "tasks = map (slot_usage k (finish - start)) slots"
  shows "sum_list (map (\<lambda>u. unat (cu_ticks u)) tasks) +
    unat (unattributed (finish - start) (sum_list (map cu_ticks tasks))) = unat finish - unat start"
proof -
  have srt: "sorted (start # map fst events)" using assms(1) by (simp add: sorted_append)
  have le: "unat start \<le> unat finish" "unat (last_tick start events) \<le> unat finish"
    using assms(1) by (cases events rule: rev_cases; auto simp: last_tick_def sorted_append word_le_nat_alt)+
  have ticks: "map cu_ticks tasks = map snd slots" by (auto simp: assms(3) slot_usage_def)
  have "map (\<lambda>p. unat (snd p)) slots = map (\<lambda>p. time_of start events (fst p)) slots"
    using assms(2) by (auto simp: slots_ok_def)
  then have "sum_list (map (\<lambda>p. unat (snd p)) slots) = sum_list (map (time_of start events) (map fst slots))"
    by (simp only: map_map comp_def)
  also have "\<dots> \<le> unat (last_tick start events) - unat start"
    using assms(2) by (intro time_of_sum_le [OF srt]) (simp add: slots_ok_def)
  finally have bound: "sum_list (map unat (map cu_ticks tasks)) \<le> unat finish - unat start"
    using le by (simp add: ticks comp_def)
  then have "unat (sum_list (map cu_ticks tasks)) = sum_list (map unat (map cu_ticks tasks))"
    using unat_sum_list [of "map cu_ticks tasks"] unsigned_less [of finish, where 'a = nat] by simp
  moreover have "unat (finish - start) = unat finish - unat start" using le by (simp add: unat_sub word_le_nat_alt)
  ultimately show ?thesis
    using bound by (auto simp: unattributed_def word_less_nat_alt unat_sub word_le_nat_alt comp_def)
qed

subsection \<open>Properties\<close>


text \<open>A kernel without tasks, modules and objects.\<close>

definition idle_kernel :: vx_kernel where
  "idle_kernel =
     \<lparr>vk_task_id_list = (\<lambda>_. Some []), vk_task_count = 0, vk_task_info = (\<lambda>_. None), vk_task_status = (\<lambda>_. []),
      vk_task_verify = (\<lambda>_. False), vk_task_name_to_id = (\<lambda>_. 0), vk_mem_part_info = None, vk_tick = 0, vk_clk_rate = 60,
      vk_module_id_list = (\<lambda>_. Some []), vk_module_info = (\<lambda>_. None), vk_sem_info = (\<lambda>_. None),
      vk_sem_binary = 0, vk_sem_mutex = 1, vk_sem_counting = 2, vk_msgq_info = (\<lambda>_. None)\<rparr>"


lemma not_hex_prefixed_digits: "\<not> is_hex_prefixed (to_hex n)"
proof
  assume "is_hex_prefixed (to_hex n)"
  then have "to_hex n ! 1 \<in> {CHR ''x'', CHR ''X''}" "to_hex n ! 1 \<in> set (to_hex n)"
    by (auto simp: is_hex_prefixed_def)
  then show False
    using to_to_hex [of n] by (auto simp: list_all_iff base_digit_def is_digit_def is_lower_def is_upper_def)
qed

lemma hex_digit_plain: "base_digit 16 c \<noteq> None \<Longrightarrow> \<not> is_space c \<and> c \<noteq> CHR ''-'' \<and> c \<noteq> CHR ''+''"
  by (auto simp: base_digit_def is_digit_def is_lower_def is_upper_def is_space_def)

lemma strtoull_to_hex: "n < 2 ^ 64 \<Longrightarrow> strtoull_base 16 (to_hex n) = (n, [])"
proof -
  assume n: "n < 2 ^ 64"
  obtain c r where cr: "to_hex n = c # r" by (cases "to_hex n") auto
  then have c: "\<not> is_space c" "c \<noteq> CHR ''-''" "c \<noteq> CHR ''+''"
    using to_to_hex [of n] hex_digit_plain [of c] by auto
  then have "dropWhile is_space (to_hex n) = to_hex n" "hd (to_hex n) = c" by (simp_all add: cr)
  moreover have "takeWhile (\<lambda>c. base_digit 16 c \<noteq> None) (to_hex n) = to_hex n"
    using to_to_hex [of n] by (simp add: list_all_iff)
  ultimately show ?thesis
    using n c not_hex_prefixed_digits [of n] base_value_hex [of n]
    by (simp add: strtoull_base_def Let_def del: takeWhile_eq_all_conv)
qed

lemma task_lookup_hex: "vk_task_verify k tid \<Longrightarrow> task_lookup k (hex tid) = Some tid"
  using strtoull_to_hex [of "unat tid"] unsigned_less [of tid, where 'a = nat] to_hex_no_nul [of tid]
  by (simp add: task_lookup_def Let_def) (simp add: hex_def)

text \<open>
  The ids the monitor prints can be used as arguments: a task listed by the simulated backend is found by its name,
  its hexadecimal and its decimal id; a task of a VxWorks system that exists is found by its hexadecimal id; and
  the semaphore and message queue tools ask the backend for exactly the object whose id was printed.
\<close>

theorem printed_ids_accepted:
  "(\<forall>t \<in> set kTasks. \<forall>s \<in> set (task_keys t). sim_task_info s = Inr (make_snapshot t)) \<and>
   (\<forall>k tid t. vk_task_verify k tid \<longrightarrow> fill_task k tid = Some t \<longrightarrow> vx_task_info k (hex tid) = Inr t) \<and>
   (\<forall>b w args. json_find ''id'' args = Some (JStr (hex w)) \<longrightarrow>
     parse_object_id args = Inr (Inr w) \<and>
     semaphore_info_tool dump b args = or_fail (mb_sem_info b w) (\<lambda>s. ok_result dump (mb_name b) (sem_json s)))"
  using sim_task_found task_lookup_hex object_tools_lookup(1) parse_hex_id by (simp add: vx_task_info_def)

lemma printed_ids_accepted_witness:
  "sim_task_info ''tShell0'' = Inr (make_snapshot (hd kTasks)) \<and>
   semaphore_info_tool (\<lambda>j. Inr []) (sim_backend 0) (JObj [(''id'', JStr (hex 0x60377000))]) =
     or_fail (sim_sem_info 0x60377000) (\<lambda>s. ok_result (\<lambda>j. Inr []) ''simulated'' (sem_json s))"
  using printed_ids_accepted [of "\<lambda>j. Inr []"]
  by (auto simp: kTasks_def task_keys_def sim_task_def sim_backend_def)

end
