(* ===== verification/Mcp_Examples.thy ===== *)
theory Mcp_Examples
  imports Mcp_Calculator Mcp_Monitor_Vx Mcp_Deployment
begin

text \<open>
  The example servers as applications of the facade: the echo server (\<^verbatim>\<open>examples/echo_server.cpp\<close>,
  \<^verbatim>\<open>examples/echo_server_http.cpp\<close>), the calculator (\<^verbatim>\<open>examples/calculator_server.cpp\<close>) and the
  system monitor (\<^verbatim>\<open>examples/vxworks_monitor/vxworks_monitor_server.cpp\<close>), with their command lines and the entry
  points that kernel modules offer to the VxWorks shell.
\<close>

subsection \<open>Configuration\<close>

definition plain_spec :: "string \<Rightarrow> json \<Rightarrow> tool_handler \<Rightarrow> tool_spec" where
  "plain_spec description schema h =
     \<lparr>ts_title = None, ts_description = Some description, ts_input_schema = schema, ts_output_schema = None,
      ts_handler = Some h\<rparr>"

definition property_schema :: "string \<Rightarrow> json \<Rightarrow> bool \<Rightarrow> json" where
  "property_schema k sub needed =
     json_obj ([(''type'', JStr ''object''), (''properties'', json_obj [(k, sub)])] @
       (if needed then [(''required'', JArr [JStr k])] else []))"

definition typed :: "string \<Rightarrow> json" where
  "typed t = json_obj [(''type'', JStr t)]"

definition described :: "string \<Rightarrow> string \<Rightarrow> json" where
  "described t d = json_obj [(''type'', JStr t), (''description'', JStr d)]"

definition echo_handler :: tool_handler where
  "echo_handler args =
     mapE (\<lambda>s. \<lparr>ctr_content = [text_content s], ctr_is_error = False\<rparr>) (bindE (json_at ''message'' args) get_string)"

definition echo_tools :: "(string \<times> tool_spec) list" where
  "echo_tools = [(''echo'', plain_spec ''Echoes back the input'' (property_schema ''message'' (typed ''string'') True) echo_handler)]"

definition calculator_tools :: "string \<Rightarrow> (string \<times> tool_spec) list" where
  "calculator_tools nan_text =
     [(''calculate'', plain_spec ''Evaluate a mathematical expression''
        (property_schema ''expression'' (typed ''string'') True) (calculate nan_text))]"

definition kEmptySchema :: json where
  "kEmptySchema = json_obj [(''type'', JStr ''object''), (''properties'', JObj [])]"

definition object_schema :: "string \<Rightarrow> json" where
  "object_schema thing = property_schema ''id''
     (described ''string'' (''Hex ID of the '' @ thing @ '', e.g. '' @ [CHR 0x22] @ ''0x60377000'' @ [CHR 0x22])) True"

definition monitor_task_tools :: "(json \<Rightarrow> string throws) \<Rightarrow> monitor_backend \<Rightarrow> (string \<times> tool_spec) list" where
  "monitor_task_tools dump b =
     [(''list_tasks'', plain_spec
        (''List all tasks with priority, status, CPU index and stack usage. '' @
         ''Optional statusFilter substring-matches the status (e.g. '' @ [CHR 0x22] @ ''PEND'' @ [CHR 0x22] @ '').'')
        (property_schema ''statusFilter'' (described ''string''
          ''Only tasks whose status contains this string (READY, PEND, DELAY, SUSPEND, ...)'') False)
        (list_tasks_tool dump b)),
      (''task_info'', plain_spec
        (''Full detail for one task (execution + exception stack, priority, '' @
         ''status, entry point) by name, decimal ID, or hex ID.'')
        (property_schema ''task'' (described ''string''
          (''Task name (e.g. '' @ [CHR 0x22] @ ''tShell0'' @ [CHR 0x22] @ '') or ID (e.g. '' @ [CHR 0x22] @
           ''0x60351ba8'' @ [CHR 0x22] @ '')'')) True)
        (task_info_tool dump b)),
      (''stack_summary'', plain_spec
        (''Stack usage for every task, sorted by peak use percentage, with '' @
         ''warnings for >85% peak use or margin below 512 bytes.'')
        kEmptySchema (stack_summary_tool dump b))]"

definition monitor_system_tools :: "(json \<Rightarrow> string throws) \<Rightarrow> monitor_backend \<Rightarrow> (string \<times> tool_spec) list" where
  "monitor_system_tools dump b =
     [(''memory_info'', plain_spec
        (''Kernel heap (system memory partition) statistics: allocated, free, '' @
         ''peak, largest free block, fragmentation.'')
        kEmptySchema (memory_info_tool dump b)),
      (''cpu_usage'', plain_spec
        (''Sample per-task CPU usage over a window (default 3s, max 10s) using '' @
         ''a task-switch hook at system-tick resolution. Blocks this session '' @
         ''for the whole window. unattributedTicks is mostly idle time.'')
        (json_obj [(''type'', JStr ''object''), (''properties'', json_obj
          [(''seconds'', described ''integer'' ''Sampling window in seconds (1-10, default 3)''),
           (''topN'', described ''integer'' ''Return at most this many tasks (default 10)'')])])
        (cpu_usage_tool dump b)),
      (''system_info'', plain_spec
        (''System overview: uptime, tick rate, task and module counts, kernel '' @ ''heap summary.'')
        kEmptySchema (system_info_tool dump b)),
      (''list_modules'', plain_spec
        (''List loaded kernel object modules with text/data/bss segment '' @ ''addresses and sizes.'')
        kEmptySchema (list_modules_tool dump b))]"

definition monitor_object_tools :: "(json \<Rightarrow> string throws) \<Rightarrow> monitor_backend \<Rightarrow> (string \<times> tool_spec) list" where
  "monitor_object_tools dump b =
     [(''semaphore_info'', plain_spec
        (''Inspect a semaphore by ID: type (binary/mutex/counting), state '' @
         ''(count / full / owner task), and how many tasks are blocked on it.'')
        (object_schema ''semaphore'') (semaphore_info_tool dump b)),
      (''msgq_info'', plain_spec
        (''Inspect a message queue by ID: queued messages, blocked tasks, '' @
         ''send/receive timeout counters, capacity limits.'')
        (object_schema ''message queue'') (msgq_info_tool dump b))]"

definition monitor_tools :: "(json \<Rightarrow> string throws) \<Rightarrow> monitor_backend \<Rightarrow> (string \<times> tool_spec) list" where
  "monitor_tools dump b = monitor_task_tools dump b @ monitor_system_tools dump b @ monitor_object_tools dump b"

lemmas monitor_tool_defs = monitor_tools_def monitor_task_tools_def monitor_system_tools_def monitor_object_tools_def

text \<open>The calls of \<^verbatim>\<open>register_tool\<close> one after the other; the sources ignore their results.\<close>

definition register_all :: "(string \<times> tool_spec) list \<Rightarrow> world \<Rightarrow> world" where
  "register_all ts w = fold (\<lambda>(name, spec) w. snd (server_register_tool name spec w)) ts w"

definition fresh_world :: "string \<Rightarrow> string \<Rightarrow> world" where
  "fresh_world name version = \<lparr>w_server = new_server name version, w_sessions = []\<rparr>"

definition echo_server :: server where
  "echo_server = w_server (register_all echo_tools (fresh_world ''echo-server'' ''1.0.0''))"

definition echo_http_server :: server where
  "echo_http_server = w_server (register_all echo_tools (fresh_world ''echo-server-http'' ''1.0.0''))"

definition calculator_server :: "string \<Rightarrow> server" where
  "calculator_server nan_text =
     w_server (register_all (calculator_tools nan_text) (fresh_world ''calculator-server'' ''1.0.0''))"

definition monitor_server :: "(json \<Rightarrow> string throws) \<Rightarrow> monitor_backend \<Rightarrow> server" where
  "monitor_server dump b = w_server (register_all (monitor_tools dump b) (fresh_world ''vxworks-monitor'' ''1.0.0''))"

subsection \<open>Command lines\<close>

text \<open>
  The cast to a 16 bit port.  A flag and its value need not be adjacent pairs: every argument but the first and the last is
  looked at.
\<close>

definition port_of :: "int \<Rightarrow> nat" where
  "port_of i = nat (i mod 2 ^ 16)"

fun parse_arguments :: "string list \<Rightarrow> http_server_options \<Rightarrow> http_server_options throws" where
  "parse_arguments (a # v # rest) opts =
     bindE (if a = ''--port'' then mapE (\<lambda>n. opts\<lparr>ho_port := port_of n\<rparr>) (atoi v)
            else Inr (if a = ''--host'' then opts\<lparr>ho_host := v\<rparr> else opts))
       (parse_arguments (v # rest))"
| "parse_arguments as opts = Inr opts"

definition monitor_options :: "string list \<Rightarrow> http_server_options throws" where
  "monitor_options argv = parse_arguments (drop 1 argv) (default_http_options\<lparr>ho_port := 3003\<rparr>)"

definition echo_options :: "string list \<Rightarrow> http_server_options throws" where
  "echo_options argv = parse_arguments (drop 1 argv) (default_http_options\<lparr>ho_port := 3002\<rparr>)"

text \<open>A port in decimal is read back; one beyond 16 bits is taken modulo \<open>65536\<close>.\<close>

lemma port_argument:
  "n < 2 ^ 31 \<Longrightarrow> monitor_options [prog, ''--port'', nat_to_string n] =
     Inr (default_http_options\<lparr>ho_port := n mod 65536\<rparr>)"
  using atoi_to_string [of "int n"]
  by (simp add: monitor_options_def port_of_def int_to_string_def nat_mod_distrib)

subsection \<open>Entry points of kernel modules\<close>

text \<open>
  The file-scope owners: the server that was built (behind the HTTP session server as its world) and the bound
  port.  \<open>listen\<close> is \<^verbatim>\<open>HttpEndpoint::start\<close> for the options: an error or the port.
\<close>

type_synonym dkm = "((facade_session, server \<times> nat) session_server \<times> nat) option"

definition dkm_options :: "int \<Rightarrow> http_session_options" where
  "dkm_options port =
     \<lparr>hso_http = default_http_options\<lparr>ho_host := ''0.0.0.0'', ho_port := port_of port\<rparr>,
      hso_session_idle_timeout = 30 * 60 * 1000, hso_allow_client_termination = True\<rparr>"

definition dkm_start :: "server \<Rightarrow> (http_server_options \<Rightarrow> string + nat) \<Rightarrow> int \<Rightarrow> dkm \<Rightarrow> int \<times> dkm" where
  "dkm_start srv listen port g =
     (case g of
        Some (_, bound) \<Rightarrow> (int bound, g)
      | None \<Rightarrow>
          let opts = dkm_options port; started = listen (hso_http opts)
          in case (server_start True started
                \<lparr>sv_options = opts, sv_registry = [], sv_world = (srv, 0), sv_listening = False\<rparr>, started) of
               ((Inr _, sv), Inr bound) \<Rightarrow> (int bound, Some (sv, bound))
             | _ \<Rightarrow> (- 1, None))"

text \<open>Stopping ends all sessions; what is left of the server afterwards is freed.\<close>

definition dkm_stop :: "(facade_session, server \<times> nat) session_host \<Rightarrow> dkm \<Rightarrow>
    int \<times> (facade_session, server \<times> nat) session_server option \<times> dkm" where
  "dkm_stop host g =
     (case g of None \<Rightarrow> (1, None, None) | Some (sv, _) \<Rightarrow> (0, Some (server_stop host sv), None))"

text \<open>The entry points of the echo server are the same over its own tools.\<close>

definition echo_dkm_start :: "(http_server_options \<Rightarrow> string + nat) \<Rightarrow> int \<Rightarrow> dkm \<Rightarrow> int \<times> dkm" where
  "echo_dkm_start listen port g = dkm_start echo_http_server listen port g"

text \<open>
  The shell's calls in any order: a started server is running with an empty session table, a second start reports
  the port of the first, a failed one leaves nothing behind, and a stop frees the server for the next start.
\<close>

lemma dkm_start_outcome:
  "dkm_start srv listen port None =
     (case listen (hso_http (dkm_options port)) of
        Inl _ \<Rightarrow> (- 1, None)
      | Inr bound \<Rightarrow> (int bound, Some (\<lparr>sv_options = dkm_options port, sv_registry = [], sv_world = (srv, 0), sv_listening = True\<rparr>, bound)))"
  "dkm_start srv listen port (Some (sv, bound)) = (int bound, Some (sv, bound))"
  by (simp_all add: dkm_start_def server_start_def Let_def split: sum.split)

lemma dkm_restart:
  assumes "dkm_start srv listen port None = (p, Some (sv, bound))"
  shows "fst (dkm_stop host (Some (sv, bound))) = 0 \<and>
    dkm_start srv listen port (snd (snd (dkm_stop host (Some (sv, bound))))) = (p, Some (sv, bound)) \<and>
    fst (dkm_stop host (snd (snd (dkm_stop host (Some (sv, bound)))))) = 1"
  using assms by (simp add: dkm_stop_def)

subsection \<open>Main programs\<close>

text \<open>Ending with an exit code, or serving until killed; with what was printed to standard error.\<close>

datatype program =
    Ends int string
  | Serves string "(facade_session, server \<times> nat) session_server"

definition serve_main :: "server \<Rightarrow> string \<Rightarrow> (http_server_options \<Rightarrow> string + nat) \<Rightarrow> http_server_options \<Rightarrow> program" where
  "serve_main srv banner listen opts =
     (let sv = \<lparr>sv_options = (dkm_options 0)\<lparr>hso_http := opts\<rparr>, sv_registry = [], sv_world = (srv, 0), sv_listening = False\<rparr>;
        started = listen opts
      in case server_start True started sv of
           (Inl e, _) \<Rightarrow> Ends 1 (''failed to start: '' @ e @ [LF])
         | (Inr _, sv) \<Rightarrow>
             Serves (banner @ ''listening on '' @ nat_to_string (case started of Inl _ \<Rightarrow> 0 | Inr port \<Rightarrow> port) @ [LF]) sv)"

definition echo_http_main :: "(http_server_options \<Rightarrow> string + nat) \<Rightarrow> string list \<Rightarrow> program throws" where
  "echo_http_main listen argv = mapE (serve_main echo_http_server [] listen) (echo_options argv)"

definition monitor_main :: "(json \<Rightarrow> string throws) \<Rightarrow> monitor_backend \<Rightarrow> string \<Rightarrow> (http_server_options \<Rightarrow> string + nat) \<Rightarrow>
    string list \<Rightarrow> program throws" where
  "monitor_main dump b backend_name listen argv =
     mapE (serve_main (monitor_server dump b) (''vxworks-monitor ('' @ backend_name @ '' backend) '') listen) (monitor_options argv)"

text \<open>
  A program that cannot listen says so and ends with 1; otherwise it listens on the options of its command line, has
  no session yet, and stays.
\<close>

lemma serve_main_outcome:
  "serve_main srv banner listen opts =
     (case listen opts of
        Inl e \<Rightarrow> Ends 1 (''failed to start: '' @ e @ [LF])
      | Inr port \<Rightarrow> Serves (banner @ ''listening on '' @ nat_to_string port @ [LF])
          \<lparr>sv_options = \<lparr>hso_http = opts, hso_session_idle_timeout = 1800000, hso_allow_client_termination = True\<rparr>,
           sv_registry = [], sv_world = (srv, 0), sv_listening = True\<rparr>)"
  by (simp add: serve_main_def Let_def server_start_def dkm_options_def split: sum.split)

lemma local_by_default:
  "echo_options [prog] = Inr (default_http_options\<lparr>ho_port := 3002\<rparr>)" "ho_host (default_http_options\<lparr>ho_port := 3002\<rparr>) = ''127.0.0.1''"
  by (simp_all add: echo_options_def default_http_options_def)

subsection \<open>What the servers answer\<close>

lemma register_new_tool:
  assumes "is_valid_tool_name name" and "ts_handler spec = Some h"
    and "name \<notin> tool_key ` set (tr_tools (srv_tools (w_server w)))"
  shows "tr_tools (srv_tools (w_server (snd (server_register_tool name spec w)))) =
    tr_tools (srv_tools (w_server w)) @ [(tool_of_spec name spec, h)]"
  using assms
  by (auto simp: server_register_tool_def announce_def send_notification_if_operating_def register_tool_def
      tool_of_spec_def tool_key_def list_ex_iff image_iff split_beta Let_def)

definition well_named :: "(string \<times> tool_spec) list \<Rightarrow> bool" where
  "well_named ts \<longleftrightarrow> distinct (map fst ts) \<and> list_all (\<lambda>(n, s). is_valid_tool_name n \<and> ts_handler s \<noteq> None) ts"

lemma register_all_tools:
  assumes "well_named ts" and "fst ` set ts \<inter> tool_key ` set (tr_tools (srv_tools (w_server w))) = {}"
  shows "tr_tools (srv_tools (w_server (register_all ts w))) =
    tr_tools (srv_tools (w_server w)) @ map (\<lambda>(n, s). (tool_of_spec n s, the (ts_handler s))) ts"
  using assms
proof (induction ts arbitrary: w)
  case (Cons t ts)
  obtain n s where t: "t = (n, s)" by fastforce
  with Cons.prems obtain h where h: "is_valid_tool_name n" "ts_handler s = Some h" "n \<notin> fst ` set ts"
    "n \<notin> tool_key ` set (tr_tools (srv_tools (w_server w)))" "well_named ts"
    by (auto simp: well_named_def)
  note reg = register_new_tool [OF h(1,2,4)]
  have "tool_key (tool_of_spec n s, h) = n" by (simp add: tool_key_def tool_of_spec_def)
  with Cons.IH [OF h(5), of "snd (server_register_tool n s w)"] Cons.prems(2) reg t h show ?case
    by (simp add: register_all_def)
qed (simp add: register_all_def)

lemma registered_tool:
  assumes "well_named ts" and "(n, s) \<in> set ts"
  shows "find_entry tool_key n (tr_tools (srv_tools (w_server (register_all ts (fresh_world name version))))) =
    Some (tool_of_spec n s, the (ts_handler s))"
proof -
  have regs: "tr_tools (srv_tools (w_server (register_all ts (fresh_world name version)))) =
      map (\<lambda>(n, s). (tool_of_spec n s, the (ts_handler s))) ts"
    using assms(1) by (subst register_all_tools) (simp_all add: fresh_world_def new_server_def new_tool_registry_def)
  have "map tool_key (map (\<lambda>(n, s). (tool_of_spec n s, the (ts_handler s))) ts) = map fst ts"
    by (induction ts) (auto simp: tool_key_def tool_of_spec_def)
  moreover have "(tool_of_spec n s, the (ts_handler s)) \<in> set (map (\<lambda>(n, s). (tool_of_spec n s, the (ts_handler s))) ts)"
    using assms(2) by force
  moreover have "tool_key (tool_of_spec n s, the (ts_handler s)) = n" by (simp add: tool_key_def tool_of_spec_def)
  moreover have "distinct (map fst ts)" using assms(1) by (simp add: well_named_def)
  ultimately have "find_entry tool_key n (map (\<lambda>(n, s). (tool_of_spec n s, the (ts_handler s))) ts) =
      Some (tool_of_spec n s, the (ts_handler s))"
    using find_entry_distinct [of tool_key "map (\<lambda>(n, s). (tool_of_spec n s, the (ts_handler s))) ts"
        "(tool_of_spec n s, the (ts_handler s))"] by (simp only:)
  with regs show ?thesis by simp
qed

text \<open>A call of a registered tool, from the client's parameters to the client's result.\<close>

lemma example_call:
  assumes "well_named ts" and "(n, plain_spec d schema h) \<in> set ts" and "conforms arguments schema"
  shows "bindE (fst (run_feature dump Tools_Call (Some (call_params n arguments))
      (w_server (register_all ts (fresh_world name version))))) call_tool_response = mapE Inr (tool_outcome (h arguments))"
proof -
  have found: "find_entry tool_key n (tr_tools (srv_tools (w_server (register_all ts (fresh_world name version))))) =
      Some (tool_of_spec n (plain_spec d schema h), h)"
    using registered_tool [OF assms(1,2), of name version] by (simp add: plain_spec_def)
  show ?thesis
    by (rule call_outcome_on_wire [OF found]) (simp add: assms(3) plain_spec_def tool_of_spec_def)
qed

lemma tool_lists_well_named:
  "well_named echo_tools" "well_named (calculator_tools nan_text)" "well_named (monitor_tools dump b)"
  by (simp_all add: well_named_def echo_tools_def calculator_tools_def monitor_tool_defs plain_spec_def
      is_valid_tool_name_def tool_name_char_def is_lower_def is_upper_def)

lemma property_schema_conforms:
  "conforms (JObj [(k, JStr s)]) (property_schema k (typed ''string'') True)"
  by (simp add: property_schema_def typed_def conforms.simps [of "JObj _"] conforms.simps [of "JStr _"] json_obj_def
      mk_members_def obj_emplace_def type_ok_def enum_ok_def required_ok_def closed_ok_def schema_properties_def
      matches_type_def json_contains_def)

abbreviation client_call :: "(json \<Rightarrow> string throws) \<Rightarrow> server \<Rightarrow> string \<Rightarrow> json \<Rightarrow> call_tool_result result throws" where
  "client_call dump srv name arguments \<equiv>
     bindE (fst (run_feature dump Tools_Call (Some (call_params name arguments)) srv)) call_tool_response"

lemma calculate_spelled:
  assumes "spells e s"
  shows "tool_outcome (calculate nan_text (JObj [(''expression'', JStr s)])) = Inr (case expr_value e of
      Inr v \<Rightarrow> \<lparr>ctr_content = [text_content (double_to_string nan_text v)], ctr_is_error = False\<rparr>
    | Inl x \<Rightarrow> \<lparr>ctr_content = [text_content (''Evaluation failed: '' @ what x)], ctr_is_error = True\<rparr>)"
  using evaluate_spelled [OF assms] evaluate_throws [of s]
  by (cases "expr_value e") (auto simp: calculate_def get_string_def)

text \<open>
  C23. The example servers answer their clients: the echo server returns the message, the calculator the value of
  every spelled expression or why it has none, and each of the nine monitor tools what its handler computes
  from the backend, for all arguments its schema admits; all nine registrations succeed.
\<close>

theorem example_servers_answer:
  "client_call dump echo_server ''echo'' (JObj [(''message'', JStr s)]) =
     returns \<lparr>ctr_content = [text_content s], ctr_is_error = False\<rparr> \<and>
   (spells e s \<longrightarrow>
     client_call dump (calculator_server nan_text) ''calculate'' (JObj [(''expression'', JStr s)]) = returns (case expr_value e of
         Inr v \<Rightarrow> \<lparr>ctr_content = [text_content (double_to_string nan_text v)], ctr_is_error = False\<rparr>
       | Inl x \<Rightarrow> \<lparr>ctr_content = [text_content (''Evaluation failed: '' @ what x)], ctr_is_error = True\<rparr>)) \<and>
   length (tr_tools (srv_tools (monitor_server print b))) = 9 \<and>
   (\<forall>n d schema h arguments. (n, plain_spec d schema h) \<in> set (monitor_tools print b) \<longrightarrow> conforms arguments schema \<longrightarrow>
     client_call dump (monitor_server print b) n arguments = mapE Inr (tool_outcome (h arguments)))"
proof (intro conjI allI impI)
  have "echo_handler (JObj [(''message'', JStr s)]) = Inr \<lparr>ctr_content = [text_content s], ctr_is_error = False\<rparr>"
    by (simp add: echo_handler_def get_string_def)
  moreover have "(''echo'', plain_spec ''Echoes back the input'' (property_schema ''message'' (typed ''string'') True) echo_handler) \<in> set echo_tools"
    by (simp add: echo_tools_def)
  ultimately show "client_call dump echo_server ''echo'' (JObj [(''message'', JStr s)]) =
     returns \<lparr>ctr_content = [text_content s], ctr_is_error = False\<rparr>"
    unfolding echo_server_def using example_call [OF tool_lists_well_named(1) _ property_schema_conforms] by simp
next
  assume "spells e s"
  note outcome = calculate_spelled [OF this, of nan_text]
  have "(''calculate'', plain_spec ''Evaluate a mathematical expression''
      (property_schema ''expression'' (typed ''string'') True) (calculate nan_text)) \<in> set (calculator_tools nan_text)"
    by (simp add: calculator_tools_def)
  then show "client_call dump (calculator_server nan_text) ''calculate'' (JObj [(''expression'', JStr s)]) = returns (case expr_value e of
         Inr v \<Rightarrow> \<lparr>ctr_content = [text_content (double_to_string nan_text v)], ctr_is_error = False\<rparr>
       | Inl x \<Rightarrow> \<lparr>ctr_content = [text_content (''Evaluation failed: '' @ what x)], ctr_is_error = True\<rparr>)"
    unfolding calculator_server_def
    using example_call [OF tool_lists_well_named(2) _ property_schema_conforms] outcome by simp
next
  show "length (tr_tools (srv_tools (monitor_server print b))) = 9"
    unfolding monitor_server_def
    by (subst register_all_tools [OF tool_lists_well_named(3)])
      (simp_all add: fresh_world_def new_server_def new_tool_registry_def monitor_tool_defs)
next
  fix n d schema h arguments
  assume "(n, plain_spec d schema h) \<in> set (monitor_tools print b)" "conforms arguments schema"
  then show "client_call dump (monitor_server print b) n arguments = mapE Inr (tool_outcome (h arguments))"
    unfolding monitor_server_def by (rule example_call [OF tool_lists_well_named(3)])
qed

lemma example_servers_answer_witness:
  "client_call (\<lambda>j. Inr []) (calculator_server []) ''calculate'' (JObj [(''expression'', JStr ''1 + 2*3'')]) =
     returns \<lparr>ctr_content = [text_content (double_to_string [] (Finite 7))], ctr_is_error = False\<rparr> \<and>
   client_call (\<lambda>j. Inr []) (monitor_server (\<lambda>j. Inr []) (sim_backend 0)) ''memory_info'' (JObj []) =
     mapE Inr (tool_outcome (memory_info_tool (\<lambda>j. Inr []) (sim_backend 0) (JObj [])))"
proof -
  have "conforms (JObj []) kEmptySchema"
    by (simp add: kEmptySchema_def conforms.simps [of "JObj _"] json_obj_def mk_members_def obj_emplace_def type_ok_def
        enum_ok_def required_ok_def closed_ok_def schema_properties_def matches_type_def)
  moreover have "\<exists>d. (''memory_info'', plain_spec d kEmptySchema (memory_info_tool (\<lambda>j. Inr []) (sim_backend 0)))
      \<in> set (monitor_tools (\<lambda>j. Inr []) (sim_backend 0))"
    by (simp add: monitor_tool_defs plain_spec_def)
  ultimately show ?thesis
    using example_servers_answer [of "\<lambda>j. Inr []" "''1 + 2*3''" sample_expr "[]" "\<lambda>j. Inr []" "sim_backend 0"]
      sample_expr_spelled sample_expr_value by (simp only: sum.case simp_thms) blast
qed

end
