(* ===== verification/Mcp_Selftest.thy ===== *)
theory Mcp_Selftest
  imports Mcp_Examples
begin

text \<open>
  The self test for new platform backends (\<^verbatim>\<open>tools/pal_selftest.cpp\<close>): the checks it makes from what the platform and the
  stack answer, what it prints, and its exit code.  The version comes from a file the build generates and is
  a parameter.
\<close>

subsection \<open>Reports\<close>

text \<open>What is printed: a line, or the report of a check with its name, its outcome and the detail for a failure.\<close>

datatype item = Printed string | Checked string bool string

fun item_failed :: "item \<Rightarrow> bool" where
  "item_failed (Printed line) = False"
| "item_failed (Checked name ok detail) = (\<not> ok)"

definition failures :: "item list \<Rightarrow> nat" where
  "failures items = length (filter item_failed items)"

text \<open>\<open>errno_at\<close>: the value of \<^verbatim>\<open>errno\<close> when a check is reported.\<close>

fun item_text :: "(string \<Rightarrow> int) \<Rightarrow> item \<Rightarrow> string" where
  "item_text errno_at (Printed line) = line @ [LF]"
| "item_text errno_at (Checked name ok detail) =
     (if ok then ''[ OK ] '' @ name @ [LF]
      else ''[FAIL] '' @ name @ '' '' @ detail @ ''(errno='' @ int_to_string (errno_at name) @ '')'' @ [LF])"

subsection \<open>Wake events\<close>

text \<open>Whether the event is valid, and the two polls of its handle, before and after the signal.\<close>

record wake_probe =
  wp_valid :: bool
  wp_before :: int
  wp_after :: int

definition test_wake_event :: "wake_probe \<Rightarrow> item list" where
  "test_wake_event p =
     Checked ''wake_event.create'' (wp_valid p) [] #
     (if \<not> wp_valid p then []
      else [Checked ''wake_event.silent_before_signal'' (wp_before p = 0) [],
            Checked ''wake_event.signal_wakes_poll'' (wp_after p = 1) []])"

subsection \<open>Sockets\<close>

record tcp_probe =
  tp_listen :: "string + int"
  tp_port :: nat
  tp_connect :: "string + int"
  tp_accept :: int
  tp_write :: bool
  tp_poll :: int
  tp_read :: "string option"
  tp_eof :: "string option"

definition kInvalidFd :: int where
  "kInvalidFd = -1"

definition descriptor_of :: "string + int \<Rightarrow> int" where
  "descriptor_of r = (case r of Inl _ \<Rightarrow> kInvalidFd | Inr fd \<Rightarrow> fd)"

definition detail_of :: "string + int \<Rightarrow> string" where
  "detail_of r = (case r of Inl e \<Rightarrow> e | Inr _ \<Rightarrow> [])"

text \<open>\<^verbatim>\<open>strcmp\<close> on a buffer of zeros into which the bytes were read.\<close>

definition c_string :: "string \<Rightarrow> string" where
  "c_string bytes = takeWhile (\<lambda>c. c \<noteq> CHR 0x00) bytes"

definition selftest_message :: string where
  "selftest_message = ''mcp-selftest'' @ [CHR 0x00]"

definition same_message :: "string option \<Rightarrow> bool" where
  "same_message got =
     (case got of None \<Rightarrow> False
      | Some bytes \<Rightarrow> length bytes = length selftest_message \<and> c_string bytes = c_string selftest_message)"

text \<open>The variable \<^verbatim>\<open>error\<close> is shared: a listener that was opened leaves it empty.\<close>

definition test_tcp_loopback :: "tcp_probe \<Rightarrow> item list" where
  "test_tcp_loopback p =
     (let listener = descriptor_of (tp_listen p); client = descriptor_of (tp_connect p) in
      Checked ''tcp.listen_ephemeral'' (listener \<noteq> kInvalidFd) (detail_of (tp_listen p)) #
      (if listener = kInvalidFd then []
       else [Checked ''tcp.local_port'' (tp_port p \<noteq> 0) [],
             Checked ''tcp.connect'' (client \<noteq> kInvalidFd) (detail_of (tp_connect p)),
             Checked ''tcp.accept'' (tp_accept p \<noteq> kInvalidFd) []] @
            (if client \<noteq> kInvalidFd \<and> tp_accept p \<noteq> kInvalidFd
             then [Checked ''tcp.write_all'' (tp_write p) [],
                   Checked ''tcp.poll_readable'' (tp_poll p = 1) [],
                   Checked ''tcp.read_some_roundtrip'' (same_message (tp_read p)) [],
                   Checked ''tcp.shutdown_gives_eof'' (tp_eof p = Some []) []]
             else [])))"

text \<open>The read is right exactly if it returned the message with its final zero.\<close>

lemma same_message: "same_message got \<longleftrightarrow> got = Some selftest_message"
proof (cases got)
  case (Some bytes)
  have "bytes = selftest_message" if len: "length bytes = 13" and str: "takeWhile (\<lambda>c. c \<noteq> CHR 0x00) bytes = ''mcp-selftest''"
  proof -
    obtain d where d: "bytes = ''mcp-selftest'' @ d" using takeWhile_dropWhile_id [of "\<lambda>c. c \<noteq> CHR 0x00" bytes] str by metis
    with len obtain c where "d = [c]" by (auto simp: length_Suc_conv)
    with str d show ?thesis by (auto simp: selftest_message_def split: if_splits)
  qed
  with Some show ?thesis by (auto simp: same_message_def c_string_def selftest_message_def)
qed (simp add: same_message_def)

subsection \<open>The full stack\<close>

definition selftest_handler :: tool_handler where
  "selftest_handler args =
     mapE (\<lambda>s. \<lparr>ctr_content = [text_content s], ctr_is_error = False\<rparr>) (json_value get_string ''message'' ''hi'' args)"

definition selftest_spec :: tool_spec where
  "selftest_spec = \<lparr>ts_title = None, ts_description = None, ts_input_schema = json_obj [(''type'', JStr ''object'')],
     ts_output_schema = None, ts_handler = Some selftest_handler\<rparr>"

definition selftest_world :: "string \<Rightarrow> unit result \<times> world" where
  "selftest_world version = server_register_tool ''echo'' selftest_spec (fresh_world ''selftest-server'' version)"

text \<open>
  What the calls return: \<^verbatim>\<open>HttpSessionServer::start\<close> (its error or the port), \<^verbatim>\<open>Client::connect\<close>, \<^verbatim>\<open>list_tools\<close>,
  \<^verbatim>\<open>call_tool\<close>, and the number of sessions after \<^verbatim>\<open>disconnect\<close>.
\<close>

record stack_probe =
  sp_registered :: "unit result"
  sp_start :: "string + nat"
  sp_init :: "initialize_result result"
  sp_tools :: "tool page result"
  sp_call :: "call_tool_result result"
  sp_sessions :: nat

definition echoed :: "call_tool_result result \<Rightarrow> bool" where
  "echoed call =
     (case call of Inl _ \<Rightarrow> False
      | Inr r \<Rightarrow> (case ctr_content r of [] \<Rightarrow> False
                 | c # _ \<Rightarrow> (case c of Text_Content t _ \<Rightarrow> t = ''vxworks'' | _ \<Rightarrow> False)))"

definition only_echo :: "tool page result \<Rightarrow> bool" where
  "only_echo tools = (case tools of Inl _ \<Rightarrow> False | Inr p \<Rightarrow> map tool_name (page_items p) = [''echo''])"

definition test_full_stack :: "stack_probe \<Rightarrow> item list" where
  "test_full_stack p =
     (let port = (case sp_start p of Inl _ \<Rightarrow> 0 | Inr n \<Rightarrow> n) in
      [Checked ''stack.register_tool'' (\<not> isl (sp_registered p)) [],
       Checked ''stack.http_start'' (\<not> isl (sp_start p)) (case sp_start p of Inl e \<Rightarrow> e | Inr _ \<Rightarrow> [])] @
      (if port = 0 then []
       else [Printed (''       (listening on 127.0.0.1:'' @ nat_to_string port @ '')''),
             Checked ''stack.initialize'' (\<not> isl (sp_init p)) (case sp_init p of Inl e \<Rightarrow> err_message e | Inr _ \<Rightarrow> []),
             Checked ''stack.tools_list'' (only_echo (sp_tools p)) [],
             Checked ''stack.tools_call_roundtrip'' (echoed (sp_call p)) [],
             Checked ''stack.session_delete'' (sp_sessions p = 0) []]))"

subsection \<open>The program\<close>

definition rule_line :: item where
  "rule_line = Printed (replicate 40 (CHR ''-''))"

definition selftest_items :: "string \<Rightarrow> wake_probe \<Rightarrow> tcp_probe \<Rightarrow> stack_probe \<Rightarrow> item list" where
  "selftest_items version wake tcp stack =
     [Printed (''mcp.cpp '' @ version @ '' pal_selftest''), rule_line] @
     test_wake_event wake @ test_tcp_loopback tcp @ test_full_stack stack @ [rule_line]"

text \<open>The exit code and the output.\<close>

definition pal_selftest :: "(string \<Rightarrow> int) \<Rightarrow> string \<Rightarrow> wake_probe \<Rightarrow> tcp_probe \<Rightarrow> stack_probe \<Rightarrow> int \<times> string" where
  "pal_selftest errno_at version wake tcp stack =
     (let items = selftest_items version wake tcp stack; n = failures items;
        verdict = (if n = 0 then ''RESULT: ALL CHECKS PASSED'' else ''RESULT: '' @ nat_to_string n @ '' CHECK(S) FAILED'')
      in (if n = 0 then 0 else 1, concat (map (item_text errno_at) (items @ [Printed verdict]))))"

subsection \<open>What the exit code says\<close>

definition wake_works :: "wake_probe \<Rightarrow> bool" where
  "wake_works p \<longleftrightarrow> p = \<lparr>wp_valid = True, wp_before = 0, wp_after = 1\<rparr>"

definition tcp_works :: "tcp_probe \<Rightarrow> bool" where
  "tcp_works p \<longleftrightarrow> descriptor_of (tp_listen p) \<noteq> -1 \<and> tp_port p \<noteq> 0 \<and> descriptor_of (tp_connect p) \<noteq> -1 \<and> tp_accept p \<noteq> -1 \<and>
     tp_write p \<and> tp_poll p = 1 \<and> tp_read p = Some selftest_message \<and> tp_eof p = Some []"

definition stack_works :: "stack_probe \<Rightarrow> bool" where
  "stack_works p \<longleftrightarrow> \<not> isl (sp_registered p) \<and> (\<exists>port > 0. sp_start p = Inr port) \<and> \<not> isl (sp_init p) \<and>
     only_echo (sp_tools p) \<and> echoed (sp_call p) \<and> sp_sessions p = 0"

lemma failures_none: "failures items = 0 \<longleftrightarrow> list_all (\<lambda>i. \<not> item_failed i) items"
  by (induction items) (auto simp: failures_def)

text \<open>
  A backend passes exactly if everything works, with one exception: a server that starts but reports port 0 skips
  the rest without a failure.
\<close>

theorem selftest_verdict:
  "fst (pal_selftest errno_at version wake tcp stack) = 0 \<longleftrightarrow>
     wake_works wake \<and> tcp_works tcp \<and>
     (stack_works stack \<or> \<not> isl (sp_registered stack) \<and> sp_start stack = Inr 0)"
proof -
  have "list_all (\<lambda>i. \<not> item_failed i) (test_wake_event wake) \<longleftrightarrow> wake_works wake"
    by (cases wake) (simp add: test_wake_event_def wake_works_def)
  moreover have "list_all (\<lambda>i. \<not> item_failed i) (test_tcp_loopback tcp) \<longleftrightarrow> tcp_works tcp"
    by (simp add: test_tcp_loopback_def tcp_works_def kInvalidFd_def same_message Let_def)
  moreover have "list_all (\<lambda>i. \<not> item_failed i) (test_full_stack stack) \<longleftrightarrow>
      stack_works stack \<or> \<not> isl (sp_registered stack) \<and> sp_start stack = Inr 0"
    by (cases "sp_start stack") (auto simp: test_full_stack_def stack_works_def Let_def)
  ultimately show ?thesis
    by (simp add: pal_selftest_def Let_def failures_none selftest_items_def rule_line_def)
qed

text \<open>
  The three checks on what the stack answers hold for the server the test builds: the registration succeeds, the first
  page of tools is the tool alone, and the call returns the message that was sent.
\<close>

lemma selftest_server:
  "fst (selftest_world version) = Inr ()"
  "tr_tools (srv_tools (w_server (snd (selftest_world version)))) = [(tool_of_spec ''echo'' selftest_spec, selftest_handler)]"
  "tr_page_size (srv_tools (w_server (snd (selftest_world version)))) = 100"
  by (simp_all add: selftest_world_def server_register_tool_def register_tool_def selftest_spec_def tool_of_spec_def
      fresh_world_def new_server_def new_tool_registry_def announce_def is_valid_tool_name_def tool_name_char_def
      is_lower_def is_upper_def split_beta Let_def send_notification_if_operating_def)

lemma selftest_stack_answers:
  fixes version :: string
  defines "srv \<equiv> w_server (snd (selftest_world version))"
  shows "\<exists>page r. bindE (fst (run_feature dump Tools_List (cursor_params None) srv)) list_tools_response = returns page \<and>
    client_call dump srv ''echo'' (JObj [(''message'', JStr ''vxworks'')]) = returns r \<and> only_echo (Inr page) \<and> echoed (Inr r)"
proof -
  let ?t = "tool_of_spec ''echo'' selftest_spec" and ?args = "JObj [(''message'', JStr ''vxworks'')]"
  have valid: "valid_tool ?t" by (simp add: valid_tool_def tool_of_spec_def selftest_spec_def json_obj_def)
  have "paginate [?t] None 100 = returns \<lparr>page_items = [?t], next_cursor = None\<rparr>"
    by (simp add: paginate_def cursor_start_def size_t_def)
  then have "bindE (fst (run_feature dump Tools_List (cursor_params None) srv)) list_tools_response =
      returns \<lparr>page_items = [?t], next_cursor = None\<rparr>"
    using valid tool_codec.parse_list_page [of "\<lparr>page_items = [?t], next_cursor = None\<rparr>" "''tools''"]
    by (simp add: list_answer_def list_tools_def srv_def selftest_server list_tools_response_def)
  moreover have "client_call dump srv ''echo'' ?args = mapE Inr (tool_outcome (selftest_handler ?args))"
    by (rule call_outcome_on_wire [where t = ?t])
      (simp_all add: srv_def selftest_server tool_key_def tool_of_spec_def selftest_spec_def conforms.simps [of ?args]
        json_obj_def mk_members_def obj_emplace_def type_ok_def enum_ok_def required_ok_def closed_ok_def
        schema_properties_def matches_type_def json_contains_def)
  moreover have "selftest_handler ?args = Inr \<lparr>ctr_content = [text_content ''vxworks''], ctr_is_error = False\<rparr>"
    by (simp add: selftest_handler_def json_value_def)
  ultimately show ?thesis
    by (auto simp: only_echo_def echoed_def text_content_def tool_of_spec_def)
qed

end
