(* ===== verification/Mcp_Notify.thy ===== *)
theory Mcp_Notify
  imports Mcp_Server Mcp_Client
begin

text \<open>
  Changes at the server and the hooks of its clients: the notifications that \<^verbatim>\<open>Server::attach\<close> wires to the
  registries, subscriptions and the logger (\<^verbatim>\<open>src/server/server.cpp\<close>), and the hooks that \<^verbatim>\<open>Client::wire_session\<close> wires to the
  notifications (\<^verbatim>\<open>src/client/client.cpp\<close>).
\<close>

subsection \<open>Changes\<close>

definition server_add_template :: "resource_template \<Rightarrow> world \<Rightarrow> unit result \<times> world" where
  "server_add_template t w =
     (let (res, changed, p) = add_resource_template t (srv_resources (w_server w));
          w = w\<lparr>w_server := (w_server w)\<lparr>srv_resources := p\<rparr>\<rparr>
      in (res, announce changed kNotificationResourcesListChanged w))"

definition server_remove_prompt :: "string \<Rightarrow> world \<Rightarrow> bool \<times> world" where
  "server_remove_prompt name w =
     (let (found, changed, p) = remove_prompt name (srv_prompts (w_server w));
          w = w\<lparr>w_server := (w_server w)\<lparr>srv_prompts := p\<rparr>\<rparr>
      in (found, announce changed kNotificationPromptsListChanged w))"

datatype change =
    Tool_Added string tool_spec
  | Tool_Removed string
  | Resource_Added resource "read_handler option"
  | Template_Added resource_template
  | Resource_Removed string
  | Prompt_Added prompt "prompt_handler option"
  | Prompt_Removed string
  | Content_Updated string
  | Logged logging_level json "string option"

fun apply_change :: "change \<Rightarrow> world \<Rightarrow> world" where
  "apply_change (Tool_Added name spec) w = snd (server_register_tool name spec w)"
| "apply_change (Tool_Removed name) w = snd (server_remove_tool name w)"
| "apply_change (Resource_Added r h) w = snd (server_add_resource r h w)"
| "apply_change (Template_Added t) w = snd (server_add_template t w)"
| "apply_change (Resource_Removed uri) w = snd (server_remove_resource uri w)"
| "apply_change (Prompt_Added q h) w = snd (server_add_prompt q h w)"
| "apply_change (Prompt_Removed name) w = snd (server_remove_prompt name w)"
| "apply_change (Content_Updated uri) w = notify_resource_updated uri w"
| "apply_change (Logged level data name) w = server_log level data name w"

text \<open>What a client is to hear of a change: \<open>hears\<close> says so from the server's state before it, without the messages.\<close>

fun hears :: "change \<Rightarrow> server \<Rightarrow> (client_hook \<times> hook_call) option" where
  "hears (Tool_Added name spec) srv =
     (if is_valid_tool_name name \<and> ts_handler spec \<noteq> None \<and> name \<notin> tool_key ` set (tr_tools (srv_tools srv))
      then Some (Tools_Changed, Changed_Hook Tools_Changed) else None)"
| "hears (Tool_Removed name) srv =
     (if name \<in> tool_key ` set (tr_tools (srv_tools srv)) then Some (Tools_Changed, Changed_Hook Tools_Changed) else None)"
| "hears (Resource_Added r h) srv =
     (if looks_like_uri (res_uri r) \<and> res_uri r \<notin> resource_key ` set (rp_resources (srv_resources srv))
      then Some (Resources_Changed, Changed_Hook Resources_Changed) else None)"
| "hears (Template_Added t) srv =
     (if rt_uri_template t \<notin> rt_uri_template ` set (rp_templates (srv_resources srv))
      then Some (Resources_Changed, Changed_Hook Resources_Changed) else None)"
| "hears (Resource_Removed uri) srv =
     (if uri \<in> resource_key ` set (rp_resources (srv_resources srv))
      then Some (Resources_Changed, Changed_Hook Resources_Changed) else None)"
| "hears (Prompt_Added q h) srv =
     (if pr_name q \<noteq> [] \<and> h \<noteq> None \<and> pr_name q \<notin> prompt_key ` set (pp_prompts (srv_prompts srv))
      then Some (Prompts_Changed, Changed_Hook Prompts_Changed) else None)"
| "hears (Prompt_Removed name) srv =
     (if name \<in> prompt_key ` set (pp_prompts (srv_prompts srv))
      then Some (Prompts_Changed, Changed_Hook Prompts_Changed) else None)"
| "hears (Content_Updated uri) srv =
     (if uri \<in> rp_subscriptions (srv_resources srv) then Some (Resource_Updated, Updated_Hook uri) else None)"
| "hears (Logged level data name) srv =
     (if lg_level (srv_logger srv) \<le> level
      then Some (Log_Message, Log_Hook (JObj (set_optional JStr ''logger'' name
             (mk_members [(''level'', JStr (logging_level_to_string level)), (''data'', data)])))) else None)"

subsection \<open>The server's side\<close>

text \<open>What \<^verbatim>\<open>attach\<close> leaves behind: every registry and the logger report to the server.\<close>

definition reporting :: "server \<Rightarrow> bool" where
  "reporting srv \<longleftrightarrow> tr_has_changed_callback (srv_tools srv) \<and> rp_has_changed_callback (srv_resources srv) \<and>
     pp_has_changed_callback (srv_prompts srv) \<and> lg_has_emitter (srv_logger srv)"

lemma attach_reporting: "reporting (w_server (attach i w))"
  by (simp add: attach_def Let_def reporting_def set_tools_changed_callback_def set_resources_changed_callback_def
      set_prompts_changed_callback_def set_emitter_def)

text \<open>The notification of a change.\<close>

fun notice_of :: "client_hook \<times> hook_call \<Rightarrow> jsonrpc_notification" where
  "notice_of (h, call) =
     \<lparr>note_method = (case h of Tools_Changed \<Rightarrow> kNotificationToolsListChanged | Resources_Changed \<Rightarrow> kNotificationResourcesListChanged
        | Prompts_Changed \<Rightarrow> kNotificationPromptsListChanged | Resource_Updated \<Rightarrow> kNotificationResourcesUpdated
        | Log_Message \<Rightarrow> kNotificationMessage),
      note_params = (case call of Changed_Hook _ \<Rightarrow> None | Updated_Hook uri \<Rightarrow> Some (json_obj [(''uri'', JStr uri)])
        | Log_Hook p \<Rightarrow> Some p)\<rparr>"

lemma apply_change_sends:
  assumes "reporting (w_server w)"
  shows "w_sessions (apply_change c w) =
      (case hears c (w_server w) of None \<Rightarrow> w_sessions w
       | Some hc \<Rightarrow> w_sessions (send_notification_if_operating (note_method (notice_of hc)) (note_params (notice_of hc)) w)) \<and>
    srv_sessions (w_server (apply_change c w)) = srv_sessions (w_server w) \<and> reporting (w_server (apply_change c w))"
proof (cases c)
  case (Tool_Added name spec)
  then show ?thesis
    using assms
    by (auto simp: server_register_tool_def register_tool_def tool_of_spec_def announce_def reporting_def
        send_notification_if_operating_def list_ex_iff image_iff Let_def split: option.split)
next
  case (Tool_Removed name)
  then show ?thesis
    using assms find_entry_None [of tool_key name "tr_tools (srv_tools (w_server w))"]
    by (auto simp: server_remove_tool_def remove_tool_def announce_def reporting_def send_notification_if_operating_def
        split: option.split)
next
  case (Resource_Added r h)
  then show ?thesis
    using assms
    by (auto simp: server_add_resource_def add_resource_def announce_def reporting_def
        send_notification_if_operating_def list_ex_iff image_iff Let_def)
next
  case (Template_Added t)
  then show ?thesis
    using assms
    by (auto simp: server_add_template_def add_resource_template_def announce_def reporting_def
        send_notification_if_operating_def list_ex_iff image_iff Let_def)
next
  case (Resource_Removed uri)
  then show ?thesis
    using assms find_entry_None [of resource_key uri "rp_resources (srv_resources (w_server w))"]
    by (auto simp: server_remove_resource_def remove_resource_def announce_def reporting_def
        send_notification_if_operating_def split: option.split)
next
  case (Prompt_Added q h)
  then show ?thesis
    using assms
    by (auto simp: server_add_prompt_def add_prompt_def announce_def reporting_def
        send_notification_if_operating_def list_ex_iff image_iff Let_def split: option.split)
next
  case (Prompt_Removed name)
  then show ?thesis
    using assms find_entry_None [of prompt_key name "pp_prompts (srv_prompts (w_server w))"]
    by (auto simp: server_remove_prompt_def remove_prompt_def announce_def reporting_def
        send_notification_if_operating_def split: option.split)
next
  case (Content_Updated uri)
  then show ?thesis
    using assms by (simp add: notify_resource_updated_def is_subscribed_def reporting_def send_notification_if_operating_def)
next
  case (Logged level data name)
  then show ?thesis
    using assms
    by (auto simp: server_log_def log_message_def reporting_def send_notification_if_operating_def)
qed

subsection \<open>The client's side\<close>

text \<open>A session that \<^verbatim>\<open>wire_session\<close> has wired finds exactly the hooks its client was given.\<close>

definition hooked :: "wired_session \<Rightarrow> bool" where
  "hooked s \<longleftrightarrow> (\<forall>(m, h) \<in> set hook_methods. find_notification_handler (s_router s) m =
     (if h \<in> mc_hooks (ws_client s) then Some (Other_Notification h) else None))"

lemma hook_methods_plain: "\<forall>p \<in> set hook_methods. \<not> is_wildcard (fst p)" "distinct (map fst hook_methods)"
  by (simp_all add: hook_methods_def is_wildcard_def method_defs)

lemma find_notification_requests:
  "find_notification_handler (foldl (\<lambda>r (m, h). set_request_handler m h r) r hs) m = find_notification_handler r m"
  by (induction hs arbitrary: r) (auto simp: find_notification_handler_def set_request_handler_def)

lemma wired_session_hooked:
  assumes "\<forall>(m, h) \<in> set hook_methods. find_notification_handler (s_router s) m = None"
  shows "hooked (wire_session s)"
proof -
  let ?hs = "map (\<lambda>(m, h). (m, Some (Other_Notification h))) (filter (\<lambda>(m, h). h \<in> mc_hooks (ws_client s)) hook_methods)"
  let ?r = "foldl (\<lambda>r (m, h). set_request_handler m h r) (s_router s)
      (map (\<lambda>(m, f). (m, Some (Other_Request f))) client_feature_methods)"
  have plain: "\<forall>p \<in> set ?hs. \<not> is_wildcard (fst p)" using hook_methods_plain(1) by auto
  have "map fst ?hs = map fst (filter (\<lambda>(m, h). h \<in> mc_hooks (ws_client s)) hook_methods)" by (simp add: comp_def split_beta)
  then have dist: "distinct (map fst ?hs)" using hook_methods_plain(2) by (simp add: distinct_map_filter)
  have router: "s_router (wire_session s) = foldl (\<lambda>r (m, h). set_notification_handler m h r) ?r ?hs"
    "mc_hooks (ws_client (wire_session s)) = mc_hooks (ws_client s)" by (simp_all add: wire_session_def Let_def)
  have "find_notification_handler (s_router (wire_session s)) m =
      (if h \<in> mc_hooks (ws_client s) then Some (Other_Notification h) else None)" if mh: "(m, h) \<in> set hook_methods" for m h
  proof (cases "h \<in> mc_hooks (ws_client s)")
    case True
    with mh have "(m, Some (Other_Notification h)) \<in> set ?hs" by force
    from notification_table.find_install [OF plain dist this] True show ?thesis by (simp add: router)
  next
    case False
    have "h' = h" if "(m, h') \<in> set hook_methods" for h'
      using mh that hook_methods_plain(2) by (auto simp: eq_key_imp_eq_value)
    with False have "m \<notin> fst ` set ?hs" by auto
    from notification_table.find_install_other [OF plain this, of ?r] False mh assms show ?thesis
      by (auto simp: router find_notification_requests)
  qed
  then show ?thesis by (auto simp: hooked_def router(2))
qed

lemma new_session_hooked: "hooked (new_wired_session c)"
proof -
  have "\<forall>(m, h) \<in> set hook_methods. find_notification_handler (s_router (client_session.extend
      (new_client_session (client_options_of c)) (wired_session.fields c []))) m = None"
    by (simp add: client_session.defs wired_session.defs new_client_session_def session.defs new_session_def
        hook_methods_def session_router_def method_defs find_notification_handler_def find_handler_def
        set_notification_handler_def set_request_handler_def set_handler_def empty_router_def empty_table_def is_wildcard_def
        match_wildcard_def)
  then show ?thesis unfolding new_wired_session_def by (rule wired_session_hooked)
qed

text \<open>A notice runs its hook, if the client has it, and does nothing else.\<close>

lemma notice_runs_hook:
  assumes "hooked s" and "hears c srv = Some (h, call)"
  shows "wired_handle_message dump now (Notification (notice_of (h, call))) s =
    (Inr (), if h \<in> mc_hooks (ws_client s) then s\<lparr>ws_calls := ws_calls s @ [call]\<rparr> else s)"
proof -
  have "(note_method (notice_of (h, call)), h) \<in> set hook_methods" by (cases h) (simp_all add: hook_methods_def)
  then have "find_notification_handler (s_router s) (note_method (notice_of (h, call))) =
      (if h \<in> mc_hooks (ws_client s) then Some (Other_Notification h) else None)" using assms(1) by (auto simp: hooked_def)
  moreover have "run_hook h (note_params (notice_of (h, call))) = [call]"
    using assms(2) by (cases c) (auto simp: json_obj_def split: if_splits)
  ultimately show ?thesis
    by (simp add: wired_handle_message_def client_handle_message_def dispatch_notification_def run_wired_hook_def
        del: notice_of.simps)
qed

subsection \<open>Sequences of changes\<close>

fun heard :: "change list \<Rightarrow> world \<Rightarrow> (client_hook \<times> hook_call) list" where
  "heard [] w = []"
| "heard (c # cs) w = (case hears c (w_server w) of None \<Rightarrow> [] | Some hc \<Rightarrow> [hc]) @ heard cs (apply_change c w)"

definition receive :: "(json \<Rightarrow> string throws) \<Rightarrow> int \<Rightarrow> client_hook \<times> hook_call \<Rightarrow> wired_session \<Rightarrow> wired_session" where
  "receive dump now hc s = snd (wired_handle_message dump now (Notification (notice_of hc)) s)"

text \<open>What one change does to a session of the world.\<close>

lemma change_traced:
  assumes "reporting (w_server w)" and "map_of (w_sessions w) i = Some s"
  shows "\<exists>s'. map_of (w_sessions (apply_change c w)) i = Some s' \<and> s_state s' = s_state s \<and>
    (if i \<in> set (srv_sessions (w_server w)) \<and> s_state s = Operating
     then s_trace s' = s_trace s @ (case hears c (w_server w) of None \<Rightarrow> [] | Some hc \<Rightarrow> [Sent (Notification (notice_of hc))])
     else s' = s)"
proof (cases "hears c (w_server w)")
  case None
  with apply_change_sends [OF assms(1), of c] assms(2) show ?thesis by auto
next
  case (Some hc)
  have "w_sessions (apply_change c w) =
      w_sessions (send_notification_if_operating (note_method (notice_of hc)) (note_params (notice_of hc)) w)"
    using apply_change_sends [OF assms(1), of c] Some by simp
  then show ?thesis
    using assms(2) Some
    by (auto simp: broadcast_reaches_operating send_notification_def send_message_def emit_def)
qed

lemma changes_traced:
  assumes "reporting (w_server w)" and "map_of (w_sessions w) i = Some s"
  shows "\<exists>s'. map_of (w_sessions (fold apply_change changes w)) i = Some s' \<and>
    (if i \<in> set (srv_sessions (w_server w)) \<and> s_state s = Operating
     then s_trace s' = s_trace s @ map (\<lambda>hc. Sent (Notification (notice_of hc))) (heard changes w) else s' = s)"
  using assms
proof (induction changes arbitrary: w s)
  case Nil
  then show ?case by simp
next
  case (Cons c changes)
  note one = apply_change_sends [OF Cons.prems(1), of c]
  obtain s1 where s1: "map_of (w_sessions (apply_change c w)) i = Some s1" "s_state s1 = s_state s"
    "if i \<in> set (srv_sessions (w_server w)) \<and> s_state s = Operating
     then s_trace s1 = s_trace s @ (case hears c (w_server w) of None \<Rightarrow> [] | Some hc \<Rightarrow> [Sent (Notification (notice_of hc))])
     else s1 = s"
    using change_traced [OF Cons.prems] by blast
  from Cons.IH [OF _ s1(1)] one obtain s' where "map_of (w_sessions (fold apply_change changes (apply_change c w))) i = Some s'"
    "if i \<in> set (srv_sessions (w_server w)) \<and> s_state s1 = Operating
     then s_trace s' = s_trace s1 @ map (\<lambda>hc. Sent (Notification (notice_of hc))) (heard changes (apply_change c w)) else s' = s1"
    by auto
  with s1 show ?case by (auto split: option.splits if_splits)
qed

text \<open>Every entry of \<open>heard\<close> is one change's.\<close>

lemma heard_origin: "hc \<in> set (heard changes w) \<Longrightarrow> \<exists>c srv. hears c srv = Some hc"
proof (induction changes arbitrary: w)
  case (Cons c changes)
  then show ?case by (cases "hears c (w_server w)") (auto intro: exI [of _ c])
qed simp

lemma notices_run_hooks:
  assumes "\<And>hc. hc \<in> set hcs \<Longrightarrow> \<exists>c srv. hears c srv = Some hc" and "hooked cs"
  shows "fold (receive dump now) hcs cs =
    cs\<lparr>ws_calls := ws_calls cs @ map snd (filter (\<lambda>hc. fst hc \<in> mc_hooks (ws_client cs)) hcs)\<rparr>"
  using assms
proof (induction hcs arbitrary: cs)
  case (Cons hc hcs)
  obtain h call where hc: "hc = (h, call)" by fastforce
  with Cons.prems obtain c srv where "hears c srv = Some (h, call)" by fastforce
  from notice_runs_hook [OF Cons.prems(2) this] have "receive dump now hc cs =
      (if h \<in> mc_hooks (ws_client cs) then cs\<lparr>ws_calls := ws_calls cs @ [call]\<rparr> else cs)"
    by (simp add: receive_def hc del: notice_of.simps)
  moreover have "hooked (cs\<lparr>ws_calls := calls\<rparr>) = hooked cs" for calls by (simp add: hooked_def)
  ultimately show ?case using Cons by (auto simp: hc)
qed simp

text \<open>
  Subscriptions and the log level are the server's, not a session's: whichever session unsubscribes, no client hears of the
  updates any more, and whichever subscribes, all do.
\<close>

lemma subscriptions_shared:
  assumes "params = Some (json_obj [(''uri'', JStr uri)])"
  shows "hears (Content_Updated uri) (snd (run_feature dump Resources_Unsubscribe params srv)) = None"
    "uri_known uri (srv_resources srv) \<Longrightarrow>
       hears (Content_Updated uri) (snd (run_feature dump Resources_Subscribe params srv)) = Some (Resource_Updated, Updated_Hook uri)"
proof -
  have req: "require_string ''uri'' (Some (json_obj [(''uri'', JStr uri)])) = returns uri"
    by (simp add: require_string_def json_obj_def)
  show "hears (Content_Updated uri) (snd (run_feature dump Resources_Unsubscribe params srv)) = None"
    "uri_known uri (srv_resources srv) \<Longrightarrow>
       hears (Content_Updated uri) (snd (run_feature dump Resources_Subscribe params srv)) = Some (Resource_Updated, Updated_Hook uri)"
    by (simp_all add: assms resources_subscribe_def resources_unsubscribe_def req subscribe_def unsubscribe_def)
qed

subsection \<open>Properties\<close>

text \<open>
  C27. Changes at a server reach the hooks of its clients: over any sequence of registrations, removals, content updates and
  log messages, an attached operating session sends one notification for each change that took effect, was
  subscribed to or reaches the log level, in order and nothing else, other sessions send nothing, and a
  client that receives them runs exactly the hooks it was given, with the URI or log entry of the change.
\<close>

theorem changes_reach_hooks:
  assumes "reporting (w_server w)" and "map_of (w_sessions w) i = Some s" and "hooked cs"
  shows "(\<exists>s'. map_of (w_sessions (fold apply_change changes w)) i = Some s' \<and>
      (if i \<in> set (srv_sessions (w_server w)) \<and> s_state s = Operating
       then s_trace s' = s_trace s @ map (\<lambda>hc. Sent (Notification (notice_of hc))) (heard changes w) else s' = s)) \<and>
    fold (receive dump now) (heard changes w) cs =
      cs\<lparr>ws_calls := ws_calls cs @ map snd (filter (\<lambda>hc. fst hc \<in> mc_hooks (ws_client cs)) (heard changes w))\<rparr>"
proof
  show "fold (receive dump now) (heard changes w) cs =
      cs\<lparr>ws_calls := ws_calls cs @ map snd (filter (\<lambda>hc. fst hc \<in> mc_hooks (ws_client cs)) (heard changes w))\<rparr>"
    by (rule notices_run_hooks [OF heard_origin [where changes = changes and w = w] assms(3)])
qed (rule changes_traced [OF assms(1,2)])

definition hooking_client :: mcp_client where
  "hooking_client = on_hook Tools_Changed (on_hook Log_Message (new_client ''c'' ''1''))"

definition sample_changes :: "change list" where
  "sample_changes = [Content_Updated ''u'', Logged Debug JNull None, Logged Error_Level JNull None, Tool_Removed ''echo'']"

lemma reports_keep_server [simp]:
  "w_server (apply_change (Content_Updated uri) w) = w_server w" "w_server (apply_change (Logged level data name) w) = w_server w"
  by (simp_all add: notify_resource_updated_def server_log_def send_notification_if_operating_def split: option.split)

lemma sample_attached:
  "tool_key ` set (tr_tools (srv_tools (w_server (attach 0 sample_world)))) = {''echo''}"
  "rp_subscriptions (srv_resources (w_server (attach 0 sample_world))) = {}"
  "lg_level (srv_logger (w_server (attach 0 sample_world))) = Info"
  by (simp_all add: attach_def Let_def sample_world_def sample_server_def new_server_def new_resource_provider_def new_logger_def
      set_tools_changed_callback_def set_resources_changed_callback_def set_emitter_def tool_key_def sample_tool_def tool_of_spec_def)

lemma sample_heard:
  "heard sample_changes (attach 0 sample_world) =
     [(Log_Message, Log_Hook (JObj (mk_members [(''level'', JStr ''error''), (''data'', JNull)]))),
      (Tools_Changed, Changed_Hook Tools_Changed)]"
  by (simp add: sample_changes_def sample_attached less_eq_logging_level_def set_optional_def del: apply_change.simps)

lemma changes_reach_hooks_witness:
  "ws_calls (fold (receive (\<lambda>j. Inr []) 0) (heard sample_changes (attach 0 sample_world)) (new_wired_session hooking_client)) =
     [Log_Hook (JObj (mk_members [(''level'', JStr ''error''), (''data'', JNull)])), Changed_Hook Tools_Changed]"
proof -
  let ?w = "attach 0 sample_world"
  have s: "map_of (w_sessions ?w) 0 = Some (install_features sample_session)" by (simp add: attach_def sample_world_def Let_def)
  have "mc_hooks (ws_client (new_wired_session hooking_client)) = {Tools_Changed, Log_Message}"
    "ws_calls (new_wired_session hooking_client) = []"
    by (auto simp: new_wired_session_def wire_session_def Let_def client_session.defs wired_session.defs hooking_client_def
        on_hook_def new_client_def new_client_session_def session.defs)
  then show ?thesis
    using changes_reach_hooks [OF attach_reporting s new_session_hooked [of hooking_client], where changes = sample_changes
        and dump = "\<lambda>j. Inr []" and now = 0]
    by (simp add: sample_heard)
qed

end
