(* ===== verification/Spec2Isabelle.thy ===== *)
theory Spec2Isabelle
  imports Mcp_Timer Mcp_Blocking Mcp_Endpoint Mcp_Win32_Net Mcp_Vx_Threading Mcp_Log Mcp_Process Mcp_Stdio_Errors Mcp_Http_Deployment
    Mcp_Selftest Mcp_Notify
begin

text \<open>
  A verification development of mcp.cpp, a C++ implementation of the Model Context Protocol.  Paths are
  relative to the repository; a definition carries the name of the function or type it translates, with a
  suffix or prefix where HOL or another class has the name already.

  \<^bold>\<open>The program.\<close>  A server offers tools, resources and prompts; a client uses them and offers roots, sampling and
  elicitation in turn.  Both ends hold a session: JSON-RPC messages are parsed and routed, requests
  correlated with responses and timed out, and the initialize handshake and the declared capabilities
  gate what may be asked.  A session talks through a transport: lines over stdin and stdout, or HTTP with an event
  stream for what the server sends on its own.  Transports touch the operating system through a platform layer.

  \<^bold>\<open>Values and messages.\<close>
  \<^item> \<open>Mcp_Prelude\<close>: fallible sequencing, the operations of \<^verbatim>\<open>std::string\<close>, decimal numerals.
  \<^item> \<open>Mcp_Json\<close> (\<^verbatim>\<open>error.hpp\<close>, \<^verbatim>\<open>result.hpp\<close>, \<^verbatim>\<open>detail/json_util.hpp\<close>): JSON values with the member access the sources
    use and its exceptions.  A type \<open>'a throws\<close> is a value or an exception, \<open>'a result throws\<close> also an error value.
  \<^item> \<open>Mcp_Message\<close> (\<^verbatim>\<open>jsonrpc/message.cpp\<close>): encoding and parsing of messages and batches; round trip, and the
    classification of all outcomes of the parser.
  \<^item> \<open>Mcp_Types\<close>, \<open>Mcp_Content\<close>, \<open>Mcp_Notifications\<close>: capabilities, handshake payloads, content blocks and notification payloads with
    their codecs, each the inverse of the other (locale \<open>json_codec\<close>).
  \<^item> \<open>Mcp_Schema\<close> (\<^verbatim>\<open>core/schema.cpp\<close>): the validator and \<open>conforms\<close>, an independent specification it is equivalent to.
  \<^item> \<open>Mcp_Pagination\<close>, \<open>Mcp_Uri\<close>: cursors and pages with 64 bit arithmetic; URI templates against their expansion.

  \<^bold>\<open>Sessions.\<close>
  \<^item> \<open>Mcp_Router\<close> (\<^verbatim>\<open>core/router.cpp\<close>): handler tables with wildcards, pending requests, dispatch; one locale (\<open>handler_registry\<close>) for the
    two handler tables.
  \<^item> \<open>Mcp_Session\<close>, \<open>Mcp_Server_Session\<close>, \<open>Mcp_Client_Session\<close> (\<^verbatim>\<open>core/session.cpp\<close>): the state of a session is a record whose
    trace lists what it sent and which callbacks it ran; one function per operation and per message.  The lemmas give the effect of
    each operation on every branch, the invariant of the tables (locale \<open>session_invariant\<close>), the gates and the handshake of both ends.
  \<^item> \<open>Mcp_Concurrency\<close>: the same operations as programs of critical sections that interleave freely (application, reader and timer
    thread); run alone they compute the sequential definitions, interleaved they complete each request at most once.
  \<^item> \<open>Mcp_Timer\<close>: the timer thread with its waits and notifications, which misses no deadline and ends when the session is destroyed;
    \<open>Mcp_Blocking\<close>: requests whose caller waits for the result.

  \<^bold>\<open>Server and client.\<close>
  \<^item> \<open>Mcp_Registry\<close> with \<open>Mcp_Tools\<close>, \<open>Mcp_Resources\<close>, \<open>Mcp_Prompts\<close> (\<^verbatim>\<open>server/*_registry.cpp\<close>, \<^verbatim>\<open>*_provider.cpp\<close>, \<^verbatim>\<open>logging.cpp\<close>): the contract of
    a named registry (locale \<open>named_registry\<close>) and its interpretations.
  \<^item> \<open>Mcp_Server\<close> (\<^verbatim>\<open>server/server.cpp\<close>), \<open>Mcp_Client\<close> (\<^verbatim>\<open>client/client.cpp\<close>), \<open>Mcp_Sampling\<close> (\<^verbatim>\<open>client/sampling.cpp\<close>, \<^verbatim>\<open>roots_provider.cpp\<close>,
    \<^verbatim>\<open>elicitation.hpp\<close>): the feature handlers, registration and notifications, the typed wrappers and the sampling loop.
  \<^item> \<open>Mcp_Features\<close>: both ends together; what the client decodes is what the server holds.
  \<^item> \<open>Mcp_Notify\<close>: changes at the server, the notifications they cause and the hooks of the client they run.

  \<^bold>\<open>Transports.\<close>
  \<^item> \<open>Mcp_Framing\<close>: the locale \<open>incremental\<close>, a reader whose result does not depend on how a stream is cut into reads; the line
    reader, the event parser and the chunked decoder interpret it.
  \<^item> \<open>Mcp_Http_Codec\<close>, \<open>Mcp_Chunked\<close>, \<open>Mcp_Sse\<close> (\<^verbatim>\<open>transport/http/http_codec.cpp\<close>): heads, chunked bodies, event streams, with round trips.
  \<^item> \<open>Mcp_Line\<close> (\<^verbatim>\<open>transport/line_transport.cpp\<close>, \<^verbatim>\<open>line_io.cpp\<close>, \<^verbatim>\<open>stdio_transport.cpp\<close>, \<^verbatim>\<open>stdio_client_transport.cpp\<close>).
  \<^item> \<open>Mcp_Sse_Channel\<close> (\<^verbatim>\<open>transport/http/sse_channel.cpp\<close>): the replay ring and its streams as a state machine with the list of all
    payloads as a ghost; the capture of the responses to a POST.
  \<^item> \<open>Mcp_Endpoint\<close>, \<open>Mcp_Http_Server\<close> (\<^verbatim>\<open>transport/http/http_endpoint.cpp\<close>, \<^verbatim>\<open>http_server_transport.cpp\<close>, \<^verbatim>\<open>http_session_server.cpp\<close>): the threads of the
    listener and who closes which descriptor; admission of requests, the single session and the session table.
  \<^item> \<open>Mcp_Http_Client\<close> (\<^verbatim>\<open>transport/http_client_transport.cpp\<close>): POSTs and the reconnecting stream, and request and answer end to end.
  \<^item> \<open>Mcp_Deployment\<close>: the server facade behind the session server, from the bytes of a tool call to its result;
    \<open>Mcp_Stdio_Deployment\<close>: \<^verbatim>\<open>Server::run\<close> on standard streams, from the bytes of handshake and call to its
    return; \<open>Mcp_Stdio_Errors\<close>: the same with garbage on the input; \<open>Mcp_Http_Deployment\<close>: a session over HTTP
    from the first post of a client to the DELETE of its disconnect, connection by connection.

  \<^bold>\<open>Platform.\<close>
  \<^item> \<open>Mcp_Platform\<close> (\<^verbatim>\<open>platform/posix\<close>, \<^verbatim>\<open>sys/threading.hpp\<close>), \<open>Mcp_Vx_Io\<close> (\<^verbatim>\<open>platform/vxworks/io.cpp\<close>, \<^verbatim>\<open>net.cpp\<close>), \<open>Mcp_Win32\<close> and
    \<open>Mcp_Win32_Net\<close> (\<^verbatim>\<open>platform/win32\<close>): the loops over system calls with what they guarantee on every backend (locale \<open>descriptor_writer\<close>), the
    wake events with the descriptors they own (locale \<open>wake_pairs\<close>), sockets, and the environment and command line of a child.
  \<^item> \<open>Mcp_Process\<close> (\<^verbatim>\<open>spawn\<close> of \<^verbatim>\<open>platform/posix/process.cpp\<close> and \<^verbatim>\<open>platform/win32/process.cpp\<close>): both sides of a spawn with the descriptors each
    process holds, over the documented laws of descriptor tables (locales \<open>descriptor_table\<close>, \<open>posix_table\<close>, \<open>windows_table\<close>).
  \<^item> \<open>Mcp_Vx_Threading\<close> (\<^verbatim>\<open>platform/vxworks/threading.cpp\<close>, \<^verbatim>\<open>sys/threading_vxworks.hpp\<close>): the condition variable built on semaphores and the
    ownership of tasks by threads.
  \<^item> \<open>Mcp_Log\<close> (\<^verbatim>\<open>core/log.cpp\<close>): the log threshold.

  \<^bold>\<open>Example programs.\<close>
  \<^item> \<open>Mcp_Double\<close>: the double arithmetic they compute with, as rounding of exact results.
  \<^item> \<open>Mcp_Calculator\<close> (\<^verbatim>\<open>examples/calculator_server.cpp\<close>): the recursive-descent evaluator, against a grammar of expressions and their value.
  \<^item> \<open>Mcp_Monitor\<close> (\<^verbatim>\<open>examples/vxworks_monitor/vxworks_monitor_server.cpp\<close>): the tools over a record of the backend's calls, with object
    ids and the locale \<open>cpu_reporter\<close>; \<open>Mcp_Monitor_Sim\<close> and \<open>Mcp_Monitor_Vx\<close> (\<^verbatim>\<open>monitor_backend_sim.cpp\<close>, \<^verbatim>\<open>monitor_backend_vxworks.cpp\<close>) are the two
    backends, the second with the kernel as a record of functions and the switch hook that samples the CPU.
  \<^item> \<open>Mcp_Examples\<close>: the servers these programs set up, from a client's call to its result, their command lines and shell entry points.
  \<^item> \<open>Mcp_Selftest\<close> (\<^verbatim>\<open>tools/pal_selftest.cpp\<close>): the self test, with what its exit code says of a platform.

  \<^bold>\<open>Conventions and parameters.\<close>  What the code reads from outside is an argument: the time; the outcomes of system calls as
  lists in the order of the calls, a loop whose list is used up being still inside its last call; the random draws of a
  session id; printing (\<open>dump\<close>) and parsing (\<open>parse\<close>) of JSON text, which belong to the vendored library.  Where a property needs
  them, printing is taken to succeed, and parsing to return what was printed for the values at hand.  Handlers of the
  application are functions from their arguments to a result or an exception.  A blocking call is split at its wait.
  Threads appear as interleavings of critical sections where they share state; elsewhere a function is one run of its thread.
  \<^verbatim>\<open>std::sort\<close> is a stable sort.  A double inside a JSON value is the rational it denotes; where the code computes with doubles they are rounded exact numbers.

  \<^bold>\<open>Bounds and fuel.\<close>  Following cursors (\<open>collect_pages\<close>, \<open>fetch_all\<close>) has fuel one more than the number of items, which is enough because
  every page but the last is nonempty; the sampling loop is bounded by its own \<^verbatim>\<open>max_turns\<close>.  Everything else terminates by its argument.
  \<^verbatim>\<open>std::size_t\<close>, \<^verbatim>\<open>std::uint64_t\<close> and \<^verbatim>\<open>int\<close> wrap or are checked where the code computes with them (\<open>size_t\<close>, \<open>strtoull\<close>, \<open>atoi\<close>, \<open>int_cast\<close>);
  the properties of the event channel are for fewer than \<open>2 ^ 64 - 1\<close> events, the number of ids there are.

  \<^bold>\<open>Not modelled.\<close>  Socket options, which only call the system; the texts handed to the diagnostic log; the memory of the program and the order of its atomics;
  the vendored JSON library.
\<close>

end
